(* ===== verification/Prelude.thy ===== *)
theory Prelude
  imports Main "HOL-Library.Word" "HOL-Library.Monad_Syntax"
begin

text \<open>
  Shared vocabulary of the development: machine-word types, the C \<open>for\<close> loop as a
  combinator (plain, with \<open>break\<close>, and with a body that may not return), their step
  rules and invariant rules, and small facts on words that several components use.

  A C \<open>for (i = lo; i < hi; i += d)\<close> is \<open>cfor lo hi d body s\<close>. The counter is an
  unbounded integer: the loops of the program never reach the end of the range of their
  counter (every size handled is at most 1023 MB), so no wrap-around is hidden.
\<close>

unbundle bit_operations_syntax

type_synonym word8 = "8 word"
type_synonym word16 = "16 word"
type_synonym word32 = "32 word"

named_theorems bus_simps "rewriting of platform reads and writes"
named_theorems lane_simps "per-byte-lane facts of the memory test"

section \<open>Loops\<close>

function cfor :: "int \<Rightarrow> int \<Rightarrow> int \<Rightarrow> (int \<Rightarrow> 's \<Rightarrow> 's) \<Rightarrow> 's \<Rightarrow> 's" where
  "cfor i n d f s = (if i < n \<and> 0 < d then cfor (i + d) n d f (f i s) else s)"
  by pat_completeness auto
termination
  by (relation "measure (\<lambda>(i, n, d, f, s). nat (n - i))") auto

function cfor_brk :: "int \<Rightarrow> int \<Rightarrow> int \<Rightarrow> (int \<Rightarrow> 's \<Rightarrow> bool \<times> 's) \<Rightarrow> 's \<Rightarrow> 's" where
  "cfor_brk i n d f s =
     (if i < n \<and> 0 < d
      then (if fst (f i s) then snd (f i s) else cfor_brk (i + d) n d f (snd (f i s)))
      else s)"
  by pat_completeness auto
termination
  by (relation "measure (\<lambda>(i, n, d, f, s). nat (n - i))") auto

function cfor_opt :: "int \<Rightarrow> int \<Rightarrow> int \<Rightarrow> (int \<Rightarrow> 's \<Rightarrow> 's option) \<Rightarrow> 's \<Rightarrow> 's option" where
  "cfor_opt i n d f s =
     (if i < n \<and> 0 < d
      then (case f i s of None \<Rightarrow> None | Some s' \<Rightarrow> cfor_opt (i + d) n d f s')
      else Some s)"
  by pat_completeness auto
termination
  by (relation "measure (\<lambda>(i, n, d, f, s). nat (n - i))") auto

declare cfor.simps [simp del] cfor_brk.simps [simp del] cfor_opt.simps [simp del]

lemma cfor_step [simp]: "i < n \<Longrightarrow> 0 < d \<Longrightarrow> cfor i n d f s = cfor (i + d) n d f (f i s)"
  by (simp add: cfor.simps [of i])

lemma cfor_done [simp]: "n \<le> i \<Longrightarrow> cfor i n d f s = s"
  by (simp add: cfor.simps [of i])

lemma cfor_brk_step:
  "i < n \<Longrightarrow> 0 < d \<Longrightarrow> cfor_brk i n d f s =
     (if fst (f i s) then snd (f i s) else cfor_brk (i + d) n d f (snd (f i s)))"
  by (simp add: cfor_brk.simps [of i])

lemma cfor_brk_done [simp]: "n \<le> i \<Longrightarrow> cfor_brk i n d f s = s"
  by (simp add: cfor_brk.simps [of i])

lemma cfor_opt_step:
  "i < n \<Longrightarrow> 0 < d \<Longrightarrow> cfor_opt i n d f s =
     (case f i s of None \<Rightarrow> None | Some s' \<Rightarrow> cfor_opt (i + d) n d f s')"
  by (simp add: cfor_opt.simps [of i])

lemma cfor_opt_done [simp]: "n \<le> i \<Longrightarrow> cfor_opt i n d f s = Some s"
  by (simp add: cfor_opt.simps [of i])

text \<open>
  Invariant rules. The counter runs through \<open>lo, lo + d, \<dots>\<close>; the invariant may mention
  it, and is known together with the bounds.
\<close>

lemma cfor_inv:
  assumes P: "P i s" and d: "0 < d"
    and step: "\<And>j t. i \<le> j \<Longrightarrow> j < n \<Longrightarrow> P j t \<Longrightarrow> P (j + d) (f j t)"
    and fin: "\<And>j t. n \<le> j \<Longrightarrow> P j t \<Longrightarrow> Q t"
  shows "Q (cfor i n d f s)"
proof -
  have "P j t \<Longrightarrow> i \<le> j \<Longrightarrow> Q (cfor j n d f t)" for j t
  proof (induction "nat (n - j)" arbitrary: j t rule: less_induct)
    case less
    show ?case
    proof (cases "j < n")
      case True
      with less.prems d have "P (j + d) (f j t)" by (blast intro: step)
      with True d less.prems have "Q (cfor (j + d) n d f (f j t))"
        by (intro less.hyps) auto
      with True d show ?thesis by simp
    next
      case False
      then show ?thesis using less.prems fin [of j t] by simp
    qed
  qed
  with P show ?thesis by simp
qed

lemma cfor_brk_inv:
  assumes P: "P i s" and d: "0 < d"
    and brk: "\<And>j t. i \<le> j \<Longrightarrow> j < n \<Longrightarrow> P j t \<Longrightarrow> fst (f j t) \<Longrightarrow> Q (snd (f j t))"
    and step: "\<And>j t. i \<le> j \<Longrightarrow> j < n \<Longrightarrow> P j t \<Longrightarrow> \<not> fst (f j t) \<Longrightarrow> P (j + d) (snd (f j t))"
    and fin: "\<And>j t. n \<le> j \<Longrightarrow> P j t \<Longrightarrow> Q t"
  shows "Q (cfor_brk i n d f s)"
proof -
  have "P j t \<Longrightarrow> i \<le> j \<Longrightarrow> Q (cfor_brk j n d f t)" for j t
  proof (induction "nat (n - j)" arbitrary: j t rule: less_induct)
    case less
    consider "n \<le> j" | "j < n" "fst (f j t)" | "j < n" "\<not> fst (f j t)" by linarith
    then show ?case
    proof cases
      case 1
      then show ?thesis using less.prems fin [of j t] by simp
    next
      case 2
      with less.prems d brk show ?thesis by (simp add: cfor_brk_step)
    next
      case 3
      with less.prems have "P (j + d) (snd (f j t))" by (blast intro: step)
      with 3 d less.prems have "Q (cfor_brk (j + d) n d f (snd (f j t)))"
        by (intro less.hyps) auto
      with 3 d show ?thesis by (simp add: cfor_brk_step)
    qed
  qed
  with P show ?thesis by simp
qed

text \<open>Total correctness of a loop whose body may fail to return: it returns, and \<open>Q\<close> holds.\<close>

lemma cfor_opt_inv:
  assumes P: "P i s" and d: "0 < d"
    and step: "\<And>j t. i \<le> j \<Longrightarrow> j < n \<Longrightarrow> P j t \<Longrightarrow> \<exists>t'. f j t = Some t' \<and> P (j + d) t'"
    and fin: "\<And>j t. n \<le> j \<Longrightarrow> P j t \<Longrightarrow> Q t"
  shows "\<exists>t. cfor_opt i n d f s = Some t \<and> Q t"
proof -
  have "P j t \<Longrightarrow> i \<le> j \<Longrightarrow> \<exists>t'. cfor_opt j n d f t = Some t' \<and> Q t'" for j t
  proof (induction "nat (n - j)" arbitrary: j t rule: less_induct)
    case less
    show ?case
    proof (cases "j < n")
      case True
      with less.prems obtain t' where t': "f j t = Some t'" "P (j + d) t'"
        using step by blast
      with True d less.prems have "\<exists>t''. cfor_opt (j + d) n d f t' = Some t'' \<and> Q t''"
        by (intro less.hyps) auto
      with True d t' show ?thesis by (simp add: cfor_opt_step)
    next
      case False
      then show ?thesis using less.prems fin [of j t] by simp
    qed
  qed
  with P show ?thesis by simp
qed

text \<open>Partial correctness of such a loop: if it returns, \<open>Q\<close> holds.\<close>

lemma cfor_opt_partial:
  assumes ret: "cfor_opt i n d f s = Some s'" and P: "P i s" and d: "0 < d"
    and step: "\<And>j t t'. i \<le> j \<Longrightarrow> j < n \<Longrightarrow> P j t \<Longrightarrow> f j t = Some t' \<Longrightarrow> P (j + d) t'"
    and fin: "\<And>j t. n \<le> j \<Longrightarrow> P j t \<Longrightarrow> Q t"
  shows "Q s'"
proof -
  have "cfor_opt j n d f t = Some s' \<Longrightarrow> P j t \<Longrightarrow> i \<le> j \<Longrightarrow> Q s'" for j t
  proof (induction "nat (n - j)" arbitrary: j t rule: less_induct)
    case less
    show ?case
    proof (cases "j < n")
      case True
      then obtain t' where t': "f j t = Some t'" "cfor_opt (j + d) n d f t' = Some s'"
        using less.prems(1) d by (auto simp: cfor_opt_step split: option.splits)
      have "P (j + d) t'" using step [OF less.prems(3) True less.prems(2) t'(1)] .
      with t'(2) True d less.prems(3) show ?thesis by (intro less.hyps [of "j + d" t']) auto
    next
      case False
      then show ?thesis using less.prems fin [of j t] by simp
    qed
  qed
  with ret P show ?thesis by simp
qed

text \<open>
  The same by the number of the iteration: the loop makes \<open>n_iter n d\<close> rounds, or breaks.
\<close>

definition n_iter :: "int \<Rightarrow> int \<Rightarrow> nat" where
  "n_iter n d = nat ((n + d - 1) div d)"

lemma n_iter_iff:
  assumes "0 < d"
  shows "k < n_iter n d \<longleftrightarrow> d * int k < n"
proof -
  have "k < n_iter n d \<longleftrightarrow> int k + 1 \<le> (n + d - 1) div d"
    by (auto simp: n_iter_def)
  also have "\<dots> \<longleftrightarrow> (int k + 1) * d \<le> n + d - 1"
  proof
    assume "int k + 1 \<le> (n + d - 1) div d"
    then have "(int k + 1) * d \<le> (n + d - 1) div d * d" using assms by (intro mult_right_mono) simp_all
    also have "\<dots> \<le> n + d - 1" 
      using div_mult_mod_eq [of "n + d - 1" d] pos_mod_sign [OF assms, of "n + d - 1"] by linarith
    finally show "(int k + 1) * d \<le> n + d - 1" .
  next
    assume "(int k + 1) * d \<le> n + d - 1"
    then have "(int k + 1) * d div d \<le> (n + d - 1) div d" using assms by (rule zdiv_mono1)
    then show "int k + 1 \<le> (n + d - 1) div d" using assms by simp
  qed
  also have "\<dots> \<longleftrightarrow> d * int k < n"
    by (auto simp: algebra_simps)
  finally show ?thesis .
qed

lemma cfor_count:
  assumes d: "0 < d" and I: "I 0 s"
    and step: "\<And>k t. k < n_iter n d \<Longrightarrow> I k t \<Longrightarrow> I (Suc k) (f (d * int k) t)"
  shows "I (n_iter n d) (cfor 0 n d f s)"
proof (rule cfor_inv [where P = "\<lambda>i t. \<exists>k\<le>n_iter n d. i = d * int k \<and> I k t"])
  fix i t assume "i < n" "\<exists>k\<le>n_iter n d. i = d * int k \<and> I k t"
  then obtain k where k: "k < n_iter n d" "i = d * int k" "I k t"
    using n_iter_iff [OF d] by auto
  then show "\<exists>k\<le>n_iter n d. i + d = d * int k \<and> I k (f i t)"
    using step by (intro exI [of _ "Suc k"]) (auto simp: algebra_simps)
next
  fix i t assume "n \<le> i" "\<exists>k\<le>n_iter n d. i = d * int k \<and> I k t"
  then show "I (n_iter n d) t"
    using n_iter_iff [OF d] by (metis leD le_neq_implies_less)
qed (use d I in auto)

lemma cfor_brk_count:
  assumes d: "0 < d" and I: "I 0 s"
    and step: "\<And>k t. k < n_iter n d \<Longrightarrow> I k t \<Longrightarrow> I (Suc k) (snd (f (d * int k) t))"
    and brk: "\<And>k t. k < n_iter n d \<Longrightarrow> I k t \<Longrightarrow> fst (f (d * int k) t) \<Longrightarrow> B (snd (f (d * int k) t))"
  shows "\<exists>m\<le>n_iter n d. I m (cfor_brk 0 n d f s) \<and> (m < n_iter n d \<longrightarrow> B (cfor_brk 0 n d f s))"
proof (rule cfor_brk_inv [where P = "\<lambda>i t. \<exists>k\<le>n_iter n d. i = d * int k \<and> I k t"
      and Q = "\<lambda>r. \<exists>m\<le>n_iter n d. I m r \<and> (m < n_iter n d \<longrightarrow> B r)"])
  fix i t assume i: "i < n" "\<exists>k\<le>n_iter n d. i = d * int k \<and> I k t"
  then obtain k where k: "k < n_iter n d" "i = d * int k" "I k t"
    using n_iter_iff [OF d] by auto
  show "\<exists>m\<le>n_iter n d. I m (snd (f i t)) \<and> (m < n_iter n d \<longrightarrow> B (snd (f i t)))" if "fst (f i t)"
    using step [OF k(1,3)] brk [OF k(1,3)] k that by (intro exI [of _ "Suc k"]) auto
  show "\<exists>k\<le>n_iter n d. i + d = d * int k \<and> I k (snd (f i t))" if "\<not> fst (f i t)"
    using step [OF k(1,3)] k by (intro exI [of _ "Suc k"]) (auto simp: algebra_simps)
next
  fix i t assume "n \<le> i" "\<exists>k\<le>n_iter n d. i = d * int k \<and> I k t"
  then show "\<exists>m\<le>n_iter n d. I m t \<and> (m < n_iter n d \<longrightarrow> B t)"
    using n_iter_iff [OF d] by (metis leD le_neq_implies_less le_refl)
qed (use d I in auto)
section \<open>Words\<close>

lemma and_push_bit_eq_0 [simp]:
  "((w::'a::len word) AND push_bit n 1 = 0) = (\<not> bit w n)"
proof
  assume "w AND push_bit n 1 = 0"
  then have "\<not> bit (w AND push_bit n 1) n" by simp
  then show "\<not> bit w n"
    by (cases "n < LENGTH('a)") (auto simp: bit_simps dest: bit_imp_le_length)
next
  assume "\<not> bit w n"
  then show "w AND push_bit n 1 = 0"
    by (intro bit_word_eqI) (auto simp: bit_simps)
qed

lemma odd_unat: "odd (unat w) = odd (w::'a::len word)"
  by (simp flip: bit_0 add: bit_unsigned_iff)

lemma bit_single: "bit (push_bit k (1::word32)) n = (n = k \<and> k < 32)"
  by (auto simp: bit_simps)

lemma unat_of_nat_less: "x < 2 ^ LENGTH('a) \<Longrightarrow> unat (of_nat x :: 'a::len word) = x"
  by (simp add: unat_of_nat)

end
