(* ===== verification/Platform.thy ===== *)
theory Platform
  imports Prelude
begin

text \<open>
  The Zynq platform as the C code sees it. Everything the program does to the outside world
  is a 32-bit read or write of an address (\<open>Xil_In32\<close>, \<open>Xil_Out32\<close> of the Xilinx BSP,
  the inline-assembly macros \<open>REG_READ\<close>, \<open>REG_WRITE\<close> of memtest.c) or a write of a CP15
  cache register. How the hardware answers is not part of the repository: it is the record
  \<open>platform\<close>, a parameter of every definition, over an arbitrary hardware state \<open>'h\<close>. A read
  may change that state (FIFOs, status bits). The GPIO base address and
  the addresses of the L2 cache controller's maintenance registers come from the BSP headers
  xparameters.h, xparameters_ps.h and xl2cc.h and are fields too.

  \<open>traced P\<close> is the same hardware with a log of the writes, in order: a statement about
  the log of \<open>traced P\<close> is a statement about the bus activity on any hardware \<open>P\<close>.
\<close>

datatype cp15 =
    CP15_CACHE_SIZE_SEL
  | CP15_CACHE_SIZE_ID
  | CP15_INVAL_DC_LINE_SW
  | CP15_CLEAN_INVAL_DC_LINE_SW
  | CP15_SYS_CONTROL

record 'h platform =
  rd32 :: "word32 \<Rightarrow> 'h \<Rightarrow> word32 \<times> 'h"
  wr32 :: "word32 \<Rightarrow> word32 \<Rightarrow> 'h \<Rightarrow> 'h"
  cp15_wr :: "cp15 \<Rightarrow> word32 \<Rightarrow> 'h \<Rightarrow> 'h"
  cp15_rd :: "cp15 \<Rightarrow> 'h \<Rightarrow> word32"
  gpio_base :: word32
  l2cc_invld_way :: word32
  l2cc_inv_cln_way :: word32
  l2cc_sync :: word32

type_synonym wlog = "(word32 \<times> word32) list"

definition traced :: "'h platform \<Rightarrow> ('h \<times> wlog) platform" where
  "traced P = \<lparr>
     rd32 = (\<lambda>a (h, t). (fst (rd32 P a h), (snd (rd32 P a h), t))),
     wr32 = (\<lambda>a v (h, t). (wr32 P a v h, t @ [(a, v)])),
     cp15_wr = (\<lambda>r v (h, t). (cp15_wr P r v h, t)),
     cp15_rd = (\<lambda>r (h, t). cp15_rd P r h),
     gpio_base = gpio_base P,
     l2cc_invld_way = l2cc_invld_way P,
     l2cc_inv_cln_way = l2cc_inv_cln_way P,
     l2cc_sync = l2cc_sync P\<rparr>"

lemma traced_sel [bus_simps, simp]:
  "rd32 (traced P) a (h, t) = (fst (rd32 P a h), (snd (rd32 P a h), t))"
  "wr32 (traced P) a v (h, t) = (wr32 P a v h, t @ [(a, v)])"
  "cp15_wr (traced P) r v (h, t) = (cp15_wr P r v h, t)"
  "cp15_rd (traced P) r (h, t) = cp15_rd P r h"
  "gpio_base (traced P) = gpio_base P"
  "l2cc_invld_way (traced P) = l2cc_invld_way P"
  "l2cc_inv_cln_way (traced P) = l2cc_inv_cln_way P"
  "l2cc_sync (traced P) = l2cc_sync P"
  by (simp_all add: traced_def)

text \<open>
  The simplest hardware: every address is a storage cell. It serves as the instance at which
  theorems about the memory are evaluated.
\<close>

definition ram_platform :: "(word32 \<Rightarrow> word32) platform" where
  "ram_platform = \<lparr>
     rd32 = (\<lambda>a h. (h a, h)),
     wr32 = (\<lambda>a v h. h(a := v)),
     cp15_wr = (\<lambda>r v h. h),
     cp15_rd = (\<lambda>r h. 0),
     gpio_base = 0xE000A000,
     l2cc_invld_way = 0xF8F0277C,
     l2cc_inv_cln_way = 0xF8F027FC,
     l2cc_sync = 0xF8F02730\<rparr>"

lemma ram_platform_sel [bus_simps, simp]:
  "rd32 ram_platform a h = (h a, h)"
  "wr32 ram_platform a v h = h(a := v)"
  "cp15_wr ram_platform r v h = h"
  "cp15_rd ram_platform r h = 0"
  "gpio_base ram_platform = 0xE000A000"
  "l2cc_invld_way ram_platform = 0xF8F0277C"
  "l2cc_inv_cln_way ram_platform = 0xF8F027FC"
  "l2cc_sync ram_platform = 0xF8F02730"
  by (simp_all add: ram_platform_def)

end
