(* ===== verification/Emio.thy ===== *)
theory Emio
  imports Platform
begin

text \<open>
  platform_standalone/fpgav3_lib_src/fpgav3_emio.c: the driver of the EMIO interface between
  the processor and the FPGA's read and write buses. The hardware state \<open>'h\<close> is passed
  explicitly; a function that waits for the firmware returns an \<open>option\<close>, \<open>None\<close> when
  the wait never ends. The text printed by \<open>xil_printf\<close> is not modelled.

  The group of definitions follows the file: registers and bit masks, initialisation and
  version, the wait for \<open>op_done\<close>, the two direction checks, quadlet access, block access,
  PROM data.
\<close>

section \<open>Registers and bits\<close>

definition Reg_OutputLower :: word32 where "Reg_OutputLower = 0x48"
definition Reg_OutputUpper :: word32 where "Reg_OutputUpper = 0x4c"
definition Reg_InputLower :: word32 where "Reg_InputLower = 0x68"
definition Reg_InputUpper :: word32 where "Reg_InputUpper = 0x6c"
definition Reg_DirLower :: word32 where "Reg_DirLower = 0x284"
definition Reg_OutEnLower :: word32 where "Reg_OutEnLower = 0x288"
definition Reg_DirUpper :: word32 where "Reg_DirUpper = 0x2c4"
definition Reg_OutEnUpper :: word32 where "Reg_OutEnUpper = 0x2c8"

lemmas reg_defs = Reg_OutputLower_def Reg_OutputUpper_def Reg_InputLower_def Reg_InputUpper_def
  Reg_DirLower_def Reg_OutEnLower_def Reg_DirUpper_def Reg_OutEnUpper_def

definition Bits_RegAddr :: word32 where "Bits_RegAddr = 0x0000ffff"
definition Bits_RequestBus :: word32 where "Bits_RequestBus = 0x00010000"
definition Bits_OpDone :: word32 where "Bits_OpDone = 0x00020000"
definition Bits_RegWen :: word32 where "Bits_RegWen = 0x00040000"
definition Bits_BlkStart :: word32 where "Bits_BlkStart = 0x00080000"
definition Bits_BlkEnd :: word32 where "Bits_BlkEnd = 0x00100000"
definition Bits_Write :: word32 where "Bits_Write = 0x00200000"
definition Bits_GrantBus :: word32 where "Bits_GrantBus = 0x00400000"
definition Bits_LSB :: word32 where "Bits_LSB = 0x00800000"
definition Bits_Version :: word32 where "Bits_Version = 0xf0000000"

lemmas bits_defs = Bits_RegAddr_def Bits_RequestBus_def Bits_OpDone_def Bits_RegWen_def
  Bits_BlkStart_def Bits_BlkEnd_def Bits_Write_def Bits_GrantBus_def Bits_LSB_def Bits_Version_def

definition In32 :: "'h platform \<Rightarrow> word32 \<Rightarrow> 'h \<Rightarrow> word32 \<times> 'h" where
  "In32 P r h = rd32 P (gpio_base P + r) h"

definition Out32 :: "'h platform \<Rightarrow> word32 \<Rightarrow> word32 \<Rightarrow> 'h \<Rightarrow> 'h" where
  "Out32 P r v h = wr32 P (gpio_base P + r) v h"

section \<open>Initialisation and version\<close>

definition EMIO_outputs :: word32 where
  "EMIO_outputs = Bits_RegAddr OR Bits_RequestBus OR Bits_RegWen OR Bits_BlkStart OR Bits_BlkEnd
     OR Bits_LSB"

definition EMIO_Init :: "'h platform \<Rightarrow> 'h \<Rightarrow> 'h" where
  "EMIO_Init P h =
     Out32 P Reg_OutEnUpper EMIO_outputs
      (Out32 P Reg_OutputUpper 0
        (Out32 P Reg_DirUpper EMIO_outputs
          (Out32 P Reg_DirLower 0 h)))"

definition EMIO_GetVersion :: "'h platform \<Rightarrow> 'h \<Rightarrow> word32 \<times> 'h" where
  "EMIO_GetVersion P h =
     (let (upper, h1) = In32 P Reg_InputUpper h
      in (drop_bit 28 (upper AND Bits_Version), h1))"

section \<open>Waiting for the firmware\<close>

text \<open>
  \<open>WaitOpDone\<close>: at most \<open>num\<close> polls in the \<open>for\<close> loop, then, if the counter has reached
  \<open>num\<close>, the endless \<open>while\<close>. The first component of the loop state is \<open>upper\<close>.
\<close>

fun WaitOpDone_for :: "'h platform \<Rightarrow> nat \<Rightarrow> nat \<Rightarrow> word32 \<Rightarrow> 'h \<Rightarrow> nat \<times> word32 \<times> 'h" where
  "WaitOpDone_for P 0 i upper h = (i, upper, h)"
| "WaitOpDone_for P (Suc left) i upper h =
     (if upper AND Bits_OpDone \<noteq> 0 then (i, upper, h)
      else (let (u, h1) = In32 P Reg_InputUpper h in WaitOpDone_for P left (Suc i) u h1))"

partial_function (option) WaitOpDone_while :: "'h platform \<Rightarrow> word32 \<Rightarrow> 'h \<Rightarrow> 'h option" where
  "WaitOpDone_while P upper h =
     (if upper AND Bits_OpDone \<noteq> 0 then Some h
      else WaitOpDone_while P (fst (In32 P Reg_InputUpper h)) (snd (In32 P Reg_InputUpper h)))"

definition WaitOpDone :: "'h platform \<Rightarrow> nat \<Rightarrow> 'h \<Rightarrow> (bool \<times> 'h) option" where
  "WaitOpDone P num h =
     (case WaitOpDone_for P num 0 0 h of
        (i, upper, h1) \<Rightarrow>
          if i = num
          then map_option (\<lambda>h2. (True, h2)) (WaitOpDone_while P upper h1)
          else Some (True, h1))"

section \<open>Direction checks\<close>

definition upper_mask :: word32 where
  "upper_mask = Bits_RequestBus OR Bits_Write"

definition setDataInput :: "'h platform \<Rightarrow> 'h \<Rightarrow> bool \<times> 'h" where
  "setDataInput P h =
     (let h1 = Out32 P Reg_DirLower 0 h;
          (upper, h2) = In32 P Reg_InputUpper h1
      in (upper AND upper_mask = 0, h2))"

definition setDataOutput :: "'h platform \<Rightarrow> 'h \<Rightarrow> bool \<times> 'h" where
  "setDataOutput P h =
     (let h1 = Out32 P Reg_DirLower 0xffffffff h;
          h2 = Out32 P Reg_OutEnLower 0xffffffff h1;
          (upper, h3) = In32 P Reg_InputUpper h2
      in (upper AND upper_mask = Bits_Write, h3))"

section \<open>Quadlet access\<close>

text \<open>
  The result of a read is \<open>Some data\<close> when the function returned true and stored
  \<open>*data\<close>, \<open>None\<close> when it returned false and left \<open>*data\<close> alone.
\<close>

definition EMIO_ReadQuadlet :: "'h platform \<Rightarrow> word16 \<Rightarrow> 'h \<Rightarrow> (word32 option \<times> 'h) option" where
  "EMIO_ReadQuadlet P addr h =
     (let (ok, h1) = setDataInput P h
      in if \<not> ok then Some (None, h1)
         else do {
           let outreg = ucast addr;
           let h2 = Out32 P Reg_OutputUpper (outreg OR Bits_RequestBus) h1;
           (_, h3) \<leftarrow> WaitOpDone P 5 h2;
           let (data, h4) = In32 P Reg_InputLower h3;
           let h5 = Out32 P Reg_OutputUpper 0 h4;
           Some (Some data, h5)
         })"

definition EMIO_WriteQuadlet ::
    "'h platform \<Rightarrow> word16 \<Rightarrow> word32 \<Rightarrow> 'h \<Rightarrow> (bool \<times> 'h) option" where
  "EMIO_WriteQuadlet P addr data h =
     (let (ok, h1) = setDataOutput P h
      in if \<not> ok then Some (False, h1)
         else do {
           let h2 = Out32 P Reg_OutputLower data h1;
           let outreg = ucast addr;
           let h3 = Out32 P Reg_OutputUpper (outreg OR Bits_RegWen OR Bits_RequestBus) h2;
           (_, h4) \<leftarrow> WaitOpDone P 5 h3;
           let h5 = Out32 P Reg_OutputUpper 0 h4;
           Some (True, h5)
         })"

section \<open>Block access\<close>

definition blk_nQuads :: "word32 \<Rightarrow> word32" where
  "blk_nQuads nBytes = (nBytes + 3) div 4"

text \<open>The two updates of \<open>outreg\<close> at quadlet \<open>q\<close>: the block-end switch and the address LSB.\<close>

definition blk_outreg :: "int \<Rightarrow> int \<Rightarrow> word16 \<Rightarrow> word32 \<Rightarrow> word32" where
  "blk_outreg nQuads q addr outreg =
     (let r1 = (if q = nQuads - 1 then (outreg AND NOT Bits_BlkStart) OR Bits_BlkEnd else outreg)
      in if addr AND 1 \<noteq> 0 then r1 OR Bits_LSB else r1 AND NOT Bits_LSB)"

definition ReadBlock_body ::
    "'h platform \<Rightarrow> int \<Rightarrow> int \<Rightarrow> word16 \<times> word32 \<times> word32 list \<times> 'h
      \<Rightarrow> (word16 \<times> word32 \<times> word32 list \<times> 'h) option" where
  "ReadBlock_body P nQuads q = (\<lambda>(addr, outreg, data, h). do {
     let outreg = blk_outreg nQuads q addr outreg;
     let h = Out32 P Reg_OutputUpper outreg h;
     let addr = addr + 1;
     (_, h) \<leftarrow> WaitOpDone P 5 h;
     let (val, h) = In32 P Reg_InputLower h;
     Some (addr, outreg, data @ [val], h)
   })"

definition EMIO_ReadBlock ::
    "'h platform \<Rightarrow> word16 \<Rightarrow> word32 \<Rightarrow> 'h \<Rightarrow> (word32 list option \<times> 'h) option" where
  "EMIO_ReadBlock P addr nBytes h =
     (let (ver, h0) = EMIO_GetVersion P h
      in if ver \<noteq> 1 then Some (None, h0)
         else let (ok, h1) = setDataInput P h0
      in if \<not> ok then Some (None, h1)
         else do {
           let nQuads = uint (blk_nQuads nBytes);
           let outreg = ucast addr OR Bits_BlkStart OR Bits_RequestBus;
           (_, _, data, h2) \<leftarrow> cfor_opt 0 nQuads 1 (ReadBlock_body P nQuads) (addr, outreg, [], h1);
           Some (Some data, Out32 P Reg_OutputUpper 0 h2)
         })"

definition WriteBlock_body ::
    "'h platform \<Rightarrow> (nat \<Rightarrow> word32) \<Rightarrow> int \<Rightarrow> int \<Rightarrow> word16 \<times> word32 \<times> 'h
      \<Rightarrow> (word16 \<times> word32 \<times> 'h) option" where
  "WriteBlock_body P data nQuads q = (\<lambda>(addr, outreg, h). do {
     let h = Out32 P Reg_OutputLower (data (nat q)) h;
     let outreg = blk_outreg nQuads q addr outreg;
     let h = Out32 P Reg_OutputUpper outreg h;
     let addr = addr + 1;
     (_, h) \<leftarrow> WaitOpDone P 5 h;
     Some (addr, outreg, h)
   })"

definition EMIO_WriteBlock ::
    "'h platform \<Rightarrow> word16 \<Rightarrow> (nat \<Rightarrow> word32) \<Rightarrow> word32 \<Rightarrow> 'h \<Rightarrow> (bool \<times> 'h) option" where
  "EMIO_WriteBlock P addr data nBytes h =
     (let (ver, h0) = EMIO_GetVersion P h
      in if ver \<noteq> 1 then Some (False, h0)
         else let nQuads = uint (blk_nQuads nBytes);
                  (ok, h1) = setDataOutput P h0
      in if \<not> ok then Some (False, h1)
         else do {
           let outreg = ucast addr OR Bits_BlkStart OR Bits_RequestBus;
           (_, _, h2) \<leftarrow> cfor_opt 0 nQuads 1 (WriteBlock_body P data nQuads) (addr, outreg, h1);
           Some (True, Out32 P Reg_OutputUpper 0 h2)
         })"

section \<open>PROM data\<close>

text \<open>
  \<open>data\<close> is the byte buffer, read as little-endian words by the cast to \<open>u32 *\<close>;
  \<open>Xil_EndianSwap32\<close> of the BSP is the parameter \<open>swap\<close>. The loop takes the quadlet write it
  calls as its parameter \<open>W\<close>.
\<close>

definition le32 :: "(nat \<Rightarrow> word8) \<Rightarrow> nat \<Rightarrow> word32" where
  "le32 data k = ucast (data k) OR push_bit 8 (ucast (data (k + 1)))
     OR push_bit 16 (ucast (data (k + 2))) OR push_bit 24 (ucast (data (k + 3)))"

fun WritePromData_loop ::
    "(word16 \<Rightarrow> word32 \<Rightarrow> 's \<Rightarrow> (bool \<times> 's) option) \<Rightarrow> (word32 \<Rightarrow> word32) \<Rightarrow> (nat \<Rightarrow> word8)
      \<Rightarrow> nat \<Rightarrow> nat \<Rightarrow> 's \<Rightarrow> (bool \<times> 's) option"
where
  "WritePromData_loop W swap data 0 i s = Some (True, s)"
| "WritePromData_loop W swap data (Suc left) i s =
     (case W (0x2000 + of_nat i) (swap (le32 data (i * 4))) s of
        None \<Rightarrow> None
      | Some (ok, s1) \<Rightarrow>
          if \<not> ok then Some (False, s1) else WritePromData_loop W swap data left (Suc i) s1)"

definition EMIO_WritePromData ::
    "'h platform \<Rightarrow> (word32 \<Rightarrow> word32) \<Rightarrow> (nat \<Rightarrow> word8) \<Rightarrow> word32 \<Rightarrow> 'h \<Rightarrow> (bool \<times> 'h) option"
where
  "EMIO_WritePromData P swap data nBytes h =
     (let nQuads = (ucast ((nBytes + 3) div 4) :: word16)
      in WritePromData_loop (EMIO_WriteQuadlet P) swap data (unat nQuads) 0 h)"

end
