(* ===== verification/EmioMmap.thy ===== *)
theory EmioMmap
  imports Emio Complex_Main
begin

text \<open>
  The Linux driver of the EMIO interface through /dev/mem: the base class \<open>EMIO_Interface\<close>
  (petalinux/libfpgav3/files/fpgav3_emio.h and fpgav3_emio.cpp) and the derived class
  \<open>EMIO_Interface_Mmap\<close> (fpgav3_emio_mmap.cpp). The register offsets and bits are the same
  enumerations as in the standalone driver; the constants of theory \<open>Emio\<close> are used for them.

  An object is the record \<open>emio\<close>, the members of the base class (\<open>iface\<close>) extended by those of the
  derived class. The kernel is the record \<open>linux\<close>, a parameter: physical memory (\<open>bus\<close>), the
  monotonic clock, \<open>open\<close> of /dev/mem and whether \<open>mmap\<close> of a range succeeds. A method returns
  \<open>None\<close> if it dereferences the null region or does not return. Messages are not modelled; the
  clock is read wherever the code reads it. Values of type \<open>double\<close> are exact rationals.
\<close>

section \<open>The kernel and the object\<close>

record timespec =
  tv_sec :: int
  tv_nsec :: int

text \<open>The members of the base class. \<open>dev\<close> is the state of the hardware and the kernel.\<close>

record 'h iface =
  isInput :: bool
  isVerbose :: bool
  useEvents :: bool
  doTiming :: nat
  version :: word32
  startTime :: timespec
  endTime :: timespec
  timingOverhead :: rat
  timeout_us :: rat
  dev :: 'h

record 'h emio = "'h iface" +
  fd :: int
  mmap_region :: "word32 option"

record 'h linux =
  bus :: "'h platform"
  clock_gettime :: "'h \<Rightarrow> timespec \<times> 'h"
  open_mem :: "'h \<Rightarrow> int \<times> 'h"
  mmap_phys :: "word32 \<Rightarrow> word16 \<Rightarrow> 'h \<Rightarrow> bool \<times> 'h"

section \<open>The base class\<close>

definition iface_init :: "'h \<Rightarrow> 'h iface" where
  "iface_init h = \<lparr>isInput = True, isVerbose = False, useEvents = False, doTiming = 0, version = 0,
     startTime = \<lparr>tv_sec = 0, tv_nsec = 0\<rparr>, endTime = \<lparr>tv_sec = 0, tv_nsec = 0\<rparr>,
     timingOverhead = 0, timeout_us = 250, dev = h\<rparr>"

text \<open>\<open>clk\<close> is the system call \<open>clock_gettime\<close>.\<close>

definition GetCurTime :: "('h \<Rightarrow> timespec \<times> 'h) \<Rightarrow> ('h, 'b) iface_scheme \<Rightarrow> timespec \<times> ('h, 'b) iface_scheme" where
  "GetCurTime clk e = (let (t, h) = clk (dev e) in (t, e\<lparr>dev := h\<rparr>))"

definition TimeDiff_us :: "timespec \<Rightarrow> timespec \<Rightarrow> rat" where
  "TimeDiff_us t0 t1 = of_int (tv_sec t1 - tv_sec t0) * 1000000 + of_int (tv_nsec t1 - tv_nsec t0) / 1000"

definition set_startTime :: "('h \<Rightarrow> timespec \<times> 'h) \<Rightarrow> ('h, 'b) iface_scheme \<Rightarrow> ('h, 'b) iface_scheme" where
  "set_startTime clk e = (let (t, e) = GetCurTime clk e in e\<lparr>startTime := t\<rparr>)"

definition set_endTime :: "('h \<Rightarrow> timespec \<times> 'h) \<Rightarrow> ('h, 'b) iface_scheme \<Rightarrow> ('h, 'b) iface_scheme" where
  "set_endTime clk e = (let (t, e) = GetCurTime clk e in e\<lparr>endTime := t\<rparr>)"

definition calibrate :: "('h \<Rightarrow> timespec \<times> 'h) \<Rightarrow> ('h, 'b) iface_scheme \<Rightarrow> ('h, 'b) iface_scheme" where
  "calibrate clk e =
     (let e = set_endTime clk (set_startTime clk e)
      in e\<lparr>timingOverhead := timingOverhead e + TimeDiff_us (startTime e) (endTime e)\<rparr>)"

definition SetTimingMode :: "('h \<Rightarrow> timespec \<times> 'h) \<Rightarrow> nat \<Rightarrow> ('h, 'b) iface_scheme \<Rightarrow> ('h, 'b) iface_scheme" where
  "SetTimingMode clk newMode e =
     (let e = e\<lparr>timingOverhead := 0, doTiming := newMode\<rparr>
      in if 0 < newMode
         then (let e = (calibrate clk ^^ 10) e in e\<lparr>timingOverhead := timingOverhead e / 10\<rparr>)
         else e)"

definition SetVerbose :: "bool \<Rightarrow> ('h, 'b) iface_scheme \<Rightarrow> ('h, 'b) iface_scheme" where
  "SetVerbose newState e = e\<lparr>isVerbose := newState\<rparr>"

definition SetTimeout_us :: "rat \<Rightarrow> ('h, 'b) iface_scheme \<Rightarrow> ('h, 'b) iface_scheme" where
  "SetTimeout_us new_timeout_us e = e\<lparr>timeout_us := new_timeout_us\<rparr>"

text \<open>\<open>bswap_32\<close> of the C library exchanges the bytes of a word.\<close>

definition bswap_32 :: "word32 \<Rightarrow> word32" where
  "bswap_32 w = push_bit 24 (w AND 0xff) OR push_bit 8 (w AND 0xff00)
     OR drop_bit 8 (w AND 0xff0000) OR drop_bit 24 w"

text \<open>\<open>WritePromData\<close> calls the virtual method \<open>WriteQuadlet\<close>, its parameter \<open>W\<close>.\<close>

definition WritePromData ::
    "(word16 \<Rightarrow> word32 \<Rightarrow> 's \<Rightarrow> (bool \<times> 's) option) \<Rightarrow> (nat \<Rightarrow> word8) \<Rightarrow> word32 \<Rightarrow> 's \<Rightarrow> (bool \<times> 's) option"
where
  "WritePromData W data nBytes s =
     (let nQuads = (ucast ((nBytes + 3) div 4) :: word16)
      in WritePromData_loop W bswap_32 data (unat nQuads) 0 s)"

section \<open>Registers\<close>

definition SLCR_BASE_ADDR :: word32 where "SLCR_BASE_ADDR = 0xF8000000"
definition APER_CLK_CTRL :: word32 where "APER_CLK_CTRL = 0x0000012C"
definition GPIO_CLK_BIT :: word32 where "GPIO_CLK_BIT = push_bit 22 1"
definition GPIO_BASE_ADDR :: word32 where "GPIO_BASE_ADDR = 0xE000A000"
definition GPIO_SIZE :: word32 where "GPIO_SIZE = 0x000002E8"

definition RegisterRead :: "'h linux \<Rightarrow> word32 \<Rightarrow> 'h emio \<Rightarrow> (word32 \<times> 'h emio) option" where
  "RegisterRead L reg e =
     (case mmap_region e of None \<Rightarrow> None
      | Some base \<Rightarrow> (let (v, h) = rd32 (bus L) (base + 4 * (reg div 4)) (dev e) in Some (v, e\<lparr>dev := h\<rparr>)))"

definition RegisterWrite :: "'h linux \<Rightarrow> word32 \<Rightarrow> word32 \<Rightarrow> 'h emio \<Rightarrow> 'h emio option" where
  "RegisterWrite L reg data e =
     (case mmap_region e of None \<Rightarrow> None
      | Some base \<Rightarrow> Some (e\<lparr>dev := wr32 (bus L) (base + 4 * (reg div 4)) data (dev e)\<rparr>))"

section \<open>Initialisation\<close>

definition mmap_init :: "'h linux \<Rightarrow> word32 \<Rightarrow> word16 \<Rightarrow> 'h emio \<Rightarrow> word32 option \<times> 'h emio" where
  "mmap_init L base len e =
     (let (ok, h) = mmap_phys L base len (dev e) in (if ok then Some base else None, e\<lparr>dev := h\<rparr>))"

definition gpio_clock :: "'h linux \<Rightarrow> 'h emio \<Rightarrow> 'h emio option" where
  "gpio_clock L e = do {
     (aper_clk_reg, e) \<leftarrow> RegisterRead L APER_CLK_CTRL e;
     if aper_clk_reg AND GPIO_CLK_BIT = 0
     then RegisterWrite L APER_CLK_CTRL (aper_clk_reg OR GPIO_CLK_BIT) e
     else Some e
   }"

definition init_gpio :: "'h linux \<Rightarrow> 'h emio \<Rightarrow> (bool \<times> 'h emio) option" where
  "init_gpio L e = do {
     e \<leftarrow> RegisterWrite L Reg_DirUpper 0 e;
     (upper, e) \<leftarrow> RegisterRead L Reg_InputUpper e;
     let e = e\<lparr>version := drop_bit 28 (upper AND Bits_Version)\<rparr>;
     if version e > 1 then Some (False, e)
     else do {
       e \<leftarrow> RegisterWrite L Reg_DirLower 0 e;
       let e = e\<lparr>isInput := True\<rparr>;
       e \<leftarrow> RegisterWrite L Reg_DirUpper EMIO_outputs e;
       e \<leftarrow> RegisterWrite L Reg_OutputUpper 0 e;
       e \<leftarrow> RegisterWrite L Reg_OutEnUpper EMIO_outputs e;
       Some (True, e)
     }
   }"

definition Init :: "'h linux \<Rightarrow> 'h emio \<Rightarrow> (bool \<times> 'h emio) option" where
  "Init L e =
     (let (f, h) = open_mem L (dev e);
          e = e\<lparr>fd := f, dev := h\<rparr>
      in if f < 0 then Some (False, e)
         else let (r, e) = mmap_init L SLCR_BASE_ADDR (ucast (APER_CLK_CTRL + 4)) e;
                  e = e\<lparr>mmap_region := r\<rparr>
      in if r = None then Some (False, e)
         else do {
           e \<leftarrow> gpio_clock L e;
           let (r, e) = mmap_init L GPIO_BASE_ADDR (ucast GPIO_SIZE) e;
           let e = e\<lparr>mmap_region := r\<rparr>;
           if r = None then Some (False, e) else init_gpio L e
         })"

text \<open>
  The constructor, after the base class has set its members; \<open>fd\<close> and \<open>mmap_region\<close> are first
  assigned by \<open>Init\<close>. \<open>mmap_region\<close> is unset here: before it is assigned nothing reads it.
\<close>

definition emio_base :: "'h \<Rightarrow> 'h emio" where
  "emio_base h = iface.extend (iface_init h) (emio.fields (-1) None)"

lemmas emio_base_defs = emio_base_def iface_init_def iface.defs emio.defs

definition EMIO_Interface_Mmap :: "'h linux \<Rightarrow> 'h \<Rightarrow> 'h emio option" where
  "EMIO_Interface_Mmap L h = do {
     (ok, e) \<leftarrow> Init L (emio_base h);
     Some (if ok then e else e\<lparr>fd := -1, mmap_region := None\<rparr>)
   }"

definition IsOK :: "'h emio \<Rightarrow> bool" where
  "IsOK e \<longleftrightarrow> mmap_region e \<noteq> None"

definition SetEventMode :: "bool \<Rightarrow> 'h emio \<Rightarrow> 'h emio" where
  "SetEventMode newState e = e\<lparr>useEvents := False\<rparr>"

section \<open>The wait\<close>

text \<open>\<open>(upper & Bits_OpDone) ^ (!state)\<close>, converted to \<open>bool\<close>.\<close>

definition opdone :: "bool \<Rightarrow> word32 \<Rightarrow> bool" where
  "opdone state upper \<longleftrightarrow> (upper AND Bits_OpDone) XOR (if state then 0 else 1) \<noteq> 0"

text \<open>The polling loop; the result says whether \<open>opdone\<close> was seen before the time ran out.\<close>

partial_function (option) poll_loop ::
    "'h linux \<Rightarrow> bool \<Rightarrow> timespec \<Rightarrow> rat \<Rightarrow> 'h emio \<Rightarrow> (bool \<times> 'h emio) option" where
  "poll_loop L state waitStart dt e =
     (if dt < timeout_us e
      then (case RegisterRead L Reg_InputUpper e of
              None \<Rightarrow> None
            | Some (upper, e) \<Rightarrow>
                if opdone state upper then Some (True, e)
                else poll_loop L state waitStart (TimeDiff_us waitStart (fst (GetCurTime (clock_gettime L) e))) (snd (GetCurTime (clock_gettime L) e)))
      else Some (False, e))"

definition WaitOpDone_mmap :: "'h linux \<Rightarrow> bool \<Rightarrow> 'h emio \<Rightarrow> (bool \<times> 'h emio) option" where
  "WaitOpDone_mmap L state e = do {
     (upper, e) \<leftarrow> RegisterRead L Reg_InputUpper e;
     if opdone state upper then Some (True, e)
     else do {
       let (waitStart, e) = GetCurTime (clock_gettime L) e;
       (_, e) \<leftarrow> poll_loop L state waitStart 0 e;
       Some (True, e)
     }
   }"

section \<open>Quadlet access\<close>

text \<open>A reading of the clock whose value is only printed.\<close>

definition stamp :: "'h linux \<Rightarrow> 'h emio \<Rightarrow> 'h emio" where
  "stamp L e = (if 1 < doTiming e then snd (GetCurTime (clock_gettime L) e) else e)"

definition time_start :: "'h linux \<Rightarrow> 'h emio \<Rightarrow> 'h emio" where
  "time_start L e = (if 0 < doTiming e then set_startTime (clock_gettime L) e else e)"

definition time_end :: "'h linux \<Rightarrow> 'h emio \<Rightarrow> 'h emio" where
  "time_end L e = (if 0 < doTiming e then set_endTime (clock_gettime L) e else e)"

definition lines_to_input :: "'h linux \<Rightarrow> 'h emio \<Rightarrow> 'h emio option" where
  "lines_to_input L e =
     (if \<not> isInput e
      then do { e \<leftarrow> RegisterWrite L Reg_DirLower 0 e; Some (e\<lparr>isInput := True\<rparr>) }
      else Some e)"

definition lines_to_output :: "'h linux \<Rightarrow> 'h emio \<Rightarrow> 'h emio option" where
  "lines_to_output L e =
     (if isInput e
      then do {
        e \<leftarrow> RegisterWrite L Reg_DirLower 0xffffffff e;
        e \<leftarrow> RegisterWrite L Reg_OutEnLower 0xffffffff e;
        Some (e\<lparr>isInput := False\<rparr>)
      }
      else Some e)"

definition ReadQuadlet :: "'h linux \<Rightarrow> word16 \<Rightarrow> 'h emio \<Rightarrow> (word32 option \<times> 'h emio) option" where
  "ReadQuadlet L addr e = do {
     e \<leftarrow> lines_to_input L (time_start L e);
     let outreg = ucast addr;
     e \<leftarrow> RegisterWrite L Reg_OutputUpper (outreg OR Bits_RequestBus) e;
     (ok, e) \<leftarrow> WaitOpDone_mmap L True (stamp L e);
     if \<not> ok
     then do {
       e \<leftarrow> RegisterWrite L Reg_OutputUpper (outreg AND NOT Bits_RequestBus) e;
       Some (None, e)
     }
     else do {
       (data, e) \<leftarrow> RegisterRead L Reg_InputLower (stamp L e);
       e \<leftarrow> RegisterWrite L Reg_OutputUpper 0 e;
       (_, e) \<leftarrow> WaitOpDone_mmap L False e;
       Some (Some data, time_end L e)
     }
   }"

definition WriteQuadlet :: "'h linux \<Rightarrow> word16 \<Rightarrow> word32 \<Rightarrow> 'h emio \<Rightarrow> (bool \<times> 'h emio) option" where
  "WriteQuadlet L addr data e = do {
     e \<leftarrow> lines_to_output L (time_start L e);
     e \<leftarrow> RegisterWrite L Reg_OutputLower data e;
     let outreg = ucast addr;
     e \<leftarrow> RegisterWrite L Reg_OutputUpper (outreg OR Bits_RegWen OR Bits_RequestBus) e;
     (ret, e) \<leftarrow> WaitOpDone_mmap L True (stamp L e);
     e \<leftarrow> RegisterWrite L Reg_OutputUpper 0 (if ret then stamp L e else e);
     (_, e) \<leftarrow> WaitOpDone_mmap L False e;
     Some (True, if ret then time_end L e else e)
   }"

section \<open>Block access\<close>

text \<open>
  The loops over the quadlets, \<open>left\<close> of them remaining. The first component of a result is
  false after the early return. \<open>blk_outreg\<close> of theory \<open>Emio\<close> is the same update of \<open>outreg\<close>.
\<close>

fun mmap_read_quads ::
    "'h linux \<Rightarrow> int \<Rightarrow> nat \<Rightarrow> nat \<Rightarrow> word16 \<Rightarrow> word32 \<Rightarrow> word32 list \<Rightarrow> 'h emio
      \<Rightarrow> (bool \<times> word32 list \<times> 'h emio) option"
where
  "mmap_read_quads L nQuads 0 q addr outreg data e = Some (True, data, e)"
| "mmap_read_quads L nQuads (Suc left) q addr outreg data e = do {
     let outreg = blk_outreg nQuads (int q) addr outreg;
     e \<leftarrow> RegisterWrite L Reg_OutputUpper outreg e;
     let addr = addr + 1;
     (ok, e) \<leftarrow> WaitOpDone_mmap L True e;
     if \<not> ok then do { e \<leftarrow> RegisterWrite L Reg_OutputUpper 0 e; Some (False, data, e) }
     else do {
       (val, e) \<leftarrow> RegisterRead L Reg_InputLower e;
       mmap_read_quads L nQuads left (Suc q) addr outreg (data @ [bswap_32 val]) e
     }
   }"

definition ReadBlock :: "'h linux \<Rightarrow> word16 \<Rightarrow> word32 \<Rightarrow> 'h emio \<Rightarrow> (word32 list option \<times> 'h emio) option" where
  "ReadBlock L addr nBytes e =
     (if version e < 1 then Some (None, e)
      else do {
        e \<leftarrow> lines_to_input L (time_start L e);
        let nQuads = (nBytes + 3) div 4;
        let outreg = ucast addr OR Bits_BlkStart OR Bits_RequestBus;
        (ok, data, e) \<leftarrow> mmap_read_quads L (uint nQuads) (unat nQuads) 0 addr outreg [] (stamp L e);
        if \<not> ok then Some (None, e)
        else do {
          e \<leftarrow> RegisterWrite L Reg_OutputUpper 0 (stamp L e);
          (_, e) \<leftarrow> WaitOpDone_mmap L False e;
          Some (Some data, time_end L e)
        }
      })"

fun mmap_write_quads ::
    "'h linux \<Rightarrow> (nat \<Rightarrow> word32) \<Rightarrow> int \<Rightarrow> nat \<Rightarrow> nat \<Rightarrow> word16 \<Rightarrow> word32 \<Rightarrow> 'h emio
      \<Rightarrow> (bool \<times> 'h emio) option"
where
  "mmap_write_quads L data nQuads 0 q addr outreg e = Some (True, e)"
| "mmap_write_quads L data nQuads (Suc left) q addr outreg e = do {
     e \<leftarrow> RegisterWrite L Reg_OutputLower (bswap_32 (data q)) e;
     let outreg = blk_outreg nQuads (int q) addr outreg;
     e \<leftarrow> RegisterWrite L Reg_OutputUpper outreg e;
     let addr = addr + 1;
     (ok, e) \<leftarrow> WaitOpDone_mmap L True e;
     if \<not> ok then do { e \<leftarrow> RegisterWrite L Reg_OutputUpper 0 e; Some (False, e) }
     else mmap_write_quads L data nQuads left (Suc q) addr outreg e
   }"

definition WriteBlock ::
    "'h linux \<Rightarrow> word16 \<Rightarrow> (nat \<Rightarrow> word32) \<Rightarrow> word32 \<Rightarrow> 'h emio \<Rightarrow> (bool \<times> 'h emio) option" where
  "WriteBlock L addr data nBytes e =
     (let nQuads = (nBytes + 3) div 4
      in if version e < 1 then Some (False, e)
         else do {
           e \<leftarrow> lines_to_output L (time_start L e);
           let outreg = ucast addr OR Bits_BlkStart OR Bits_RequestBus;
           (ok, e) \<leftarrow> mmap_write_quads L data (uint nQuads) (unat nQuads) 0 addr outreg (stamp L e);
           if \<not> ok then Some (False, e)
           else do {
             (_, e) \<leftarrow> WaitOpDone_mmap L False (stamp L e);
             e \<leftarrow> RegisterWrite L Reg_OutputUpper 0 e;
             Some (True, time_end L e)
           }
         })"

end
