(* ===== verification/EmioGpiod.thy ===== *)
theory EmioGpiod
  imports EmioMmap
begin

text \<open>
  The Linux driver of the EMIO interface through libgpiod: the class \<open>EMIO_Interface_Gpiod\<close>
  (petalinux/libfpgav3/files/fpgav3_emio_gpiod.cpp) over the base class of theory \<open>EmioMmap\<close>.

  The library is the record \<open>gpiolib\<close>, a parameter: each call with its result and its effect on
  the state of the hardware and the kernel. A group of lines is the list of its offsets, which is
  how the code obtains it. The object is the record \<open>gemio\<close>; \<open>info\<close> says whether the pointer to
  the library's handles is set. A method returns \<open>None\<close> if it dereferences a null \<open>info\<close> or does
  not return. Messages are not modelled.
\<close>

section \<open>The library and the object\<close>

record 'h gpiolib =
  chip_open :: "'h \<Rightarrow> bool \<times> 'h"
  chip_close :: "'h \<Rightarrow> 'h"
  chip_get_lines :: "nat list \<Rightarrow> 'h \<Rightarrow> int \<times> 'h"
  chip_get_line :: "nat \<Rightarrow> 'h \<Rightarrow> bool \<times> 'h"
  request_bulk_input :: "nat list \<Rightarrow> 'h \<Rightarrow> int \<times> 'h"
  request_bulk_output :: "nat list \<Rightarrow> int list \<Rightarrow> 'h \<Rightarrow> int \<times> 'h"
  request_output :: "nat \<Rightarrow> int \<Rightarrow> 'h \<Rightarrow> int \<times> 'h"
  request_input :: "nat \<Rightarrow> 'h \<Rightarrow> int \<times> 'h"
  request_rising :: "nat \<Rightarrow> 'h \<Rightarrow> int \<times> 'h"
  release_bulk :: "nat list \<Rightarrow> 'h \<Rightarrow> 'h"
  release_line :: "nat \<Rightarrow> 'h \<Rightarrow> 'h"
  set_direction_input_bulk :: "nat list \<Rightarrow> 'h \<Rightarrow> int \<times> 'h"
  set_direction_output_bulk :: "nat list \<Rightarrow> int list \<Rightarrow> 'h \<Rightarrow> int \<times> 'h"
  get_value_bulk :: "nat list \<Rightarrow> 'h \<Rightarrow> (int \<times> int list) \<times> 'h"
  set_value_bulk :: "nat list \<Rightarrow> int list \<Rightarrow> 'h \<Rightarrow> int \<times> 'h"
  get_value :: "nat \<Rightarrow> 'h \<Rightarrow> int \<times> 'h"
  set_value :: "nat \<Rightarrow> int \<Rightarrow> 'h \<Rightarrow> int \<times> 'h"
  event_wait :: "nat \<Rightarrow> timespec \<Rightarrow> 'h \<Rightarrow> int \<times> 'h"
  event_read :: "nat \<Rightarrow> 'h \<Rightarrow> int \<times> 'h"
  gclock :: "'h \<Rightarrow> timespec \<times> 'h"

record 'h gemio = "'h iface" +
  info :: bool

definition call :: "('h \<Rightarrow> 'r \<times> 'h) \<Rightarrow> 'h gemio \<Rightarrow> 'r \<times> 'h gemio" where
  "call f e = (let (r, h) = f (dev e) in (r, e\<lparr>dev := h\<rparr>))"

definition do_call :: "('h \<Rightarrow> 'r \<times> 'h) \<Rightarrow> 'h gemio \<Rightarrow> 'h gemio" where
  "do_call f e = snd (call f e)"

section \<open>Lines and values\<close>

definition INDEX_EMIO_START :: nat where "INDEX_EMIO_START = 54"

definition version_lines :: "nat list" where "version_lines = map (\<lambda>i. INDEX_EMIO_START + 63 - i) [0..<4]"
definition data_lines :: "nat list" where "data_lines = map (\<lambda>i. INDEX_EMIO_START + 31 - i) [0..<32]"
definition addr_lines :: "nat list" where "addr_lines = map (\<lambda>i. INDEX_EMIO_START + 47 - i) [0..<16]"
definition req_bus_line :: nat where "req_bus_line = INDEX_EMIO_START + 48"
definition op_done_line :: nat where "op_done_line = INDEX_EMIO_START + 49"
definition bus_grant_line :: nat where "bus_grant_line = INDEX_EMIO_START + 54"
definition addr_lsb_line :: nat where "addr_lsb_line = INDEX_EMIO_START + 55"

text \<open>The control lines reg\_wen, blk\_start, blk\_end, in the order of the enumeration.\<close>

definition ctrl_lines :: "nat list" where
  "ctrl_lines = [INDEX_EMIO_START + 50, INDEX_EMIO_START + 51, INDEX_EMIO_START + 52]"

definition ctrl_zero :: "int list" where "ctrl_zero = [0, 0, 0]"
definition ctrl_qwrite :: "int list" where "ctrl_qwrite = [1, 0, 1]"
definition ctrl_start :: "int list" where "ctrl_start = [0, 1, 0]"
definition ctrl_end :: "int list" where "ctrl_end = [0, 0, 1]"

definition addr_values :: "word16 \<Rightarrow> int list" where
  "addr_values addr = map (\<lambda>i. if addr AND drop_bit i 0x8000 \<noteq> 0 then 1 else 0) [0..<16]"

definition data_values :: "word32 \<Rightarrow> int list" where
  "data_values data = map (\<lambda>i. if data AND drop_bit i 0x80000000 \<noteq> 0 then 1 else 0) [0..<32]"

definition from_values :: "nat \<Rightarrow> int list \<Rightarrow> word32" where
  "from_values n vals = fold (\<lambda>i d. push_bit 1 d OR of_int (vals ! i)) [0..<n] 0"

section \<open>Initialisation\<close>

definition SetEventMode_gpiod :: "'h gpiolib \<Rightarrow> bool \<Rightarrow> 'h gemio \<Rightarrow> 'h gemio" where
  "SetEventMode_gpiod G newState e =
     (let e = e\<lparr>useEvents := newState\<rparr>
      in if info e
         then let e = e\<lparr>dev := release_line G op_done_line (dev e)\<rparr>
              in if newState then do_call (request_rising G op_done_line) e
                 else do_call (request_input G op_done_line) e
         else e)"

text \<open>A step of \<open>Init\<close> that closes the chip and fails if the call's result is not 0, or the
  returned pointer is null; and steps in sequence.\<close>

definition attempt :: "'h gpiolib \<Rightarrow> ('h \<Rightarrow> int \<times> 'h) \<Rightarrow> 'h gemio \<Rightarrow> bool \<times> 'h gemio" where
  "attempt G f e = (let (r, e) = call f e
     in if r \<noteq> 0 then (False, e\<lparr>dev := chip_close G (dev e)\<rparr>) else (True, e))"

definition get_line :: "'h gpiolib \<Rightarrow> nat \<Rightarrow> 'h gemio \<Rightarrow> bool \<times> 'h gemio" where
  "get_line G l e = (let (p, e) = call (chip_get_line G l) e
     in if \<not> p then (False, e\<lparr>dev := chip_close G (dev e)\<rparr>) else (True, e))"

definition and_then ::
    "('h gemio \<Rightarrow> bool \<times> 'h gemio) \<Rightarrow> ('h gemio \<Rightarrow> bool \<times> 'h gemio) \<Rightarrow> 'h gemio \<Rightarrow> bool \<times> 'h gemio" where
  "and_then a b e = (let (ok, e) = a e in if ok then b e else (False, e))"

definition read_version :: "'h gpiolib \<Rightarrow> 'h gemio \<Rightarrow> bool \<times> 'h gemio" where
  "read_version G e =
     (let ((_, vals), e) = call (get_value_bulk G version_lines) e;
          e = e\<lparr>version := from_values 4 vals, dev := release_bulk G version_lines (dev e)\<rparr>
      in if version e > 1 then (False, e\<lparr>dev := chip_close G (dev e)\<rparr>) else (True, e))"

definition Init_gpiod :: "'h gpiolib \<Rightarrow> 'h gemio \<Rightarrow> bool \<times> 'h gemio" where
  "Init_gpiod G e =
     (let (chip, e) = call (chip_open G) (e\<lparr>info := True\<rparr>)
      in if \<not> chip then (False, e)
         else foldr and_then
           [attempt G (chip_get_lines G version_lines),
            attempt G (request_bulk_input G version_lines),
            read_version G,
            attempt G (chip_get_lines G data_lines),
            attempt G (request_bulk_input G data_lines),
            \<lambda>e. (True, e\<lparr>isInput := True\<rparr>),
            attempt G (chip_get_lines G addr_lines),
            attempt G (request_bulk_output G addr_lines (replicate 16 0)),
            \<lambda>e. (True, do_call (chip_get_line G addr_lsb_line) e),
            attempt G (request_output G addr_lsb_line 0),
            get_line G op_done_line,
            \<lambda>e. (True, do_call (request_rising G bus_grant_line) (do_call (chip_get_line G bus_grant_line) e)),
            get_line G req_bus_line,
            attempt G (request_output G req_bus_line 0),
            attempt G (chip_get_lines G ctrl_lines),
            attempt G (request_bulk_output G ctrl_lines ctrl_zero),
            \<lambda>e. (True, SetEventMode_gpiod G (useEvents e) e)]
           (\<lambda>e. (True, e)) e)"

definition gemio_base :: "'h \<Rightarrow> 'h gemio" where
  "gemio_base h = iface.extend (iface_init h) (gemio.fields False)"

definition EMIO_Interface_Gpiod :: "'h gpiolib \<Rightarrow> 'h \<Rightarrow> 'h gemio" where
  "EMIO_Interface_Gpiod G h =
     (let (ok, e) = Init_gpiod G (gemio_base h) in if ok then e else e\<lparr>info := False\<rparr>)"

definition destroy :: "'h gpiolib \<Rightarrow> 'h gemio \<Rightarrow> 'h" where
  "destroy G e =
     (if info e
      then chip_close G (release_bulk G ctrl_lines (release_bulk G addr_lines (release_bulk G data_lines (dev e))))
      else dev e)"

section \<open>The wait\<close>

text \<open>Conversion of a \<open>double\<close> to an integer truncates towards zero.\<close>

definition truncated :: "rat \<Rightarrow> int" where
  "truncated x = (if 0 \<le> x then \<lfloor>x\<rfloor> else \<lceil>x\<rceil>)"

definition timeout_spec :: "rat \<Rightarrow> timespec" where
  "timeout_spec us =
     (let sec = truncated (us / 1000000)
      in \<lparr>tv_sec = sec, tv_nsec = truncated ((us - 1000000 * of_int sec) * 1000)\<rparr>)"

partial_function (option) poll_value ::
    "'h gpiolib \<Rightarrow> timespec \<Rightarrow> int \<Rightarrow> rat \<Rightarrow> 'h gemio \<Rightarrow> (int \<times> 'h gemio) option" where
  "poll_value G waitStart val dt e =
     (if val \<le> 0 \<and> dt < timeout_us e
      then (let (v, e) = call (get_value G op_done_line) e;
                (t, e) = GetCurTime (gclock G) e
            in poll_value G waitStart v (TimeDiff_us waitStart t) e)
      else Some (val, e))"

definition WaitOpDone_gpiod :: "'h gpiolib \<Rightarrow> 'h gemio \<Rightarrow> (bool \<times> 'h gemio) option" where
  "WaitOpDone_gpiod G e =
     (if useEvents e
      then let (rc, e) = call (event_wait G op_done_line (timeout_spec (timeout_us e))) e
           in if rc = 1
              then let (r, e) = call (event_read G op_done_line) e in Some (r = 0, e)
              else Some (False, e)
      else do {
        let (val, e) = call (get_value G op_done_line) e;
        (val, e) \<leftarrow> (if val \<le> 0
                     then let (waitStart, e) = GetCurTime (gclock G) e in poll_value G waitStart val 0 e
                     else Some (val, e));
        Some (val = 1, e)
      })"

section \<open>Quadlet access\<close>

definition gstamp :: "'h gpiolib \<Rightarrow> 'h gemio \<Rightarrow> 'h gemio" where
  "gstamp G e = (if 1 < doTiming e then snd (GetCurTime (gclock G) e) else e)"

definition gtime_start :: "'h gpiolib \<Rightarrow> 'h gemio \<Rightarrow> 'h gemio" where
  "gtime_start G e = (if 0 < doTiming e then set_startTime (gclock G) e else e)"

definition gtime_end :: "'h gpiolib \<Rightarrow> 'h gemio \<Rightarrow> 'h gemio" where
  "gtime_end G e = (if 0 < doTiming e then set_endTime (gclock G) e else e)"

definition data_to_input :: "'h gpiolib \<Rightarrow> 'h gemio \<Rightarrow> bool \<times> 'h gemio" where
  "data_to_input G e =
     (if \<not> isInput e
      then let (r, e) = call (set_direction_input_bulk G data_lines) e
           in if r \<noteq> 0 then (False, e) else (True, e\<lparr>isInput := True\<rparr>)
      else (True, e))"

definition put_data :: "'h gpiolib \<Rightarrow> word32 \<Rightarrow> 'h gemio \<Rightarrow> bool \<times> 'h gemio" where
  "put_data G data e =
     (if isInput e
      then let (r, e) = call (set_direction_output_bulk G data_lines (data_values data)) e
           in if r \<noteq> 0 then (False, e) else (True, e\<lparr>isInput := False\<rparr>)
      else (True, do_call (set_value_bulk G data_lines (data_values data)) e))"

definition release_bus :: "'h gpiolib \<Rightarrow> 'h gemio \<Rightarrow> 'h gemio" where
  "release_bus G e = do_call (set_value_bulk G ctrl_lines ctrl_zero) (do_call (set_value G req_bus_line 0) e)"

definition ReadQuadlet_gpiod :: "'h gpiolib \<Rightarrow> word16 \<Rightarrow> 'h gemio \<Rightarrow> (word32 option \<times> 'h gemio) option" where
  "ReadQuadlet_gpiod G addr e =
     (if \<not> info e then None
      else let (ok, e) = data_to_input G (gtime_start G e)
      in if \<not> ok then Some (None, e)
         else do {
           let e = do_call (set_value_bulk G addr_lines (addr_values addr)) e;
           let e = do_call (set_value_bulk G ctrl_lines ctrl_zero) e;
           let e = do_call (set_value G req_bus_line 1) e;
           (ok, e) \<leftarrow> WaitOpDone_gpiod G (gstamp G e);
           if \<not> ok then Some (None, do_call (set_value G req_bus_line 0) e)
           else do {
             let ((ret, vals), e) = call (get_value_bulk G data_lines) (gstamp G e);
             let e = do_call (set_value G req_bus_line 0) e;
             if ret \<noteq> 0 then Some (None, e)
             else Some (Some (from_values 32 vals), gtime_end G e)
           }
         })"

definition WriteQuadlet_gpiod :: "'h gpiolib \<Rightarrow> word16 \<Rightarrow> word32 \<Rightarrow> 'h gemio \<Rightarrow> (bool \<times> 'h gemio) option" where
  "WriteQuadlet_gpiod G addr data e =
     (if \<not> info e then None
      else let (ok, e) = put_data G data (gtime_start G e)
      in if \<not> ok then Some (False, e)
         else do {
           let e = do_call (set_value_bulk G addr_lines (addr_values addr)) e;
           let e = do_call (set_value_bulk G ctrl_lines ctrl_qwrite) e;
           let e = do_call (set_value G req_bus_line 1) e;
           (ret, e) \<leftarrow> WaitOpDone_gpiod G (gstamp G e);
           let e = release_bus G (if ret then gstamp G e else e);
           Some (ret, if ret then gtime_end G e else e)
         })"

section \<open>Block access\<close>

text \<open>
  The loops, \<open>left\<close> quadlets remaining; \<open>lsb\<close> is \<open>reg_addr_values[15]\<close>, complemented bitwise
  before it is written again. The first component of a result is false after an early return.
\<close>

definition step_lsb :: "'h gpiolib \<Rightarrow> int \<Rightarrow> 'h gemio \<Rightarrow> bool \<times> 'h gemio" where
  "step_lsb G lsb e =
     (let (r, e) = call (set_value G addr_lsb_line lsb) e
      in if r \<noteq> 0 then (False, release_bus G e) else (True, e))"

definition read_next :: "'h gpiolib \<Rightarrow> nat \<Rightarrow> nat \<Rightarrow> int \<Rightarrow> 'h gemio \<Rightarrow> bool \<times> 'h gemio" where
  "read_next G nQuads q lsb e =
     (let (ok, e) =
            (if q = nQuads - 1
             then let (r, e) = call (set_value_bulk G ctrl_lines ctrl_end) e
                  in if r \<noteq> 0 then (False, release_bus G e) else (True, e)
             else (True, e))
      in if \<not> ok then (False, e) else step_lsb G lsb e)"

fun gpiod_read_quads ::
    "'h gpiolib \<Rightarrow> nat \<Rightarrow> nat \<Rightarrow> nat \<Rightarrow> int \<Rightarrow> word32 list \<Rightarrow> 'h gemio \<Rightarrow> (bool \<times> word32 list \<times> 'h gemio) option"
where
  "gpiod_read_quads G nQuads 0 q lsb data e = Some (True, data, e)"
| "gpiod_read_quads G nQuads (Suc left) q lsb data e = do {
     let lsb = (if 0 < q then NOT lsb else lsb);
     let (ok, e) = (if 0 < q then read_next G nQuads q lsb e else (True, e));
     if \<not> ok then Some (False, data, e)
     else do {
       (ok, e) \<leftarrow> WaitOpDone_gpiod G e;
       if \<not> ok then Some (False, data, release_bus G e)
       else let ((ret, vals), e) = call (get_value_bulk G data_lines) e
            in if ret \<noteq> 0 then Some (False, data, release_bus G e)
               else gpiod_read_quads G nQuads left (Suc q) lsb (data @ [bswap_32 (from_values 32 vals)]) e
     }
   }"

definition block_read_start :: "'h gpiolib \<Rightarrow> word16 \<Rightarrow> 'h gemio \<Rightarrow> bool \<times> 'h gemio" where
  "block_read_start G addr e =
     (let (r, e) = call (set_value_bulk G ctrl_lines ctrl_start) e
      in if r \<noteq> 0 then (False, e)
         else let (r, e) = call (set_value_bulk G addr_lines (addr_values addr)) e
      in if r \<noteq> 0 then (False, do_call (set_value_bulk G ctrl_lines ctrl_zero) e)
         else let e = do_call (set_value G addr_lsb_line (addr_values addr ! 15)) e;
                  (r, e) = call (set_value G req_bus_line 1) e
      in if r \<noteq> 0 then (False, do_call (set_value_bulk G ctrl_lines ctrl_zero) e) else (True, e))"

definition ReadBlock_gpiod ::
    "'h gpiolib \<Rightarrow> word16 \<Rightarrow> word32 \<Rightarrow> 'h gemio \<Rightarrow> (word32 list option \<times> 'h gemio) option" where
  "ReadBlock_gpiod G addr nBytes e =
     (let nQuads = unat ((nBytes + 3) div 4)
      in if version e < 1 then Some (None, e)
         else if \<not> info e then None
         else let (ok, e) = data_to_input G (gtime_start G e)
      in if \<not> ok then Some (None, e)
         else let (ok, e) = block_read_start G addr e
      in if \<not> ok then Some (None, e)
         else do {
           (ok, data, e) \<leftarrow> gpiod_read_quads G nQuads nQuads 0 (addr_values addr ! 15) [] (gstamp G e);
           if \<not> ok then Some (None, e)
           else Some (Some data, gtime_end G (release_bus G (gstamp G e)))
         })"

fun gpiod_write_quads ::
    "'h gpiolib \<Rightarrow> (nat \<Rightarrow> word32) \<Rightarrow> nat \<Rightarrow> nat \<Rightarrow> nat \<Rightarrow> int \<Rightarrow> 'h gemio \<Rightarrow> (bool \<times> 'h gemio) option"
where
  "gpiod_write_quads G data nQuads 0 q lsb e = Some (True, e)"
| "gpiod_write_quads G data nQuads (Suc left) q lsb e = do {
     let lsb = NOT lsb;
     let e = do_call (set_value_bulk G data_lines (data_values (bswap_32 (data q)))) e;
     let e = (if q = nQuads - 1 then do_call (set_value_bulk G ctrl_lines ctrl_end) e else e);
     let (ok, e) = step_lsb G lsb e;
     if \<not> ok then Some (False, e)
     else do {
       (ok, e) \<leftarrow> WaitOpDone_gpiod G e;
       if \<not> ok then Some (False, release_bus G e)
       else gpiod_write_quads G data nQuads left (Suc q) lsb e
     }
   }"

definition WriteBlock_gpiod ::
    "'h gpiolib \<Rightarrow> word16 \<Rightarrow> (nat \<Rightarrow> word32) \<Rightarrow> word32 \<Rightarrow> 'h gemio \<Rightarrow> (bool \<times> 'h gemio) option" where
  "WriteBlock_gpiod G addr data nBytes e =
     (let nQuads = unat ((nBytes + 3) div 4)
      in if version e < 1 then Some (False, e)
         else if \<not> info e then None
         else let e = gtime_start G e;
                  (ok, e) = (if isInput e
                    then let (r, e) = call (set_direction_output_bulk G data_lines (data_values (bswap_32 (data 0)))) e
                         in if r \<noteq> 0 then (False, e) else (True, e\<lparr>isInput := False\<rparr>)
                    else (True, e))
      in if \<not> ok then Some (False, e)
         else do {
           let e = do_call (set_value_bulk G addr_lines (addr_values addr)) e;
           let e = do_call (set_value G addr_lsb_line (addr_values addr ! 15)) e;
           let e = do_call (set_value_bulk G ctrl_lines ctrl_start) e;
           let e = do_call (set_value G req_bus_line 1) e;
           (ok, e) \<leftarrow> WaitOpDone_gpiod G e;
           if \<not> ok then Some (False, release_bus G e)
           else do {
             (ok, e) \<leftarrow> gpiod_write_quads G data nQuads (nQuads - 1) 1 (addr_values addr ! 15) (gstamp G e);
             if \<not> ok then Some (False, e)
             else Some (True, gtime_end G (release_bus G (gstamp G e)))
           }
         })"

end
