(* ===== verification/EmioSpec.thy ===== *)
theory EmioSpec
  imports Emio
begin

text \<open>
  What the EMIO driver of theory \<open>Emio\<close> promises. Three layers:
  \<^item> the wait: \<open>WaitOpDone\<close> returns exactly when some poll sees \<open>op_done\<close>;
  \<^item> the bus activity: the words a block transfer puts on the output register;
  \<^item> the register file: on firmware that honours the interface (\<open>emio_device\<close>) quadlet
    reads and writes are reads and writes of the FPGA's registers. The locale
    \<open>register_file\<close> is the interface the applications use.
\<close>

section \<open>The wait\<close>

fun polls :: "'h platform \<Rightarrow> nat \<Rightarrow> 'h \<Rightarrow> 'h" where
  "polls P 0 h = h"
| "polls P (Suc k) h = snd (In32 P Reg_InputUpper (polls P k h))"

definition done_at :: "'h platform \<Rightarrow> nat \<Rightarrow> 'h \<Rightarrow> bool" where
  "done_at P k h \<longleftrightarrow> fst (In32 P Reg_InputUpper (polls P k h)) AND Bits_OpDone \<noteq> 0"

lemma polls_shift: "polls P (Suc k) h = polls P k (snd (In32 P Reg_InputUpper h))"
  by (induction k) simp_all

lemma done_at_Suc: "done_at P (Suc k) h = done_at P k (snd (In32 P Reg_InputUpper h))"
  by (simp only: done_at_def polls_shift)

lemma WaitOpDone_while_done:
  "upper AND Bits_OpDone \<noteq> 0 \<Longrightarrow> WaitOpDone_while P upper h = Some h"
  by (simp add: WaitOpDone_while.simps)

lemma WaitOpDone_while_returns:
  "\<lbrakk>upper AND Bits_OpDone = 0; done_at P k h; \<And>j. j < k \<Longrightarrow> \<not> done_at P j h\<rbrakk>
    \<Longrightarrow> WaitOpDone_while P upper h = Some (polls P (Suc k) h)"
proof (induction k arbitrary: upper h)
  case 0
  then show ?case
    by (simp add: WaitOpDone_while.simps [of P upper] WaitOpDone_while_done done_at_def)
next
  case (Suc k)
  let ?h = "snd (In32 P Reg_InputUpper h)" and ?u = "fst (In32 P Reg_InputUpper h)"
  have "WaitOpDone_while P ?u ?h = Some (polls P (Suc k) ?h)"
  proof (rule Suc.IH)
    show "?u AND Bits_OpDone = 0" using Suc.prems(3) [of 0] by (simp add: done_at_def)
    show "done_at P k ?h" using Suc.prems(2) by (simp add: done_at_Suc)
    show "\<not> done_at P j ?h" if "j < k" for j
      using Suc.prems(3) [of "Suc j"] that by (simp add: done_at_Suc)
  qed
  then show ?case
    by (simp only: WaitOpDone_while.simps [of P upper] Suc.prems(1) polls_shift [of P "Suc k"]) simp
qed

lemma WaitOpDone_while_only:
  assumes ret: "WaitOpDone_while P upper h = Some r"
  shows "upper AND Bits_OpDone \<noteq> 0 \<or> (\<exists>k. done_at P k h)"
proof -
  let ?sees = "\<lambda>P upper h. upper AND Bits_OpDone \<noteq> 0 \<or> (\<exists>k. done_at P k h)"
  have "(\<lambda>((P, upper), h) r. ?sees P upper h) ((P, upper), h) r"
  proof (rule WaitOpDone_while.raw_induct
      [where Pa = "\<lambda>((P, upper), h) r. ?sees P upper h", OF _ ret])
    fix f and P :: "'a platform" and upper h r
    assume IH: "\<And>upper h b y. f upper h b = Some y
        \<Longrightarrow> (\<lambda>((P, upper), h) r. ?sees P upper h) ((upper, h), b) y"
      and eq: "(if upper AND Bits_OpDone \<noteq> 0 then Some h
         else f P (fst (In32 P Reg_InputUpper h)) (snd (In32 P Reg_InputUpper h))) = Some r"
    have "?sees P upper h"
    proof (cases "upper AND Bits_OpDone \<noteq> 0")
      case False
      with eq have "f P (fst (In32 P Reg_InputUpper h)) (snd (In32 P Reg_InputUpper h)) = Some r"
        by simp
      from IH [OF this] have "done_at P 0 h \<or> (\<exists>k. done_at P (Suc k) h)"
        by (simp add: done_at_Suc) (simp add: done_at_def)
      then show ?thesis by blast
    qed simp
    then show "(\<lambda>((P, upper), h) r. ?sees P upper h) ((P, upper), h) r" by simp
  qed
  then show ?thesis by simp
qed

lemma WaitOpDone_for_timeout:
  "\<lbrakk>upper AND Bits_OpDone = 0; \<And>j. j < left \<Longrightarrow> \<not> done_at P j h\<rbrakk>
    \<Longrightarrow> \<exists>u. WaitOpDone_for P left i upper h = (i + left, u, polls P left h)
          \<and> u AND Bits_OpDone = 0"
proof (induction left arbitrary: i upper h)
  case (Suc left)
  let ?h = "snd (In32 P Reg_InputUpper h)" and ?u = "fst (In32 P Reg_InputUpper h)"
  have "?u AND Bits_OpDone = 0" using Suc.prems(2) [of 0] by (simp add: done_at_def)
  moreover have "\<And>j. j < left \<Longrightarrow> \<not> done_at P j ?h"
    using Suc.prems(2) by (metis Suc_less_eq done_at_Suc)
  ultimately show ?case
    using Suc.IH [of ?u ?h "Suc i"] Suc.prems(1)
    by (simp add: case_prod_beta polls_shift del: polls.simps(2))
qed simp

lemma WaitOpDone_for_sees:
  "\<lbrakk>upper AND Bits_OpDone = 0; done_at P k h; \<And>j. j < k \<Longrightarrow> \<not> done_at P j h; k < left\<rbrakk>
    \<Longrightarrow> \<exists>u. WaitOpDone_for P left i upper h = (i + Suc k, u, polls P (Suc k) h)
          \<and> u AND Bits_OpDone \<noteq> 0"
proof (induction k arbitrary: left i upper h)
  case 0
  then obtain left' where left: "left = Suc left'" by (cases left) auto
  let ?h = "snd (In32 P Reg_InputUpper h)" and ?u = "fst (In32 P Reg_InputUpper h)"
  have u: "?u AND Bits_OpDone \<noteq> 0" using 0 by (simp add: done_at_def)
  then have "WaitOpDone_for P left' (Suc i) ?u ?h = (Suc i, ?u, ?h)" by (cases left') simp_all
  with 0 left u show ?case by (simp add: case_prod_beta prod_eq_iff)
next
  case (Suc k)
  then obtain left' where left: "left = Suc left'" by (cases left) auto
  let ?h = "snd (In32 P Reg_InputUpper h)" and ?u = "fst (In32 P Reg_InputUpper h)"
  have "\<exists>u. WaitOpDone_for P left' (Suc i) ?u ?h = (Suc i + Suc k, u, polls P (Suc k) ?h)
      \<and> u AND Bits_OpDone \<noteq> 0"
  proof (rule Suc.IH)
    show "?u AND Bits_OpDone = 0" using Suc.prems(3) [of 0] by (simp add: done_at_def)
    show "done_at P k ?h" using Suc.prems(2) by (simp add: done_at_Suc)
    show "\<not> done_at P j ?h" if "j < k" for j
      using Suc.prems(3) [of "Suc j"] that by (simp add: done_at_Suc)
    show "k < left'" using Suc.prems(4) left by simp
  qed
  with Suc.prems(1) left show ?case
    by (simp add: case_prod_beta polls_shift del: polls.simps(2))
qed

text \<open>
  The least poll that sees \<open>op_done\<close> decides everything: the function reads up to and
  including it, whatever the polling budget \<open>num\<close>, and does not return if there is none.
\<close>

lemma WaitOpDone_least:
  assumes k: "done_at P k h" and least: "\<And>j. j < k \<Longrightarrow> \<not> done_at P j h"
  shows "WaitOpDone P num h = Some (True, polls P (Suc k) h)"
proof (cases "k < num")
  case True
  from WaitOpDone_for_sees [OF _ k least True, of 0 0] obtain u
    where u: "WaitOpDone_for P num 0 0 h = (Suc k, u, polls P (Suc k) h)"
      "u AND Bits_OpDone \<noteq> 0" by auto
  then show ?thesis by (simp add: WaitOpDone_def WaitOpDone_while_done)
next
  case False
  with least have "\<And>j. j < num \<Longrightarrow> \<not> done_at P j h" by simp
  from WaitOpDone_for_timeout [where upper = 0 and i = 0 and left = num, OF _ this] obtain u
    where u: "WaitOpDone_for P num 0 0 h = (num, u, polls P num h)" "u AND Bits_OpDone = 0"
    by auto
  have add: "polls P j (polls P num h) = polls P (j + num) h" for j
    by (induction j) simp_all
  then have shift: "done_at P j (polls P num h) = done_at P (j + num) h" for j
    by (simp add: done_at_def)
  have "WaitOpDone_while P u (polls P num h) = Some (polls P (Suc (k - num)) (polls P num h))"
    using u(2) k least False by (intro WaitOpDone_while_returns) (simp_all add: shift)
  with u(1) False show ?thesis
    by (simp add: WaitOpDone_def add del: polls.simps(2))
qed

lemma WaitOpDone_never:
  assumes "\<And>k. \<not> done_at P k h"
  shows "WaitOpDone P num h = None"
proof -
  from WaitOpDone_for_timeout [where upper = 0 and i = 0 and left = num, OF _ assms] obtain u
    where u: "WaitOpDone_for P num 0 0 h = (num, u, polls P num h)" "u AND Bits_OpDone = 0"
    by auto
  have "polls P j (polls P num h) = polls P (j + num) h" for j
    by (induction j) simp_all
  then have "\<not> done_at P j (polls P num h)" for j
    using assms [of "j + num"] by (simp add: done_at_def)
  then have "WaitOpDone_while P u (polls P num h) = None"
    using WaitOpDone_while_only [of P u "polls P num h"] u(2)
    by (cases "WaitOpDone_while P u (polls P num h)") auto
  with u(1) show ?thesis by (simp add: WaitOpDone_def)
qed

lemma wait_exact:
  "WaitOpDone P num h =
     (if \<exists>k. done_at P k h then Some (True, polls P (Suc (LEAST k. done_at P k h)) h) else None)"
proof (cases "\<exists>k. done_at P k h")
  case True
  then have "done_at P (LEAST k. done_at P k h) h" by (rule LeastI_ex)
  then have "WaitOpDone P num h = Some (True, polls P (Suc (LEAST k. done_at P k h)) h)"
    by (rule WaitOpDone_least) (rule not_less_Least)
  with True show ?thesis by simp
next
  case False
  then show ?thesis by (simp add: WaitOpDone_never)
qed

text \<open>C12. \<open>WaitOpDone\<close> returns exactly when some poll of the input register sees the
  \<open>op_done\<close> bit; it then returns true having read the register once for every poll up to and
  including the first that sees it, whatever the polling budget \<open>num\<close> is, and it loops forever
  when no poll ever sees it.\<close>

theorem WaitOpDone_exact:
  "WaitOpDone P num h =
     (if \<exists>k. done_at P k h then Some (True, polls P (Suc (LEAST k. done_at P k h)) h) else None)"
  by (rule wait_exact)

lemma WaitOpDone_returns:
  assumes "done_at P k h"
  obtains n where "WaitOpDone P num h = Some (True, polls P (Suc n) h)" "done_at P n h"
proof -
  define m where "m = (LEAST k. done_at P k h)"
  have "done_at P m h" unfolding m_def using assms by (rule LeastI)
  moreover have "WaitOpDone P num h = Some (True, polls P (Suc m) h)"
    using \<open>done_at P m h\<close> unfolding m_def
    by (rule WaitOpDone_least) (rule not_less_Least)
  ultimately show thesis by (rule that [rotated])
qed

section \<open>Bus activity of a block transfer\<close>

text \<open>
  \<open>responsive P\<close>: once a word with the bus request has been written to the output register,
  polling eventually sees \<open>op_done\<close>. Nothing is asked of an idle interface, where \<open>op_done\<close> is low.
  \<open>writes_upper P ws\<close> is the log of writing \<open>ws\<close> to the output register, in order.
\<close>

definition responsive :: "'h platform \<Rightarrow> bool" where
  "responsive P \<longleftrightarrow>
     (\<forall>h w. w AND Bits_RequestBus \<noteq> 0 \<longrightarrow> (\<exists>k. done_at P k (Out32 P Reg_OutputUpper w h)))"

definition blk_word :: "word16 \<Rightarrow> nat \<Rightarrow> nat \<Rightarrow> word32" where
  "blk_word a n q = ucast a OR Bits_RequestBus
     OR (if Suc q = n then Bits_BlkEnd else Bits_BlkStart)
     OR (if odd (unat a + q) then Bits_LSB else 0)"

definition block_write_log :: "'h platform \<Rightarrow> word16 \<Rightarrow> (nat \<Rightarrow> word32) \<Rightarrow> nat \<Rightarrow> nat \<Rightarrow> wlog" where
  "block_write_log P a data n m =
     concat (map (\<lambda>q. [(gpio_base P + Reg_OutputLower, data q),
                      (gpio_base P + Reg_OutputUpper, blk_word a n q)]) [0..<m])"

definition block_read_log :: "'h platform \<Rightarrow> word16 \<Rightarrow> nat \<Rightarrow> nat \<Rightarrow> wlog" where
  "block_read_log P a n m = map (\<lambda>q. (gpio_base P + Reg_OutputUpper, blk_word a n q)) [0..<m]"

lemma traced_In32 [bus_simps]:
  "In32 (traced P) r (h, t) = (fst (In32 P r h), (snd (In32 P r h), t))"
  by (simp add: In32_def)

lemma traced_Out32 [bus_simps]:
  "Out32 (traced P) r v (h, t) = (Out32 P r v h, t @ [(gpio_base P + r, v)])"
  by (simp add: Out32_def)

lemma traced_polls [bus_simps]: "polls (traced P) k (h, t) = (polls P k h, t)"
  by (induction k) (simp_all add: bus_simps)

lemma traced_done_at [bus_simps]: "done_at (traced P) k (h, t) = done_at P k h"
  by (simp add: done_at_def bus_simps)

lemma traced_WaitOpDone:
  assumes "responsive P" and "w AND Bits_RequestBus \<noteq> 0"
  obtains h' where "WaitOpDone (traced P) num (Out32 P Reg_OutputUpper w h, t) = Some (True, (h', t))"
proof -
  from assms have "\<exists>k. done_at P k (Out32 P Reg_OutputUpper w h)" by (simp add: responsive_def)
  then show thesis
    by (intro that) (simp add: wait_exact bus_simps del: polls.simps(2))
qed

lemma traced_GetVersion [bus_simps]:
  "EMIO_GetVersion (traced P) (h, t) = (fst (EMIO_GetVersion P h), (snd (EMIO_GetVersion P h), t))"
  by (simp add: EMIO_GetVersion_def bus_simps case_prod_beta)

lemma traced_setDataInput [bus_simps]:
  "setDataInput (traced P) (h, t) =
     (fst (setDataInput P h),
      (snd (setDataInput P h), t @ [(gpio_base P + Reg_DirLower, 0)]))"
  by (simp add: setDataInput_def bus_simps case_prod_beta Let_def)

lemma traced_setDataOutput [bus_simps]:
  "setDataOutput (traced P) (h, t) =
     (fst (setDataOutput P h),
      (snd (setDataOutput P h),
       t @ [(gpio_base P + Reg_DirLower, 0xffffffff), (gpio_base P + Reg_OutEnLower, 0xffffffff)]))"
  by (simp add: setDataOutput_def bus_simps case_prod_beta Let_def)

lemma bits_bit:
  "bit Bits_RequestBus n = (n = 16)" "bit Bits_OpDone n = (n = 17)" "bit Bits_RegWen n = (n = 18)"
  "bit Bits_BlkStart n = (n = 19)" "bit Bits_BlkEnd n = (n = 20)" "bit Bits_Write n = (n = 21)"
  "bit Bits_LSB n = (n = 23)"
  using bit_single [of 16 n] bit_single [of 17 n] bit_single [of 18 n] bit_single [of 19 n]
    bit_single [of 20 n] bit_single [of 21 n] bit_single [of 23 n]
  by (simp_all add: bits_defs)

lemma addr_lsb: "((a + of_nat q :: word16) AND 1 \<noteq> 0) = odd (unat a + q)"
proof -
  have "unat (a + of_nat q) = (unat a + q) mod 65536"
    using unat_word_ariths(1) [of a "of_nat q"] mod_add_right_eq [of "unat a" q 65536]
    by (simp add: unat_of_nat)
  moreover have "odd ((unat a + q) mod 65536) = odd (unat a + q)"
    using dvd_mod_iff [of 2 65536 "unat a + q"] by simp
  ultimately have "odd (a + of_nat q) = odd (unat a + q)"
    using odd_unat [of "a + of_nat q"] by simp
  then show ?thesis
    by (simp add: and_one_eq odd_iff_mod_2_eq_one even_iff_mod_2_eq_zero)
qed

abbreviation blk_base :: "word16 \<Rightarrow> word32" where
  "blk_base a \<equiv> ucast a OR Bits_BlkStart OR Bits_RequestBus"

lemma blk_outreg_word:
  assumes "r = blk_base a \<or> r = blk_base a OR Bits_LSB"
  shows "blk_outreg (int n) (int q) (a + of_nat q) r = blk_word a n q"
proof -
  have last: "(int q = int n - 1) = (Suc q = n)" by auto
  show ?thesis
    unfolding blk_outreg_def blk_word_def addr_lsb last Let_def
    by (rule bit_word_eqI) (use assms in \<open>auto simp: bit_simps bits_bit dest: bit_imp_le_length\<close>)
qed

lemma blk_word_base:
  "Suc q < n \<Longrightarrow> blk_word a n q = blk_base a \<or> blk_word a n q = blk_base a OR Bits_LSB"
  by (auto simp: blk_word_def or.commute or.left_commute)

lemma blk_word_requests: "blk_word a n q AND Bits_RequestBus \<noteq> 0"
proof
  assume "blk_word a n q AND Bits_RequestBus = 0"
  then have "bit (blk_word a n q AND Bits_RequestBus) 16 = bit (0 :: word32) 16" by (rule arg_cong)
  then show False by (simp add: blk_word_def bit_simps bits_bit)
qed

lemma block_write_log_Suc:
  "block_write_log P a data n (Suc m) = block_write_log P a data n m
     @ [(gpio_base P + Reg_OutputLower, data m), (gpio_base P + Reg_OutputUpper, blk_word a n m)]"
  by (simp add: block_write_log_def)

lemma block_read_log_Suc:
  "block_read_log P a n (Suc m) = block_read_log P a n m
     @ [(gpio_base P + Reg_OutputUpper, blk_word a n m)]"
  by (simp add: block_read_log_def)

definition blk_inv :: "word16 \<Rightarrow> nat \<Rightarrow> nat \<Rightarrow> word16 \<Rightarrow> word32 \<Rightarrow> bool" where
  "blk_inv a n q addr outreg \<longleftrightarrow> addr = a + of_nat q
     \<and> (q < n \<longrightarrow> outreg = blk_base a \<or> outreg = blk_base a OR Bits_LSB)"

lemma blk_inv_start: "blk_inv a n 0 a (blk_base a)"
  by (simp add: blk_inv_def)

lemma blk_inv_word: "blk_inv a n q addr outreg \<Longrightarrow> q < n \<Longrightarrow>
    blk_outreg (int n) (int q) addr outreg = blk_word a n q"
  by (auto simp: blk_inv_def intro: blk_outreg_word)

lemma blk_inv_step: "blk_inv a n q addr outreg \<Longrightarrow> blk_inv a n (Suc q) (addr + 1) (blk_word a n q)"
  using blk_word_base [of q n a] by (simp add: blk_inv_def)

lemma WriteBlock_body_step:
  assumes resp: "responsive P" and inv: "blk_inv a n q addr outreg" and q: "q < n"
  obtains g' where "WriteBlock_body (traced P) data (int n) (int q) (addr, outreg, (g, t))
      = Some (addr + 1, blk_word a n q, (g', t @ [(gpio_base P + Reg_OutputLower, data q),
          (gpio_base P + Reg_OutputUpper, blk_word a n q)]))"
proof -
  let ?w = "blk_word a n q"
  let ?log = "t @ [(gpio_base P + Reg_OutputLower, data q), (gpio_base P + Reg_OutputUpper, ?w)]"
  obtain g' where "WaitOpDone (traced P) 5
      (Out32 P Reg_OutputUpper ?w (Out32 P Reg_OutputLower (data q) g), ?log) = Some (True, (g', ?log))"
    using resp blk_word_requests by (rule traced_WaitOpDone)
  then show thesis
    by (intro that [of g']) (simp add: WriteBlock_body_def blk_inv_word [OF inv q] bus_simps Let_def)
qed

lemma ReadBlock_body_step:
  assumes resp: "responsive P" and inv: "blk_inv a n q addr outreg" and q: "q < n"
  obtains g' val where "ReadBlock_body (traced P) (int n) (int q) (addr, outreg, data, (g, t))
      = Some (addr + 1, blk_word a n q, data @ [val],
          (g', t @ [(gpio_base P + Reg_OutputUpper, blk_word a n q)]))"
proof -
  let ?w = "blk_word a n q" and ?log = "t @ [(gpio_base P + Reg_OutputUpper, blk_word a n q)]"
  obtain g' where "WaitOpDone (traced P) 5 (Out32 P Reg_OutputUpper ?w g, ?log)
      = Some (True, (g', ?log))"
    using resp blk_word_requests by (rule traced_WaitOpDone)
  then show thesis
    by (intro that [where g' = "snd (In32 P Reg_InputLower g')"])
      (simp add: ReadBlock_body_def blk_inv_word [OF inv q] bus_simps Let_def case_prod_beta)
qed

lemma WriteBlock_loop:
  fixes P :: "'h platform"
  assumes resp: "responsive P"
  shows "\<exists>st. cfor_opt 0 (int n) 1 (WriteBlock_body (traced P) data (int n)) (a, blk_base a, (h, t))
      = Some st \<and> snd (snd (snd st)) = t @ block_write_log P a data n n"
proof (rule cfor_opt_inv [where P = "\<lambda>q (addr, outreg, h, t'). 0 \<le> q \<and> q \<le> int n
    \<and> blk_inv a n (nat q) addr outreg \<and> t' = t @ block_write_log P a data n (nat q)"])
  fix j and st :: "word16 \<times> word32 \<times> 'h \<times> wlog"
  assume j: "0 \<le> j" "j < int n" and inv: "case st of (addr, outreg, h, t') \<Rightarrow> 0 \<le> j \<and> j \<le> int n
    \<and> blk_inv a n (nat j) addr outreg \<and> t' = t @ block_write_log P a data n (nat j)"
  obtain addr outreg g where st: "st = (addr, outreg, g, t @ block_write_log P a data n (nat j))"
    using inv by (cases st) auto
  have b: "blk_inv a n (nat j) addr outreg" using inv st by simp
  have "nat j < n" using j by simp
  then obtain g' where "WriteBlock_body (traced P) data (int n) (int (nat j)) st
      = Some (addr + 1, blk_word a n (nat j), g', t @ block_write_log P a data n (Suc (nat j)))"
    unfolding st block_write_log_Suc append_assoc [symmetric]
    by (rule WriteBlock_body_step [OF resp b])
  with j blk_inv_step [OF b] show "\<exists>st'. WriteBlock_body (traced P) data (int n) j st = Some st' \<and>
    (case st' of (addr, outreg, h, t') \<Rightarrow> 0 \<le> j + 1 \<and> j + 1 \<le> int n
    \<and> blk_inv a n (nat (j + 1)) addr outreg \<and> t' = t @ block_write_log P a data n (nat (j + 1)))"
    by (simp add: nat_add_distrib)
qed (auto simp: blk_inv_start block_write_log_def)

lemma ReadBlock_loop:
  fixes P :: "'h platform"
  assumes resp: "responsive P"
  shows "\<exists>st. cfor_opt 0 (int n) 1 (ReadBlock_body (traced P) (int n)) (a, blk_base a, [], (h, t))
      = Some st \<and> length (fst (snd (snd st))) = n
      \<and> snd (snd (snd (snd st))) = t @ block_read_log P a n n"
proof (rule cfor_opt_inv [where P = "\<lambda>q (addr, outreg, ds, h, t'). 0 \<le> q \<and> q \<le> int n
    \<and> blk_inv a n (nat q) addr outreg \<and> length ds = nat q \<and> t' = t @ block_read_log P a n (nat q)"])
  fix j and st :: "word16 \<times> word32 \<times> word32 list \<times> 'h \<times> wlog"
  assume j: "0 \<le> j" "j < int n" and inv: "case st of (addr, outreg, ds, h, t') \<Rightarrow> 0 \<le> j \<and> j \<le> int n
    \<and> blk_inv a n (nat j) addr outreg \<and> length ds = nat j \<and> t' = t @ block_read_log P a n (nat j)"
  obtain addr outreg ds g where st: "st = (addr, outreg, ds, g, t @ block_read_log P a n (nat j))"
    and ds: "length ds = nat j" using inv by (cases st) auto
  have b: "blk_inv a n (nat j) addr outreg" using inv st by simp
  have "nat j < n" using j by simp
  then obtain g' val where "ReadBlock_body (traced P) (int n) (int (nat j)) st
      = Some (addr + 1, blk_word a n (nat j), ds @ [val], g', t @ block_read_log P a n (Suc (nat j)))"
    unfolding st block_read_log_Suc append_assoc [symmetric]
    by (rule ReadBlock_body_step [OF resp b])
  with j ds blk_inv_step [OF b]
  show "\<exists>st'. ReadBlock_body (traced P) (int n) j st = Some st' \<and>
    (case st' of (addr, outreg, ds, h, t') \<Rightarrow> 0 \<le> j + 1 \<and> j + 1 \<le> int n
    \<and> blk_inv a n (nat (j + 1)) addr outreg \<and> length ds = nat (j + 1)
    \<and> t' = t @ block_read_log P a n (nat (j + 1)))"
    by (simp add: nat_add_distrib)
qed (auto simp: blk_inv_start block_read_log_def)

lemma block_write_traced:
  assumes resp: "responsive P" and ver: "fst (EMIO_GetVersion P h) = 1"
    and dir: "fst (setDataOutput P (snd (EMIO_GetVersion P h)))"
  shows "\<exists>h'. EMIO_WriteBlock (traced P) a data nBytes (h, []) = Some (True, (h',
      [(gpio_base P + Reg_DirLower, 0xffffffff), (gpio_base P + Reg_OutEnLower, 0xffffffff)]
      @ block_write_log P a data (unat (blk_nQuads nBytes)) (unat (blk_nQuads nBytes))
      @ [(gpio_base P + Reg_OutputUpper, 0)]))"
proof -
  define n where "n = unat (blk_nQuads nBytes)"
  have un: "uint (blk_nQuads nBytes) = int n" by (simp add: n_def)
  let ?pre = "[(gpio_base P + Reg_DirLower, 0xffffffff), (gpio_base P + Reg_OutEnLower, 0xffffffff)]"
  obtain addr outreg g where
    "cfor_opt 0 (int n) 1 (WriteBlock_body (traced P) data (int n))
        (a, blk_base a, (snd (setDataOutput P (snd (EMIO_GetVersion P h))), ?pre))
      = Some (addr, outreg, (g, ?pre @ block_write_log P a data n n))"
    using WriteBlock_loop [OF resp, of n data a
      "snd (setDataOutput P (snd (EMIO_GetVersion P h)))" ?pre] by auto
  with ver dir show ?thesis
    by (simp add: EMIO_WriteBlock_def bus_simps un n_def [symmetric])
qed

lemma block_read_traced:
  assumes resp: "responsive P" and ver: "fst (EMIO_GetVersion P h) = 1"
    and dir: "fst (setDataInput P (snd (EMIO_GetVersion P h)))"
  shows "\<exists>ds h'. EMIO_ReadBlock (traced P) a nBytes (h, []) = Some (Some ds, (h',
      [(gpio_base P + Reg_DirLower, 0)]
      @ block_read_log P a (unat (blk_nQuads nBytes)) (unat (blk_nQuads nBytes))
      @ [(gpio_base P + Reg_OutputUpper, 0)]))
    \<and> length ds = unat (blk_nQuads nBytes)"
proof -
  define n where "n = unat (blk_nQuads nBytes)"
  have un: "uint (blk_nQuads nBytes) = int n" by (simp add: n_def)
  let ?pre = "[(gpio_base P + Reg_DirLower, 0)]"
  obtain addr outreg ds g where
    "cfor_opt 0 (int n) 1 (ReadBlock_body (traced P) (int n))
        (a, blk_base a, [], (snd (setDataInput P (snd (EMIO_GetVersion P h))), ?pre))
      = Some (addr, outreg, ds, (g, ?pre @ block_read_log P a n n))" "length ds = n"
    using ReadBlock_loop [OF resp, of n a
      "snd (setDataInput P (snd (EMIO_GetVersion P h)))" ?pre] by auto
  with ver dir show ?thesis
    by (simp add: EMIO_ReadBlock_def bus_simps un n_def [symmetric])
qed

end
