(* ===== verification/EmioDevice.thy ===== *)
theory EmioDevice
  imports EmioSpec
begin

text \<open>
  The FPGA's register file behind the EMIO driver.

  \<open>register_file\<close> is the interface the applications rely on: while \<open>ready\<close>, a quadlet read
  returns the register and a quadlet write stores it, both leaving the interface ready. The
  client lemmas (PROM data) are proved inside it.

  \<open>emio_device\<close> says what the driver relies on from the FPGA firmware, which is not part of
  this repository: the register semantics in the comments of fpgav3_emio.c (a rising edge of
  the bus request starts the operation; the firmware latches it; \<open>op_done\<close> follows; the write
  line shows the tristate direction). \<open>emio_sim\<close> is a concrete firmware that satisfies it.
\<close>

section \<open>The interface\<close>

locale register_file =
  fixes read :: "word16 \<Rightarrow> 's \<Rightarrow> (word32 option \<times> 's) option"
    and "write" :: "word16 \<Rightarrow> word32 \<Rightarrow> 's \<Rightarrow> (bool \<times> 's) option"
    and ready :: "'s \<Rightarrow> bool"
    and regs :: "'s \<Rightarrow> word16 \<Rightarrow> word32"
  assumes read_ok: "ready s \<Longrightarrow>
      \<exists>s'. read a s = Some (Some (regs s a), s') \<and> ready s' \<and> regs s' = regs s"
    and write_ok: "ready s \<Longrightarrow>
      \<exists>s'. write a d s = Some (True, s') \<and> ready s' \<and> regs s' = (regs s)(a := d)"
begin

lemma write_read:
  assumes "ready s"
  obtains s1 s2 where "write a d s = Some (True, s1)" "read a s1 = Some (Some d, s2)"
    "ready s2" "regs s2 = (regs s)(a := d)"
proof -
  from write_ok [OF assms, of a d] obtain s1 where
    s1: "write a d s = Some (True, s1)" "ready s1" "regs s1 = (regs s)(a := d)" by blast
  from read_ok [OF s1(2), of a] obtain s2 where
    "read a s1 = Some (Some (regs s1 a), s2)" "ready s2" "regs s2 = regs s1" by blast
  with s1 show thesis by (intro that [of s1 s2]) auto
qed

lemma prom_loop:
  "ready s \<Longrightarrow> \<exists>s'. WritePromData_loop write swap data left i s = Some (True, s') \<and> ready s'
     \<and> regs s' = fold (\<lambda>k r. r(0x2000 + of_nat k := swap (le32 data (k * 4)))) [i..<i + left] (regs s)"
proof (induction left arbitrary: i s)
  case 0
  then show ?case by simp
next
  case (Suc left)
  from write_ok [OF Suc.prems, of "0x2000 + of_nat i" "swap (le32 data (i * 4))"]
  obtain s1 where s1: "write (0x2000 + of_nat i) (swap (le32 data (i * 4))) s = Some (True, s1)"
    "ready s1" "regs s1 = (regs s)(0x2000 + of_nat i := swap (le32 data (i * 4)))" by blast
  from Suc.IH [OF s1(2), of "Suc i"] s1(1,3) show ?case
    by (auto simp: upt_conv_Cons simp del: upt_Suc)
qed

end

text \<open>What the loop's register updates amount to when the addresses do not wrap onto each other.\<close>

lemma fold_upd_prom:
  assumes "n \<le> 2 ^ 16"
  shows "fold (\<lambda>k r. r(b + of_nat k := f k)) [0..<n] r a =
    (if unat (a - b :: word16) < n then f (unat (a - b)) else r a)"
  using assms
proof (induction n)
  case (Suc n)
  have "(a = b + of_nat n) = (unat (a - b) = n)"
  proof
    assume "a = b + of_nat n"
    then show "unat (a - b) = n" using Suc.prems by (simp add: unat_of_nat)
  next
    assume "unat (a - b) = n"
    moreover have "of_nat (unat (a - b)) = a - b" by simp
    ultimately show "a = b + of_nat n" by simp
  qed
  with Suc show ?case by (auto simp: less_Suc_eq)
qed simp

section \<open>What the driver relies on from the firmware\<close>

record emio_pins =
  out_lower :: word32
  out_upper :: word32
  dir_lower :: word32
  done_pin :: bool

definition requested :: "emio_pins \<Rightarrow> bool" where
  "requested p \<longleftrightarrow> out_upper p AND Bits_RequestBus \<noteq> 0"

definition emio_device ::
    "'h platform \<Rightarrow> ('h \<Rightarrow> emio_pins) \<Rightarrow> ('h \<Rightarrow> word16 \<Rightarrow> word32) \<Rightarrow> bool" where
  "emio_device P pins rg \<longleftrightarrow>
     (\<forall>h v. pins (Out32 P Reg_DirLower v h) = (pins h)\<lparr>dir_lower := v\<rparr>
        \<and> rg (Out32 P Reg_DirLower v h) = rg h) \<and>
     (\<forall>h v. pins (Out32 P Reg_OutEnLower v h) = pins h \<and> rg (Out32 P Reg_OutEnLower v h) = rg h) \<and>
     (\<forall>h v. pins (Out32 P Reg_OutputLower v h) = (pins h)\<lparr>out_lower := v\<rparr>
        \<and> rg (Out32 P Reg_OutputLower v h) = rg h) \<and>
     (\<forall>h v. pins (Out32 P Reg_OutputUpper v h) = (pins h)\<lparr>out_upper := v, done_pin := False\<rparr>
        \<and> rg (Out32 P Reg_OutputUpper v h) =
            (if v AND Bits_RequestBus \<noteq> 0 \<and> \<not> requested (pins h) \<and> dir_lower (pins h) = 0xffffffff
             then (rg h)(ucast v := out_lower (pins h)) else rg h)) \<and>
     (\<forall>h. fst (In32 P Reg_InputUpper h) AND Bits_RequestBus = out_upper (pins h) AND Bits_RequestBus
        \<and> (fst (In32 P Reg_InputUpper h) AND Bits_Write \<noteq> 0 \<longleftrightarrow> dir_lower (pins h) = 0xffffffff)
        \<and> pins (snd (In32 P Reg_InputUpper h)) =
            (pins h)\<lparr>done_pin := fst (In32 P Reg_InputUpper h) AND Bits_OpDone \<noteq> 0\<rparr>
        \<and> rg (snd (In32 P Reg_InputUpper h)) = rg h) \<and>
     (\<forall>h. pins (snd (In32 P Reg_InputLower h)) = pins h
        \<and> rg (snd (In32 P Reg_InputLower h)) = rg h
        \<and> (requested (pins h) \<and> done_pin (pins h) \<and> dir_lower (pins h) = 0
           \<longrightarrow> fst (In32 P Reg_InputLower h) = rg h (ucast (out_upper (pins h))))) \<and>
     (\<forall>h. requested (pins h) \<longrightarrow> (\<exists>k. done_at P k h))"

definition emio_ready ::
    "'h platform \<Rightarrow> ('h \<Rightarrow> emio_pins) \<Rightarrow> ('h \<Rightarrow> word16 \<Rightarrow> word32) \<Rightarrow> 'h \<Rightarrow> bool" where
  "emio_ready P pins rg h \<longleftrightarrow> emio_device P pins rg \<and> \<not> requested (pins h)"

lemma emio_deviceD:
  assumes "emio_device P pins rg"
  shows "pins (Out32 P Reg_DirLower v h) = (pins h)\<lparr>dir_lower := v\<rparr>"
    "rg (Out32 P Reg_DirLower v h) = rg h"
    "pins (Out32 P Reg_OutEnLower v h) = pins h" "rg (Out32 P Reg_OutEnLower v h) = rg h"
    "pins (Out32 P Reg_OutputLower v h) = (pins h)\<lparr>out_lower := v\<rparr>"
    "rg (Out32 P Reg_OutputLower v h) = rg h"
    "pins (Out32 P Reg_OutputUpper v h) = (pins h)\<lparr>out_upper := v, done_pin := False\<rparr>"
    "rg (Out32 P Reg_OutputUpper v h) =
       (if v AND Bits_RequestBus \<noteq> 0 \<and> \<not> requested (pins h) \<and> dir_lower (pins h) = 0xffffffff
        then (rg h)(ucast v := out_lower (pins h)) else rg h)"
    "fst (In32 P Reg_InputUpper h) AND Bits_RequestBus = out_upper (pins h) AND Bits_RequestBus"
    "(fst (In32 P Reg_InputUpper h) AND Bits_Write = 0) = (dir_lower (pins h) \<noteq> 0xffffffff)"
    "pins (snd (In32 P Reg_InputUpper h)) =
       (pins h)\<lparr>done_pin := fst (In32 P Reg_InputUpper h) AND Bits_OpDone \<noteq> 0\<rparr>"
    "rg (snd (In32 P Reg_InputUpper h)) = rg h"
    "pins (snd (In32 P Reg_InputLower h)) = pins h" "rg (snd (In32 P Reg_InputLower h)) = rg h"
    "requested (pins h) \<Longrightarrow> done_pin (pins h) \<Longrightarrow> dir_lower (pins h) = 0
       \<Longrightarrow> fst (In32 P Reg_InputLower h) = rg h (ucast (out_upper (pins h)))"
    "requested (pins h) \<Longrightarrow> \<exists>k. done_at P k h"
  using assms unfolding emio_device_def by blast+

text \<open>The set-up registers that \<open>EMIO_Init\<close> writes besides have no effect on the firmware.\<close>

definition init_inert ::
    "'h platform \<Rightarrow> ('h \<Rightarrow> emio_pins) \<Rightarrow> ('h \<Rightarrow> word16 \<Rightarrow> word32) \<Rightarrow> bool" where
  "init_inert P pins rg \<longleftrightarrow>
     (\<forall>h v. pins (Out32 P Reg_DirUpper v h) = pins h \<and> rg (Out32 P Reg_DirUpper v h) = rg h
        \<and> pins (Out32 P Reg_OutEnUpper v h) = pins h \<and> rg (Out32 P Reg_OutEnUpper v h) = rg h)"

lemma emio_init_ready:
  assumes dev: "emio_device P pins rg" and "init_inert P pins rg"
  shows "emio_ready P pins rg (EMIO_Init P h)" "rg (EMIO_Init P h) = rg h"
  using assms by (simp_all add: init_inert_def EMIO_Init_def emio_ready_def emio_deviceD [OF dev] requested_def)

lemma upper_mask_split:
  "(u AND upper_mask = 0) = (u AND Bits_RequestBus = 0 \<and> u AND Bits_Write = 0)"
  "(u AND upper_mask = Bits_Write) = (u AND Bits_RequestBus = 0 \<and> u AND Bits_Write \<noteq> 0)"
proof -
  have single: "(u AND Bits_RequestBus = 0) = (\<not> bit u 16)" "(u AND Bits_Write = 0) = (\<not> bit u 21)"
    using and_push_bit_eq_0 [of u 16] and_push_bit_eq_0 [of u 21] by (simp_all add: bits_defs)
  have b: "bit (u AND upper_mask) n = (bit u n \<and> (n = 16 \<or> n = 21))" for n
    by (auto simp: upper_mask_def bit_simps bits_bit)
  show "(u AND upper_mask = 0) = (u AND Bits_RequestBus = 0 \<and> u AND Bits_Write = 0)"
    by (auto simp: single b bit_eq_iff [of "u AND upper_mask"] dest: spec [of _ 16] spec [of _ 21]
        simp del: bit_and_iff)
  show "(u AND upper_mask = Bits_Write) = (u AND Bits_RequestBus = 0 \<and> u AND Bits_Write \<noteq> 0)"
    by (auto simp: single b bits_bit bit_eq_iff [of "u AND upper_mask"] dest: spec [of _ 16] spec [of _ 21]
        simp del: bit_and_iff)
qed

lemma ucast_out_word:
  "(ucast (ucast a OR Bits_RequestBus :: word32) :: word16) = a"
  "(ucast (ucast a OR Bits_RegWen OR Bits_RequestBus :: word32) :: word16) = a"
  by (rule bit_word_eqI, auto simp: bit_simps bits_bit)+

lemma out_word_requests:
  "(ucast (a::word16) OR Bits_RequestBus) AND Bits_RequestBus \<noteq> 0"
  "(ucast (a::word16) OR Bits_RegWen OR Bits_RequestBus) AND Bits_RequestBus \<noteq> 0"
proof -
  have "bit ((x OR Bits_RequestBus) AND Bits_RequestBus) 16" for x :: word32
    by (simp add: bit_simps bits_bit)
  then have "(x OR Bits_RequestBus) AND Bits_RequestBus \<noteq> 0" for x :: word32
    by (metis bit_0_eq bot_apply bot_bool_def)
  from this [of "ucast a"] this [of "ucast a OR Bits_RegWen"]
  show "(ucast (a::word16) OR Bits_RequestBus) AND Bits_RequestBus \<noteq> 0"
    "(ucast (a::word16) OR Bits_RegWen OR Bits_RequestBus) AND Bits_RequestBus \<noteq> 0"
    by (simp_all add: or.assoc)
qed

lemma emio_polls:
  assumes "emio_device P pins rg"
  shows "\<exists>d. pins (polls P k h) = (pins h)\<lparr>done_pin := d\<rparr>" "rg (polls P k h) = rg h"
proof (induction k)
  case 0
  show "\<exists>d. pins (polls P 0 h) = (pins h)\<lparr>done_pin := d\<rparr>" "rg (polls P 0 h) = rg h"
    by (simp_all add: exI [of _ "done_pin (pins h)"])
next
  case (Suc k)
  then obtain d where "pins (polls P k h) = (pins h)\<lparr>done_pin := d\<rparr>" by blast
  with Suc(2) show "\<exists>d. pins (polls P (Suc k) h) = (pins h)\<lparr>done_pin := d\<rparr>"
    "rg (polls P (Suc k) h) = rg h"
    by (auto simp: emio_deviceD [OF assms])
qed

lemma emio_wait:
  assumes dev: "emio_device P pins rg" and req: "requested (pins h)"
  obtains h' where "WaitOpDone P num h = Some (True, h')"
    "pins h' = (pins h)\<lparr>done_pin := True\<rparr>" "rg h' = rg h"
proof -
  obtain k where "done_at P k h" using emio_deviceD(16) [OF dev req] by blast
  then obtain n where n: "WaitOpDone P num h = Some (True, polls P (Suc n) h)" "done_at P n h"
    by (rule WaitOpDone_returns)
  obtain d where "pins (polls P n h) = (pins h)\<lparr>done_pin := d\<rparr>"
    using emio_polls(1) [OF dev] by blast
  with n(2) have "pins (polls P (Suc n) h) = (pins h)\<lparr>done_pin := True\<rparr>"
    by (simp add: emio_deviceD(11) [OF dev] done_at_def)
  with n(1) emio_polls(2) [OF dev, of "Suc n" h] show thesis by (intro that)
qed

lemma read_quadlet_ok:
  assumes ready: "emio_ready P pins rg h"
  shows "\<exists>h'. EMIO_ReadQuadlet P addr h = Some (Some (rg h addr), h')
    \<and> emio_ready P pins rg h' \<and> rg h' = rg h"
proof -
  from ready have dev: "emio_device P pins rg" and idle: "\<not> requested (pins h)"
    by (simp_all add: emio_ready_def)
  note D = emio_deviceD [OF dev]
  define h1 where "h1 = snd (setDataInput P h)"
  have h1: "fst (setDataInput P h)" "\<not> requested (pins h1)" "dir_lower (pins h1) = 0" "rg h1 = rg h"
    using idle by (auto simp: setDataInput_def h1_def Let_def case_prod_beta D upper_mask_split
        requested_def)
  define h2 where "h2 = Out32 P Reg_OutputUpper (ucast addr OR Bits_RequestBus) h1"
  have h2: "requested (pins h2)" "dir_lower (pins h2) = 0" "rg h2 = rg h"
      "out_upper (pins h2) = ucast addr OR Bits_RequestBus"
    using h1 out_word_requests by (simp_all add: h2_def D requested_def)
  obtain h3 where h3: "WaitOpDone P 5 h2 = Some (True, h3)"
      "pins h3 = (pins h2)\<lparr>done_pin := True\<rparr>" "rg h3 = rg h2"
    using dev h2(1) by (rule emio_wait)
  have data: "fst (In32 P Reg_InputLower h3) = rg h addr"
    using h2 h3 D(15) [of h3] by (simp add: requested_def ucast_out_word)
  let ?h5 = "Out32 P Reg_OutputUpper 0 (snd (In32 P Reg_InputLower h3))"
  have "EMIO_ReadQuadlet P addr h = Some (Some (rg h addr), ?h5)"
    using h1(1) data h3(1)
    by (simp add: EMIO_ReadQuadlet_def case_prod_beta Let_def h2_def [symmetric] h1_def [symmetric])
  moreover have "emio_ready P pins rg ?h5" "rg ?h5 = rg h"
    using dev h2 h3 by (simp_all add: emio_ready_def D requested_def)
  ultimately show ?thesis by blast
qed

lemma write_quadlet_ok:
  assumes ready: "emio_ready P pins rg h"
  shows "\<exists>h'. EMIO_WriteQuadlet P addr data h = Some (True, h')
    \<and> emio_ready P pins rg h' \<and> rg h' = (rg h)(addr := data)"
proof -
  from ready have dev: "emio_device P pins rg" and idle: "\<not> requested (pins h)"
    by (simp_all add: emio_ready_def)
  note D = emio_deviceD [OF dev]
  define h1 where "h1 = snd (setDataOutput P h)"
  have h1: "fst (setDataOutput P h)" "\<not> requested (pins h1)" "dir_lower (pins h1) = 0xffffffff"
      "rg h1 = rg h"
    using idle by (auto simp: setDataOutput_def h1_def Let_def case_prod_beta D upper_mask_split
        requested_def)
  define h3 where "h3 = Out32 P Reg_OutputUpper (ucast addr OR Bits_RegWen OR Bits_RequestBus)
      (Out32 P Reg_OutputLower data h1)"
  have h3: "requested (pins h3)" "rg h3 = (rg h)(addr := data)"
    using h1 out_word_requests by (simp_all add: h3_def D requested_def ucast_out_word)
  obtain h4 where h4: "WaitOpDone P 5 h3 = Some (True, h4)" "rg h4 = rg h3"
    using dev h3(1) by (rule emio_wait)
  let ?h5 = "Out32 P Reg_OutputUpper 0 h4"
  have "EMIO_WriteQuadlet P addr data h = Some (True, ?h5)"
    using h1(1) h4(1)
    by (simp add: EMIO_WriteQuadlet_def case_prod_beta Let_def h3_def [symmetric] h1_def [symmetric])
  moreover have "emio_ready P pins rg ?h5" "rg ?h5 = (rg h)(addr := data)"
    using dev h3 h4 by (simp_all add: emio_ready_def D requested_def)
  ultimately show ?thesis by blast
qed

text \<open>The driver provides the register-file interface.\<close>

interpretation emio: register_file
  "EMIO_ReadQuadlet P" "EMIO_WriteQuadlet P" "emio_ready P pins rg" rg for P pins rg
  by unfold_locales (rule read_quadlet_ok write_quadlet_ok, assumption)+

section \<open>A firmware that honours the interface\<close>

text \<open>
  The firmware as a state machine: it completes an operation \<open>lag\<close> polls after the request.
  Address and data registers are those of the GPIO block at the base address of the Zynq.
\<close>

record emio_fpga =
  fpins :: emio_pins
  fregs :: "word16 \<Rightarrow> word32"
  fwait :: nat

definition version_1 :: word32 where "version_1 = 0x10000000"

definition fpga_upper :: "emio_fpga \<Rightarrow> word32" where
  "fpga_upper s = version_1
     OR (out_upper (fpins s) AND Bits_RequestBus)
     OR (if dir_lower (fpins s) = 0xffffffff then Bits_Write else 0)
     OR (if requested (fpins s) \<and> fwait s = 0 then Bits_OpDone else 0)"

definition fpga_in :: "word32 \<Rightarrow> emio_fpga \<Rightarrow> word32 \<times> emio_fpga" where
  "fpga_in a s =
     (if a = 0xE000A000 + Reg_InputUpper
      then (fpga_upper s,
            s\<lparr>fpins := (fpins s)\<lparr>done_pin := requested (fpins s) \<and> fwait s = 0\<rparr>, fwait := fwait s - 1\<rparr>)
      else if a = 0xE000A000 + Reg_InputLower then (fregs s (ucast (out_upper (fpins s))), s)
      else (0, s))"

definition fpga_out :: "nat \<Rightarrow> word32 \<Rightarrow> word32 \<Rightarrow> emio_fpga \<Rightarrow> emio_fpga" where
  "fpga_out lag a v s =
     (if a = 0xE000A000 + Reg_DirLower then s\<lparr>fpins := (fpins s)\<lparr>dir_lower := v\<rparr>\<rparr>
      else if a = 0xE000A000 + Reg_OutputLower then s\<lparr>fpins := (fpins s)\<lparr>out_lower := v\<rparr>\<rparr>
      else if a = 0xE000A000 + Reg_OutputUpper
      then s\<lparr>fpins := (fpins s)\<lparr>out_upper := v, done_pin := False\<rparr>,
             fregs := (if v AND Bits_RequestBus \<noteq> 0 \<and> \<not> requested (fpins s)
                          \<and> dir_lower (fpins s) = 0xffffffff
                       then (fregs s)(ucast v := out_lower (fpins s)) else fregs s),
             fwait := lag\<rparr>
      else s)"

definition emio_sim :: "nat \<Rightarrow> emio_fpga platform" where
  "emio_sim lag = \<lparr>rd32 = fpga_in, wr32 = fpga_out lag, cp15_wr = (\<lambda>r v s. s), cp15_rd = (\<lambda>r s. 0),
     gpio_base = 0xE000A000, l2cc_invld_way = 0xF8F0277C,
     l2cc_inv_cln_way = 0xF8F027FC, l2cc_sync = 0xF8F02730\<rparr>"

definition fpga_reset :: "(word16 \<Rightarrow> word32) \<Rightarrow> emio_fpga" where
  "fpga_reset r = \<lparr>fpins = \<lparr>out_lower = 0, out_upper = 0, dir_lower = 0, done_pin = False\<rparr>,
     fregs = r, fwait = 0\<rparr>"

lemma fpga_upper_bits:
  "fpga_upper s AND Bits_RequestBus = out_upper (fpins s) AND Bits_RequestBus"
  "(fpga_upper s AND Bits_Write = 0) = (dir_lower (fpins s) \<noteq> 0xffffffff)"
  "(fpga_upper s AND Bits_OpDone = 0) = (\<not> (requested (fpins s) \<and> fwait s = 0))"
proof -
  have v: "bit version_1 n = (n = 28)" for n
    using bit_single [of 28 n] by (simp add: version_1_def)
  have b: "bit (fpga_upper s) n = (n = 28 \<or> n = 16 \<and> bit (out_upper (fpins s)) 16
      \<or> n = 21 \<and> dir_lower (fpins s) = 0xffffffff \<or> n = 17 \<and> requested (fpins s) \<and> fwait s = 0)" for n
    by (auto simp: fpga_upper_def bit_simps bits_bit v)
  show "fpga_upper s AND Bits_RequestBus = out_upper (fpins s) AND Bits_RequestBus"
    by (rule bit_word_eqI) (auto simp: bit_simps b bits_bit)
  have single: "(u AND Bits_OpDone = 0) = (\<not> bit u 17)" "(u AND Bits_Write = 0) = (\<not> bit u 21)"
    for u :: word32
    using and_push_bit_eq_0 [of u 17] and_push_bit_eq_0 [of u 21] by (simp_all add: bits_defs)
  show "(fpga_upper s AND Bits_Write = 0) = (dir_lower (fpins s) \<noteq> 0xffffffff)"
    "(fpga_upper s AND Bits_OpDone = 0) = (\<not> (requested (fpins s) \<and> fwait s = 0))"
    by (simp_all add: single b)
qed

lemma emio_sim_In32:
  "In32 (emio_sim lag) Reg_InputUpper s = (fpga_upper s,
     s\<lparr>fpins := (fpins s)\<lparr>done_pin := requested (fpins s) \<and> fwait s = 0\<rparr>, fwait := fwait s - 1\<rparr>)"
  "In32 (emio_sim lag) Reg_InputLower s = (fregs s (ucast (out_upper (fpins s))), s)"
  by (simp_all add: In32_def emio_sim_def fpga_in_def reg_defs)

lemma emio_sim_Out32:
  "Out32 (emio_sim lag) Reg_DirLower v s = s\<lparr>fpins := (fpins s)\<lparr>dir_lower := v\<rparr>\<rparr>"
  "Out32 (emio_sim lag) Reg_OutEnLower v s = s"
  "Out32 (emio_sim lag) Reg_OutputLower v s = s\<lparr>fpins := (fpins s)\<lparr>out_lower := v\<rparr>\<rparr>"
  "Out32 (emio_sim lag) Reg_OutputUpper v s = fpga_out lag (0xE000A000 + Reg_OutputUpper) v s"
  by (simp_all add: Out32_def emio_sim_def fpga_out_def reg_defs)

lemma emio_sim_polls:
  "requested (fpins s) \<Longrightarrow> requested (fpins (polls (emio_sim lag) k s))
     \<and> fwait (polls (emio_sim lag) k s) = fwait s - k"
  by (induction k) (auto simp: emio_sim_In32 requested_def)

lemma emio_sim_device: "emio_device (emio_sim lag) fpins fregs"
proof -
  have "\<exists>k. done_at (emio_sim lag) k s" if "requested (fpins s)" for s
  proof
    show "done_at (emio_sim lag) (fwait s) s"
      using emio_sim_polls [OF that, of lag "fwait s"]
      by (simp add: done_at_def emio_sim_In32 fpga_upper_bits)
  qed
  then show ?thesis
    by (simp add: emio_device_def emio_sim_In32 emio_sim_Out32 fpga_upper_bits)
      (simp add: fpga_out_def reg_defs)
qed

lemma emio_sim_inert: "init_inert (emio_sim lag) fpins fregs"
  by (simp add: init_inert_def Out32_def emio_sim_def fpga_out_def reg_defs)

lemma emio_sim_ready: "emio_ready (emio_sim lag) fpins fregs (fpga_reset r)"
  by (simp add: emio_ready_def emio_sim_device fpga_reset_def requested_def)

lemma device_responsive:
  assumes "emio_device P pins rg"
  shows "responsive P"
  unfolding responsive_def
  using emio_deviceD(7) [OF assms] emio_deviceD(16) [OF assms] by (simp add: requested_def)

lemmas emio_sim_responsive = device_responsive [OF emio_sim_device]

lemma emio_sim_version: "fst (EMIO_GetVersion (emio_sim lag) (fpga_reset r)) = 1"
  by (simp add: EMIO_GetVersion_def emio_sim_In32 fpga_upper_def fpga_reset_def requested_def version_1_def bits_defs)

lemma emio_sim_output:
  "fst (setDataOutput (emio_sim lag) (snd (EMIO_GetVersion (emio_sim lag) (fpga_reset r))))"
  by (simp add: setDataOutput_def Let_def case_prod_beta EMIO_GetVersion_def emio_sim_In32 emio_sim_Out32 fpga_upper_def
      fpga_reset_def requested_def version_1_def upper_mask_def bits_defs)

lemma emio_sim_input:
  "fst (setDataInput (emio_sim lag) (snd (EMIO_GetVersion (emio_sim lag) (fpga_reset r))))"
  by (simp add: setDataInput_def Let_def case_prod_beta EMIO_GetVersion_def emio_sim_In32 emio_sim_Out32 fpga_upper_def
      fpga_reset_def requested_def version_1_def upper_mask_def bits_defs)

section \<open>What the driver promises\<close>

text \<open>Reading a quadlet through the EMIO lines reads the addressed FPGA register: on firmware
  that honours the interface and from any state with no request pending, \<open>EMIO_ReadQuadlet\<close>
  returns, succeeds with the register's value, changes no register and leaves no request pending.\<close>

theorem EMIO_ReadQuadlet_reads:
  assumes "emio_ready P pins rg h"
  shows "\<exists>h'. EMIO_ReadQuadlet P addr h = Some (Some (rg h addr), h')
    \<and> emio_ready P pins rg h' \<and> rg h' = rg h"
  using assms by (rule emio.read_ok)

lemma EMIO_ReadQuadlet_reads_witness:
  "\<exists>h'. EMIO_ReadQuadlet (emio_sim 7) 4 (fpga_reset (\<lambda>a. 0x42434643 + ucast a))
     = Some (Some 0x42434647, h') \<and> emio_ready (emio_sim 7) fpins fregs h'"
  using EMIO_ReadQuadlet_reads [OF emio_sim_ready [of 7 "\<lambda>a. 0x42434643 + ucast a"], of 4]
  by (auto simp: fpga_reset_def)

text \<open>Writing a quadlet through the EMIO lines stores it in the addressed FPGA register and
  nowhere else: on firmware that honours the interface and from any state with no request pending,
  \<open>EMIO_WriteQuadlet\<close> returns true, updates exactly that register and leaves no request pending.\<close>

theorem EMIO_WriteQuadlet_writes:
  assumes "emio_ready P pins rg h"
  shows "\<exists>h'. EMIO_WriteQuadlet P addr data h = Some (True, h')
    \<and> emio_ready P pins rg h' \<and> rg h' = (rg h)(addr := data)"
  using assms by (rule emio.write_ok)

lemma EMIO_WriteQuadlet_writes_witness:
  "\<exists>h'. EMIO_WriteQuadlet (emio_sim 7) 12 0x02010000 (fpga_reset (\<lambda>a. 0)) = Some (True, h')
     \<and> fregs h' 12 = 0x02010000 \<and> fregs h' 13 = 0"
  using EMIO_WriteQuadlet_writes [OF emio_sim_ready [of 7 "\<lambda>a. 0"], of 12 "0x02010000"]
  by (auto simp: fpga_reset_def)

lemma prom_stored:
  assumes "emio_ready P pins rg h"
  shows "\<exists>h'. EMIO_WritePromData P swap data nBytes h = Some (True, h') \<and> emio_ready P pins rg h'
    \<and> (\<forall>a. rg h' a = (if unat (a - 0x2000) < unat (ucast ((nBytes + 3) div 4) :: word16)
                      then swap (le32 data (unat (a - 0x2000) * 4)) else rg h a))"
proof -
  let ?n = "unat (ucast ((nBytes + 3) div 4) :: word16)"
  have "?n < 2 ^ LENGTH(16)" by (rule unsigned_less)
  then have "?n \<le> 2 ^ 16" by simp
  with emio.prom_loop [OF assms, of swap data ?n 0] show ?thesis
    by (auto simp: EMIO_WritePromData_def Let_def fold_upd_prom)
qed

text \<open>Copying bytes to the PROM registers stores them all: on ready firmware
  \<open>EMIO_WritePromData\<close> returns true, and afterwards register \<open>0x2000 + k\<close> holds the \<open>k\<close>-th
  word of the buffer (byte-swapped) for every \<open>k\<close> below the 16-bit quadlet count, while every other
  register is unchanged.\<close>

theorem EMIO_WritePromData_stores:
  assumes "emio_ready P pins rg h"
  shows "\<exists>h'. EMIO_WritePromData P swap data nBytes h = Some (True, h') \<and> emio_ready P pins rg h'
    \<and> (\<forall>a. rg h' a = (if unat (a - 0x2000) < unat (ucast ((nBytes + 3) div 4) :: word16)
                      then swap (le32 data (unat (a - 0x2000) * 4)) else rg h a))"
  by (rule prom_stored [OF assms])

lemma EMIO_WritePromData_stores_witness:
  "\<exists>h'. EMIO_WritePromData (emio_sim 3) (\<lambda>w. w) (\<lambda>k. of_nat k) 16 (fpga_reset (\<lambda>a. 9)) = Some (True, h')
     \<and> fregs h' 0x2003 = 0x0F0E0D0C \<and> fregs h' 0x2004 = 9"
proof -
  obtain h' where h': "EMIO_WritePromData (emio_sim 3) (\<lambda>w. w) (\<lambda>k. of_nat k) 16 (fpga_reset (\<lambda>a. 9))
      = Some (True, h')"
    "\<forall>a. fregs h' a = (if unat (a - 0x2000) < 4 then le32 (\<lambda>k. of_nat k) (unat (a - 0x2000) * 4)
       else 9)"
    using EMIO_WritePromData_stores [OF emio_sim_ready [of 3 "\<lambda>a. 9"],
      of "\<lambda>w. w" "\<lambda>k. of_nat k" 16]
    by (auto simp: fpga_reset_def)
  from h'(2) [rule_format, of "0x2003"] h'(2) [rule_format, of "0x2004"] have
    "fregs h' 0x2003 = 0x0F0E0D0C" "fregs h' 0x2004 = 9" by (simp_all add: le32_def)
  with h'(1) show ?thesis by blast
qed

text \<open>C10. On firmware that answers every request (after each write of a word with the bus request to
  the output register, polling eventually sees \<open>op_done\<close>), with interface version 1 and
  \<open>setDataOutput\<close> successful,
  \<open>EMIO_WriteBlock\<close> succeeds, and its writes are exactly: turn the lines round; for each quadlet
  \<open>q < n\<close> the data word and then the output word carrying the base address, the bus request,
  block-start (block-end instead on the last quadlet) and the parity of \<open>addr + q\<close> in the LSB
  line; finally 0, which releases the bus. \<open>n\<close> is the byte count rounded up to quadlets.\<close>

theorem EMIO_WriteBlock_trace:
  assumes resp: "responsive P" and ver: "fst (EMIO_GetVersion P h) = 1"
    and dir: "fst (setDataOutput P (snd (EMIO_GetVersion P h)))"
  shows "\<exists>h'. EMIO_WriteBlock (traced P) a data nBytes (h, []) = Some (True, (h',
      [(gpio_base P + Reg_DirLower, 0xffffffff), (gpio_base P + Reg_OutEnLower, 0xffffffff)]
      @ block_write_log P a data (unat (blk_nQuads nBytes)) (unat (blk_nQuads nBytes))
      @ [(gpio_base P + Reg_OutputUpper, 0)]))"
  by (rule block_write_traced [OF assms])

lemma EMIO_WriteBlock_trace_witness:
  "\<exists>h'. EMIO_WriteBlock (traced (emio_sim 7)) 0x1001 (\<lambda>q. 0xA0 + of_nat q) 8 (fpga_reset (\<lambda>a. 0), []) = Some (True, (h',
     [(0xE000A284, 0xffffffff), (0xE000A288, 0xffffffff),
      (0xE000A048, 0xA0), (0xE000A04C, 0x00891001),
      (0xE000A048, 0xA1), (0xE000A04C, 0x00111001),
      (0xE000A04C, 0)]))"
  using EMIO_WriteBlock_trace [OF emio_sim_responsive emio_sim_version emio_sim_output,
      where a = "0x1001" and data = "\<lambda>q. 0xA0 + of_nat q" and nBytes = 8]
  by (simp add: block_write_log_def blk_word_def blk_nQuads_def bits_defs reg_defs
      emio_sim_def upt_rec)

text \<open>C11. On firmware that answers every request (after each write of a word with the bus request to
  the output register, polling eventually sees \<open>op_done\<close>), with interface version 1 and
  \<open>setDataInput\<close> successful,
  \<open>EMIO_ReadBlock\<close> succeeds with one data word per quadlet, and its writes are exactly: turn the
  lines to input; for each quadlet the output word of the block protocol; finally 0.\<close>

theorem EMIO_ReadBlock_trace:
  assumes resp: "responsive P" and ver: "fst (EMIO_GetVersion P h) = 1"
    and dir: "fst (setDataInput P (snd (EMIO_GetVersion P h)))"
  shows "\<exists>ds h'. EMIO_ReadBlock (traced P) a nBytes (h, []) = Some (Some ds, (h',
      [(gpio_base P + Reg_DirLower, 0)]
      @ block_read_log P a (unat (blk_nQuads nBytes)) (unat (blk_nQuads nBytes))
      @ [(gpio_base P + Reg_OutputUpper, 0)]))
    \<and> length ds = unat (blk_nQuads nBytes)"
  by (rule block_read_traced [OF assms])

lemma EMIO_ReadBlock_trace_witness:
  "\<exists>ds h'. EMIO_ReadBlock (traced (emio_sim 7)) 0x1000 5 (fpga_reset (\<lambda>a. 0), []) = Some (Some ds, (h',
     [(0xE000A284, 0), (0xE000A04C, 0x00091000), (0xE000A04C, 0x00911000), (0xE000A04C, 0)]))
   \<and> length ds = 2"
  using EMIO_ReadBlock_trace [OF emio_sim_responsive emio_sim_version emio_sim_input,
      where a = "0x1000" and nBytes = 5]
  by (simp add: block_read_log_def blk_word_def blk_nQuads_def bits_defs reg_defs
      emio_sim_def upt_rec)

end
