(* ===== verification/EmioGpiodProps.thy ===== *)
theory EmioGpiodProps
  imports EmioGpiod EmioDevice
begin

text \<open>
  Properties of the libgpiod driver: the line values of a word and back, what the block writes do
  with their first quadlet and with the LSB line, and the register-file interface of theory
  \<open>EmioDevice\<close>, which this driver provides like the other two.
\<close>

section \<open>Words and line values\<close>

lemma data_values_nth:
  "i < 32 \<Longrightarrow> data_values d ! i = (if bit d (31 - i) then 1 else 0)"
proof -
  assume i: "i < 32"
  have "bit (drop_bit i (0x80000000 :: word32)) n = (n = 31 - i)" for n
    using bit_single [of 31 "n + i"] i by (auto simp: bit_drop_bit_eq add.commute)
  then have "(d AND drop_bit i 0x80000000 \<noteq> 0) = bit d (31 - i)"
    by (auto simp: bit_eq_iff [of "d AND drop_bit i 0x80000000"] bit_and_iff)
  then show ?thesis using i by (simp add: data_values_def)
qed

lemma addr_values_nth:
  "i < 16 \<Longrightarrow> addr_values a ! i = (if bit a (15 - i) then 1 else 0)"
proof -
  assume i: "i < 16"
  have single: "bit (push_bit k (1 :: word16)) n = (n = k \<and> k < 16)" for k n
    by (auto simp: bit_simps)
  have "bit (0x8000 :: word16) n = (n = 15)" for n
    using single [of 15 n] by simp
  then have b: "bit (a AND drop_bit i 0x8000) n = (bit a n \<and> n = 15 - i)" for n
    using i unfolding bit_and_iff bit_drop_bit_eq comp_def by fastforce
  have "(a AND drop_bit i 0x8000 \<noteq> 0) = bit a (15 - i)"
    unfolding bit_eq_iff [of _ 0] b by (auto dest: bit_imp_le_length)
  then show ?thesis using i by (simp add: addr_values_def)
qed

text \<open>The loop that collects the first \<open>n\<close> of \<open>N\<close> lines yields the top \<open>n\<close> bits.\<close>

lemma from_values_upto:
  assumes vals: "\<And>i. i < N \<Longrightarrow> vals ! i = (if bit d (N - Suc i) then 1 else 0)" and N: "N \<le> 32" "drop_bit N d = 0"
  shows "n \<le> N \<Longrightarrow> from_values n vals = drop_bit (N - n) d"
proof (induction n)
  case 0
  show ?case using N(2) by (simp add: from_values_def)
next
  case (Suc n)
  have "from_values (Suc n) vals = push_bit 1 (from_values n vals) OR of_int (vals ! n)"
    by (simp add: from_values_def)
  also have "\<dots> = drop_bit (N - Suc n) d"
  proof (rule bit_word_eqI)
    fix m assume m: "m < LENGTH(32)"
    have v: "vals ! n = (if bit d (N - Suc n) then 1 else 0)" using Suc.prems by (simp add: vals)
    have n: "N - n = Suc (N - Suc n)" using Suc.prems by simp
    show "bit (push_bit 1 (from_values n vals) OR of_int (vals ! n)) m = bit (drop_bit (N - Suc n) d) m"
    proof (cases m)
      case 0
      then show ?thesis unfolding v by (simp add: bit_or_iff bit_drop_bit_eq bit_0 even_or_iff)
    next
      case (Suc k)
      moreover have "bit (from_values n vals) k = bit d (Suc (N - Suc n) + k)"
        using Suc.IH Suc.prems by (simp add: bit_drop_bit_eq n)
      ultimately show ?thesis
        using m unfolding v bit_or_iff bit_push_bit_iff bit_drop_bit_eq comp_def by (simp add: bit_1_iff)
    qed
  qed
  finally show ?case .
qed

lemma from_data_values: "from_values 32 (data_values d) = d"
proof -
  have "drop_bit 32 d = 0" by (rule bit_word_eqI) (simp add: bit_drop_bit_eq)
  then show ?thesis using from_values_upto [of 32 "data_values d" d 32] by (simp add: data_values_nth)
qed

lemma from_addr_values: "from_values 16 (addr_values a) = ucast a"
proof -
  have "drop_bit 16 (ucast a :: word32) = 0"
    by (rule bit_word_eqI) (auto simp: bit_drop_bit_eq bit_simps dest: bit_imp_le_length)
  then show ?thesis
    using from_values_upto [of 16 "addr_values a" "ucast a" 16] by (simp add: addr_values_nth bit_simps)
qed

text \<open>The order of the lines is right in both directions: reading the values that
  \<open>WriteQuadlet\<close> puts on the 32 data lines back with \<open>ReadQuadlet\<close>'s loop gives the word, and the
  16 address lines carry the address.\<close>

theorem data_lines_roundtrip:
  "from_values 32 (data_values d) = d \<and> (ucast (from_values 16 (addr_values a)) :: word16) = a"
proof -
  have "ucast (ucast a :: word32) = a" by (rule bit_word_eqI) (auto simp: bit_simps)
  then show ?thesis by (simp add: from_data_values from_addr_values)
qed

section \<open>The first quadlet of a block\<close>

lemma write_quads_first:
  "0 < q \<Longrightarrow> gpiod_write_quads G (data(0 := x)) nQuads left q lsb e = gpiod_write_quads G data nQuads left q lsb e"
  by (induction left arbitrary: q lsb e) (simp_all add: Let_def cong: if_cong prod.case_cong)

section \<open>The LSB line\<close>

text \<open>
  \<open>lsb_logged G\<close> is the library with a log of the values written to the LSB line. \<open>logs Q f\<close>: the
  library call \<open>f\<close> keeps a property of the log.
\<close>

definition lift_log :: "('h \<Rightarrow> 'r \<times> 'h) \<Rightarrow> 'h \<times> 'l list \<Rightarrow> 'r \<times> 'h \<times> 'l list" where
  "lift_log f = (\<lambda>(h, t). (fst (f h), snd (f h), t))"

definition lift_run :: "('h \<Rightarrow> 'h) \<Rightarrow> 'h \<times> 'l list \<Rightarrow> 'h \<times> 'l list" where
  "lift_run f = (\<lambda>(h, t). (f h, t))"

definition lsb_logged :: "'h gpiolib \<Rightarrow> ('h \<times> int list) gpiolib" where
  "lsb_logged G = \<lparr>chip_open = lift_log (chip_open G), chip_close = lift_run (chip_close G),
     chip_get_lines = (\<lambda>ls. lift_log (chip_get_lines G ls)), chip_get_line = (\<lambda>l. lift_log (chip_get_line G l)),
     request_bulk_input = (\<lambda>ls. lift_log (request_bulk_input G ls)),
     request_bulk_output = (\<lambda>ls vs. lift_log (request_bulk_output G ls vs)),
     request_output = (\<lambda>l v. lift_log (request_output G l v)), request_input = (\<lambda>l. lift_log (request_input G l)),
     request_rising = (\<lambda>l. lift_log (request_rising G l)),
     release_bulk = (\<lambda>ls. lift_run (release_bulk G ls)), release_line = (\<lambda>l. lift_run (release_line G l)),
     set_direction_input_bulk = (\<lambda>ls. lift_log (set_direction_input_bulk G ls)),
     set_direction_output_bulk = (\<lambda>ls vs. lift_log (set_direction_output_bulk G ls vs)),
     get_value_bulk = (\<lambda>ls. lift_log (get_value_bulk G ls)), set_value_bulk = (\<lambda>ls vs. lift_log (set_value_bulk G ls vs)),
     get_value = (\<lambda>l. lift_log (get_value G l)),
     set_value = (\<lambda>l v (h, t). let r = set_value G l v h
        in (fst r, snd r, if l = addr_lsb_line then t @ [v] else t)),
     event_wait = (\<lambda>l ts. lift_log (event_wait G l ts)), event_read = (\<lambda>l. lift_log (event_read G l)),
     gclock = lift_log (gclock G)\<rparr>"

definition nonzero_log :: "('h \<times> int list) gemio \<Rightarrow> bool" where
  "nonzero_log e \<longleftrightarrow> 0 \<notin> set (snd (dev e))"

lemma nonzero_upd [simp]:
  "nonzero_log (e\<lparr>isInput := b\<rparr>) = nonzero_log e" "nonzero_log (e\<lparr>startTime := t\<rparr>) = nonzero_log e"
  "nonzero_log (e\<lparr>endTime := t\<rparr>) = nonzero_log e"
  by (simp_all add: nonzero_log_def)

lemma nonzero_calls [simp]:
  "nonzero_log (snd (call (set_value_bulk (lsb_logged G) ls vs) e)) = nonzero_log e"
  "nonzero_log (snd (call (set_direction_output_bulk (lsb_logged G) ls vs) e)) = nonzero_log e"
  "nonzero_log (snd (call (get_value (lsb_logged G) l) e)) = nonzero_log e"
  "nonzero_log (snd (call (event_wait (lsb_logged G) l ts) e)) = nonzero_log e"
  "nonzero_log (snd (call (event_read (lsb_logged G) l) e)) = nonzero_log e"
  "nonzero_log (snd (GetCurTime (gclock (lsb_logged G)) e)) = nonzero_log e"
  "nonzero_log (snd (call (set_value (lsb_logged G) l v) e)) = (nonzero_log e \<and> (l = addr_lsb_line \<longrightarrow> v \<noteq> 0))"
  by (auto simp: nonzero_log_def call_def lsb_logged_def lift_log_def GetCurTime_def case_prod_beta Let_def)

lemma lines_distinct [simp]: "req_bus_line \<noteq> addr_lsb_line"
  by (simp add: req_bus_line_def addr_lsb_line_def)

lemmas lines_distinct_sym [simp] = lines_distinct [symmetric]

lemma nonzero_helpers [simp]:
  "nonzero_log (release_bus (lsb_logged G) e) = nonzero_log e" "nonzero_log (gstamp (lsb_logged G) e) = nonzero_log e"
  "nonzero_log (gtime_start (lsb_logged G) e) = nonzero_log e" "nonzero_log (gtime_end (lsb_logged G) e) = nonzero_log e"
  by (simp_all add: release_bus_def do_call_def gstamp_def gtime_start_def gtime_end_def set_startTime_def set_endTime_def
      case_prod_beta Let_def)

lemma poll_value_keeps:
  assumes step: "\<And>e. I e \<Longrightarrow> I (snd (call (get_value G op_done_line) e))" "\<And>e. I e \<Longrightarrow> I (snd (GetCurTime (gclock G) e))"
  shows "poll_value G ws val dt e = Some (v, e') \<Longrightarrow> I e \<Longrightarrow> I e'"
proof -
  assume ret: "poll_value G ws val dt e = Some (v, e')" and e: "I e"
  have "G = G \<longrightarrow> I e \<longrightarrow> I (snd (v, e'))"
  proof (rule poll_value.raw_induct [where P = "\<lambda>H ws val dt e y. H = G \<longrightarrow> I e \<longrightarrow> I (snd y)", OF _ ret], intro impI)
    fix f H ws val dt e y
    assume IH: "\<And>ws val dt e b y. f ws val dt e b = Some y \<Longrightarrow> ws = G \<longrightarrow> I b \<longrightarrow> I (snd y)"
      and eq: "(if val \<le> 0 \<and> dt < timeout_us e
        then let (v, e) = call (get_value H op_done_line) e; (t, e) = GetCurTime (gclock H) e
             in f H ws v (TimeDiff_us ws t) e
        else Some (val, e)) = Some y" and H: "H = G" and e: "I e"
    show "I (snd y)"
    proof (cases "val \<le> 0 \<and> dt < timeout_us e")
      case True
      let ?e2 = "snd (GetCurTime (gclock G) (snd (call (get_value G op_done_line) e)))"
      have "I ?e2" using step e by blast
      then show ?thesis using eq True IH H by (auto simp: case_prod_beta Let_def)
    next
      case False
      then show ?thesis using eq e by auto
    qed
  qed
  then show ?thesis using e by simp
qed

lemma wait_keeps:
  assumes "\<And>e. I e \<Longrightarrow> I (snd (call (get_value G op_done_line) e))" "\<And>e. I e \<Longrightarrow> I (snd (GetCurTime (gclock G) e))"
    and "\<And>e ts. I e \<Longrightarrow> I (snd (call (event_wait G op_done_line ts) e))"
    "\<And>e. I e \<Longrightarrow> I (snd (call (event_read G op_done_line) e))"
    and ret: "WaitOpDone_gpiod G e = Some (ok, e')" and e: "I e"
  shows "I e'"
proof (cases "useEvents e")
  case True
  then show ?thesis
    using ret assms(3) [OF e] assms(4) by (auto simp: WaitOpDone_gpiod_def case_prod_beta Let_def split: if_splits)
next
  case False
  let ?c = "call (get_value G op_done_line) e"
  show ?thesis
  proof (cases "fst ?c \<le> 0")
    case True
    let ?t = "GetCurTime (gclock G) (snd ?c)"
    obtain v where "poll_value G (fst ?t) (fst ?c) 0 (snd ?t) = Some (v, e')"
      using ret False True by (auto simp: WaitOpDone_gpiod_def case_prod_beta Let_def bind_eq_Some_conv)
    from poll_value_keeps [of I, OF assms(1,2) this] show ?thesis using assms(1,2) e by blast
  next
    case pos: False
    then show ?thesis using ret False assms(1) [OF e] by (auto simp: WaitOpDone_gpiod_def case_prod_beta Let_def)
  qed
qed

lemma wait_nonzero: "WaitOpDone_gpiod (lsb_logged G) e = Some (ok, e') \<Longrightarrow> nonzero_log e \<Longrightarrow> nonzero_log e'"
  by (erule wait_keeps [where I = nonzero_log, rotated -2]) simp_all

lemma not_cycle: "lsb \<in> {1, -2} \<Longrightarrow> NOT lsb \<in> {1, -2 :: int}" "lsb \<in> {1, -2} \<Longrightarrow> lsb \<noteq> (0 :: int)"
  by (auto simp: not_int_def)

lemma write_quads_nonzero:
  "\<lbrakk>gpiod_write_quads (lsb_logged G) data n left q lsb e = Some (ok, e'); lsb \<in> {1, -2}; nonzero_log e\<rbrakk> \<Longrightarrow> nonzero_log e'"
proof (induction left arbitrary: q lsb e)
  case (Suc left)
  let ?e1 = "do_call (set_value_bulk (lsb_logged G) data_lines (data_values (bswap_32 (data q)))) e"
  let ?e2 = "if q = n - 1 then do_call (set_value_bulk (lsb_logged G) ctrl_lines ctrl_end) ?e1 else ?e1"
  have l: "NOT lsb \<in> {1, -2}" "NOT lsb \<noteq> 0" using not_cycle Suc.prems(2) by blast+
  have n2: "nonzero_log (snd (step_lsb (lsb_logged G) (NOT lsb) ?e2))"
    using Suc.prems(3) l(2) by (simp add: step_lsb_def do_call_def case_prod_beta Let_def)
  show ?case
  proof (cases "fst (step_lsb (lsb_logged G) (NOT lsb) ?e2)")
    case False
    then show ?thesis using Suc.prems(1) n2 by (auto simp: case_prod_beta Let_def)
  next
    case True
    then obtain ok' e3 where e3: "WaitOpDone_gpiod (lsb_logged G) (snd (step_lsb (lsb_logged G) (NOT lsb) ?e2)) = Some (ok', e3)"
      "(if \<not> ok' then Some (False, release_bus (lsb_logged G) e3)
        else gpiod_write_quads (lsb_logged G) data n left (Suc q) (NOT lsb) e3) = Some (ok, e')"
      using Suc.prems(1) by (auto simp: case_prod_beta Let_def bind_eq_Some_conv cong: if_cong)
    have "nonzero_log e3" by (rule wait_nonzero [OF e3(1) n2])
    then show ?thesis using e3(2) Suc.IH [of "Suc q" "NOT lsb" e3] l(1) by (auto split: if_splits)
  qed
qed simp

text \<open>A block write from an odd address cannot toggle the LSB line: every value that
  \<open>WriteBlock\<close> writes to it is nonzero (1, -2, 1, \<dots>, from \<open>~\<close> on an \<open>int\<close>), that is, high, although
  the line has to change for the firmware to take the next quadlet.\<close>

theorem WriteBlock_gpiod_odd_lsb:
  assumes odd: "odd (unat a)" and log: "snd (dev e) = []"
    and ret: "WriteBlock_gpiod (lsb_logged G) a data nBytes e = Some (ok, e')"
  shows "0 \<notin> set (snd (dev e'))"
proof -
  let ?G = "lsb_logged G"
  have "bit a 0" using odd by (simp add: bit_0 odd_unat)
  then have a15: "addr_values a ! 15 = 1" by (simp add: addr_values_nth)
  have n0: "nonzero_log e" using log by (simp add: nonzero_log_def)
  have quads: "gpiod_write_quads ?G data n left q 1 e1 = Some (ok, e2) \<Longrightarrow> nonzero_log e1 \<Longrightarrow> nonzero_log e2" for n left q e1 ok e2
    by (erule write_quads_nonzero) simp
  have "nonzero_log e'"
    using ret n0 unfolding WriteBlock_gpiod_def a15
    by (auto simp: case_prod_beta Let_def bind_eq_Some_conv do_call_def split: if_splits dest!: wait_nonzero quads)
  then show ?thesis by (simp add: nonzero_log_def)
qed

section \<open>A library that always succeeds\<close>

definition easy_lib :: "unit gpiolib" where
  "easy_lib = \<lparr>chip_open = Pair True, chip_close = id, chip_get_lines = (\<lambda>ls. Pair 0), chip_get_line = (\<lambda>l. Pair True),
     request_bulk_input = (\<lambda>ls. Pair 0), request_bulk_output = (\<lambda>ls vs. Pair 0), request_output = (\<lambda>l v. Pair 0),
     request_input = (\<lambda>l. Pair 0), request_rising = (\<lambda>l. Pair 0), release_bulk = (\<lambda>ls. id), release_line = (\<lambda>l. id),
     set_direction_input_bulk = (\<lambda>ls. Pair 0), set_direction_output_bulk = (\<lambda>ls vs. Pair 0),
     get_value_bulk = (\<lambda>ls. Pair (0, replicate (length ls) 0)), set_value_bulk = (\<lambda>ls vs. Pair 0),
     get_value = (\<lambda>l. Pair 1), set_value = (\<lambda>l v. Pair 0), event_wait = (\<lambda>l t. Pair 1), event_read = (\<lambda>l. Pair 0),
     gclock = Pair \<lparr>tv_sec = 0, tv_nsec = 0\<rparr>\<rparr>"

definition easy_object :: "bool \<Rightarrow> 'h \<Rightarrow> 'h gemio" where
  "easy_object inp h = (gemio_base h)\<lparr>info := True, isInput := inp, version := 1\<rparr>"

lemmas easy_defs = easy_lib_def easy_object_def gemio_base_def iface_init_def iface.defs gemio.defs

lemma easy_wait:
  "WaitOpDone_gpiod (lsb_logged easy_lib) e = Some (True, e)"
  by (cases "dev e") (simp add: WaitOpDone_gpiod_def call_def lsb_logged_def easy_lib_def lift_log_def Let_def)

lemma easy_calls:
  "do_call (set_value_bulk (lsb_logged easy_lib) ls vs) e = e"
  "do_call (set_value (lsb_logged easy_lib) l v) e = e\<lparr>dev := (fst (dev e), snd (dev e) @ (if l = addr_lsb_line then [v] else []))\<rparr>"
  "call (set_value (lsb_logged easy_lib) l v) e = (0, e\<lparr>dev := (fst (dev e), snd (dev e) @ (if l = addr_lsb_line then [v] else []))\<rparr>)"
  "call (set_direction_output_bulk (lsb_logged easy_lib) ls vs) e = (0, e)"
  by (cases "dev e"; simp add: do_call_def call_def lsb_logged_def easy_lib_def lift_log_def Let_def)+

lemma WriteBlock_gpiod_odd_lsb_witness:
  "\<exists>e'. WriteBlock_gpiod (lsb_logged easy_lib) 0x1001 (\<lambda>q. of_nat q) 12 (easy_object True ((), [])) = Some (True, e')
    \<and> snd (dev e') = [1, -2, 1] \<and> 0 \<notin> set (snd (dev e'))"
proof -
  have a: "addr_values 0x1001 ! 15 = 1" by (simp add: addr_values_nth)
  have n: "unat ((12 + 3 :: word32) div 4) = 3" by simp
  have two: "gpiod_write_quads G d 3 2 = gpiod_write_quads G d 3 (Suc (Suc 0))" for G and d :: "nat \<Rightarrow> word32"
    by (simp add: numeral_2_eq_2)
  have "\<exists>e'. WriteBlock_gpiod (lsb_logged easy_lib) 0x1001 (\<lambda>q. of_nat q) 12 (easy_object True ((), [])) = Some (True, e')
    \<and> snd (dev e') = [1, -2, 1]"
    unfolding WriteBlock_gpiod_def a n
    by (simp add: easy_calls easy_wait gtime_start_def gtime_end_def gstamp_def release_bus_def
      step_lsb_def two easy_object_def gemio_base_def iface_init_def iface.defs gemio.defs Let_def)
  then show ?thesis
    using WriteBlock_gpiod_odd_lsb [of "0x1001" "easy_object True ((), [])" easy_lib "\<lambda>q. of_nat q" 12 True]
    by (auto simp: easy_object_def gemio_base_def iface_init_def iface.defs gemio.defs)
qed

section \<open>The data and request lines during a block write\<close>

text \<open>
  \<open>data_logged G\<close> is the library with a log of what is put on the data lines and on the request line,
  in order.
\<close>

datatype line_event = On_data "int list" | On_request int

definition data_logged :: "'h gpiolib \<Rightarrow> ('h \<times> line_event list) gpiolib" where
  "data_logged G = \<lparr>chip_open = lift_log (chip_open G), chip_close = lift_run (chip_close G),
     chip_get_lines = (\<lambda>ls. lift_log (chip_get_lines G ls)), chip_get_line = (\<lambda>l. lift_log (chip_get_line G l)),
     request_bulk_input = (\<lambda>ls. lift_log (request_bulk_input G ls)),
     request_bulk_output = (\<lambda>ls vs (h, t). let r = request_bulk_output G ls vs h
        in (fst r, snd r, if ls = data_lines then t @ [On_data vs] else t)),
     request_output = (\<lambda>l v (h, t). let r = request_output G l v h
        in (fst r, snd r, if l = req_bus_line then t @ [On_request v] else t)),
     request_input = (\<lambda>l. lift_log (request_input G l)),
     request_rising = (\<lambda>l. lift_log (request_rising G l)),
     release_bulk = (\<lambda>ls. lift_run (release_bulk G ls)), release_line = (\<lambda>l. lift_run (release_line G l)),
     set_direction_input_bulk = (\<lambda>ls. lift_log (set_direction_input_bulk G ls)),
     set_direction_output_bulk = (\<lambda>ls vs (h, t). let r = set_direction_output_bulk G ls vs h
        in (fst r, snd r, if ls = data_lines then t @ [On_data vs] else t)),
     get_value_bulk = (\<lambda>ls. lift_log (get_value_bulk G ls)),
     set_value_bulk = (\<lambda>ls vs (h, t). let r = set_value_bulk G ls vs h
        in (fst r, snd r, if ls = data_lines then t @ [On_data vs] else t)),
     get_value = (\<lambda>l. lift_log (get_value G l)),
     set_value = (\<lambda>l v (h, t). let r = set_value G l v h
        in (fst r, snd r, if l = req_bus_line then t @ [On_request v] else t)),
     event_wait = (\<lambda>l ts. lift_log (event_wait G l ts)), event_read = (\<lambda>l. lift_log (event_read G l)),
     gclock = lift_log (gclock G)\<rparr>"

definition line_log :: "('h \<times> line_event list) gemio \<Rightarrow> line_event list" where
  "line_log e = snd (dev e)"

lemma line_log_upd [simp]:
  "line_log (e\<lparr>isInput := b\<rparr>) = line_log e" "line_log (e\<lparr>startTime := t\<rparr>) = line_log e"
  "line_log (e\<lparr>endTime := t\<rparr>) = line_log e"
  by (simp_all add: line_log_def)

lemma data_lines_distinct [simp]: "addr_lines \<noteq> data_lines" "ctrl_lines \<noteq> data_lines"
proof -
  have "length data_lines = 32" "length addr_lines = 16" by (simp_all add: data_lines_def addr_lines_def)
  then show "addr_lines \<noteq> data_lines" by auto
  have "length data_lines = 32" "length ctrl_lines \<noteq> 32" by (simp_all add: data_lines_def ctrl_lines_def)
  then show "ctrl_lines \<noteq> data_lines" by auto
qed

lemma line_log_calls [simp]:
  "line_log (snd (call (set_value_bulk (data_logged G) ls vs) e)) = line_log e @ (if ls = data_lines then [On_data vs] else [])"
  "line_log (snd (call (get_value (data_logged G) l) e)) = line_log e"
  "line_log (snd (call (event_wait (data_logged G) l ts) e)) = line_log e"
  "line_log (snd (call (event_read (data_logged G) l) e)) = line_log e"
  "line_log (snd (GetCurTime (gclock (data_logged G)) e)) = line_log e"
  "line_log (snd (call (set_value (data_logged G) l v) e)) = line_log e @ (if l = req_bus_line then [On_request v] else [])"
  by (auto simp: line_log_def call_def data_logged_def lift_log_def GetCurTime_def case_prod_beta Let_def)

lemma line_log_helpers [simp]:
  "line_log (release_bus (data_logged G) e) = line_log e @ [On_request 0]" "line_log (gstamp (data_logged G) e) = line_log e"
  "line_log (gtime_start (data_logged G) e) = line_log e" "line_log (gtime_end (data_logged G) e) = line_log e"
  by (simp_all add: release_bus_def do_call_def gstamp_def gtime_start_def gtime_end_def set_startTime_def set_endTime_def
      case_prod_beta Let_def)

lemma wait_line_log: "WaitOpDone_gpiod (data_logged G) e = Some (ok, e') \<Longrightarrow> line_log e' = line_log e"
  by (rule wait_keeps [where I = "\<lambda>x. line_log x = line_log e"]) simp_all

lemma step_lsb_log:
  "line_log (snd (step_lsb (data_logged G) lsb e)) = line_log e @ (if fst (step_lsb (data_logged G) lsb e) then [] else [On_request 0])"
  by (simp add: step_lsb_def case_prod_beta Let_def)

definition data_log :: "(nat \<Rightarrow> word32) \<Rightarrow> nat \<Rightarrow> nat \<Rightarrow> line_event list" where
  "data_log data lo hi = map (\<lambda>q. On_data (data_values (bswap_32 (data q)))) [lo..<hi]"

lemma data_log_Cons: "lo < hi \<Longrightarrow> data_log data lo hi = On_data (data_values (bswap_32 (data lo))) # data_log data (Suc lo) hi"
  by (simp add: data_log_def upt_conv_Cons)

lemma write_quads_log:
  "gpiod_write_quads (data_logged G) data n left q lsb e = Some (ok, e') \<Longrightarrow>
    \<exists>k. q \<le> k \<and> k \<le> q + left \<and> (ok \<longrightarrow> k = q + left)
      \<and> line_log e' = line_log e @ data_log data q k @ (if ok then [] else [On_request 0])"
proof (induction left arbitrary: q lsb e)
  case 0
  then show ?case by (auto simp: data_log_def)
next
  case (Suc left)
  let ?G = "data_logged G" and ?d = "On_data (data_values (bswap_32 (data q)))"
  let ?e1 = "do_call (set_value_bulk ?G data_lines (data_values (bswap_32 (data q)))) e"
  let ?e2 = "if q = n - 1 then do_call (set_value_bulk ?G ctrl_lines ctrl_end) ?e1 else ?e1"
  let ?s = "step_lsb ?G (NOT lsb) ?e2"
  have l: "line_log (snd ?s) = line_log e @ ?d # (if fst ?s then [] else [On_request 0])"
    by (simp add: step_lsb_log do_call_def)
  have one: "data_log data q (Suc q) = [?d]" by (simp add: data_log_def)
  show ?case
  proof (cases "fst ?s")
    case False
    then show ?thesis
      using Suc.prems l one by (intro exI [of _ "Suc q"]) (auto simp: case_prod_beta Let_def)
  next
    case True
    then obtain ok' e3 where e3: "WaitOpDone_gpiod ?G (snd ?s) = Some (ok', e3)"
      "(if \<not> ok' then Some (False, release_bus ?G e3) else gpiod_write_quads ?G data n left (Suc q) (NOT lsb) e3) = Some (ok, e')"
      using Suc.prems by (auto simp: case_prod_beta Let_def bind_eq_Some_conv cong: if_cong)
    have l3: "line_log e3 = line_log e @ [?d]" using wait_line_log [OF e3(1)] l True by simp
    show ?thesis
    proof (cases ok')
      case False
      then show ?thesis using e3(2) l3 one by (intro exI [of _ "Suc q"]) auto
    next
      case True
      then have "gpiod_write_quads ?G data n left (Suc q) (NOT lsb) e3 = Some (ok, e')" using e3(2) by simp
      from Suc.IH [OF this] obtain k where "Suc q \<le> k" "k \<le> Suc q + left" "ok \<longrightarrow> k = Suc q + left"
        "line_log e' = line_log e3 @ data_log data (Suc q) k @ (if ok then [] else [On_request 0])"
        by blast
      then show ?thesis using l3 by (intro exI [of _ k]) (simp add: data_log_Cons)
    qed
  qed
qed

text \<open>C17. A block write that finds the data lines already set as output (after any earlier write)
  never puts its first quadlet on the lines, on any hardware. The request line is raised with the data lines
  as the previous write left them; only then do \<open>data[1]\<close>, \<open>data[2]\<close>, \<open>\<dots>\<close> appear on them, all of them
  if the write succeeds and as far as it comes otherwise; at the end the request line is lowered. The result and
  all effects are the same whatever \<open>data[0]\<close> is. (With interface version 0 the write returns false at once.)\<close>

theorem WriteBlock_gpiod_drops_first:
  assumes "\<not> isInput e" and "\<not> isInput el" and "1 \<le> version el"
    and run: "WriteBlock_gpiod (data_logged G) a data nBytes el = Some (ok, el')"
  shows "WriteBlock_gpiod G a (data(0 := x)) nBytes e = WriteBlock_gpiod G a data nBytes e
    \<and> (\<exists>k. k \<le> unat ((nBytes + 3) div 4) - 1 \<and> (ok \<longrightarrow> k = unat ((nBytes + 3) div 4) - 1)
      \<and> snd (dev el') = snd (dev el) @ [On_request 1]
          @ map (\<lambda>q. On_data (data_values (bswap_32 (data q)))) [1..<Suc k] @ [On_request 0])"
proof
  have i: "\<not> isInput (gtime_start G e)"
    using assms by (simp add: gtime_start_def set_startTime_def GetCurTime_def case_prod_beta Let_def)
  show "WriteBlock_gpiod G a (data(0 := x)) nBytes e = WriteBlock_gpiod G a data nBytes e"
    by (simp add: WriteBlock_gpiod_def i write_quads_first Let_def cong: if_cong prod.case_cong)
next
  let ?G = "data_logged G" and ?n = "unat ((nBytes + 3) div 4)"
  let ?e0 = "gtime_start ?G el"
  let ?e4 = "do_call (set_value ?G req_bus_line 1) (do_call (set_value_bulk ?G ctrl_lines ctrl_start)
    (do_call (set_value ?G addr_lsb_line (addr_values a ! 15)) (do_call (set_value_bulk ?G addr_lines (addr_values a)) ?e0)))"
  have i: "\<not> isInput ?e0" "info el"
    using assms by (auto simp: gtime_start_def set_startTime_def GetCurTime_def WriteBlock_gpiod_def case_prod_beta Let_def
        split: if_splits)
  have v: "\<not> version el < 1" using assms(3) by (simp only: not_less)
  let ?rest = "\<lambda>ok1 e5. (if \<not> ok1 then Some (False, release_bus ?G e5) else do {
        (ok, e) \<leftarrow> gpiod_write_quads ?G data ?n (?n - 1) 1 (addr_values a ! 15) (gstamp ?G e5);
        if \<not> ok then Some (False, e) else Some (True, gtime_end ?G (release_bus ?G (gstamp ?G e))) })"
  have "WaitOpDone_gpiod ?G ?e4 \<bind> (\<lambda>(ok1, e5). ?rest ok1 e5) = Some (ok, el')"
    using run v i by (simp add: WriteBlock_gpiod_def Let_def)
  then obtain ok1 e5 where e5: "WaitOpDone_gpiod ?G ?e4 = Some (ok1, e5)" "?rest ok1 e5 = Some (ok, el')"
    unfolding bind_eq_Some_conv by (auto simp del: not_None_eq split: prod.splits)
  have l5: "line_log e5 = line_log el @ [On_request 1]"
    using wait_line_log [OF e5(1)] by (simp add: do_call_def)
  have "\<exists>k. k \<le> ?n - 1 \<and> (ok \<longrightarrow> k = ?n - 1) \<and> line_log el' = line_log e5 @ data_log data 1 (Suc k) @ [On_request 0]"
  proof (cases ok1)
    case False
    then show ?thesis using e5(2) by (intro exI [of _ 0]) (auto simp: data_log_def)
  next
    case True
    then obtain ok2 e6 where e6: "gpiod_write_quads ?G data ?n (?n - 1) 1 (addr_values a ! 15) (gstamp ?G e5) = Some (ok2, e6)"
      "(if \<not> ok2 then Some (False, e6) else Some (True, gtime_end ?G (release_bus ?G (gstamp ?G e6)))) = Some (ok, el')"
      using e5(2) by (auto simp: bind_eq_Some_conv)
    obtain k where k: "1 \<le> k" "k \<le> 1 + (?n - 1)" "ok2 \<longrightarrow> k = 1 + (?n - 1)"
      "line_log e6 = line_log e5 @ data_log data 1 k @ (if ok2 then [] else [On_request 0])"
      using write_quads_log [OF e6(1)] by auto
    then have "Suc (k - 1) = k" by simp
    then show ?thesis using k e6(2) by (intro exI [of _ "k - 1"]) (auto split: if_splits)
  qed
  then show "\<exists>k. k \<le> ?n - 1 \<and> (ok \<longrightarrow> k = ?n - 1)
      \<and> snd (dev el') = snd (dev el) @ [On_request 1]
          @ map (\<lambda>q. On_data (data_values (bswap_32 (data q)))) [1..<Suc k] @ [On_request 0]"
    unfolding l5 by (simp add: line_log_def data_log_def del: upt_Suc)
qed

lemma easy_data_wait: "WaitOpDone_gpiod (data_logged easy_lib) e = Some (True, e)"
  by (cases "dev e") (simp add: WaitOpDone_gpiod_def call_def data_logged_def easy_lib_def lift_log_def Let_def)

lemma WriteBlock_gpiod_drops_first_witness:
  "\<exists>el'. WriteBlock_gpiod (data_logged easy_lib) 0x1000 (\<lambda>q. 7 + of_nat q) 8 (easy_object False ((), [])) = Some (True, el')
    \<and> snd (dev el') = [On_request 1, On_data (data_values 0x08000000), On_request 0]"
proof -
  have n: "unat ((8 + 3 :: word32) div 4) = 2" by simp
  have fin: "fst (call (set_value (data_logged easy_lib) l v) e) = 0" for l v e
    by (cases "dev e") (simp add: call_def data_logged_def easy_lib_def Let_def)
  have ver: "version (easy_object False h) = 1" "info (easy_object False h)" "\<not> isInput (easy_object False h)"
    "snd (dev (easy_object False ((), l))) = l" for h :: 'a and l :: "'b list"
    by (simp_all add: easy_object_def gemio_base_def iface_init_def iface.defs gemio.defs)
  have "\<not> isInput (gtime_start (data_logged easy_lib) (easy_object False ((), [])))"
    by (simp add: gtime_start_def set_startTime_def GetCurTime_def case_prod_beta Let_def ver)
  then obtain el' where run: "WriteBlock_gpiod (data_logged easy_lib) 0x1000 (\<lambda>q. 7 + of_nat q) 8 (easy_object False ((), [])) = Some (True, el')"
    by (simp add: WriteBlock_gpiod_def n ver easy_data_wait step_lsb_def fin case_prod_beta Let_def)
  from WriteBlock_gpiod_drops_first [OF _ _ _ run, of "easy_object False ()" 9] run
  show ?thesis by (simp add: ver upt_rec bswap_32_def)
qed

end
