(* ===== verification/EmioGpiodDevice.thy ===== *)
theory EmioGpiodDevice
  imports EmioGpiodProps
begin

text \<open>
  The libgpiod driver provides the register-file interface. \<open>gpiod_device\<close> is what it relies on:
  the documented effect of the library calls on the lines, firmware that starts an operation on
  the rising edge of the request line, and an answer within the timeout in the chosen mode
  (events or polling).
\<close>

record gpio_pins =
  gp_out :: bool
  gp_data :: "int list"
  gp_addr :: "int list"
  gp_req :: bool
  gp_done :: bool

definition addr_of :: "gpio_pins \<Rightarrow> word16" where
  "addr_of p = ucast (from_values 16 (gp_addr p))"

fun gsees :: "'h gpiolib \<Rightarrow> rat \<Rightarrow> timespec \<Rightarrow> nat \<Rightarrow> 'h \<Rightarrow> bool" where
  "gsees G T ws 0 h \<longleftrightarrow> fst (get_value G op_done_line h) = 1"
| "gsees G T ws (Suc k) h \<longleftrightarrow> fst (get_value G op_done_line h) \<le> 0
     \<and> (let h1 = snd (get_value G op_done_line h)
        in TimeDiff_us ws (fst (gclock G h1)) < T \<and> gsees G T ws k (snd (gclock G h1)))"

definition ganswers :: "'h gpiolib \<Rightarrow> bool \<Rightarrow> rat \<Rightarrow> 'h \<Rightarrow> bool" where
  "ganswers G events T h \<longleftrightarrow>
     (if events
      then fst (event_wait G op_done_line (timeout_spec T) h) = 1
        \<and> fst (event_read G op_done_line (snd (event_wait G op_done_line (timeout_spec T) h))) = 0
      else let r = get_value G op_done_line h
           in fst r = 1 \<or> fst r \<le> 0 \<and> (\<exists>k. gsees G T (fst (gclock G (snd r))) k (snd (gclock G (snd r)))))"

definition effect :: "('h \<Rightarrow> gpio_pins) \<Rightarrow> ('h \<Rightarrow> word16 \<Rightarrow> word32) \<Rightarrow> (gpio_pins \<Rightarrow> gpio_pins) \<Rightarrow> ('h \<Rightarrow> 'r \<times> 'h) \<Rightarrow> bool" where
  "effect pins rg f op \<longleftrightarrow> (\<forall>h. pins (snd (op h)) = f (pins h) \<and> rg (snd (op h)) = rg h)"

definition gpiod_device ::
    "'h gpiolib \<Rightarrow> ('h \<Rightarrow> gpio_pins) \<Rightarrow> ('h \<Rightarrow> word16 \<Rightarrow> word32) \<Rightarrow> bool \<Rightarrow> rat \<Rightarrow> bool" where
  "gpiod_device G pins rg events T \<longleftrightarrow> 0 < T
     \<and> effect pins rg (\<lambda>p. p\<lparr>gp_out := False\<rparr>) (set_direction_input_bulk G data_lines)
     \<and> (\<forall>h. fst (set_direction_input_bulk G data_lines h) = 0)
     \<and> (\<forall>vs. effect pins rg (\<lambda>p. p\<lparr>gp_out := True, gp_data := vs\<rparr>) (set_direction_output_bulk G data_lines vs)
        \<and> (\<forall>h. fst (set_direction_output_bulk G data_lines vs h) = 0)
        \<and> effect pins rg (\<lambda>p. p\<lparr>gp_data := vs\<rparr>) (set_value_bulk G data_lines vs)
        \<and> effect pins rg (\<lambda>p. p\<lparr>gp_addr := vs\<rparr>) (set_value_bulk G addr_lines vs)
        \<and> effect pins rg (\<lambda>p. p) (set_value_bulk G ctrl_lines vs))
     \<and> effect pins rg (\<lambda>p. p\<lparr>gp_req := False\<rparr>) (set_value G req_bus_line 0)
     \<and> (\<forall>h. pins (snd (set_value G req_bus_line 1 h)) = (pins h)\<lparr>gp_req := True, gp_done := False\<rparr>
        \<and> rg (snd (set_value G req_bus_line 1 h)) =
            (if \<not> gp_req (pins h) \<and> gp_out (pins h)
             then (rg h)(addr_of (pins h) := from_values 32 (gp_data (pins h))) else rg h)
        \<and> ganswers G events T (snd (set_value G req_bus_line 1 h))
        \<and> ganswers G events T (snd (gclock G (snd (set_value G req_bus_line 1 h)))))
     \<and> (\<forall>h. pins (snd (get_value G op_done_line h)) = (pins h)\<lparr>gp_done := fst (get_value G op_done_line h) = 1\<rparr>
        \<and> rg (snd (get_value G op_done_line h)) = rg h)
     \<and> (\<forall>ts. effect pins rg (\<lambda>p. p) (event_wait G op_done_line ts))
     \<and> effect pins rg (\<lambda>p. p\<lparr>gp_done := True\<rparr>) (event_read G op_done_line)
     \<and> effect pins rg (\<lambda>p. p) (gclock G)
     \<and> effect pins rg (\<lambda>p. p) (get_value_bulk G data_lines)
     \<and> (\<forall>h. gp_req (pins h) \<and> gp_done (pins h) \<and> \<not> gp_out (pins h)
          \<longrightarrow> fst (get_value_bulk G data_lines h) = (0, data_values (rg h (addr_of (pins h)))))"

lemma gpiod_deviceD:
  assumes "gpiod_device G pins rg events T"
  shows "0 < T"
    "pins (snd (set_direction_input_bulk G data_lines h)) = (pins h)\<lparr>gp_out := False\<rparr>"
    "rg (snd (set_direction_input_bulk G data_lines h)) = rg h" "fst (set_direction_input_bulk G data_lines h) = 0"
    "pins (snd (set_direction_output_bulk G data_lines vs h)) = (pins h)\<lparr>gp_out := True, gp_data := vs\<rparr>"
    "rg (snd (set_direction_output_bulk G data_lines vs h)) = rg h" "fst (set_direction_output_bulk G data_lines vs h) = 0"
    "pins (snd (set_value_bulk G data_lines vs h)) = (pins h)\<lparr>gp_data := vs\<rparr>" "rg (snd (set_value_bulk G data_lines vs h)) = rg h"
    "pins (snd (set_value_bulk G addr_lines vs h)) = (pins h)\<lparr>gp_addr := vs\<rparr>" "rg (snd (set_value_bulk G addr_lines vs h)) = rg h"
    "pins (snd (set_value_bulk G ctrl_lines vs h)) = pins h" "rg (snd (set_value_bulk G ctrl_lines vs h)) = rg h"
    "pins (snd (set_value G req_bus_line 0 h)) = (pins h)\<lparr>gp_req := False\<rparr>" "rg (snd (set_value G req_bus_line 0 h)) = rg h"
    "pins (snd (set_value G req_bus_line 1 h)) = (pins h)\<lparr>gp_req := True, gp_done := False\<rparr>"
    "rg (snd (set_value G req_bus_line 1 h)) = (if \<not> gp_req (pins h) \<and> gp_out (pins h)
       then (rg h)(addr_of (pins h) := from_values 32 (gp_data (pins h))) else rg h)"
    "ganswers G events T (snd (set_value G req_bus_line 1 h))"
    "ganswers G events T (snd (gclock G (snd (set_value G req_bus_line 1 h))))"
    "pins (snd (get_value G op_done_line h)) = (pins h)\<lparr>gp_done := fst (get_value G op_done_line h) = 1\<rparr>"
    "rg (snd (get_value G op_done_line h)) = rg h"
    "pins (snd (event_wait G op_done_line ts h)) = pins h" "rg (snd (event_wait G op_done_line ts h)) = rg h"
    "pins (snd (event_read G op_done_line h)) = (pins h)\<lparr>gp_done := True\<rparr>" "rg (snd (event_read G op_done_line h)) = rg h"
    "pins (snd (gclock G h)) = pins h" "rg (snd (gclock G h)) = rg h"
    "pins (snd (get_value_bulk G data_lines h)) = pins h" "rg (snd (get_value_bulk G data_lines h)) = rg h"
    "gp_req (pins h) \<Longrightarrow> gp_done (pins h) \<Longrightarrow> \<not> gp_out (pins h)
      \<Longrightarrow> fst (get_value_bulk G data_lines h) = (0, data_values (rg h (addr_of (pins h))))"
  using assms unfolding gpiod_device_def effect_def by simp_all

definition gat ::
    "('h \<Rightarrow> gpio_pins) \<Rightarrow> ('h \<Rightarrow> word16 \<Rightarrow> word32) \<Rightarrow> bool \<Rightarrow> rat \<Rightarrow> gpio_pins \<Rightarrow> (word16 \<Rightarrow> word32) \<Rightarrow> 'h gemio \<Rightarrow> bool" where
  "gat pins rg events T p r e \<longleftrightarrow> info e \<and> useEvents e = events \<and> timeout_us e = T \<and> (isInput e \<longleftrightarrow> \<not> gp_out p)
     \<and> pins (dev e) = p \<and> rg (dev e) = r"

lemma dev_upd_gemio [simp]: "(e :: 'h gemio)\<lparr>dev := h\<rparr> = e\<lparr>dev := h'\<rparr> \<longleftrightarrow> h = h'"
  by (cases e) simp

lemma gat_time:
  assumes dev: "gpiod_device G pins rg events T" and "gat pins rg events T p r e"
  shows "gat pins rg events T p r (gstamp G e)" "gat pins rg events T p r (gtime_start G e)"
    "gat pins rg events T p r (gtime_end G e)"
  using assms(2)
  by (simp_all add: gat_def gstamp_def gtime_start_def gtime_end_def set_startTime_def set_endTime_def GetCurTime_def
      case_prod_beta Let_def gpiod_deviceD [OF dev])

lemma gat_run:
  assumes dev: "gpiod_device G pins rg events T" and e: "gat pins rg events T p r e"
  shows "gat pins rg events T (p\<lparr>gp_data := vs\<rparr>) r (do_call (set_value_bulk G data_lines vs) e)"
    "gat pins rg events T (p\<lparr>gp_addr := vs\<rparr>) r (do_call (set_value_bulk G addr_lines vs) e)"
    "gat pins rg events T p r (do_call (set_value_bulk G ctrl_lines vs) e)"
    "gat pins rg events T (p\<lparr>gp_req := False\<rparr>) r (do_call (set_value G req_bus_line 0) e)"
    "gat pins rg events T (p\<lparr>gp_req := True, gp_done := False\<rparr>)
       (if \<not> gp_req p \<and> gp_out p then r(addr_of p := from_values 32 (gp_data p)) else r) (do_call (set_value G req_bus_line 1) e)"
  using e by (simp_all add: gat_def do_call_def call_def case_prod_beta Let_def gpiod_deviceD [OF dev])

lemma poll_value_sees:
  assumes dev: "gpiod_device G pins rg events T"
  shows "\<lbrakk>gsees G T ws k (dev e); timeout_us e = T; dt < T; val \<le> 0\<rbrakk>
    \<Longrightarrow> \<exists>h. poll_value G ws val dt e = Some (1, e\<lparr>dev := h\<rparr>)
      \<and> pins h = (pins (dev e))\<lparr>gp_done := True\<rparr> \<and> rg h = rg (dev e)"
proof (induction k arbitrary: val dt e)
  case 0
  let ?e2 = "e\<lparr>dev := snd (gclock G (snd (get_value G op_done_line (dev e))))\<rparr>"
  have "poll_value G ws 1 d ?e2 = Some (1, ?e2)" for d
    by (subst poll_value.simps) simp
  then have "poll_value G ws val dt e = Some (1, ?e2)"
    using 0 by (subst poll_value.simps) (simp add: call_def GetCurTime_def case_prod_beta Let_def)
  with 0 show ?case by (simp add: gpiod_deviceD [OF dev])
next
  case (Suc k)
  let ?h1 = "snd (get_value G op_done_line (dev e))"
  let ?e2 = "e\<lparr>dev := snd (gclock G ?h1)\<rparr>"
  have "poll_value G ws val dt e = poll_value G ws (fst (get_value G op_done_line (dev e))) (TimeDiff_us ws (fst (gclock G ?h1))) ?e2"
    using Suc.prems by (subst poll_value.simps) (simp add: call_def GetCurTime_def case_prod_beta Let_def)
  with Suc.IH [of ?e2 "TimeDiff_us ws (fst (gclock G ?h1))" "fst (get_value G op_done_line (dev e))"] Suc.prems
  show ?case by (simp add: Let_def gpiod_deviceD [OF dev])
qed

lemma gat_wait:
  assumes dev: "gpiod_device G pins rg events T" and e: "gat pins rg events T p r e" and ans: "ganswers G events T (dev e)"
  shows "\<exists>e'. WaitOpDone_gpiod G e = Some (True, e') \<and> gat pins rg events T (p\<lparr>gp_done := True\<rparr>) r e'"
proof (cases "events \<or> fst (get_value G op_done_line (dev e)) = 1")
  case True
  then show ?thesis
    using e ans
    by (auto simp: WaitOpDone_gpiod_def gat_def ganswers_def call_def case_prod_beta Let_def gpiod_deviceD [OF dev])
next
  case False
  let ?r = "get_value G op_done_line (dev e)"
  let ?e2 = "e\<lparr>dev := snd (gclock G (snd ?r))\<rparr>"
  obtain k where v: "fst ?r \<le> 0" and k: "gsees G T (fst (gclock G (snd ?r))) k (dev ?e2)"
    using False ans by (auto simp: ganswers_def Let_def)
  obtain h where h: "poll_value G (fst (gclock G (snd ?r))) (fst ?r) 0 ?e2 = Some (1, ?e2\<lparr>dev := h\<rparr>)"
    "pins h = (pins (dev ?e2))\<lparr>gp_done := True\<rparr>" "rg h = rg (dev ?e2)"
    using poll_value_sees [OF dev k _ gpiod_deviceD(1) [OF dev] v] e by (auto simp: gat_def)
  have "WaitOpDone_gpiod G e = Some (True, e\<lparr>dev := h\<rparr>)"
    using e False v h(1) by (simp add: WaitOpDone_gpiod_def gat_def call_def GetCurTime_def case_prod_beta Let_def)
  then show ?thesis using e h(2,3) False by (auto simp: gat_def gpiod_deviceD [OF dev])
qed

lemma gat_answered:
  assumes dev: "gpiod_device G pins rg events T"
  shows "ganswers G events T (dev (gstamp G (do_call (set_value G req_bus_line 1) e)))"
  by (simp add: gstamp_def do_call_def call_def GetCurTime_def case_prod_beta Let_def gpiod_deviceD(18,19) [OF dev])

definition gpiod_ready ::
    "'h gpiolib \<Rightarrow> ('h \<Rightarrow> gpio_pins) \<Rightarrow> ('h \<Rightarrow> word16 \<Rightarrow> word32) \<Rightarrow> 'h gemio \<Rightarrow> bool" where
  "gpiod_ready G pins rg e \<longleftrightarrow> gpiod_device G pins rg (useEvents e) (timeout_us e) \<and> info e
     \<and> (isInput e \<longleftrightarrow> \<not> gp_out (pins (dev e))) \<and> \<not> gp_req (pins (dev e))"

lemma gpiod_ready_gat:
  "gpiod_ready G pins rg e \<Longrightarrow> gat pins rg (useEvents e) (timeout_us e) (pins (dev e)) (rg (dev e)) e"
  by (simp add: gpiod_ready_def gat_def)

lemma gpiod_ready_after:
  "gpiod_device G pins rg events T \<Longrightarrow> gat pins rg events T p r e \<Longrightarrow> \<not> gp_req p \<Longrightarrow> gpiod_ready G pins rg e \<and> rg (dev e) = r"
  by (auto simp: gpiod_ready_def gat_def)

section \<open>The register file\<close>

lemma gpiod_read_ok:
  assumes ready: "gpiod_ready G pins rg e"
  shows "\<exists>e'. ReadQuadlet_gpiod G a e = Some (Some (rg (dev e) a), e') \<and> gpiod_ready G pins rg e' \<and> rg (dev e') = rg (dev e)"
proof -
  let ?ev = "useEvents e" and ?T = "timeout_us e" and ?r = "rg (dev e)" and ?p = "pins (dev e)"
  from ready have dev: "gpiod_device G pins rg ?ev ?T" and idle: "\<not> gp_req ?p" by (simp_all add: gpiod_ready_def)
  note e0 = gat_time(2) [OF dev gpiod_ready_gat [OF ready]]
  define e1 where "e1 = snd (data_to_input G (gtime_start G e))"
  have ok: "fst (data_to_input G (gtime_start G e))" and e1: "gat pins rg ?ev ?T (?p\<lparr>gp_out := False\<rparr>) ?r e1"
    using e0 by (auto simp: e1_def data_to_input_def gat_def call_def case_prod_beta Let_def gpiod_deviceD [OF dev])
  let ?p2 = "?p\<lparr>gp_out := False, gp_addr := addr_values a\<rparr>"
  define e2 where "e2 = do_call (set_value_bulk G ctrl_lines ctrl_zero) (do_call (set_value_bulk G addr_lines (addr_values a)) e1)"
  have e2: "gat pins rg ?ev ?T ?p2 ?r e2"
    using gat_run(3) [OF dev gat_run(2) [OF dev e1]] by (simp add: e2_def)
  let ?e3 = "do_call (set_value G req_bus_line 1) e2" and ?p3 = "?p2\<lparr>gp_req := True, gp_done := False\<rparr>"
  have e3: "gat pins rg ?ev ?T ?p3 ?r ?e3" using gat_run(5) [OF dev e2] by simp
  obtain e4 where e4: "WaitOpDone_gpiod G (gstamp G ?e3) = Some (True, e4)"
    "gat pins rg ?ev ?T (?p3\<lparr>gp_done := True\<rparr>) ?r e4"
    using gat_wait [OF dev gat_time(1) [OF dev e3] gat_answered [OF dev]] by blast
  note s4 = gat_time(1) [OF dev e4(2)]
  let ?e5 = "snd (call (get_value_bulk G data_lines) (gstamp G e4))"
  have addr: "addr_of (?p3\<lparr>gp_done := True\<rparr>) = a"
  proof -
    have "ucast (ucast a :: word32) = a" by (rule bit_word_eqI) (auto simp: bit_simps)
    then show ?thesis by (simp add: addr_of_def from_addr_values)
  qed
  have v: "fst (call (get_value_bulk G data_lines) (gstamp G e4)) = (0, data_values (?r a))"
    and e5: "gat pins rg ?ev ?T (?p3\<lparr>gp_done := True\<rparr>) ?r ?e5"
    using s4 gpiod_deviceD(30) [OF dev, of "dev (gstamp G e4)"] addr
    by (simp_all add: gat_def call_def case_prod_beta Let_def gpiod_deviceD [OF dev])
  note e6 = gat_time(3) [OF dev gat_run(4) [OF dev e5]]
  have "ReadQuadlet_gpiod G a e = Some (Some (?r a), gtime_end G (do_call (set_value G req_bus_line 0) ?e5))"
    using ok ready e4(1) v by (simp add: ReadQuadlet_gpiod_def gpiod_ready_def e1_def [symmetric] e2_def [symmetric]
        case_prod_beta Let_def from_data_values)
  moreover have "gpiod_ready G pins rg (gtime_end G (do_call (set_value G req_bus_line 0) ?e5))
      \<and> rg (dev (gtime_end G (do_call (set_value G req_bus_line 0) ?e5))) = ?r"
    by (rule gpiod_ready_after [OF dev e6]) simp
  ultimately show ?thesis by blast
qed

lemma gpiod_write_ok:
  assumes ready: "gpiod_ready G pins rg e"
  shows "\<exists>e'. WriteQuadlet_gpiod G a d e = Some (True, e') \<and> gpiod_ready G pins rg e' \<and> rg (dev e') = (rg (dev e))(a := d)"
proof -
  let ?ev = "useEvents e" and ?T = "timeout_us e" and ?r = "rg (dev e)" and ?p = "pins (dev e)"
  from ready have dev: "gpiod_device G pins rg ?ev ?T" and idle: "\<not> gp_req ?p" by (simp_all add: gpiod_ready_def)
  note e0 = gat_time(2) [OF dev gpiod_ready_gat [OF ready]]
  define e1 where "e1 = snd (put_data G d (gtime_start G e))"
  let ?p1 = "?p\<lparr>gp_out := True, gp_data := data_values d\<rparr>"
  have ok: "fst (put_data G d (gtime_start G e))" and e1: "gat pins rg ?ev ?T ?p1 ?r e1"
    using e0 by (auto simp: e1_def put_data_def gat_def call_def do_call_def case_prod_beta Let_def gpiod_deviceD [OF dev])
  let ?p2 = "?p1\<lparr>gp_addr := addr_values a\<rparr>"
  define e2 where "e2 = do_call (set_value_bulk G ctrl_lines ctrl_qwrite) (do_call (set_value_bulk G addr_lines (addr_values a)) e1)"
  have e2: "gat pins rg ?ev ?T ?p2 ?r e2"
    using gat_run(3) [OF dev gat_run(2) [OF dev e1]] by (simp add: e2_def)
  have "ucast (ucast a :: word32) = a" by (rule bit_word_eqI) (auto simp: bit_simps)
  then have addr: "addr_of ?p2 = a" by (simp add: addr_of_def from_addr_values)
  let ?e3 = "do_call (set_value G req_bus_line 1) e2" and ?p3 = "?p2\<lparr>gp_req := True, gp_done := False\<rparr>"
  have e3: "gat pins rg ?ev ?T ?p3 (?r(a := d)) ?e3"
    using gat_run(5) [OF dev e2] idle addr by (simp add: from_data_values)
  obtain e4 where e4: "WaitOpDone_gpiod G (gstamp G ?e3) = Some (True, e4)"
    "gat pins rg ?ev ?T (?p3\<lparr>gp_done := True\<rparr>) (?r(a := d)) e4"
    using gat_wait [OF dev gat_time(1) [OF dev e3] gat_answered [OF dev]] by blast
  let ?e5 = "gtime_end G (release_bus G (gstamp G e4))"
  note e5 = gat_time(3) [OF dev gat_run(3) [OF dev gat_run(4) [OF dev gat_time(1) [OF dev e4(2)]]]]
  have "WriteQuadlet_gpiod G a d e = Some (True, ?e5)"
    using ok ready e4(1)
    by (simp add: WriteQuadlet_gpiod_def gpiod_ready_def e1_def [symmetric] e2_def [symmetric] case_prod_beta Let_def)
  moreover have "gpiod_ready G pins rg ?e5 \<and> rg (dev ?e5) = ?r(a := d)"
    unfolding release_bus_def by (rule gpiod_ready_after [OF dev e5]) simp
  ultimately show ?thesis by blast
qed

interpretation gpiod: register_file
  "ReadQuadlet_gpiod G" "WriteQuadlet_gpiod G" "gpiod_ready G pins rg" "\<lambda>e. rg (dev e)" for G pins rg
  by unfold_locales (rule gpiod_read_ok gpiod_write_ok, assumption)+

text \<open>C16. On lines and firmware that answer within the timeout, by events or by polling, a quadlet
  written through the libgpiod driver is stored in the addressed register and nowhere else, and
  reading it back returns it; the object stays ready for the next access.\<close>

theorem gpiod_write_then_read:
  assumes "gpiod_ready G pins rg e"
  shows "\<exists>e1 e2. WriteQuadlet_gpiod G a d e = Some (True, e1) \<and> ReadQuadlet_gpiod G a e1 = Some (Some d, e2)
    \<and> gpiod_ready G pins rg e2 \<and> rg (dev e2) = (rg (dev e))(a := d)"
  by (rule gpiod.write_read [OF assms, of a d]) blast

section \<open>Lines that honour the contract\<close>

text \<open>A library whose calls succeed, over firmware that completes an operation at once.\<close>

definition line_sim :: "(gpio_pins \<times> (word16 \<Rightarrow> word32)) gpiolib" where
  "line_sim = \<lparr>chip_open = Pair True, chip_close = id, chip_get_lines = (\<lambda>ls. Pair 0), chip_get_line = (\<lambda>l. Pair True),
     request_bulk_input = (\<lambda>ls. Pair 0), request_bulk_output = (\<lambda>ls vs. Pair 0), request_output = (\<lambda>l v. Pair 0),
     request_input = (\<lambda>l. Pair 0), request_rising = (\<lambda>l. Pair 0), release_bulk = (\<lambda>ls. id), release_line = (\<lambda>l. id),
     set_direction_input_bulk = (\<lambda>ls (p, r). (0, (p\<lparr>gp_out := False\<rparr>, r))),
     set_direction_output_bulk = (\<lambda>ls vs (p, r). (0, (p\<lparr>gp_out := True, gp_data := vs\<rparr>, r))),
     get_value_bulk = (\<lambda>ls (p, r). ((0, data_values (r (addr_of p))), (p, r))),
     set_value_bulk = (\<lambda>ls vs (p, r). (0, (if ls = data_lines then p\<lparr>gp_data := vs\<rparr>
        else if ls = addr_lines then p\<lparr>gp_addr := vs\<rparr> else p, r))),
     get_value = (\<lambda>l (p, r). (if gp_req p then 1 else 0, (p\<lparr>gp_done := gp_req p\<rparr>, r))),
     set_value = (\<lambda>l v (p, r). (0, if l \<noteq> req_bus_line then (p, r)
        else if v = 0 then (p\<lparr>gp_req := False\<rparr>, r)
        else (p\<lparr>gp_req := True, gp_done := False\<rparr>,
              if \<not> gp_req p \<and> gp_out p then r(addr_of p := from_values 32 (gp_data p)) else r))),
     event_wait = (\<lambda>l t. Pair 1), event_read = (\<lambda>l (p, r). (0, (p\<lparr>gp_done := True\<rparr>, r))),
     gclock = Pair \<lparr>tv_sec = 0, tv_nsec = 0\<rparr>\<rparr>"

lemma lines_differ: "data_lines \<noteq> addr_lines" "ctrl_lines \<noteq> data_lines" "ctrl_lines \<noteq> addr_lines"
proof -
  have "length data_lines = 32" "length addr_lines = 16" "length ctrl_lines = 3"
    by (simp_all add: data_lines_def addr_lines_def ctrl_lines_def)
  then show "data_lines \<noteq> addr_lines" "ctrl_lines \<noteq> data_lines" "ctrl_lines \<noteq> addr_lines" by auto
qed

lemma line_sim_device: "0 < T \<Longrightarrow> gpiod_device line_sim fst snd events T"
  using lines_differ
  by (auto simp: gpiod_device_def effect_def ganswers_def line_sim_def Let_def case_prod_beta)

definition line_object :: "bool \<Rightarrow> (word16 \<Rightarrow> word32) \<Rightarrow> (gpio_pins \<times> (word16 \<Rightarrow> word32)) gemio" where
  "line_object events r = (easy_object True
     (\<lparr>gp_out = False, gp_data = [], gp_addr = [], gp_req = False, gp_done = False\<rparr>, r))\<lparr>useEvents := events\<rparr>"

lemma line_object_ready: "gpiod_ready line_sim fst snd (line_object events r)"
  by (simp add: gpiod_ready_def line_object_def easy_object_def gemio_base_def iface_init_def iface.defs gemio.defs
      line_sim_device)

lemma gpiod_write_then_read_witness:
  "\<exists>e1 e2. WriteQuadlet_gpiod line_sim 12 0x02010000 (line_object True (\<lambda>a. 0)) = Some (True, e1)
     \<and> ReadQuadlet_gpiod line_sim 12 e1 = Some (Some 0x02010000, e2) \<and> snd (dev e2) 13 = 0"
  using gpiod_write_then_read [OF line_object_ready, of 12 "0x02010000" True "\<lambda>a. 0"]
  by (auto simp: line_object_def easy_object_def gemio_base_def iface_init_def iface.defs gemio.defs)

end
