(* ===== verification/EmioMmapTrace.thy ===== *)
theory EmioMmapTrace
  imports EmioMmap EmioSpec
begin

text \<open>
  The wait and the bus activity of the Linux driver. \<open>advancing L tm\<close> is what the driver relies on
  from the monotonic clock: a reading is the current time \<open>tm\<close> in nanoseconds, taking it takes
  time, and no register access turns time back. Under it every wait returns, whatever the
  firmware does, and the words written to the registers are those of the block protocol.
\<close>

section \<open>Registers of the mapped block\<close>

definition mapped :: "'h linux \<Rightarrow> 'h emio \<Rightarrow> bool" where
  "mapped L e \<longleftrightarrow> mmap_region e = Some (gpio_base (bus L))"

lemma mapped_upd [simp]:
  "mapped L (e\<lparr>dev := h\<rparr>) = mapped L e" "mapped L (e\<lparr>isInput := b\<rparr>) = mapped L e"
  "mapped L (e\<lparr>startTime := t\<rparr>) = mapped L e" "mapped L (e\<lparr>endTime := t\<rparr>) = mapped L e"
  by (simp_all add: mapped_def)

lemma dev_upd_inject [simp]: "e\<lparr>dev := h\<rparr> = e\<lparr>dev := h'\<rparr> \<longleftrightarrow> h = h'"
  by (cases e) simp

lemma reg_aligned [simp]:
  "4 * (Reg_OutputLower div 4) = Reg_OutputLower" "4 * (Reg_OutputUpper div 4) = Reg_OutputUpper"
  "4 * (Reg_InputLower div 4) = Reg_InputLower" "4 * (Reg_InputUpper div 4) = Reg_InputUpper"
  "4 * (Reg_DirLower div 4) = Reg_DirLower" "4 * (Reg_OutEnLower div 4) = Reg_OutEnLower"
  "4 * (Reg_DirUpper div 4) = Reg_DirUpper" "4 * (Reg_OutEnUpper div 4) = Reg_OutEnUpper"
  by (simp_all add: reg_defs)

lemma register_access:
  assumes "mapped L e" "4 * (r div 4) = r"
  shows "RegisterRead L r e = Some (fst (In32 (bus L) r (dev e)), e\<lparr>dev := snd (In32 (bus L) r (dev e))\<rparr>)"
    "RegisterWrite L r v e = Some (e\<lparr>dev := Out32 (bus L) r v (dev e)\<rparr>)"
  using assms by (simp_all add: RegisterRead_def RegisterWrite_def mapped_def In32_def Out32_def case_prod_beta Let_def)

lemma opdone_simps [simp]:
  "opdone True u \<longleftrightarrow> u AND Bits_OpDone \<noteq> 0" "opdone False u"
proof -
  have "bit ((u AND Bits_OpDone) XOR 1) 0"
    by (simp add: bit_simps bits_bit)
  then have "(u AND Bits_OpDone) XOR 1 \<noteq> 0" by (metis bit_0_eq bot_apply bot_bool_def)
  then show "opdone False u" by (simp add: opdone_def)
qed (simp add: opdone_def)

section \<open>The wait returns\<close>

definition advancing :: "'h linux \<Rightarrow> ('h \<Rightarrow> int) \<Rightarrow> bool" where
  "advancing L tm \<longleftrightarrow>
     (\<forall>h. fst (clock_gettime L h) = \<lparr>tv_sec = tm h div 1000000000, tv_nsec = tm h mod 1000000000\<rparr>
        \<and> tm h < tm (snd (clock_gettime L h)))
     \<and> (\<forall>a h. tm h \<le> tm (snd (rd32 (bus L) a h)))"

lemma TimeDiff_ns:
  "TimeDiff_us \<lparr>tv_sec = a div 1000000000, tv_nsec = a mod 1000000000\<rparr> \<lparr>tv_sec = b div 1000000000, tv_nsec = b mod 1000000000\<rparr>
    = of_int (b - a) / 1000"
proof -
  have "of_int (c div 1000000000) * 1000000 + of_int (c mod 1000000000) / 1000 = (of_int c / 1000 :: rat)" for c :: int
  proof -
    have "c = c div 1000000000 * 1000000000 + c mod 1000000000" by (simp add: div_mult_mod_eq)
    then have "(of_int c :: rat) = of_int (c div 1000000000) * 1000000000 + of_int (c mod 1000000000)"
      by (metis of_int_add of_int_mult of_int_numeral of_int_power)
    then show ?thesis by simp
  qed
  from this [of a] this [of b] show ?thesis
    by (simp add: TimeDiff_us_def algebra_simps diff_divide_distrib)
qed

text \<open>\<open>kept L Q\<close>: polling and reading the clock preserve \<open>Q\<close>.\<close>

definition kept :: "'h linux \<Rightarrow> ('h \<Rightarrow> bool) \<Rightarrow> bool" where
  "kept L Q \<longleftrightarrow> (\<forall>h. Q h \<longrightarrow> Q (snd (In32 (bus L) Reg_InputUpper h)) \<and> Q (snd (clock_gettime L h)))"

lemma poll_loop_returns:
  assumes adv: "advancing L tm" and Q: "kept L Q"
  shows "\<lbrakk>mapped L e; Q (dev e); ws = \<lparr>tv_sec = t0 div 1000000000, tv_nsec = t0 mod 1000000000\<rparr>;
      dt \<le> of_int (tm (dev e) - t0) / 1000\<rbrakk>
    \<Longrightarrow> \<exists>b h. poll_loop L st ws dt e = Some (b, e\<lparr>dev := h\<rparr>) \<and> Q h"
proof (induction "nat (\<lceil>1000 * timeout_us e\<rceil> + t0 - tm (dev e))" arbitrary: dt e rule: less_induct)
  case less
  let ?h1 = "snd (In32 (bus L) Reg_InputUpper (dev e))"
  let ?u = "fst (In32 (bus L) Reg_InputUpper (dev e))"
  let ?e1 = "e\<lparr>dev := ?h1\<rparr>" and ?h2 = "snd (clock_gettime L ?h1)"
  have q: "Q ?h1" "Q ?h2" using Q less.prems(2) by (simp_all add: kept_def)
  have t: "tm (dev e) \<le> tm ?h1" "tm ?h1 < tm ?h2"
    "fst (clock_gettime L ?h1) = \<lparr>tv_sec = tm ?h1 div 1000000000, tv_nsec = tm ?h1 mod 1000000000\<rparr>"
    using adv by (simp_all add: advancing_def In32_def)
  show ?case
  proof (cases "dt < timeout_us e \<and> \<not> opdone st ?u")
    case False
    then show ?thesis
      using less.prems q by (subst poll_loop.simps) (auto simp: register_access intro: exI [of _ "dev e"])
  next
    case True
    let ?dt = "of_int (tm ?h1 - t0) / 1000 :: rat" and ?e2 = "e\<lparr>dev := ?h2\<rparr>"
    have next_iter: "poll_loop L st ws dt e = poll_loop L st ws ?dt ?e2"
      using True less.prems t(3)
      by (subst poll_loop.simps) (simp add: register_access GetCurTime_def case_prod_beta Let_def TimeDiff_ns)
    show ?thesis
    proof (cases "?dt < timeout_us e")
      case False
      then show ?thesis
        unfolding next_iter using q by (subst poll_loop.simps) auto
    next
      case dt: True
      have "?dt * 1000 < 1000 * timeout_us e" using dt by simp
      then have "of_int (tm ?h1 - t0) < 1000 * timeout_us e" by simp
      then have "tm ?h1 - t0 < \<lceil>1000 * timeout_us e\<rceil>" by (simp add: less_ceiling_iff)
      then have "nat (\<lceil>1000 * timeout_us ?e2\<rceil> + t0 - tm (dev ?e2)) < nat (\<lceil>1000 * timeout_us e\<rceil> + t0 - tm (dev e))"
        using t by simp
      moreover have "?dt \<le> of_int (tm (dev ?e2) - t0) / 1000" using t by simp
      ultimately show ?thesis
        unfolding next_iter using less.hyps [of ?e2 ?dt] less.prems(1,3) q(2) by simp
    qed
  qed
qed

lemma WaitOpDone_mmap_false:
  "mapped L e \<Longrightarrow> WaitOpDone_mmap L False e = Some (True, e\<lparr>dev := snd (In32 (bus L) Reg_InputUpper (dev e))\<rparr>)"
  by (simp add: WaitOpDone_mmap_def register_access)

lemma wait_returns:
  assumes adv: "advancing L tm" and Q: "kept L Q" and m: "mapped L e" and q: "Q (dev e)"
  obtains h where "WaitOpDone_mmap L st e = Some (True, e\<lparr>dev := h\<rparr>)" "Q h"
proof -
  let ?h1 = "snd (In32 (bus L) Reg_InputUpper (dev e))"
  let ?e1 = "e\<lparr>dev := ?h1\<rparr>"
  let ?h2 = "snd (clock_gettime L ?h1)"
  have q1: "Q ?h1" "Q ?h2" using Q q by (simp_all add: kept_def)
  show thesis
  proof (cases "opdone st (fst (In32 (bus L) Reg_InputUpper (dev e)))")
    case True
    with m q1 show ?thesis by (intro that [of ?h1]) (simp_all add: WaitOpDone_mmap_def register_access)
  next
    case False
    have t: "fst (clock_gettime L ?h1) = \<lparr>tv_sec = tm ?h1 div 1000000000, tv_nsec = tm ?h1 mod 1000000000\<rparr>"
      "0 \<le> of_int (tm ?h2 - tm ?h1) / (1000 :: rat)"
      using adv by (simp_all add: advancing_def less_imp_le)
    obtain b h where h: "poll_loop L st (fst (clock_gettime L ?h1)) 0 (e\<lparr>dev := ?h2\<rparr>) = Some (b, e\<lparr>dev := h\<rparr>)" "Q h"
      using poll_loop_returns [OF adv Q, of "e\<lparr>dev := ?h2\<rparr>", OF _ _ t(1), of 0] m q1 t(2) by simp blast
    have "WaitOpDone_mmap L st e = Some (True, e\<lparr>dev := h\<rparr>)"
      using False m h(1) by (simp add: WaitOpDone_mmap_def register_access GetCurTime_def case_prod_beta Let_def)
    then show ?thesis using h(2) that by blast
  qed
qed

section \<open>The log of the writes\<close>

definition traced_linux :: "'h linux \<Rightarrow> ('h \<times> wlog) linux" where
  "traced_linux L = \<lparr>bus = traced (bus L),
     clock_gettime = (\<lambda>(h, t). (fst (clock_gettime L h), (snd (clock_gettime L h), t))),
     open_mem = (\<lambda>(h, t). (fst (open_mem L h), (snd (open_mem L h), t))),
     mmap_phys = (\<lambda>b n (h, t). (fst (mmap_phys L b n h), (snd (mmap_phys L b n h), t)))\<rparr>"

lemma traced_linux_sel [simp]:
  "bus (traced_linux L) = traced (bus L)"
  "clock_gettime (traced_linux L) (h, t) = (fst (clock_gettime L h), (snd (clock_gettime L h), t))"
  by (simp_all add: traced_linux_def)

abbreviation logged :: "('h \<times> wlog) emio \<Rightarrow> wlog" where
  "logged e \<equiv> snd (dev e)"

lemma traced_advancing: "advancing L tm \<Longrightarrow> advancing (traced_linux L) (\<lambda>(h, t). tm h)"
  by (auto simp: advancing_def)

lemma traced_kept: "kept (traced_linux L) (\<lambda>(h, t). t = tr)"
  by (auto simp: kept_def bus_simps)

text \<open>
  \<open>drives\<close>: an operation on the object that succeeds, appends the writes \<open>w\<close> to the log and
  leaves the members that matter to the protocol as \<open>b\<close> (the direction flag) says.
\<close>

definition drives ::
    "'h linux \<Rightarrow> bool \<Rightarrow> wlog \<Rightarrow> ('h \<times> wlog) emio \<Rightarrow> ('h \<times> wlog) emio \<Rightarrow> bool" where
  "drives L b w e e' \<longleftrightarrow> mapped (traced_linux L) e' \<and> isInput e' = b \<and> logged e' = logged e @ w
     \<and> version e' = version e"

lemma drives_trans: "drives L b v e e' \<Longrightarrow> drives L c w e' e'' \<Longrightarrow> drives L c (v @ w) e e''"
  by (simp add: drives_def)

lemma drives_mapped: "drives L b w e e' \<Longrightarrow> mapped (traced_linux L) e'"
  "drives L b w e e' \<Longrightarrow> isInput e' = b"
  by (simp_all add: drives_def)

lemma drives_write:
  assumes "mapped (traced_linux L) e" "4 * (r div 4) = r"
  shows "\<exists>e'. RegisterWrite (traced_linux L) r v e = Some e' \<and> drives L (isInput e) [(gpio_base (bus L) + r, v)] e e'"
  using assms
  by (cases "dev e") (simp add: register_access drives_def bus_simps)

lemma drives_read:
  assumes "mapped (traced_linux L) e" "4 * (r div 4) = r"
  shows "\<exists>v e'. RegisterRead (traced_linux L) r e = Some (v, e') \<and> drives L (isInput e) [] e e'"
  using assms
  by (cases "dev e") (simp add: register_access drives_def bus_simps)

lemma drives_wait:
  assumes adv: "advancing L tm" and m: "mapped (traced_linux L) e"
  shows "\<exists>e'. WaitOpDone_mmap (traced_linux L) st e = Some (True, e') \<and> drives L (isInput e) [] e e'"
proof -
  have "case dev e of (h, t) \<Rightarrow> t = logged e" by (simp add: case_prod_beta)
  then obtain h where "WaitOpDone_mmap (traced_linux L) st e = Some (True, e\<lparr>dev := h\<rparr>)"
    "case h of (h, t) \<Rightarrow> t = logged e"
    by (rule wait_returns [OF traced_advancing [OF adv] traced_kept m])
  with m show ?thesis by (auto simp: drives_def case_prod_beta)
qed

lemma drives_time:
  assumes "mapped (traced_linux L) e"
  shows "drives L (isInput e) [] e (stamp (traced_linux L) e)"
    "drives L (isInput e) [] e (time_start (traced_linux L) e)"
    "drives L (isInput e) [] e (time_end (traced_linux L) e)"
  using assms
  by (cases "dev e"; simp add: drives_def stamp_def time_start_def time_end_def set_startTime_def set_endTime_def
      GetCurTime_def Let_def)+

definition turn_log :: "'h platform \<Rightarrow> bool \<Rightarrow> wlog" where
  "turn_log P out = (if out then [(gpio_base P + Reg_DirLower, 0xffffffff), (gpio_base P + Reg_OutEnLower, 0xffffffff)]
     else [(gpio_base P + Reg_DirLower, 0)])"

lemma drives_lines:
  assumes "mapped (traced_linux L) e"
  shows "\<exists>e'. lines_to_output (traced_linux L) e = Some e'
      \<and> drives L False (if isInput e then turn_log (bus L) True else []) e e'"
    "\<exists>e'. lines_to_input (traced_linux L) e = Some e'
      \<and> drives L True (if isInput e then [] else turn_log (bus L) False) e e'"
  using assms
  by (cases "dev e"; simp add: lines_to_output_def lines_to_input_def register_access drives_def turn_log_def bus_simps)+

section \<open>Bus activity of the transfers\<close>

lemma drives_quad:
  assumes adv: "advancing L tm" and m: "mapped (traced_linux L) e" and r: "4 * (r div 4) = r"
  shows "\<exists>e1 e2. RegisterWrite (traced_linux L) r v e = Some e1
    \<and> WaitOpDone_mmap (traced_linux L) st e1 = Some (True, e2)
    \<and> drives L (isInput e) [(gpio_base (bus L) + r, v)] e e2"
proof -
  obtain e1 where e1: "RegisterWrite (traced_linux L) r v e = Some e1"
    "drives L (isInput e) [(gpio_base (bus L) + r, v)] e e1"
    using drives_write [OF m r] by blast
  obtain e2 where "WaitOpDone_mmap (traced_linux L) st e1 = Some (True, e2)" "drives L (isInput e) [] e1 e2"
    using drives_wait [OF adv drives_mapped(1) [OF e1(2)]] drives_mapped(2) [OF e1(2)] by auto
  with e1 drives_trans [OF e1(2)] show ?thesis by fastforce
qed

lemma block_write_log_from:
  "block_write_log P a data n n = concat (map (\<lambda>q. [(gpio_base P + Reg_OutputLower, data q),
     (gpio_base P + Reg_OutputUpper, blk_word a n q)]) [0..<n])"
  by (simp add: block_write_log_def)

lemma write_quads_drive:
  assumes adv: "advancing L tm"
  shows "\<lbrakk>mapped (traced_linux L) e; blk_inv a n q addr outreg; q + left = n\<rbrakk>
    \<Longrightarrow> \<exists>e'. mmap_write_quads (traced_linux L) data (int n) left q addr outreg e = Some (True, e')
      \<and> drives L (isInput e) (concat (map (\<lambda>k. [(gpio_base (bus L) + Reg_OutputLower, bswap_32 (data k)),
          (gpio_base (bus L) + Reg_OutputUpper, blk_word a n k)]) [q..<n])) e e'"
proof (induction left arbitrary: q addr outreg e)
  case 0
  then show ?case by (simp add: drives_def)
next
  case (Suc left)
  have q: "q < n" using Suc.prems(3) by simp
  obtain e1 where e1: "RegisterWrite (traced_linux L) Reg_OutputLower (bswap_32 (data q)) e = Some e1"
    "drives L (isInput e) [(gpio_base (bus L) + Reg_OutputLower, bswap_32 (data q))] e e1"
    using drives_write [OF Suc.prems(1) reg_aligned(1)] by blast
  obtain e2 e3 where e3: "RegisterWrite (traced_linux L) Reg_OutputUpper (blk_word a n q) e1 = Some e2"
    "WaitOpDone_mmap (traced_linux L) True e2 = Some (True, e3)"
    "drives L (isInput e) [(gpio_base (bus L) + Reg_OutputUpper, blk_word a n q)] e1 e3"
    using drives_quad [OF adv drives_mapped(1) [OF e1(2)] reg_aligned(2)] drives_mapped(2) [OF e1(2)] by metis
  obtain e' where e': "mmap_write_quads (traced_linux L) data (int n) left (Suc q) (addr + 1) (blk_word a n q) e3
      = Some (True, e')" "drives L (isInput e) (concat (map (\<lambda>k. [(gpio_base (bus L) + Reg_OutputLower, bswap_32 (data k)),
          (gpio_base (bus L) + Reg_OutputUpper, blk_word a n k)]) [Suc q..<n])) e3 e'"
    using Suc.IH [OF drives_mapped(1) [OF e3(3)] blk_inv_step [OF Suc.prems(2)]] Suc.prems(3) drives_mapped(2) [OF e3(3)]
    by auto
  show ?case
    using e1(1) e3(1,2) e'(1) drives_trans [OF drives_trans [OF e1(2) e3(3)] e'(2)] q
    by (simp add: blk_inv_word [OF Suc.prems(2) q] upt_conv_Cons)
qed

lemma read_quads_drive:
  assumes adv: "advancing L tm"
  shows "\<lbrakk>mapped (traced_linux L) e; blk_inv a n q addr outreg; q + left = n\<rbrakk>
    \<Longrightarrow> \<exists>ds' e'. mmap_read_quads (traced_linux L) (int n) left q addr outreg ds e = Some (True, ds @ ds', e')
      \<and> length ds' = left
      \<and> drives L (isInput e) (map (\<lambda>k. (gpio_base (bus L) + Reg_OutputUpper, blk_word a n k)) [q..<n]) e e'"
proof (induction left arbitrary: q addr outreg ds e)
  case 0
  then show ?case by (simp add: drives_def)
next
  case (Suc left)
  have q: "q < n" using Suc.prems(3) by simp
  obtain e2 e3 where e3: "RegisterWrite (traced_linux L) Reg_OutputUpper (blk_word a n q) e = Some e2"
    "WaitOpDone_mmap (traced_linux L) True e2 = Some (True, e3)"
    "drives L (isInput e) [(gpio_base (bus L) + Reg_OutputUpper, blk_word a n q)] e e3"
    using drives_quad [OF adv Suc.prems(1) reg_aligned(2)] by metis
  obtain v e4 where e4: "RegisterRead (traced_linux L) Reg_InputLower e3 = Some (v, e4)"
    "drives L (isInput e) [] e3 e4"
    using drives_read [OF drives_mapped(1) [OF e3(3)] reg_aligned(3)] drives_mapped(2) [OF e3(3)] by auto
  obtain ds' e' where e': "mmap_read_quads (traced_linux L) (int n) left (Suc q) (addr + 1) (blk_word a n q)
      (ds @ [bswap_32 v]) e4 = Some (True, (ds @ [bswap_32 v]) @ ds', e')" "length ds' = left"
    "drives L (isInput e) (map (\<lambda>k. (gpio_base (bus L) + Reg_OutputUpper, blk_word a n k)) [Suc q..<n]) e4 e'"
    using Suc.IH [OF drives_mapped(1) [OF e4(2)] blk_inv_step [OF Suc.prems(2)], of "ds @ [bswap_32 v]"]
      Suc.prems(3) drives_mapped(2) [OF e4(2)] by auto
  show ?case
    using e3(1,2) e4(1) e'(1,2) drives_trans [OF drives_trans [OF e3(3) e4(2)] e'(3)] q
    by (auto simp: blk_inv_word [OF Suc.prems(2) q] upt_conv_Cons)
qed

lemma write_block_drives:
  assumes adv: "advancing L tm" and m: "mapped (traced_linux L) e" and ver: "1 \<le> version e"
  shows "\<exists>e'. WriteBlock (traced_linux L) a data nBytes e = Some (True, e')
    \<and> drives L False ((if isInput e then turn_log (bus L) True else [])
      @ block_write_log (bus L) a (bswap_32 \<circ> data) (unat (blk_nQuads nBytes)) (unat (blk_nQuads nBytes))
      @ [(gpio_base (bus L) + Reg_OutputUpper, 0)]) e e'"
proof -
  let ?T = "traced_linux L"
  define n where "n = unat (blk_nQuads nBytes)"
  have n: "uint ((nBytes + 3) div 4) = int n" "unat ((nBytes + 3) div 4) = n" by (simp_all add: n_def blk_nQuads_def)
  note t0 = drives_time(2) [OF m]
  obtain e1 where e1: "lines_to_output ?T (time_start ?T e) = Some e1"
    "drives L False (if isInput e then turn_log (bus L) True else []) (time_start ?T e) e1"
    using drives_lines(1) [OF drives_mapped(1) [OF t0]] drives_mapped(2) [OF t0] by auto
  note s1 = drives_time(1) [OF drives_mapped(1) [OF e1(2)]]
  obtain e2 where e2: "mmap_write_quads ?T data (int n) n 0 a (blk_base a) (stamp ?T e1) = Some (True, e2)"
    "drives L False (concat (map (\<lambda>k. [(gpio_base (bus L) + Reg_OutputLower, bswap_32 (data k)),
        (gpio_base (bus L) + Reg_OutputUpper, blk_word a n k)]) [0..<n])) (stamp ?T e1) e2"
    using write_quads_drive [OF adv drives_mapped(1) [OF s1] blk_inv_start, of n n data]
      drives_mapped(2) [OF s1] drives_mapped(2) [OF e1(2)] by auto
  note s2 = drives_time(1) [OF drives_mapped(1) [OF e2(2)]]
  obtain e3 where e3: "WaitOpDone_mmap ?T False (stamp ?T e2) = Some (True, e3)" "drives L (isInput (stamp ?T e2)) [] (stamp ?T e2) e3"
    using drives_wait [OF adv drives_mapped(1) [OF s2]] by blast
  obtain e4 where e4: "RegisterWrite ?T Reg_OutputUpper 0 e3 = Some e4"
    "drives L (isInput e3) [(gpio_base (bus L) + Reg_OutputUpper, 0)] e3 e4"
    using drives_write [OF drives_mapped(1) [OF e3(2)] reg_aligned(2)] by blast
  note s4 = drives_time(3) [OF drives_mapped(1) [OF e4(2)]]
  have "version e \<noteq> 0" using ver by auto
  then have "WriteBlock ?T a data nBytes e = Some (True, time_end ?T e4)"
    using e1(1) e2(1) e3(1) e4(1) by (simp add: WriteBlock_def n not_less Let_def)
  moreover have "drives L False ((if isInput e then turn_log (bus L) True else [])
      @ block_write_log (bus L) a (bswap_32 \<circ> data) n n @ [(gpio_base (bus L) + Reg_OutputUpper, 0)]) e (time_end ?T e4)"
    using t0 e1(2) s1 e2(2) s2 e3(2) e4(2) s4 by (simp add: drives_def block_write_log_def comp_def)
  ultimately show ?thesis unfolding n_def by blast
qed

lemma write_block_log:
  assumes adv: "advancing L tm" and m: "mapped (traced_linux L) e" and ver: "1 \<le> version e"
  shows "\<exists>e'. WriteBlock (traced_linux L) a data nBytes e = Some (True, e') \<and> \<not> isInput e'
    \<and> logged e' = logged e @ (if isInput e then turn_log (bus L) True else [])
      @ block_write_log (bus L) a (bswap_32 \<circ> data) (unat (blk_nQuads nBytes)) (unat (blk_nQuads nBytes))
      @ [(gpio_base (bus L) + Reg_OutputUpper, 0)]"
  using write_block_drives [OF assms] by (fastforce simp: drives_def)

text \<open>C13. On any firmware, with a clock that advances, \<open>WriteBlock\<close> of an object whose interface version
  is at least 1 returns true
  and its register writes are exactly those of the block protocol: turn the data lines to output
  unless they are already; then, for each quadlet, the byte-swapped word and the same output word
  as the standalone driver's; finally 0. The data lines are left as output. With version 0, which the
  constructor accepts, it returns false and does nothing.\<close>

theorem WriteBlock_mmap_trace:
  assumes adv: "advancing L tm" and m: "mapped (traced_linux L) e"
  shows "if version e = 0 then WriteBlock (traced_linux L) a data nBytes e = Some (False, e)
    else \<exists>e'. WriteBlock (traced_linux L) a data nBytes e = Some (True, e') \<and> \<not> isInput e'
    \<and> logged e' = logged e @ (if isInput e then turn_log (bus L) True else [])
      @ block_write_log (bus L) a (bswap_32 \<circ> data) (unat (blk_nQuads nBytes)) (unat (blk_nQuads nBytes))
      @ [(gpio_base (bus L) + Reg_OutputUpper, 0)]"
proof (cases "version e = 0")
  case True
  then show ?thesis by (simp add: WriteBlock_def)
next
  case False
  then have "1 \<le> version e" by (simp add: word_le_nat_alt unat_gt_0 Suc_le_eq)
  then show ?thesis using write_block_log [OF adv m] False by simp
qed

lemma read_block_drives:
  assumes adv: "advancing L tm" and m: "mapped (traced_linux L) e" and ver: "1 \<le> version e"
  shows "\<exists>ds e'. ReadBlock (traced_linux L) a nBytes e = Some (Some ds, e')
    \<and> length ds = unat (blk_nQuads nBytes)
    \<and> drives L True ((if isInput e then [] else turn_log (bus L) False)
      @ block_read_log (bus L) a (unat (blk_nQuads nBytes)) (unat (blk_nQuads nBytes))
      @ [(gpio_base (bus L) + Reg_OutputUpper, 0)]) e e'"
proof -
  let ?T = "traced_linux L"
  define n where "n = unat (blk_nQuads nBytes)"
  have n: "uint ((nBytes + 3) div 4) = int n" "unat ((nBytes + 3) div 4) = n" by (simp_all add: n_def blk_nQuads_def)
  note t0 = drives_time(2) [OF m]
  obtain e1 where e1: "lines_to_input ?T (time_start ?T e) = Some e1"
    "drives L True (if isInput e then [] else turn_log (bus L) False) (time_start ?T e) e1"
    using drives_lines(2) [OF drives_mapped(1) [OF t0]] drives_mapped(2) [OF t0] by auto
  note s1 = drives_time(1) [OF drives_mapped(1) [OF e1(2)]]
  obtain ds e2 where e2: "mmap_read_quads ?T (int n) n 0 a (blk_base a) [] (stamp ?T e1) = Some (True, ds, e2)"
    "length ds = n" "drives L True (block_read_log (bus L) a n n) (stamp ?T e1) e2"
    using read_quads_drive [OF adv drives_mapped(1) [OF s1] blk_inv_start, where left = n and n = n and ds = "[]"]
      drives_mapped(2) [OF s1] drives_mapped(2) [OF e1(2)] unfolding block_read_log_def by force
  note s2 = drives_time(1) [OF drives_mapped(1) [OF e2(3)]]
  obtain e3 e4 where e4: "RegisterWrite ?T Reg_OutputUpper 0 (stamp ?T e2) = Some e3"
    "WaitOpDone_mmap ?T False e3 = Some (True, e4)"
    "drives L (isInput (stamp ?T e2)) [(gpio_base (bus L) + Reg_OutputUpper, 0)] (stamp ?T e2) e4"
    using drives_quad [OF adv drives_mapped(1) [OF s2] reg_aligned(2)] by blast
  note s4 = drives_time(3) [OF drives_mapped(1) [OF e4(3)]]
  have "version e \<noteq> 0" using ver by auto
  then have "ReadBlock ?T a nBytes e = Some (Some ds, time_end ?T e4)"
    using e1(1) e2(1) e4(1,2) by (simp add: ReadBlock_def n not_less Let_def)
  moreover have "drives L True ((if isInput e then [] else turn_log (bus L) False)
      @ block_read_log (bus L) a n n @ [(gpio_base (bus L) + Reg_OutputUpper, 0)]) e (time_end ?T e4)"
    using t0 e1(2) s1 e2(3) s2 e4(3) s4 by (simp add: drives_def)
  ultimately show ?thesis using e2(2) unfolding n_def by blast
qed

text \<open>Likewise for \<open>ReadBlock\<close>: it returns true with one word per quadlet, and writes only the turn
  to input (unless the lines are input already), the output word of each quadlet, and a final 0.\<close>

theorem ReadBlock_mmap_trace:
  assumes adv: "advancing L tm" and m: "mapped (traced_linux L) e" and ver: "1 \<le> version e"
  shows "\<exists>ds e'. ReadBlock (traced_linux L) a nBytes e = Some (Some ds, e') \<and> isInput e'
    \<and> length ds = unat (blk_nQuads nBytes)
    \<and> logged e' = logged e @ (if isInput e then [] else turn_log (bus L) False)
      @ block_read_log (bus L) a (unat (blk_nQuads nBytes)) (unat (blk_nQuads nBytes))
      @ [(gpio_base (bus L) + Reg_OutputUpper, 0)]"
  using read_block_drives [OF assms] by (fastforce simp: drives_def)

lemma read_quadlet_drives:
  assumes adv: "advancing L tm" and m: "mapped (traced_linux L) e"
  shows "\<exists>data e'. ReadQuadlet (traced_linux L) a e = Some (Some data, e')
      \<and> drives L True ((if isInput e then [] else turn_log (bus L) False)
        @ [(gpio_base (bus L) + Reg_OutputUpper, ucast a OR Bits_RequestBus), (gpio_base (bus L) + Reg_OutputUpper, 0)]) e e'"
proof -
  let ?T = "traced_linux L" and ?up = "gpio_base (bus L) + Reg_OutputUpper"
  note t0 = drives_time(2) [OF m]
  obtain e1 where e1: "lines_to_input ?T (time_start ?T e) = Some e1"
    "drives L True (if isInput e then [] else turn_log (bus L) False) (time_start ?T e) e1"
    using drives_lines(2) [OF drives_mapped(1) [OF t0]] drives_mapped(2) [OF t0] by auto
  obtain e2 where e2: "RegisterWrite ?T Reg_OutputUpper (ucast a OR Bits_RequestBus) e1 = Some e2"
    "drives L (isInput e1) [(?up, ucast a OR Bits_RequestBus)] e1 e2"
    using drives_write [OF drives_mapped(1) [OF e1(2)] reg_aligned(2)] by blast
  note s2 = drives_time(1) [OF drives_mapped(1) [OF e2(2)]]
  obtain e3 where e3: "WaitOpDone_mmap ?T True (stamp ?T e2) = Some (True, e3)" "drives L (isInput (stamp ?T e2)) [] (stamp ?T e2) e3"
    using drives_wait [OF adv drives_mapped(1) [OF s2]] by blast
  note s3 = drives_time(1) [OF drives_mapped(1) [OF e3(2)]]
  obtain v e4 where e4: "RegisterRead ?T Reg_InputLower (stamp ?T e3) = Some (v, e4)"
    "drives L (isInput (stamp ?T e3)) [] (stamp ?T e3) e4"
    using drives_read [OF drives_mapped(1) [OF s3] reg_aligned(3)] by blast
  obtain e5 e6 where e6: "RegisterWrite ?T Reg_OutputUpper 0 e4 = Some e5" "WaitOpDone_mmap ?T False e5 = Some (True, e6)"
    "drives L (isInput e4) [(?up, 0)] e4 e6"
    using drives_quad [OF adv drives_mapped(1) [OF e4(2)] reg_aligned(2)] by blast
  note s6 = drives_time(3) [OF drives_mapped(1) [OF e6(3)]]
  have "ReadQuadlet ?T a e = Some (Some v, time_end ?T e6)"
    using e1(1) e2(1) e3(1) e4(1) e6(1,2) by (simp add: ReadQuadlet_def Let_def)
  moreover have "drives L True ((if isInput e then [] else turn_log (bus L) False)
        @ [(?up, ucast a OR Bits_RequestBus), (?up, 0)]) e (time_end ?T e6)"
    using t0 e1(2) e2(2) s2 e3(2) s3 e4(2) e6(3) s6 by (simp add: drives_def)
  ultimately show ?thesis by blast
qed

lemma read_quadlet_log:
  assumes adv: "advancing L tm" and m: "mapped (traced_linux L) e"
  shows "\<exists>data e'. ReadQuadlet (traced_linux L) a e = Some (Some data, e')
      \<and> logged e' = logged e @ (if isInput e then [] else turn_log (bus L) False)
        @ [(gpio_base (bus L) + Reg_OutputUpper, ucast a OR Bits_RequestBus), (gpio_base (bus L) + Reg_OutputUpper, 0)]"
  using read_quadlet_drives [OF assms] by (fastforce simp: drives_def)

lemma write_quadlet_drives:
  assumes adv: "advancing L tm" and m: "mapped (traced_linux L) e"
  shows "\<exists>e'. WriteQuadlet (traced_linux L) a d e = Some (True, e')
      \<and> drives L False ((if isInput e then turn_log (bus L) True else [])
        @ [(gpio_base (bus L) + Reg_OutputLower, d),
           (gpio_base (bus L) + Reg_OutputUpper, ucast a OR Bits_RegWen OR Bits_RequestBus),
           (gpio_base (bus L) + Reg_OutputUpper, 0)]) e e'"
proof -
  let ?T = "traced_linux L" and ?up = "gpio_base (bus L) + Reg_OutputUpper"
  let ?low = "gpio_base (bus L) + Reg_OutputLower" and ?w = "ucast a OR Bits_RegWen OR Bits_RequestBus"
  note t0 = drives_time(2) [OF m]
  obtain e1 where e1: "lines_to_output ?T (time_start ?T e) = Some e1"
    "drives L False (if isInput e then turn_log (bus L) True else []) (time_start ?T e) e1"
    using drives_lines(1) [OF drives_mapped(1) [OF t0]] drives_mapped(2) [OF t0] by auto
  obtain e2 where e2: "RegisterWrite ?T Reg_OutputLower d e1 = Some e2" "drives L (isInput e1) [(?low, d)] e1 e2"
    using drives_write [OF drives_mapped(1) [OF e1(2)] reg_aligned(1)] by blast
  obtain e3 where e3: "RegisterWrite ?T Reg_OutputUpper ?w e2 = Some e3" "drives L (isInput e2) [(?up, ?w)] e2 e3"
    using drives_write [OF drives_mapped(1) [OF e2(2)] reg_aligned(2)] by blast
  note s3 = drives_time(1) [OF drives_mapped(1) [OF e3(2)]]
  obtain e4 where e4: "WaitOpDone_mmap ?T True (stamp ?T e3) = Some (True, e4)" "drives L (isInput (stamp ?T e3)) [] (stamp ?T e3) e4"
    using drives_wait [OF adv drives_mapped(1) [OF s3]] by blast
  note s4 = drives_time(1) [OF drives_mapped(1) [OF e4(2)]]
  obtain e5 e6 where e6: "RegisterWrite ?T Reg_OutputUpper 0 (stamp ?T e4) = Some e5"
    "WaitOpDone_mmap ?T False e5 = Some (True, e6)" "drives L (isInput (stamp ?T e4)) [(?up, 0)] (stamp ?T e4) e6"
    using drives_quad [OF adv drives_mapped(1) [OF s4] reg_aligned(2)] by blast
  note s6 = drives_time(3) [OF drives_mapped(1) [OF e6(3)]]
  have "WriteQuadlet ?T a d e = Some (True, time_end ?T e6)"
    using e1(1) e2(1) e3(1) e4(1) e6(1,2) by (simp add: WriteQuadlet_def Let_def)
  moreover have "drives L False ((if isInput e then turn_log (bus L) True else [])
        @ [(?low, d), (?up, ?w), (?up, 0)]) e (time_end ?T e6)"
    using t0 e1(2) e2(2) e3(2) s3 e4(2) s4 e6(3) s6 by (simp add: drives_def)
  ultimately show ?thesis by blast
qed

lemma write_quadlet_log:
  assumes adv: "advancing L tm" and m: "mapped (traced_linux L) e"
  shows "\<exists>e'. WriteQuadlet (traced_linux L) a d e = Some (True, e')
      \<and> logged e' = logged e @ (if isInput e then turn_log (bus L) True else [])
        @ [(gpio_base (bus L) + Reg_OutputLower, d),
           (gpio_base (bus L) + Reg_OutputUpper, ucast a OR Bits_RegWen OR Bits_RequestBus),
           (gpio_base (bus L) + Reg_OutputUpper, 0)]"
  using write_quadlet_drives [OF assms] by (fastforce simp: drives_def)

text \<open>C14. The Linux driver never reports a timeout. On any firmware, even one that never sets
  \<open>op_done\<close>, with a clock that advances, \<open>ReadQuadlet\<close> returns true with some data and \<open>WriteQuadlet\<close> returns true, after
  the complete write sequence of the protocol.\<close>

theorem quadlets_mmap_never_fail:
  assumes adv: "advancing L tm" and m: "mapped (traced_linux L) e"
  shows "(\<exists>data e'. ReadQuadlet (traced_linux L) a e = Some (Some data, e')
      \<and> logged e' = logged e @ (if isInput e then [] else turn_log (bus L) False)
        @ [(gpio_base (bus L) + Reg_OutputUpper, ucast a OR Bits_RequestBus), (gpio_base (bus L) + Reg_OutputUpper, 0)])
    \<and> (\<exists>e'. WriteQuadlet (traced_linux L) a d e = Some (True, e')
      \<and> logged e' = logged e @ (if isInput e then turn_log (bus L) True else [])
        @ [(gpio_base (bus L) + Reg_OutputLower, d),
           (gpio_base (bus L) + Reg_OutputUpper, ucast a OR Bits_RegWen OR Bits_RequestBus),
           (gpio_base (bus L) + Reg_OutputUpper, 0)])"
  by (intro conjI read_quadlet_log [OF assms] write_quadlet_log [OF assms])

section \<open>A kernel on which a firmware never answers\<close>

text \<open>Every register reads as 0; the hardware state is the time in nanoseconds.\<close>

definition dead_linux :: "int linux" where
  "dead_linux = \<lparr>bus = \<lparr>rd32 = (\<lambda>a t. (0, t + 40)), wr32 = (\<lambda>a v t. t + 40), cp15_wr = (\<lambda>r v t. t), cp15_rd = (\<lambda>r t. 0),
       gpio_base = 0xE000A000, l2cc_invld_way = 0xF8F0277C, l2cc_inv_cln_way = 0xF8F027FC, l2cc_sync = 0xF8F02730\<rparr>,
     clock_gettime = (\<lambda>t. (\<lparr>tv_sec = t div 1000000000, tv_nsec = t mod 1000000000\<rparr>, t + 60)),
     open_mem = (\<lambda>t. (3, t)), mmap_phys = (\<lambda>b n t. (True, t))\<rparr>"

lemma dead_advancing: "advancing dead_linux (\<lambda>t. t)"
  by (simp add: advancing_def dead_linux_def)

definition dead_object :: "bool \<Rightarrow> (int \<times> wlog) emio" where
  "dead_object inp = (emio_base (0, []))\<lparr>mmap_region := Some GPIO_BASE_ADDR, isInput := inp, version := 1\<rparr>"

lemma dead_object_mapped: "mapped (traced_linux dead_linux) (dead_object inp)"
  by (simp add: mapped_def dead_object_def dead_linux_def GPIO_BASE_ADDR_def)

lemma quadlets_mmap_never_fail_witness:
  "\<exists>data e'. ReadQuadlet (traced_linux dead_linux) 0x1234 (dead_object True) = Some (Some data, e')
     \<and> logged e' = [(0xE000A04C, 0x11234), (0xE000A04C, 0)]"
  using quadlets_mmap_never_fail [OF dead_advancing dead_object_mapped, of "0x1234" True 0, THEN conjunct1]
  by (simp add: dead_object_def emio_base_defs dead_linux_def reg_defs bits_defs)

lemma WriteBlock_mmap_trace_witness:
  "\<exists>e'. WriteBlock (traced_linux dead_linux) 0x1001 (\<lambda>q. 0xA0 + of_nat q) 8 (dead_object True) = Some (True, e')
     \<and> logged e' = [(0xE000A284, 0xffffffff), (0xE000A288, 0xffffffff),
      (0xE000A048, 0xA0000000), (0xE000A04C, 0x00891001),
      (0xE000A048, 0xA1000000), (0xE000A04C, 0x00111001), (0xE000A04C, 0)]"
proof -
  have "version (dead_object True) \<noteq> 0" by (simp add: dead_object_def)
  with WriteBlock_mmap_trace [OF dead_advancing dead_object_mapped [of True],
      where a = "0x1001" and data = "\<lambda>q. 0xA0 + of_nat q" and nBytes = 8]
  show ?thesis
    by (auto simp: block_write_log_def blk_word_def blk_nQuads_def bits_defs reg_defs turn_log_def
      dead_object_def emio_base_defs dead_linux_def bswap_32_def upt_rec)
qed

lemma ReadBlock_mmap_trace_witness:
  "\<exists>ds e'. ReadBlock (traced_linux dead_linux) 0x1000 5 (dead_object False) = Some (Some ds, e') \<and> length ds = 2
     \<and> logged e' = [(0xE000A284, 0), (0xE000A04C, 0x00091000), (0xE000A04C, 0x00911000), (0xE000A04C, 0)]"
proof -
  have "1 \<le> version (dead_object False)" by (simp add: dead_object_def)
  from ReadBlock_mmap_trace [OF dead_advancing dead_object_mapped this, where a = "0x1000" and nBytes = 5]
  show ?thesis
    by (auto simp: block_read_log_def blk_word_def blk_nQuads_def bits_defs reg_defs turn_log_def
      dead_object_def emio_base_defs dead_linux_def upt_rec)
qed

end
