(* ===== verification/EmioMmapDevice.thy ===== *)
theory EmioMmapDevice
  imports EmioMmapTrace EmioDevice
begin

text \<open>
  The Linux driver provides the register-file interface of theory \<open>EmioDevice\<close> on firmware that
  answers within the timeout. \<open>answers L T h\<close> says so: of the reads the driver makes from \<open>h\<close>
  on, one shows \<open>op_done\<close>, and the clock readings before it are less than \<open>T\<close> microseconds after
  the first one. Then initialisation, and the firmware of \<open>EmioDevice\<close> under a ticking clock.
\<close>

section \<open>Firmware that answers in time\<close>

fun sees :: "'h linux \<Rightarrow> rat \<Rightarrow> timespec \<Rightarrow> nat \<Rightarrow> 'h \<Rightarrow> bool" where
  "sees L T ws 0 h \<longleftrightarrow> done_at (bus L) 0 h"
| "sees L T ws (Suc k) h \<longleftrightarrow>
     (let h1 = snd (In32 (bus L) Reg_InputUpper h)
      in TimeDiff_us ws (fst (clock_gettime L h1)) < T \<and> sees L T ws k (snd (clock_gettime L h1)))"

definition answers :: "'h linux \<Rightarrow> rat \<Rightarrow> 'h \<Rightarrow> bool" where
  "answers L T h \<longleftrightarrow> done_at (bus L) 0 h
     \<or> (let h1 = snd (In32 (bus L) Reg_InputUpper h)
        in \<exists>k. sees L T (fst (clock_gettime L h1)) k (snd (clock_gettime L h1)))"

definition linux_device ::
    "'h linux \<Rightarrow> ('h \<Rightarrow> emio_pins) \<Rightarrow> ('h \<Rightarrow> word16 \<Rightarrow> word32) \<Rightarrow> rat \<Rightarrow> bool" where
  "linux_device L pins rg T \<longleftrightarrow> emio_device (bus L) pins rg \<and> 0 < T
     \<and> (\<forall>h. pins (snd (clock_gettime L h)) = pins h \<and> rg (snd (clock_gettime L h)) = rg h)
     \<and> (\<forall>h v. v AND Bits_RequestBus \<noteq> 0 \<longrightarrow> answers L T (Out32 (bus L) Reg_OutputUpper v h)
        \<and> answers L T (snd (clock_gettime L (Out32 (bus L) Reg_OutputUpper v h))))"

text \<open>What the object and the device show between two steps of a method.\<close>

definition obj_at ::
    "'h linux \<Rightarrow> ('h \<Rightarrow> emio_pins) \<Rightarrow> ('h \<Rightarrow> word16 \<Rightarrow> word32) \<Rightarrow> rat \<Rightarrow> bool \<Rightarrow> emio_pins
      \<Rightarrow> (word16 \<Rightarrow> word32) \<Rightarrow> 'h emio \<Rightarrow> bool" where
  "obj_at L pins rg T b p r e \<longleftrightarrow> mapped L e \<and> isInput e = b \<and> pins (dev e) = p \<and> rg (dev e) = r \<and> timeout_us e = T"

lemma obj_mapped: "obj_at L pins rg T b p r e \<Longrightarrow> mapped L e"
  by (simp add: obj_at_def)

lemma linux_deviceD:
  assumes "linux_device L pins rg T"
  shows "emio_device (bus L) pins rg" "0 < T"
  "pins (snd (clock_gettime L h)) = pins h" "rg (snd (clock_gettime L h)) = rg h"
  "v AND Bits_RequestBus \<noteq> 0 \<Longrightarrow> answers L T (Out32 (bus L) Reg_OutputUpper v h)"
  "v AND Bits_RequestBus \<noteq> 0 \<Longrightarrow> answers L T (snd (clock_gettime L (Out32 (bus L) Reg_OutputUpper v h)))"
  using assms by (simp_all add: linux_device_def)

lemmas pin_simps = emio_deviceD [OF linux_deviceD(1)]

lemma obj_time:
  assumes dev: "linux_device L pins rg T" and "obj_at L pins rg T b p r e"
  shows "obj_at L pins rg T b p r (stamp L e)" "obj_at L pins rg T b p r (time_start L e)" "obj_at L pins rg T b p r (time_end L e)"
  using assms(2-)
  by (simp_all add: obj_at_def stamp_def time_start_def time_end_def set_startTime_def set_endTime_def GetCurTime_def
      case_prod_beta Let_def linux_deviceD [OF dev])

lemma obj_write:
  assumes dev: "linux_device L pins rg T" and "obj_at L pins rg T b p r e"
  shows "\<exists>e'. RegisterWrite L Reg_DirLower v e = Some e' \<and> obj_at L pins rg T b (p\<lparr>dir_lower := v\<rparr>) r e'"
    "\<exists>e'. RegisterWrite L Reg_OutEnLower v e = Some e' \<and> obj_at L pins rg T b p r e'"
    "\<exists>e'. RegisterWrite L Reg_OutputLower v e = Some e' \<and> obj_at L pins rg T b (p\<lparr>out_lower := v\<rparr>) r e'"
    "\<exists>e'. RegisterWrite L Reg_OutputUpper v e = Some e' \<and> obj_at L pins rg T b (p\<lparr>out_upper := v, done_pin := False\<rparr>)
       (if v AND Bits_RequestBus \<noteq> 0 \<and> \<not> requested p \<and> dir_lower p = 0xffffffff
        then r(ucast v := out_lower p) else r) e'"
  using assms(2-) by (simp_all add: obj_at_def register_access pin_simps [OF dev])

lemma obj_lines:
  assumes dev: "linux_device L pins rg T" and "obj_at L pins rg T b p r e" "dir_lower p = (if b then 0 else 0xffffffff)"
  shows "\<exists>e'. lines_to_input L e = Some e' \<and> obj_at L pins rg T True (p\<lparr>dir_lower := 0\<rparr>) r e'"
    "\<exists>e'. lines_to_output L e = Some e' \<and> obj_at L pins rg T False (p\<lparr>dir_lower := 0xffffffff\<rparr>) r e'"
  using assms(2-)
  by (simp_all add: obj_at_def lines_to_input_def lines_to_output_def register_access pin_simps [OF dev])

lemma poll_loop_sees:
  assumes dev: "linux_device L pins rg T"
  shows "\<lbrakk>sees L T ws k (dev e); mapped L e; timeout_us e = T; dt < T\<rbrakk>
    \<Longrightarrow> \<exists>h. poll_loop L True ws dt e = Some (True, e\<lparr>dev := h\<rparr>)
      \<and> pins h = (pins (dev e))\<lparr>done_pin := True\<rparr> \<and> rg h = rg (dev e)"
proof (induction k arbitrary: dt e)
  case 0
  then show ?case
    by (subst poll_loop.simps) (simp add: register_access done_at_def pin_simps [OF dev])
next
  case (Suc k)
  show ?case
  proof (cases "done_at (bus L) 0 (dev e)")
    case True
    with Suc.prems show ?thesis
      by (subst poll_loop.simps) (simp add: register_access done_at_def pin_simps [OF dev])
  next
    case False
    let ?h1 = "snd (In32 (bus L) Reg_InputUpper (dev e))"
    let ?e2 = "e\<lparr>dev := snd (clock_gettime L ?h1)\<rparr>"
    have "poll_loop L True ws dt e = poll_loop L True ws (TimeDiff_us ws (fst (clock_gettime L ?h1))) ?e2"
      using False Suc.prems
      by (subst poll_loop.simps) (simp add: register_access done_at_def GetCurTime_def case_prod_beta Let_def)
    with Suc.IH [of ?e2 "TimeDiff_us ws (fst (clock_gettime L ?h1))"] Suc.prems show ?thesis
      by (simp add: Let_def linux_deviceD [OF dev] pin_simps [OF dev])
  qed
qed

lemma obj_wait:
  assumes dev: "linux_device L pins rg T" and a: "obj_at L pins rg T b p r e" and ans: "answers L T (dev e)"
  shows "\<exists>e'. WaitOpDone_mmap L True e = Some (True, e') \<and> obj_at L pins rg T b (p\<lparr>done_pin := True\<rparr>) r e'"
proof (cases "done_at (bus L) 0 (dev e)")
  case True
  with a show ?thesis
    by (auto simp: WaitOpDone_mmap_def obj_at_def register_access done_at_def pin_simps [OF dev])
next
  case False
  let ?h1 = "snd (In32 (bus L) Reg_InputUpper (dev e))"
  let ?e2 = "e\<lparr>dev := snd (clock_gettime L ?h1)\<rparr>"
  obtain k where "sees L T (fst (clock_gettime L ?h1)) k (dev ?e2)"
    using False ans by (auto simp: answers_def Let_def)
  from poll_loop_sees [OF dev this, of 0] obtain h where
    "poll_loop L True (fst (clock_gettime L ?h1)) 0 ?e2 = Some (True, ?e2\<lparr>dev := h\<rparr>)"
    "pins h = (pins (dev ?e2))\<lparr>done_pin := True\<rparr>" "rg h = rg (dev ?e2)"
    using a linux_deviceD(2) [OF dev] by (auto simp: obj_at_def)
  with a False show ?thesis
    by (auto simp: WaitOpDone_mmap_def obj_at_def register_access done_at_def GetCurTime_def case_prod_beta Let_def linux_deviceD [OF dev] pin_simps [OF dev])
qed

lemma request_answered:
  assumes "linux_device L pins rg T" "mapped L e" "v AND Bits_RequestBus \<noteq> 0"
    "RegisterWrite L Reg_OutputUpper v e = Some e'"
  shows "answers L T (dev (stamp L e'))"
  using assms(2,4) linux_deviceD(5,6) [OF assms(1,3), of "dev e"]
  by (auto simp: register_access stamp_def GetCurTime_def case_prod_beta Let_def)

lemma obj_wait_false:
  assumes dev: "linux_device L pins rg T" and "obj_at L pins rg T b p r e"
  shows "\<exists>d e'. WaitOpDone_mmap L False e = Some (True, e') \<and> obj_at L pins rg T b (p\<lparr>done_pin := d\<rparr>) r e'"
  using assms(2-) by (auto simp: WaitOpDone_mmap_false obj_at_def pin_simps [OF dev])

section \<open>The register file\<close>

definition mmap_ready ::
    "'h linux \<Rightarrow> ('h \<Rightarrow> emio_pins) \<Rightarrow> ('h \<Rightarrow> word16 \<Rightarrow> word32) \<Rightarrow> 'h emio \<Rightarrow> bool" where
  "mmap_ready L pins rg e \<longleftrightarrow> linux_device L pins rg (timeout_us e) \<and> mapped L e
     \<and> dir_lower (pins (dev e)) = (if isInput e then 0 else 0xffffffff) \<and> \<not> requested (pins (dev e))"

lemma mmap_ready_at:
  "mmap_ready L pins rg e \<longleftrightarrow> linux_device L pins rg (timeout_us e)
     \<and> (\<exists>b p. obj_at L pins rg (timeout_us e) b p (rg (dev e)) e \<and> dir_lower p = (if b then 0 else 0xffffffff) \<and> \<not> requested p)"
  by (auto simp: mmap_ready_def obj_at_def)

lemma mmap_ready_after:
  assumes "linux_device L pins rg T" "obj_at L pins rg T b p r e" "dir_lower p = (if b then 0 else 0xffffffff)"
    "\<not> requested p"
  shows "mmap_ready L pins rg e \<and> rg (dev e) = r"
  using assms by (auto simp: mmap_ready_def obj_at_def)

lemma mmap_read_ok:
  assumes ready: "mmap_ready L pins rg e"
  shows "\<exists>e'. ReadQuadlet L a e = Some (Some (rg (dev e) a), e') \<and> mmap_ready L pins rg e' \<and> rg (dev e') = rg (dev e)"
proof -
  let ?T = "timeout_us e" and ?r = "rg (dev e)" and ?w = "ucast a OR Bits_RequestBus :: word32"
  obtain b p where dev: "linux_device L pins rg ?T" and e: "obj_at L pins rg ?T b p ?r e"
    and p: "dir_lower p = (if b then 0 else 0xffffffff)" "\<not> requested p"
    using ready by (auto simp: mmap_ready_at)
  obtain e1 where e1: "lines_to_input L (time_start L e) = Some e1"
    "obj_at L pins rg ?T True (p\<lparr>dir_lower := 0\<rparr>) ?r e1"
    using obj_lines(1) [OF dev obj_time(2) [OF dev e] p(1)] by blast
  let ?p2 = "p\<lparr>dir_lower := 0, out_upper := ?w, done_pin := False\<rparr>"
  obtain e2 where e2: "RegisterWrite L Reg_OutputUpper ?w e1 = Some e2" "obj_at L pins rg ?T True ?p2 ?r e2"
    using obj_write(4) [OF dev e1(2), of ?w] by auto
  have req: "requested ?p2" by (simp add: requested_def bits_defs)
  obtain e3 where e3: "WaitOpDone_mmap L True (stamp L e2) = Some (True, e3)"
    "obj_at L pins rg ?T True (?p2\<lparr>done_pin := True\<rparr>) ?r e3"
    using obj_wait [OF dev obj_time(1) [OF dev e2(2)] request_answered [OF dev obj_mapped [OF e1(2)] out_word_requests(1) e2(1)]] by blast
  note s3 = obj_time(1) [OF dev e3(2)]
  let ?e3 = "stamp L e3"
  let ?e4 = "?e3\<lparr>dev := snd (In32 (bus L) Reg_InputLower (dev ?e3))\<rparr>"
  have data: "RegisterRead L Reg_InputLower ?e3 = Some (?r a, ?e4)"
    "obj_at L pins rg ?T True (?p2\<lparr>done_pin := True\<rparr>) ?r ?e4"
    using s3 req pin_simps(15) [OF dev, of "dev ?e3"]
    by (simp_all add: obj_at_def register_access pin_simps [OF dev] requested_def ucast_out_word)
  let ?p5 = "?p2\<lparr>done_pin := True, out_upper := 0, done_pin := False\<rparr>"
  obtain e5 where e5: "RegisterWrite L Reg_OutputUpper 0 ?e4 = Some e5" "obj_at L pins rg ?T True ?p5 ?r e5"
    using obj_write(4) [OF dev data(2), of 0] by auto
  obtain d e6 where e6: "WaitOpDone_mmap L False e5 = Some (True, e6)" "obj_at L pins rg ?T True (?p5\<lparr>done_pin := d\<rparr>) ?r e6"
    using obj_wait_false [OF dev e5(2)] by blast
  have "ReadQuadlet L a e = Some (Some (?r a), time_end L e6)"
    using e1(1) e2(1) e3(1) data(1) e5(1) e6(1) by (simp add: ReadQuadlet_def Let_def)
  moreover have "mmap_ready L pins rg (time_end L e6) \<and> rg (dev (time_end L e6)) = ?r"
    by (rule mmap_ready_after [OF dev obj_time(3) [OF dev e6(2)]]) (simp_all add: requested_def)
  ultimately show ?thesis by blast
qed

lemma mmap_write_ok:
  assumes ready: "mmap_ready L pins rg e"
  shows "\<exists>e'. WriteQuadlet L a d e = Some (True, e') \<and> mmap_ready L pins rg e' \<and> rg (dev e') = (rg (dev e))(a := d)"
proof -
  let ?T = "timeout_us e" and ?r = "rg (dev e)" and ?w = "ucast a OR Bits_RegWen OR Bits_RequestBus :: word32"
  obtain b p where dev: "linux_device L pins rg ?T" and e: "obj_at L pins rg ?T b p ?r e"
    and p: "dir_lower p = (if b then 0 else 0xffffffff)" "\<not> requested p"
    using ready by (auto simp: mmap_ready_at)
  obtain e1 where e1: "lines_to_output L (time_start L e) = Some e1"
    "obj_at L pins rg ?T False (p\<lparr>dir_lower := 0xffffffff\<rparr>) ?r e1"
    using obj_lines(2) [OF dev obj_time(2) [OF dev e] p(1)] by blast
  let ?p2 = "p\<lparr>dir_lower := 0xffffffff, out_lower := d\<rparr>"
  obtain e2 where e2: "RegisterWrite L Reg_OutputLower d e1 = Some e2" "obj_at L pins rg ?T False ?p2 ?r e2"
    using obj_write(3) [OF dev e1(2), of d] by auto
  let ?p3 = "?p2\<lparr>out_upper := ?w, done_pin := False\<rparr>" and ?r' = "?r(a := d)"
  have idle: "\<not> requested ?p2" using p(2) by (simp add: requested_def)
  obtain e3 where e3: "RegisterWrite L Reg_OutputUpper ?w e2 = Some e3" "obj_at L pins rg ?T False ?p3 ?r' e3"
    using obj_write(4) [OF dev e2(2), of ?w] idle by (auto simp: out_word_requests ucast_out_word)
  obtain e4 where e4: "WaitOpDone_mmap L True (stamp L e3) = Some (True, e4)"
    "obj_at L pins rg ?T False (?p3\<lparr>done_pin := True\<rparr>) ?r' e4"
    using obj_wait [OF dev obj_time(1) [OF dev e3(2)] request_answered [OF dev obj_mapped [OF e2(2)] out_word_requests(2) e3(1)]] by blast
  let ?p5 = "?p3\<lparr>done_pin := True, out_upper := 0, done_pin := False\<rparr>"
  obtain e5 where e5: "RegisterWrite L Reg_OutputUpper 0 (stamp L e4) = Some e5" "obj_at L pins rg ?T False ?p5 ?r' e5"
    using obj_write(4) [OF dev obj_time(1) [OF dev e4(2)], of 0] by auto
  obtain dn e6 where e6: "WaitOpDone_mmap L False e5 = Some (True, e6)" "obj_at L pins rg ?T False (?p5\<lparr>done_pin := dn\<rparr>) ?r' e6"
    using obj_wait_false [OF dev e5(2)] by blast
  have "WriteQuadlet L a d e = Some (True, time_end L e6)"
    using e1(1) e2(1) e3(1) e4(1) e5(1) e6(1) by (simp add: WriteQuadlet_def Let_def)
  moreover have "mmap_ready L pins rg (time_end L e6) \<and> rg (dev (time_end L e6)) = ?r'"
    by (rule mmap_ready_after [OF dev obj_time(3) [OF dev e6(2)]]) (simp_all add: requested_def)
  ultimately show ?thesis by blast
qed

text \<open>The Linux driver provides the same interface as the standalone driver.\<close>

interpretation mmap: register_file
  "ReadQuadlet L" "WriteQuadlet L" "mmap_ready L pins rg" "\<lambda>e. rg (dev e)" for L pins rg
  by unfold_locales (rule mmap_read_ok mmap_write_ok, assumption)+

section \<open>A kernel with a ticking clock\<close>

text \<open>The firmware of \<open>EmioDevice\<close>, answering after \<open>lag\<close> polls, under a clock that advances
  \<open>tick\<close> nanoseconds with every reading.\<close>

definition timed :: "'h platform \<Rightarrow> ('h \<times> int) platform" where
  "timed P = \<lparr>rd32 = (\<lambda>a (h, t). (fst (rd32 P a h), (snd (rd32 P a h), t))),
     wr32 = (\<lambda>a v (h, t). (wr32 P a v h, t)),
     cp15_wr = (\<lambda>r v (h, t). (cp15_wr P r v h, t)), cp15_rd = (\<lambda>r (h, t). cp15_rd P r h),
     gpio_base = gpio_base P, l2cc_invld_way = l2cc_invld_way P, l2cc_inv_cln_way = l2cc_inv_cln_way P,
     l2cc_sync = l2cc_sync P\<rparr>"

definition sim_linux :: "nat \<Rightarrow> int \<Rightarrow> (emio_fpga \<times> int) linux" where
  "sim_linux lag tick = \<lparr>bus = timed (emio_sim lag),
     clock_gettime = (\<lambda>(h, t). (\<lparr>tv_sec = t div 1000000000, tv_nsec = t mod 1000000000\<rparr>, (h, t + tick))),
     open_mem = (\<lambda>h. (3, h)), mmap_phys = (\<lambda>b n h. (True, h))\<rparr>"

lemma timed_sel [simp]:
  "In32 (timed P) r (h, t) = (fst (In32 P r h), (snd (In32 P r h), t))"
  "Out32 (timed P) r v (h, t) = (Out32 P r v h, t)" "gpio_base (timed P) = gpio_base P"
  by (simp_all add: timed_def In32_def Out32_def)

lemma timed_polls: "polls (timed P) k (h, t) = (polls P k h, t)"
  by (induction k) simp_all

lemma timed_device:
  assumes "emio_device P pins rg"
  shows "emio_device (timed P) (pins \<circ> fst) (rg \<circ> fst)"
  using assms by (simp add: emio_device_def split_paired_all done_at_def timed_polls)

lemma sim_linux_sel [simp]:
  "bus (sim_linux lag tick) = timed (emio_sim lag)"
  "clock_gettime (sim_linux lag tick) (h, t) = (\<lparr>tv_sec = t div 1000000000, tv_nsec = t mod 1000000000\<rparr>, (h, t + tick))"
  by (simp_all add: sim_linux_def)

lemma sim_sees:
  assumes "requested (fpins h)" "0 \<le> tick" "t0 \<le> t" "of_int (t - t0 + int (fwait h) * tick) / 1000 < T"
  shows "sees (sim_linux lag tick) T \<lparr>tv_sec = t0 div 1000000000, tv_nsec = t0 mod 1000000000\<rparr> (fwait h) (h, t)"
  using assms
proof (induction "fwait h" arbitrary: h t)
  case 0
  then show ?case by (simp add: done_at_def emio_sim_In32 fpga_upper_bits flip: 0(1))
next
  case (Suc n)
  let ?h = "snd (In32 (emio_sim lag) Reg_InputUpper h)"
  have h: "requested (fpins ?h)" "n = fwait ?h"
    using Suc.prems(1) Suc.hyps(2) by (simp_all add: emio_sim_In32 requested_def flip: Suc.hyps(2))
  have mono: "a / 1000 < T" if "a \<le> b" "b / 1000 < T" for a b :: rat using that by simp
  have split: "int (Suc n) * tick = int n * tick + tick" by (simp add: algebra_simps)
  have "of_int (t - t0) \<le> (of_int (t - t0 + int (Suc n) * tick) :: rat)"
    using Suc.prems(2) by (simp del: of_int_add of_int_mult of_int_diff)
  then have now: "of_int (t - t0) / 1000 < T"
    using Suc.prems(4) unfolding Suc.hyps(2) [symmetric] by (rule mono)
  have "of_int (t + tick - t0 + int (fwait ?h) * tick) / 1000 < T"
    using Suc.prems(4) by (simp only: h(2) [symmetric] Suc.hyps(2) [symmetric] split) (simp add: algebra_simps)
  from Suc.hyps(1) [OF h(2) h(1) Suc.prems(2) _ this] Suc.prems(2,3)
  have "sees (sim_linux lag tick) T \<lparr>tv_sec = t0 div 1000000000, tv_nsec = t0 mod 1000000000\<rparr> n (?h, t + tick)"
    by (simp flip: h(2))
  with now show ?case by (simp add: TimeDiff_ns Let_def flip: Suc.hyps(2))
qed

lemma sim_answers:
  assumes "requested (fpins h)" "0 \<le> tick" "of_int (int (fwait h) * tick) / 1000 < T"
  shows "answers (sim_linux lag tick) T (h, t)"
proof (cases "fwait h")
  case 0
  with assms(1) show ?thesis by (simp add: answers_def done_at_def emio_sim_In32 fpga_upper_bits)
next
  case (Suc n)
  let ?h = "snd (In32 (emio_sim lag) Reg_InputUpper h)"
  have h: "requested (fpins ?h)" "fwait ?h = n"
    using assms(1) Suc by (simp_all add: emio_sim_In32 requested_def)
  have "int (fwait h) * tick = tick + int n * tick" using Suc by (simp add: algebra_simps)
  then have "of_int (t + tick - t + int (fwait ?h) * tick) / 1000 < T"
    using assms(3) h(2) by simp
  from sim_sees [OF h(1) assms(2) _ this, of lag] assms(2) show ?thesis
    by (auto simp: answers_def Let_def)
qed

lemma sim_linux_device:
  assumes "0 \<le> tick" "of_int (int lag * tick) / 1000 < T"
  shows "linux_device (sim_linux lag tick) (fpins \<circ> fst) (fregs \<circ> fst) T"
proof -
  have "0 \<le> of_int (int lag * tick) / (1000 :: rat)" using assms(1) by simp
  then have "0 < T" using assms(2) by linarith
  moreover have "answers (sim_linux lag tick) T (Out32 (emio_sim lag) Reg_OutputUpper v h, t)"
    if "v AND Bits_RequestBus \<noteq> 0" for v h t
  proof (rule sim_answers)
    let ?h = "Out32 (emio_sim lag) Reg_OutputUpper v h"
    have "fpins ?h = (fpins h)\<lparr>out_upper := v, done_pin := False\<rparr>" "fwait ?h = lag"
      unfolding emio_sim_Out32 by (simp_all add: fpga_out_def reg_defs)
    with that assms show "requested (fpins ?h)" "0 \<le> tick" "of_int (int (fwait ?h) * tick) / 1000 < T"
      by (simp_all add: requested_def)
  qed
  ultimately show ?thesis
    using timed_device [OF emio_sim_device, of lag]
    by (simp add: linux_device_def split_paired_all)
qed

definition sim_object :: "(word16 \<Rightarrow> word32) \<Rightarrow> (emio_fpga \<times> int) emio" where
  "sim_object r = (emio_base (fpga_reset r, 0))\<lparr>mmap_region := Some GPIO_BASE_ADDR, version := 1\<rparr>"

lemma sim_object_ready:
  assumes "0 \<le> tick" "of_int (int lag * tick) / 1000 < (250 :: rat)"
  shows "mmap_ready (sim_linux lag tick) (fpins \<circ> fst) (fregs \<circ> fst) (sim_object r)"
  using sim_linux_device [OF assms]
  by (simp add: mmap_ready_def sim_object_def emio_base_defs mapped_def GPIO_BASE_ADDR_def fpga_reset_def requested_def
      emio_sim_def)

section \<open>The constructor\<close>

lemma region_access:
  "mmap_region e = Some b \<Longrightarrow> RegisterRead L r e
    = Some (fst (rd32 (bus L) (b + 4 * (r div 4)) (dev e)), e\<lparr>dev := snd (rd32 (bus L) (b + 4 * (r div 4)) (dev e))\<rparr>)"
  "mmap_region e = Some b \<Longrightarrow> RegisterWrite L r v e = Some (e\<lparr>dev := wr32 (bus L) (b + 4 * (r div 4)) v (dev e)\<rparr>)"
  by (simp_all add: RegisterRead_def RegisterWrite_def case_prod_beta Let_def)

lemma init_gpio_outcome:
  assumes "mmap_region e = Some b"
  shows "\<exists>ok e'. init_gpio L e = Some (ok, e') \<and> mmap_region e' = Some b \<and> fd e' = fd e
    \<and> (ok \<longrightarrow> isInput e' \<and> version e' \<le> 1)"
  using assms by (auto simp: init_gpio_def region_access Let_def not_less)

lemma gpio_clock_outcome:
  assumes "mmap_region e = Some b"
  shows "\<exists>e'. gpio_clock L e = Some e' \<and> mmap_region e' = Some b \<and> fd e' = fd e"
  using assms by (simp add: gpio_clock_def region_access)

text \<open>The constructor always returns. An object that is OK has the GPIO block mapped at its
  physical address, /dev/mem open, data lines marked as input and an interface version of 0 or 1;
  after any failure (open, either mapping, an unsupported version) the object is not OK and
  its descriptor is -1, so nothing can be accessed through it.\<close>

theorem constructor_outcome:
  "\<exists>e. EMIO_Interface_Mmap L h = Some e
    \<and> (if IsOK e then mmap_region e = Some GPIO_BASE_ADDR \<and> 0 \<le> fd e \<and> isInput e \<and> version e \<le> 1
       else fd e = -1)"
proof -
  define e0 where "e0 = (emio_base h)\<lparr>fd := fst (open_mem L h), dev := snd (open_mem L h)\<rparr>"
  define e1 where "e1 = snd (mmap_init L SLCR_BASE_ADDR (ucast (APER_CLK_CTRL + 4)) e0)"
  have "\<exists>ok e. Init L (emio_base h) = Some (ok, e)
    \<and> (ok \<longrightarrow> mmap_region e = Some GPIO_BASE_ADDR \<and> 0 \<le> fd e \<and> isInput e \<and> version e \<le> 1)"
  proof (cases "fst (open_mem L h) < 0 \<or> fst (mmap_init L SLCR_BASE_ADDR (ucast (APER_CLK_CTRL + 4)) e0) = None")
    case True
    then show ?thesis by (auto simp: Init_def e0_def Let_def case_prod_beta emio_base_defs)
  next
    case False
    then have fd: "0 \<le> fst (open_mem L h)"
      and r: "fst (mmap_init L SLCR_BASE_ADDR (ucast (APER_CLK_CTRL + 4)) e0) = Some SLCR_BASE_ADDR"
      by (auto simp: mmap_init_def case_prod_beta Let_def split: if_splits)
    obtain e2 where e2: "gpio_clock L (e1\<lparr>mmap_region := Some SLCR_BASE_ADDR\<rparr>) = Some e2" "fd e2 = fd e1"
      using gpio_clock_outcome [of "e1\<lparr>mmap_region := Some SLCR_BASE_ADDR\<rparr>" SLCR_BASE_ADDR L] by auto
    have f2: "fd e2 = fst (open_mem L h)"
      using e2(2) by (simp add: e1_def e0_def mmap_init_def case_prod_beta Let_def)
    define e3 where "e3 = snd (mmap_init L GPIO_BASE_ADDR (ucast GPIO_SIZE) e2)"
    have f3: "fd e3 = fst (open_mem L h)"
      by (simp add: e3_def mmap_init_def case_prod_beta Let_def f2)
    have init: "Init L (emio_base h) = (let r = fst (mmap_init L GPIO_BASE_ADDR (ucast GPIO_SIZE) e2); e = e3\<lparr>mmap_region := r\<rparr>
        in if r = None then Some (False, e) else init_gpio L e)"
      using fd r e2(1) by (simp add: Init_def e0_def e1_def e3_def Let_def case_prod_beta emio_base_defs)
    have "fst (mmap_init L GPIO_BASE_ADDR (ucast GPIO_SIZE) e2) \<in> {None, Some GPIO_BASE_ADDR}"
      by (simp add: mmap_init_def case_prod_beta Let_def)
    then show ?thesis
      using init init_gpio_outcome [of "e3\<lparr>mmap_region := Some GPIO_BASE_ADDR\<rparr>" GPIO_BASE_ADDR L] f3 fd
      by (auto simp: Let_def)
  qed
  then obtain ok e where "Init L (emio_base h) = Some (ok, e)"
    "ok \<longrightarrow> mmap_region e = Some GPIO_BASE_ADDR \<and> 0 \<le> fd e \<and> isInput e \<and> version e \<le> 1" by blast
  then show ?thesis by (cases ok) (auto simp: EMIO_Interface_Mmap_def IsOK_def)
qed

section \<open>What the Linux driver promises\<close>

text \<open>On firmware that answers within the timeout, a quadlet written through the Linux driver is
  stored in the addressed register and nowhere else, and reading it back returns it; in any mix of
  directions, timing modes and timeouts, and leaving the object ready for the next access.\<close>

theorem mmap_write_then_read:
  assumes "mmap_ready L pins rg e"
  shows "\<exists>e1 e2. WriteQuadlet L a d e = Some (True, e1) \<and> ReadQuadlet L a e1 = Some (Some d, e2)
    \<and> mmap_ready L pins rg e2 \<and> rg (dev e2) = (rg (dev e))(a := d)"
  by (rule mmap.write_read [OF assms, of a d]) blast

lemma mmap_write_then_read_witness:
  "\<exists>e1 e2. WriteQuadlet (sim_linux 7 500) 12 0x02010000 (sim_object (\<lambda>a. 0)) = Some (True, e1)
     \<and> ReadQuadlet (sim_linux 7 500) 12 e1 = Some (Some 0x02010000, e2) \<and> fregs (fst (dev e2)) 13 = 0"
proof -
  have "mmap_ready (sim_linux 7 500) (fpins \<circ> fst) (fregs \<circ> fst) (sim_object (\<lambda>a. 0))"
    by (rule sim_object_ready) simp_all
  from mmap_write_then_read [OF this, of 12 "0x02010000"] show ?thesis
    by (auto simp: sim_object_def emio_base_defs fpga_reset_def)
qed

definition be32 :: "(nat \<Rightarrow> word8) \<Rightarrow> nat \<Rightarrow> word32" where
  "be32 data k = push_bit 24 (ucast (data k)) OR push_bit 16 (ucast (data (k + 1)))
     OR push_bit 8 (ucast (data (k + 2))) OR ucast (data (k + 3))"

lemma bswap_le32: "bswap_32 (le32 data k) = be32 data k"
proof -
  have m: "(0xff :: word32) = mask 8" "(0xff00 :: word32) = push_bit 8 (mask 8)"
    "(0xff0000 :: word32) = push_bit 16 (mask 8)"
    by (simp_all add: mask_eq_exp_minus_1 push_bit_eq_mult)
  show ?thesis
  proof (rule bit_word_eqI)
    fix n assume "n < LENGTH(32)"
    then consider "n < 8" | "8 \<le> n" "n < 16" | "16 \<le> n" "n < 24" | "24 \<le> n" "n < 32" by fastforce
    moreover have "\<not> bit x i" if "8 \<le> i" for x :: word8 and i
      using that bit_imp_le_length [of x i] by auto
    ultimately show "bit (bswap_32 (le32 data k)) n = bit (be32 data k) n"
      unfolding bswap_32_def le32_def be32_def m
      by cases (simp_all add: bit_simps, auto)
  qed
qed

text \<open>\<open>WritePromData\<close> of the base class over the Linux driver stores the buffer in the PROM
  registers, most significant byte first: register \<open>0x2000 + k\<close> holds the bytes \<open>4 k\<close> to
  \<open>4 k + 3\<close> of the buffer, the first in the top byte (\<open>be32\<close>), and every other register is unchanged.\<close>

theorem mmap_WritePromData_stores:
  assumes "mmap_ready L pins rg e"
  shows "\<exists>e'. WritePromData (WriteQuadlet L) data nBytes e = Some (True, e') \<and> mmap_ready L pins rg e'
    \<and> (\<forall>a. rg (dev e') a =
        (let k = unat (a - 0x2000)
         in if k < unat (ucast ((nBytes + 3) div 4) :: word16)
            then be32 data (4 * k)
            else rg (dev e) a))"
proof -
  let ?n = "unat (ucast ((nBytes + 3) div 4) :: word16)"
  have "?n < 2 ^ LENGTH(16)" by (rule unsigned_less)
  then have "?n \<le> 2 ^ 16" by simp
  with mmap.prom_loop [OF assms, of bswap_32 data ?n 0] show ?thesis
    by (auto simp: WritePromData_def Let_def fold_upd_prom bswap_le32 mult.commute)
qed

lemma mmap_WritePromData_stores_witness:
  "\<exists>e'. WritePromData (WriteQuadlet (sim_linux 7 500)) (\<lambda>k. of_nat k) 16 (sim_object (\<lambda>a. 9)) = Some (True, e')
     \<and> fregs (fst (dev e')) 0x2003 = 0x0C0D0E0F \<and> fregs (fst (dev e')) 0x2004 = 9"
proof -
  have "mmap_ready (sim_linux 7 500) (fpins \<circ> fst) (fregs \<circ> fst) (sim_object (\<lambda>a. 9))"
    by (rule sim_object_ready) simp_all
  from mmap_WritePromData_stores [OF this, of "\<lambda>k. of_nat k" 16] obtain e' where
    e': "WritePromData (WriteQuadlet (sim_linux 7 500)) (\<lambda>k. of_nat k) 16 (sim_object (\<lambda>a. 9)) = Some (True, e')"
    "\<forall>a. fregs (fst (dev e')) a = (if unat (a - 0x2000) < 4 then be32 (\<lambda>k. of_nat k) (4 * unat (a - 0x2000)) else 9)"
    by (auto simp: sim_object_def emio_base_defs fpga_reset_def Let_def)
  from e'(2) [rule_format, of "0x2003"] e'(2) [rule_format, of "0x2004"]
  have "fregs (fst (dev e')) 0x2003 = 0x0C0D0E0F" "fregs (fst (dev e')) 0x2004 = 9"
    by (simp_all add: be32_def)
  with e'(1) show ?thesis by blast
qed

end
