(* ===== verification/Drivers.thy ===== *)
theory Drivers
  imports EmioGpiodDevice EmioMmapDevice
begin

text \<open>
  The three EMIO drivers against one specification: the FPGA is an array of registers. A client is a list of
  accesses; \<open>run_accesses\<close> performs them through the quadlet operations and the PROM copy of a driver,
  \<open>reg_array\<close> on the array. Whatever provides \<open>prom_file\<close> refines the array, so the drivers are interchangeable.
\<close>

section \<open>A client and its specification\<close>

datatype access = Rd word16 | Wr word16 word32 | Prom "nat \<Rightarrow> word8" word32

datatype reply = Value "word32 option" | Done bool

fun run_accesses ::
    "(word16 \<Rightarrow> 's \<Rightarrow> (word32 option \<times> 's) option) \<Rightarrow> (word16 \<Rightarrow> word32 \<Rightarrow> 's \<Rightarrow> (bool \<times> 's) option)
      \<Rightarrow> ((nat \<Rightarrow> word8) \<Rightarrow> word32 \<Rightarrow> 's \<Rightarrow> (bool \<times> 's) option) \<Rightarrow> access list \<Rightarrow> 's \<Rightarrow> (reply list \<times> 's) option"
where
  "run_accesses R W M [] s = Some ([], s)"
| "run_accesses R W M (Rd a # as) s = do {
     (v, s) \<leftarrow> R a s; (rs, s) \<leftarrow> run_accesses R W M as s; Some (Value v # rs, s) }"
| "run_accesses R W M (Wr a d # as) s = do {
     (ok, s) \<leftarrow> W a d s; (rs, s) \<leftarrow> run_accesses R W M as s; Some (Done ok # rs, s) }"
| "run_accesses R W M (Prom data nBytes # as) s = do {
     (ok, s) \<leftarrow> M data nBytes s; (rs, s) \<leftarrow> run_accesses R W M as s; Some (Done ok # rs, s) }"

definition put_prom :: "(nat \<Rightarrow> word8) \<Rightarrow> word32 \<Rightarrow> (word16 \<Rightarrow> word32) \<Rightarrow> word16 \<Rightarrow> word32" where
  "put_prom data nBytes r a =
     (let k = unat (a - 0x2000)
      in if k < unat (ucast ((nBytes + 3) div 4) :: word16) then be32 data (4 * k) else r a)"

fun reg_array :: "access list \<Rightarrow> (word16 \<Rightarrow> word32) \<Rightarrow> reply list \<times> (word16 \<Rightarrow> word32)" where
  "reg_array [] r = ([], r)"
| "reg_array (Rd a # as) r = (let (rs, r') = reg_array as r in (Value (Some (r a)) # rs, r'))"
| "reg_array (Wr a d # as) r = (let (rs, r') = reg_array as (r(a := d)) in (Done True # rs, r'))"
| "reg_array (Prom data nBytes # as) r = (let (rs, r') = reg_array as (put_prom data nBytes r) in (Done True # rs, r'))"

section \<open>Refinement\<close>

lemma put_prom_le32:
  "put_prom data nBytes r = (\<lambda>a. if unat (a - 0x2000) < unat (ucast ((nBytes + 3) div 4) :: word16)
     then bswap_32 (le32 data (unat (a - 0x2000) * 4)) else r a)"
  by (simp add: put_prom_def fun_eq_iff bswap_le32 mult.commute Let_def)

text \<open>A register file with a PROM copy. The copy of the base class has this law over any register file.\<close>

locale prom_file = register_file +
  fixes prom :: "(nat \<Rightarrow> word8) \<Rightarrow> word32 \<Rightarrow> 's \<Rightarrow> (bool \<times> 's) option"
  assumes prom_ok: "ready s \<Longrightarrow>
      \<exists>s'. prom data nBytes s = Some (True, s') \<and> ready s' \<and> regs s' = put_prom data nBytes (regs s)"
begin

lemma refines_array:
  "ready s \<Longrightarrow> \<exists>s'. run_accesses read write prom as s = Some (fst (reg_array as (regs s)), s') \<and> ready s'
    \<and> regs s' = snd (reg_array as (regs s))"
proof (induction as arbitrary: s)
  case Nil
  then show ?case by simp
next
  case (Cons x as)
  obtain s1 reply where s1: "ready s1" "run_accesses read write prom (x # as) s =
      map_option (\<lambda>(rs, s). (reply # rs, s)) (run_accesses read write prom as s1)"
    "reg_array (x # as) (regs s) = (reply # fst (reg_array as (regs s1)), snd (reg_array as (regs s1)))"
  proof (cases x)
    case (Rd a)
    obtain s1 where "read a s = Some (Some (regs s a), s1)" "ready s1" "regs s1 = regs s"
      using read_ok [OF Cons.prems] by blast
    then show ?thesis
      by (intro that [of s1 "Value (Some (regs s a))"]) (simp_all add: Rd case_prod_beta map_option_case split: option.split)
  next
    case (Wr a d)
    obtain s1 where "write a d s = Some (True, s1)" "ready s1" "regs s1 = (regs s)(a := d)"
      using write_ok [OF Cons.prems] by blast
    then show ?thesis
      by (intro that [of s1 "Done True"]) (simp_all add: Wr case_prod_beta map_option_case split: option.split)
  next
    case (Prom data n)
    obtain s1 where "prom data n s = Some (True, s1)" "ready s1" "regs s1 = put_prom data n (regs s)"
      using prom_ok [OF Cons.prems] by blast
    then show ?thesis
      by (intro that [of s1 "Done True"]) (simp_all add: Prom case_prod_beta map_option_case split: option.split)
  qed
  then show ?case using Cons.IH [OF s1(1)] by auto
qed

end

context register_file
begin

lemma base_prom:
  assumes "ready s"
  shows "\<exists>s'. WritePromData write data nBytes s = Some (True, s') \<and> ready s' \<and> regs s' = put_prom data nBytes (regs s)"
proof -
  let ?n = "unat (ucast ((nBytes + 3) div 4) :: word16)"
  have "?n < 2 ^ LENGTH(16)" by (rule unsigned_less)
  then have "?n \<le> 2 ^ 16" by simp
  with prom_loop [OF assms, of bswap_32 data ?n 0] show ?thesis
    by (auto simp: WritePromData_def Let_def put_prom_le32 fold_upd_prom fun_eq_iff)
qed

end

interpretation emio_prom: prom_file
  "EMIO_ReadQuadlet P" "EMIO_WriteQuadlet P" "emio_ready P pins rg" rg "EMIO_WritePromData P bswap_32"
  for P pins rg
  by unfold_locales (use prom_stored [of P pins rg _ bswap_32] in \<open>fastforce simp: put_prom_le32 fun_eq_iff\<close>)

interpretation mmap_prom: prom_file
  "ReadQuadlet L" "WriteQuadlet L" "mmap_ready L pins rg" "\<lambda>e. rg (dev e)" "WritePromData (WriteQuadlet L)"
  for L pins rg
  by unfold_locales (rule mmap.base_prom)

interpretation gpiod_prom: prom_file
  "ReadQuadlet_gpiod G" "WriteQuadlet_gpiod G" "gpiod_ready G pins rg" "\<lambda>e. rg (dev e)" "WritePromData (WriteQuadlet_gpiod G)"
  for G pins rg
  by unfold_locales (rule gpiod.base_prom)

text \<open>C6. The three drivers are interchangeable: on firmware that honours the interface, any sequence of
  quadlet reads, quadlet writes and PROM copies (\<open>EMIO_WritePromData\<close>, with the byte exchange of the BSP,
  and \<open>WritePromData\<close> of the Linux class) gives the same replies through the standalone
  driver, the /dev/mem driver and the libgpiod driver, namely those of an array of registers, and leaves
  the registers as that array.\<close>

theorem drivers_agree:
  assumes "emio_ready P pins rg h" "mmap_ready L mpins mrg e" "gpiod_ready G gpins grg g"
    and "mrg (dev e) = rg h" "grg (dev g) = rg h"
  shows "\<exists>h' e' g'. run_accesses (EMIO_ReadQuadlet P) (EMIO_WriteQuadlet P) (EMIO_WritePromData P bswap_32) as h = Some (fst (reg_array as (rg h)), h')
    \<and> run_accesses (ReadQuadlet L) (WriteQuadlet L) (WritePromData (WriteQuadlet L)) as e = Some (fst (reg_array as (rg h)), e')
    \<and> run_accesses (ReadQuadlet_gpiod G) (WriteQuadlet_gpiod G) (WritePromData (WriteQuadlet_gpiod G)) as g = Some (fst (reg_array as (rg h)), g')
    \<and> rg h' = snd (reg_array as (rg h)) \<and> mrg (dev e') = snd (reg_array as (rg h)) \<and> grg (dev g') = snd (reg_array as (rg h))"
  using emio_prom.refines_array [OF assms(1), of as] mmap_prom.refines_array [OF assms(2), of as]
    gpiod_prom.refines_array [OF assms(3), of as] unfolding assms(4,5) by blast

lemma drivers_agree_witness:
  "\<exists>h' e' g'. run_accesses (EMIO_ReadQuadlet (emio_sim 7)) (EMIO_WriteQuadlet (emio_sim 7)) (EMIO_WritePromData (emio_sim 7) bswap_32)
      [Wr 12 5, Rd 12, Prom (\<lambda>k. of_nat k) 8, Rd 0x2001] (fpga_reset (\<lambda>a. 9))
      = Some ([Done True, Value (Some 5), Done True, Value (Some 0x04050607)], h')
    \<and> run_accesses (ReadQuadlet (sim_linux 7 500)) (WriteQuadlet (sim_linux 7 500)) (WritePromData (WriteQuadlet (sim_linux 7 500)))
      [Wr 12 5, Rd 12, Prom (\<lambda>k. of_nat k) 8, Rd 0x2001] (sim_object (\<lambda>a. 9))
      = Some ([Done True, Value (Some 5), Done True, Value (Some 0x04050607)], e')
    \<and> run_accesses (ReadQuadlet_gpiod line_sim) (WriteQuadlet_gpiod line_sim) (WritePromData (WriteQuadlet_gpiod line_sim))
      [Wr 12 5, Rd 12, Prom (\<lambda>k. of_nat k) 8, Rd 0x2001] (line_object True (\<lambda>a. 9))
      = Some ([Done True, Value (Some 5), Done True, Value (Some 0x04050607)], g')"
proof -
  have m: "mmap_ready (sim_linux 7 500) (fpins \<circ> fst) (fregs \<circ> fst) (sim_object (\<lambda>a. 9))"
    by (rule sim_object_ready) simp_all
  have r: "(fregs \<circ> fst) (dev (sim_object (\<lambda>a. 9))) = fregs (fpga_reset (\<lambda>a. 9))" "snd (dev (line_object True (\<lambda>a. 9))) = fregs (fpga_reset (\<lambda>a. 9))"
    by (simp_all add: sim_object_def emio_base_defs fpga_reset_def line_object_def easy_object_def gemio_base_def gemio.defs)
  have a: "fst (reg_array [Wr 12 5, Rd 12, Prom (\<lambda>k. of_nat k) 8, Rd 0x2001] (fregs (fpga_reset (\<lambda>a. 9)))) = [Done True, Value (Some 5), Done True, Value (Some 0x04050607)]"
    by (simp add: fpga_reset_def put_prom_def be32_def Let_def)
  show ?thesis
    using drivers_agree [OF emio_sim_ready m line_object_ready r, of 7 "[Wr 12 5, Rd 12, Prom (\<lambda>k. of_nat k) 8, Rd 0x2001]"] unfolding a by blast
qed

end
