(* ===== verification/Console.thy ===== *)
theory Console
  imports Prelude Complex_Main
begin

text \<open>
  What the programs print: \<open>Byte c\<close> is \<open>outbyte\<close> of the BSP, \<open>Printf f args\<close> a call of a print
  function with its format (without the line ends) and its arguments, \<open>Frac\<close> for a \<open>double\<close>. \<open>dec\<close> is the text of \<open>%d\<close>
  for a number that is not negative, \<open>hexdig\<close> a digit of \<open>%x\<close>.
\<close>

datatype arg = Num int | Str string | Frac rat

datatype console = Byte char | Printf string "arg list"

text \<open>Why a step does not come to its end: \<open>inbyte\<close> waits for a character, an access is outside
  its array, or a wait for the firmware never ends.\<close>

datatype stuck = Waiting | Out_of_bounds | No_return

fun dec :: "nat \<Rightarrow> string" where
  "dec n = (if n < 10 then [char_of (48 + n)] else dec (n div 10) @ [char_of (48 + n mod 10)])"

declare dec.simps [simp del]

definition hexdig :: "nat \<Rightarrow> char" where
  "hexdig n = ''0123456789abcdef'' ! n"

end
