(* ===== verification/Qspi.thy ===== *)
theory Qspi
  imports Prelude
begin

text \<open>
  petalinux/libfpgav3/files/fpgav3_qspi.cpp: the FPGA serial number and the boot image in the QSPI
  flash, through the MTD character devices of Linux. The kernel is the record \<open>kern\<close>, a parameter:
  each system call with its result and its effect on the kernel state \<open>'k\<close>. Bytes are \<open>word8\<close>;
  \<open>read\<close> delivers its return value and the bytes stored in the buffer. A C string is the list of
  its bytes without the terminator. A function returns \<open>None\<close> if it reads outside a buffer or
  does not return. Messages are not modelled.
\<close>

record 'k kern =
  k_open :: "string \<Rightarrow> 'k \<Rightarrow> int \<times> 'k"
  k_close :: "int \<Rightarrow> 'k \<Rightarrow> 'k"
  k_read :: "int \<Rightarrow> nat \<Rightarrow> 'k \<Rightarrow> (int \<times> word8 list) \<times> 'k"
  k_write :: "int \<Rightarrow> word8 list \<Rightarrow> 'k \<Rightarrow> int \<times> 'k"
  k_lseek :: "int \<Rightarrow> int \<Rightarrow> 'k \<Rightarrow> 'k"
  k_fsize :: "int \<Rightarrow> 'k \<Rightarrow> nat \<times> 'k"
  k_erasesize :: "int \<Rightarrow> 'k \<Rightarrow> nat \<times> 'k"
  k_unlock :: "int \<Rightarrow> nat \<Rightarrow> nat \<Rightarrow> 'k \<Rightarrow> 'k"
  k_erase :: "int \<Rightarrow> nat \<Rightarrow> nat \<Rightarrow> 'k \<Rightarrow> 'k"
  k_malloc :: "nat \<Rightarrow> 'k \<Rightarrow> word8 list option \<times> 'k"

definition ascii :: "string \<Rightarrow> word8 list" where
  "ascii s = map of_char s"

text \<open>The bytes of a C string in a buffer.\<close>

definition c_str :: "word8 list \<Rightarrow> word8 list" where
  "c_str buf = takeWhile (\<lambda>b. b \<noteq> 0) buf"

definition FPGA_SN_SIZE :: nat where "FPGA_SN_SIZE = 9"

text \<open>The bytes read overwrite the front of the buffer.\<close>

definition fill_buf :: "word8 list \<Rightarrow> word8 list \<Rightarrow> word8 list" where
  "fill_buf bytes buf = bytes @ drop (List.length bytes) buf"

section \<open>The serial number\<close>

text \<open>\<open>strchr\<close> from position \<open>i\<close> of a buffer: the position of \<open>c\<close> if it comes before the terminator;
  \<open>None\<close> if the search runs off the end of the buffer.\<close>

fun strchr_from :: "word8 \<Rightarrow> nat \<Rightarrow> word8 list \<Rightarrow> nat option option" where
  "strchr_from c i [] = None"
| "strchr_from c i (x # xs) =
     (if x = c then Some (Some i) else if x = 0 then Some None else strchr_from c (Suc i) xs)"

definition GetFpgaSerialNumber :: "'k kern \<Rightarrow> word8 list \<Rightarrow> 'k \<Rightarrow> (word8 list \<times> 'k) option" where
  "GetFpgaSerialNumber K sn k =
     (let sn = sn[0 := 0];
          (fd, k) = k_open K ''/dev/mtd4ro'' k
      in if fd < 0 then Some (sn, k)
         else let ((n, data), k) = k_read K fd 5 k
      in if n = 5 \<and> take 5 data = ascii ''FPGA ''
         then let ((_, bytes), k) = k_read K fd (FPGA_SN_SIZE - 1) k;
                  sn = fill_buf bytes sn
         in (case strchr_from 0xff 0 sn of
               None \<Rightarrow> None
             | Some (Some p) \<Rightarrow> Some (sn[p := 0], k_close K fd k)
             | Some None \<Rightarrow> Some (sn[FPGA_SN_SIZE - 1 := 0], k_close K fd k))
         else Some (sn, k_close K fd k))"

definition ProgramFpgaSerialNumber :: "'k kern \<Rightarrow> word8 list \<Rightarrow> 'k \<Rightarrow> bool \<times> 'k" where
  "ProgramFpgaSerialNumber K sn k =
     (let sn_len = List.length sn
      in if sn_len \<ge> FPGA_SN_SIZE then (False, k)
         else let (fd, k) = k_open K ''/dev/mtd4'' k
      in if fd < 0 then (False, k)
         else let (erasesize, k) = k_erasesize K fd k;
                  k = k_unlock K fd 0 erasesize k;
                  k = k_erase K fd 0 erasesize k;
                  (n, k) = k_write K fd (ascii ''FPGA '') k
      in if n \<noteq> 5 then (False, k_close K fd k)
         else let (n, k) = k_write K fd sn k
      in (n = int sn_len, k_close K fd k))"

section \<open>The boot image\<close>

text \<open>
  One sector: \<open>off\<close> is \<open>nBytes\<close>, \<open>fbuf\<close> and \<open>dbuf\<close> are the two buffers. The offset of the
  \<open>lseek\<close> is \<open>-nb\<close> for the 32-bit \<open>off_t\<close> of the target.
\<close>

definition flash_sector ::
    "'k kern \<Rightarrow> int \<Rightarrow> int \<Rightarrow> nat \<Rightarrow> nat \<Rightarrow> nat \<Rightarrow> word8 list \<times> word8 list \<times> nat \<times> nat \<times> 'k
      \<Rightarrow> word8 list \<times> word8 list \<times> nat \<times> nat \<times> 'k"
where
  "flash_sector K fdFile fdFlash erasesize fsize off = (\<lambda>(fbuf, dbuf, numSame, numDiff, k).
     (let bytesLeft = fsize - off;
          nb = (if bytesLeft < erasesize then bytesLeft else erasesize);
          ((_, fbytes), k) = k_read K fdFile nb k;
          fbuf = fill_buf fbytes fbuf;
          ((_, dbytes), k) = k_read K fdFlash nb k;
          dbuf = fill_buf dbytes dbuf
      in if take nb fbuf = take nb dbuf then (fbuf, dbuf, numSame + 1, numDiff, k)
         else let k = k_lseek K fdFlash (- int nb) k;
                  k = k_unlock K fdFlash off erasesize k;
                  k = k_erase K fdFlash off erasesize k;
                  k = snd (k_write K fdFlash (take nb fbuf) k)
              in (fbuf, dbuf, numSame, numDiff + 1, k)))"

partial_function (option) flash_loop ::
    "'k kern \<Rightarrow> int \<Rightarrow> int \<Rightarrow> nat \<Rightarrow> nat \<Rightarrow> nat \<Rightarrow> word8 list \<times> word8 list \<times> nat \<times> nat \<times> 'k
      \<Rightarrow> (word8 list \<times> word8 list \<times> nat \<times> nat \<times> 'k) option"
where
  "flash_loop K fdFile fdFlash erasesize fsize off st =
     (if off < fsize
      then flash_loop K fdFile fdFlash erasesize fsize (off + erasesize)
             (flash_sector K fdFile fdFlash erasesize fsize off st)
      else Some st)"

text \<open>The result carries the two counters, which the code prints.\<close>

definition ProgramFlash :: "'k kern \<Rightarrow> string \<Rightarrow> string \<Rightarrow> 'k \<Rightarrow> ((bool \<times> nat \<times> nat) \<times> 'k) option" where
  "ProgramFlash K fileName devName k =
     (let (fdFile, k) = k_open K fileName k
      in if fdFile < 0 then Some ((False, 0, 0), k)
         else let (fdFlash, k) = k_open K devName k
      in if fdFlash < 0 then Some ((False, 0, 0), k_close K fdFile k)
         else let (erasesize, k) = k_erasesize K fdFlash k;
                  (fbuf, k) = k_malloc K erasesize k;
                  (dbuf, k) = k_malloc K erasesize k
      in (case (fbuf, dbuf) of
            (Some fbuf, Some dbuf) \<Rightarrow>
              (let (fsize, k) = k_fsize K fdFile k
               in do {
                 (_, _, numSame, numDiff, k) \<leftarrow> flash_loop K fdFile fdFlash erasesize fsize 0 (fbuf, dbuf, 0, 0, k);
                 Some ((True, numSame, numDiff), k_close K fdFlash (k_close K fdFile k))
               })
          | _ \<Rightarrow> Some ((False, 0, 0), k_close K fdFlash (k_close K fdFile k))))"

end
