(* ===== verification/Boot.thy ===== *)
theory Boot
  imports Emio Console Qspi
begin

text \<open>
  fsbl\_src/fsbl\_hooks.c and the hooks of mfg\_test\_src/fsbl\_hooks.c: what the first stage boot loader
  does before it hands over, and the QSPI self test. The drivers of the Xilinx board support package
  and the constants of its headers are the record \<open>bsp\<close>, a parameter: a call of \<open>XQspiPs_PolledTransfer\<close>
  takes the bytes sent and delivers the status and as many bytes received, \<open>QspiAccess\<close> the
  status and the bytes read. Uninitialised variables are parameters. The debug messages
  \<open>fsbl_printf\<close> are left out.
\<close>

record 'h bsp =
  pf :: "'h platform"
  q_found :: bool
  q_cfg_init :: "'h \<Rightarrow> word32 \<times> 'h"
  q_set_options :: "'h \<Rightarrow> 'h"
  q_set_prescaler :: "'h \<Rightarrow> 'h"
  q_slave_select :: "'h \<Rightarrow> 'h"
  q_transfer :: "word8 list \<Rightarrow> 'h \<Rightarrow> (word32 \<times> word8 list) \<times> 'h"
  q_self_test :: "'h \<Rightarrow> word32 \<times> 'h"
  q_init :: "'h \<Rightarrow> word32 \<times> 'h"
  q_access :: "word32 \<Rightarrow> nat \<Rightarrow> 'h \<Rightarrow> (word32 \<times> word8 list) \<times> 'h"
  swap32 :: "word32 \<Rightarrow> word32"
  usleep :: "nat \<Rightarrow> 'h \<Rightarrow> 'h"
  boot_mode_reg :: word32
  boot_modes_mask :: word32
  sd_mode :: word32
  qspi_mode :: word32
  winbond_id :: word8

record 'h boot =
  bd :: 'h
  out :: "console list"

definition tell :: "string \<Rightarrow> arg list \<Rightarrow> 'h boot \<Rightarrow> 'h boot" where
  "tell f args s = s\<lparr>out := out s @ [Printf f args]\<rparr>"

definition XST_SUCCESS :: word32 where "XST_SUCCESS = 0"

definition READ_ID_CMD :: word8 where "READ_ID_CMD = 0x9F"
definition READ_STATUS_REG2 :: word8 where "READ_STATUS_REG2 = 0x35"
definition WRITE_STATUS_REG2 :: word8 where "WRITE_STATUS_REG2 = 0x31"
definition QE_BIT_MASK :: word8 where "QE_BIT_MASK = 0x02"
definition WRITE_ENABLE_CMD :: word8 where "WRITE_ENABLE_CMD = 0x06"

section \<open>Booting from SD: the quad enable bit\<close>

text \<open>One transfer of the first \<open>n\<close> bytes of the write buffer; the bytes received overwrite the
  front of the read buffer.\<close>

definition transfer ::
    "'h bsp \<Rightarrow> nat \<Rightarrow> word8 list \<Rightarrow> word8 list \<Rightarrow> 'h boot \<Rightarrow> bool \<times> word8 list \<times> 'h boot"
where
  "transfer B n wbuf rbuf s =
     (let ((st, r), h) = q_transfer B (take n wbuf) (bd s)
      in (st = XST_SUCCESS, fill_buf r rbuf, s\<lparr>bd := h\<rparr>))"

definition identify_flash :: "'h bsp \<Rightarrow> word8 list \<Rightarrow> 'h boot \<Rightarrow> bool \<times> 'h boot" where
  "identify_flash B rbuf s =
     (if rbuf ! 1 = winbond_id B
      then let s = tell ''QSPI: WINBOND '' [] s in
           if rbuf ! 3 = 0x18
           then if rbuf ! 2 = 0x40 then (True, tell ''W25Q128JV'' [] s)
                else if rbuf ! 2 = 0x70 then (True, tell ''W25Q128JV-M'' [] s)
                else (False, tell ''Unexpected device id (%x)'' [Num (uint (rbuf ! 2))] s)
           else (False, tell ''Unexpected size (%x)'' [Num (uint (rbuf ! 3))] s)
      else (False, tell ''Unexpected QSPI Flash ID (%x)'' [Num (uint (rbuf ! 1))] s))"

definition program_QE :: "'h bsp \<Rightarrow> word8 list \<Rightarrow> word8 list \<Rightarrow> 'h boot \<Rightarrow> bool \<times> 'h boot" where
  "program_QE B wbuf rbuf s =
     (if rbuf ! 1 AND QE_BIT_MASK \<noteq> 0 then (True, tell ''QE bit set'' [] s)
      else let s = tell ''Programming QE bit'' [] s;
               wbuf = wbuf[0 := WRITE_ENABLE_CMD];
               (ok, rbuf, s) = transfer B 1 wbuf rbuf s
      in if \<not> ok then (False, tell ''Failed to Write Enable QSPI'' [] s)
         else let wbuf = wbuf[0 := WRITE_STATUS_REG2, 1 := rbuf ! 1 OR QE_BIT_MASK];
                  (ok, rbuf, s) = transfer B 2 wbuf rbuf s
      in if \<not> ok then (False, tell ''Failed to write QSPI Status Register 2'' [] s) else (True, s))"

text \<open>\<open>rbuf\<close> is the uninitialised read buffer, 4 bytes long.\<close>

definition FpgaV3_Init_SD :: "'h bsp \<Rightarrow> word8 list \<Rightarrow> 'h boot \<Rightarrow> bool \<times> 'h boot" where
  "FpgaV3_Init_SD B rbuf s =
     (if \<not> q_found B then (False, tell ''Failed to look up QSPI config'' [] s)
      else let (st, h) = q_cfg_init B (bd s); s = s\<lparr>bd := h\<rparr>
      in if st \<noteq> XST_SUCCESS then (False, tell ''Failed to initialize QSPI interface'' [] s)
         else let s = s\<lparr>bd := q_slave_select B (q_set_prescaler B (q_set_options B (bd s)))\<rparr>;
                  wbuf = [READ_ID_CMD, 0, 0, 0];
                  (ok, rbuf, s) = transfer B 4 wbuf rbuf s
      in if \<not> ok then (False, tell ''Failed to read QSPI Flash ID'' [] s)
         else let (ok, s) = identify_flash B rbuf s
      in if \<not> ok then (False, s)
         else let wbuf = wbuf[0 := READ_STATUS_REG2, 1 := 0];
                  (ok, rbuf, s) = transfer B 2 wbuf rbuf s
      in if \<not> ok then (False, tell ''Failed to read QSPI Status Register 2'' [] s)
         else program_QE B wbuf rbuf s)"

section \<open>Booting from QSPI: board information and serial number\<close>

text \<open>
  The FPGA serial number is copied from the flash to the FPGA and printed; the same code is in
  \<open>FpgaV3_Init_QSPI\<close> and in \<open>menu\<close>.
\<close>

definition copy_serial :: "'h bsp \<Rightarrow> 'h boot \<Rightarrow> stuck + 'h boot" where
  "copy_serial B s =
     (let ((st, sn), h) = q_access B 0xff0000 16 (bd s); s = s\<lparr>bd := h\<rparr>
      in if st \<noteq> XST_SUCCESS then Inr (tell ''Failed to read from QSPI'' [] s)
         else if take 5 sn \<noteq> ascii ''FPGA '' then Inr s
         else (case EMIO_WritePromData (pf B) (swap32 B) (\<lambda>i. sn ! i) 16 (bd s) of
                 None \<Rightarrow> Inl No_return
               | Some (_, h) \<Rightarrow>
                   (case strchr_from 0xff 0 sn of
                      None \<Rightarrow> Inl Out_of_bounds
                    | Some p \<Rightarrow>
                        let sn = (case p of Some p \<Rightarrow> sn[p := 0] | None \<Rightarrow> sn[13 := 0])
                        in Inr (tell ''FPGA S/N: %s''
                             [Str (map (\<lambda>b. char_of (unat b)) (takeWhile (\<lambda>b. b \<noteq> 0) (drop 5 sn)))] (s\<lparr>bd := h\<rparr>)))))"

text \<open>A quadlet read whose result is ignored: the variable keeps its value \<open>u\<close> if the read fails.\<close>

definition read_quad :: "'h bsp \<Rightarrow> word16 \<Rightarrow> word32 \<Rightarrow> 'h boot \<Rightarrow> (word32 \<times> 'h boot) option" where
  "read_quad B addr u s =
     map_option (\<lambda>(v, h). (case v of None \<Rightarrow> u | Some v \<Rightarrow> v, s\<lparr>bd := h\<rparr>)) (EMIO_ReadQuadlet (pf B) addr (bd s))"

definition board_line :: "word32 \<Rightarrow> 'h boot \<Rightarrow> 'h boot" where
  "board_line board_status s =
     (let board_id = drop_bit 24 (board_status AND 0x0f000000);
          s = tell ''Board ID: %d'' [Num (uint board_id)] s;
          s = tell ''Board status: %x'' [Num (uint board_status)] s;
          s = (if board_status AND 0x00800000 \<noteq> 0 then tell '', No board'' [] s else s);
          s = (if board_status AND 0x00400000 \<noteq> 0 then tell '', QLA'' [] s else s);
          s = (if board_status AND 0x00200000 \<noteq> 0 then tell '', DQLA'' [] s else s);
          s = (if board_status AND 0x00100000 \<noteq> 0 then tell '', DRAC'' [] s else s)
      in tell '''' [] s)"

definition check_board :: "'h bsp \<Rightarrow> word32 \<Rightarrow> word32 \<Rightarrow> 'h boot \<Rightarrow> 'h boot option" where
  "check_board B u0 u1 s = do {
     (hw_version, s) \<leftarrow> read_quad B 4 u0 s;
     if hw_version = 0x42434647
     then do { (board_status, s) \<leftarrow> read_quad B 0 u1 s; Some (board_line board_status s) }
     else Some (tell ''Did not find BCFG firmware: %x'' [Num (uint hw_version)] s)
   }"

definition FpgaV3_Init_QSPI ::
    "'h bsp \<Rightarrow> string \<Rightarrow> string \<Rightarrow> word32 \<Rightarrow> word32 \<Rightarrow> 'h boot \<Rightarrow> stuck + bool \<times> 'h boot"
where
  "FpgaV3_Init_QSPI B version git_version u0 u1 s =
     (let s = tell ''*** FPGA V3 ***'' [] s;
          s = tell ''Software Version %s'' [Str version] s;
          s = (if git_version \<noteq> version then tell '' (git %s)'' [Str git_version] s else s);
          s = tell '''' [] s;
          s = s\<lparr>bd := EMIO_Init (pf B) (bd s)\<rparr>
      in (case check_board B u0 u1 s of
            None \<Rightarrow> Inl No_return
          | Some s \<Rightarrow> (case copy_serial B s of Inl e \<Rightarrow> Inl e | Inr s \<Rightarrow> Inr (True, s))))"

section \<open>The hooks\<close>

definition FsblHookBeforeBitstreamDload :: word32 where "FsblHookBeforeBitstreamDload = XST_SUCCESS"
definition FsblHookAfterBitstreamDload :: word32 where "FsblHookAfterBitstreamDload = XST_SUCCESS"

text \<open>The endless loop of the hook for a failed boot.\<close>

partial_function (option) FsblHookFallback :: "'h \<Rightarrow> 'h option" where
  "FsblHookFallback h = FsblHookFallback h"

definition FsblHookBeforeHandoff ::
    "'h bsp \<Rightarrow> string \<Rightarrow> string \<Rightarrow> word8 list \<Rightarrow> word32 \<Rightarrow> word32 \<Rightarrow> 'h boot \<Rightarrow> stuck + word32 \<times> 'h boot"
where
  "FsblHookBeforeHandoff B version git_version rbuf u0 u1 s =
     (let (r, h) = rd32 (pf B) (boot_mode_reg B) (bd s); s = s\<lparr>bd := h\<rparr>;
          mode = r AND boot_modes_mask B
      in if mode = sd_mode B
         then Inr (XST_SUCCESS, snd (FpgaV3_Init_SD B rbuf (tell ''Booting from SD'' [] s)))
         else if mode = qspi_mode B
         then (case FpgaV3_Init_QSPI B version git_version u0 u1 (tell ''Booting from QSPI'' [] s) of
                 Inl e \<Rightarrow> Inl e | Inr (_, s) \<Rightarrow> Inr (XST_SUCCESS, s))
         else Inr (XST_SUCCESS, s))"

section \<open>The QSPI self test\<close>

definition QspiPsSelfTestExample :: "'h bsp \<Rightarrow> 'h \<Rightarrow> word32 \<times> 'h" where
  "QspiPsSelfTestExample B h =
     (if \<not> q_found B then (1, h)
      else let (st, h) = q_cfg_init B h
      in if st \<noteq> XST_SUCCESS then (1, h)
         else let (st, h) = q_self_test B h
      in if st \<noteq> XST_SUCCESS then (1, h) else (XST_SUCCESS, h))"

end
