(* ===== verification/QspiProps.thy ===== *)
theory QspiProps
  imports Qspi
begin

text \<open>
  What the flash routines promise. \<open>nor_fd\<close> is the documented behaviour of the character device of
  a NOR flash partition: reads deliver the contents at the file position, an erase sets a range to
  0xff, a write clears bits, and positions advance. \<open>file_fd\<close> is that of a regular file open for
  reading. \<open>part\<close> is the contents of the partition, \<open>pos\<close> the file positions.
\<close>

section \<open>Kernel contracts\<close>

definition nor_fd ::
    "'k kern \<Rightarrow> ('k \<Rightarrow> nat \<Rightarrow> word8) \<Rightarrow> nat \<Rightarrow> ('k \<Rightarrow> int \<Rightarrow> nat) \<Rightarrow> int \<Rightarrow> bool" where
  "nor_fd K part psize pos fd \<longleftrightarrow>
     (\<forall>k n. pos k fd + n \<le> psize \<longrightarrow>
        fst (k_read K fd n k) = (int n, map (part k) [pos k fd..<pos k fd + n])
        \<and> part (snd (k_read K fd n k)) = part k \<and> pos (snd (k_read K fd n k)) = (pos k)(fd := pos k fd + n)) \<and>
     (\<forall>k bs. pos k fd + length bs \<le> psize \<longrightarrow>
        fst (k_write K fd bs k) = int (length bs)
        \<and> part (snd (k_write K fd bs k)) = (\<lambda>i. if pos k fd \<le> i \<and> i < pos k fd + length bs
             then part k i AND bs ! (i - pos k fd) else part k i)
        \<and> pos (snd (k_write K fd bs k)) = (pos k)(fd := pos k fd + length bs)) \<and>
     (\<forall>k a n. part (k_erase K fd a n k) = (\<lambda>i. if a \<le> i \<and> i < a + n then 0xff else part k i)
        \<and> pos (k_erase K fd a n k) = pos k) \<and>
     (\<forall>k a n. part (k_unlock K fd a n k) = part k \<and> pos (k_unlock K fd a n k) = pos k) \<and>
     (\<forall>k d. 0 \<le> int (pos k fd) + d \<longrightarrow> part (k_lseek K fd d k) = part k
        \<and> pos (k_lseek K fd d k) = (pos k)(fd := nat (int (pos k fd) + d))) \<and>
     (\<forall>k. part (snd (k_erasesize K fd k)) = part k \<and> pos (snd (k_erasesize K fd k)) = pos k) \<and>
     (\<forall>k. part (k_close K fd k) = part k)"

lemma nor_fdD:
  assumes "nor_fd K part psize pos fd"
  shows "pos k fd + n \<le> psize \<Longrightarrow> fst (k_read K fd n k) = (int n, map (part k) [pos k fd..<pos k fd + n])"
    "pos k fd + n \<le> psize \<Longrightarrow> part (snd (k_read K fd n k)) = part k"
    "pos k fd + n \<le> psize \<Longrightarrow> pos (snd (k_read K fd n k)) = (pos k)(fd := pos k fd + n)"
    "pos k fd + length bs \<le> psize \<Longrightarrow> fst (k_write K fd bs k) = int (length bs)"
    "pos k fd + length bs \<le> psize \<Longrightarrow> part (snd (k_write K fd bs k)) = (\<lambda>i. if pos k fd \<le> i \<and> i < pos k fd + length bs
       then part k i AND bs ! (i - pos k fd) else part k i)"
    "pos k fd + length bs \<le> psize \<Longrightarrow> pos (snd (k_write K fd bs k)) = (pos k)(fd := pos k fd + length bs)"
    "part (k_erase K fd a n k) = (\<lambda>i. if a \<le> i \<and> i < a + n then 0xff else part k i)" "pos (k_erase K fd a n k) = pos k"
    "part (k_unlock K fd a n k) = part k" "pos (k_unlock K fd a n k) = pos k"
    "0 \<le> int (pos k fd) + d \<Longrightarrow> part (k_lseek K fd d k) = part k"
    "0 \<le> int (pos k fd) + d \<Longrightarrow> pos (k_lseek K fd d k) = (pos k)(fd := nat (int (pos k fd) + d))"
    "part (snd (k_erasesize K fd k)) = part k" "pos (snd (k_erasesize K fd k)) = pos k"
    "part (k_close K fd k) = part k"
  using assms unfolding nor_fd_def by blast+

definition file_fd ::
    "'k kern \<Rightarrow> ('k \<Rightarrow> nat \<Rightarrow> word8) \<Rightarrow> word8 list \<Rightarrow> ('k \<Rightarrow> int \<Rightarrow> nat) \<Rightarrow> int \<Rightarrow> bool" where
  "file_fd K part file pos fd \<longleftrightarrow>
     (\<forall>k n. pos k fd + n \<le> length file \<longrightarrow>
        fst (k_read K fd n k) = (int n, take n (drop (pos k fd) file))
        \<and> part (snd (k_read K fd n k)) = part k \<and> pos (snd (k_read K fd n k)) = (pos k)(fd := pos k fd + n)) \<and>
     (\<forall>k. fst (k_fsize K fd k) = length file \<and> part (snd (k_fsize K fd k)) = part k \<and> pos (snd (k_fsize K fd k)) = pos k) \<and>
     (\<forall>k. part (k_close K fd k) = part k)"

lemma file_fdD:
  assumes "file_fd K part file pos fd"
  shows "pos k fd + n \<le> length file \<Longrightarrow> fst (k_read K fd n k) = (int n, take n (drop (pos k fd) file))"
    "pos k fd + n \<le> length file \<Longrightarrow> part (snd (k_read K fd n k)) = part k"
    "pos k fd + n \<le> length file \<Longrightarrow> pos (snd (k_read K fd n k)) = (pos k)(fd := pos k fd + n)"
    "fst (k_fsize K fd k) = length file" "part (snd (k_fsize K fd k)) = part k" "pos (snd (k_fsize K fd k)) = pos k"
    "part (k_close K fd k) = part k"
  using assms unfolding file_fd_def by blast+

lemma take_fill_buf: "length bs = n \<Longrightarrow> take n (fill_buf bs buf) = bs"
  by (simp add: fill_buf_def)

section \<open>One sector\<close>

lemma word8_ones: "0xff AND w = (w :: word8)"
proof -
  have "(0xff :: word8) = - 1" by simp
  then show ?thesis by (simp only: and.left_neutral)
qed

lemma sector_ok:
  assumes D: "nor_fd K part psize pos D" and F: "file_fd K part file pos F" and FD: "F \<noteq> D"
    and es: "0 < es" and off: "off < length file" and p: "pos k F = off" "pos k D = off"
    and size: "off + es \<le> psize"
  defines "nb \<equiv> min (length file - off) es"
  obtains fb db ns nd k' where
    "flash_sector K F D es (length file) off (fbuf, dbuf, ns0, nd0, k) = (fb, db, ns, nd, k')"
    "pos k' F = off + nb" "pos k' D = off + nb"
    "\<forall>i. off \<le> i \<and> i < off + nb \<longrightarrow> part k' i = file ! i"
    "\<forall>i. i < off \<or> off + es \<le> i \<longrightarrow> part k' i = part k i"
    "nd = (if \<forall>i. off \<le> i \<and> i < off + nb \<longrightarrow> part k i = file ! i then nd0 else nd0 + 1)" "ns + nd = ns0 + nd0 + 1"
    "nd = nd0 \<longrightarrow> part k' = part k"
proof -
  note d = nor_fdD [OF D] and f = file_fdD [OF F]
  have nb: "(if length file - off < es then length file - off else es) = nb" "off + nb \<le> length file" "off + nb \<le> psize"
    "0 < nb" "nb \<le> es"
    using off size es by (auto simp: nb_def)
  define k1 where "k1 = snd (k_read K F nb k)"
  define k2 where "k2 = snd (k_read K D nb k1)"
  have k1: "fst (k_read K F nb k) = (int nb, take nb (drop off file))" "part k1 = part k" "pos k1 = (pos k)(F := off + nb)"
    using f(1-3) [of k nb] nb(2) p(1) by (simp_all add: k1_def)
  have k2: "fst (k_read K D nb k1) = (int nb, map (part k) [off..<off + nb])" "part k2 = part k"
    "pos k2 = (pos k)(F := off + nb, D := off + nb)"
    using d(1-3) [of k1 nb] nb(3) p(2) k1(2,3) FD by (simp_all add: k2_def)
  define fb where "fb = fill_buf (take nb (drop off file)) fbuf"
  define db where "db = fill_buf (map (part k) [off..<off + nb]) dbuf"
  have t: "take nb fb = take nb (drop off file)" "take nb db = map (part k) [off..<off + nb]"
    using nb(2) by (simp_all add: fb_def db_def take_fill_buf)
  have same: "take nb fb = take nb db \<longleftrightarrow> (\<forall>i. off \<le> i \<and> i < off + nb \<longrightarrow> part k i = file ! i)"
  proof -
    have "take nb fb = take nb db \<longleftrightarrow> (\<forall>j<nb. file ! (off + j) = part k (off + j))"
      using nb(2) by (simp add: t list_eq_iff_nth_eq)
    also have "\<dots> \<longleftrightarrow> (\<forall>i. off \<le> i \<and> i < off + nb \<longrightarrow> part k i = file ! i)"
      by (metis add_less_cancel_left le_add1 le_add_diff_inverse)
    finally show ?thesis .
  qed
  show thesis
  proof (cases "take nb fb = take nb db")
    case True
    have eq: "flash_sector K F D es (length file) off (fbuf, dbuf, ns0, nd0, k) = (fb, db, ns0 + 1, nd0, k2)"
      using True k1(1) k2(1) unfolding flash_sector_def Let_def nb(1)
      by (simp add: k1_def [symmetric] k2_def [symmetric] case_prod_beta fb_def [symmetric] db_def [symmetric])
    show ?thesis
      by (rule that [OF eq]) (use True same k2 FD in auto)
  next
    case False
    define k3 where "k3 = k_erase K D off es (k_unlock K D off es (k_lseek K D (- int nb) k2))"
    have k3: "part k3 = (\<lambda>i. if off \<le> i \<and> i < off + es then 0xff else part k i)" "pos k3 = (pos k)(F := off + nb, D := off)"
    proof -
      have "0 \<le> int (pos k2 D) + - int nb" using k2(3) by simp
      from d(11,12) [OF this] k2(2,3)
      show "part k3 = (\<lambda>i. if off \<le> i \<and> i < off + es then 0xff else part k i)" "pos k3 = (pos k)(F := off + nb, D := off)"
        by (simp_all add: k3_def d(7-10) fun_upd_twist [OF FD] cong: if_cong)
    qed
    define k4 where "k4 = snd (k_write K D (take nb fb) k3)"
    have len: "length (take nb fb) = nb" using nb(2) by (simp add: t)
    have "pos k3 D = off" using k3(2) by simp
    then have k4: "part k4 = (\<lambda>i. if off \<le> i \<and> i < off + nb then part k3 i AND take nb fb ! (i - off) else part k3 i)"
      "pos k4 = (pos k)(F := off + nb, D := off + nb)"
      using d(5,6) [of k3 "take nb fb"] nb(3) len k3(2) by (simp_all add: k4_def cong: if_cong)
    have eq: "flash_sector K F D es (length file) off (fbuf, dbuf, ns0, nd0, k) = (fb, db, ns0, nd0 + 1, k4)"
      using False k1(1) k2(1) unfolding flash_sector_def Let_def nb(1)
      by (simp add: k1_def [symmetric] k2_def [symmetric] case_prod_beta fb_def [symmetric] db_def [symmetric]
          k3_def [symmetric] k4_def [symmetric])
    note ff = word8_ones
    show ?thesis
    proof (rule that [OF eq])
      show "\<forall>i. off \<le> i \<and> i < off + nb \<longrightarrow> part k4 i = file ! i"
        using nb by (auto simp: k4 k3 t ff)
      show "\<forall>i. i < off \<or> off + es \<le> i \<longrightarrow> part k4 i = part k i"
        using nb(5) by (auto simp: k4 k3)
    qed (use False same k4 FD in auto)
  qed
qed

section \<open>The loop\<close>

lemma flash_loop_ok:
  assumes D: "nor_fd K part psize pos D" and F: "file_fd K part file pos F" and FD: "F \<noteq> D"
    and es: "0 < es" and size: "length file + es \<le> psize"
  shows "\<lbrakk>off < length file \<longrightarrow> pos k F = off \<and> pos k D = off; off = es * m\<rbrakk>
    \<Longrightarrow> \<exists>fb db ns nd k'. flash_loop K F D es (length file) off (fbuf, dbuf, ns0, nd0, k) = Some (fb, db, ns, nd, k')
      \<and> (\<forall>i. off \<le> i \<and> i < length file \<longrightarrow> part k' i = file ! i)
      \<and> (\<forall>i. i < off \<or> length file \<le> es * (i div es) \<longrightarrow> part k' i = part k i)
      \<and> nd0 \<le> nd \<and> (nd = nd0 \<longleftrightarrow> (\<forall>i. off \<le> i \<and> i < length file \<longrightarrow> part k i = file ! i))
      \<and> (nd = nd0 \<longrightarrow> part k' = part k)"
proof (induction "length file - off" arbitrary: off m fbuf dbuf ns0 nd0 k rule: less_induct)
  case less
  show ?case
  proof (cases "off < length file")
    case False
    then show ?thesis by (subst flash_loop.simps) auto
  next
    case True
    let ?nb = "min (length file - off) es"
    have sz: "off + es \<le> psize" using True size by linarith
    have pF: "pos k F = off" and pD: "pos k D = off" using True less.prems(1) by simp_all
    obtain fb db ns nd k1 where
      s: "flash_sector K F D es (length file) off (fbuf, dbuf, ns0, nd0, k) = (fb, db, ns, nd, k1)"
      and p: "pos k1 F = off + ?nb" "pos k1 D = off + ?nb"
      and new: "\<forall>i. off \<le> i \<and> i < off + ?nb \<longrightarrow> part k1 i = file ! i"
      and frame: "\<forall>i. i < off \<or> off + es \<le> i \<longrightarrow> part k1 i = part k i"
      and nd: "nd = (if \<forall>i. off \<le> i \<and> i < off + ?nb \<longrightarrow> part k i = file ! i then nd0 else nd0 + 1)"
      and cnt: "ns + nd = ns0 + nd0 + 1"
      and same: "nd = nd0 \<longrightarrow> part k1 = part k"
      by (rule sector_ok [OF D F FD es True pF pD sz, of fbuf dbuf ns0 nd0])
    have next_pos: "off + es < length file \<longrightarrow> pos k1 F = off + es \<and> pos k1 D = off + es" using p by simp
    have off': "off + es = es * Suc m" using less.prems(2) by simp
    have dec: "length file - (off + es) < length file - off" using True es by linarith
    obtain fb' db' ns' nd' k' where
      r: "flash_loop K F D es (length file) (off + es) (fb, db, ns, nd, k1) = Some (fb', db', ns', nd', k')"
      and new': "\<And>i. off + es \<le> i \<Longrightarrow> i < length file \<Longrightarrow> part k' i = file ! i"
      and frame': "\<And>i. i < off + es \<or> length file \<le> es * (i div es) \<Longrightarrow> part k' i = part k1 i"
      and nd': "nd \<le> nd'" "nd' = nd \<longleftrightarrow> (\<forall>i. off + es \<le> i \<and> i < length file \<longrightarrow> part k1 i = file ! i)"
      and same': "nd' = nd \<Longrightarrow> part k' = part k1"
      using less.hyps [OF dec next_pos off', of fb db ns nd] by blast
    have run: "flash_loop K F D es (length file) off (fbuf, dbuf, ns0, nd0, k) = Some (fb', db', ns', nd', k')"
      using True r s by (subst flash_loop.simps) simp
    have part_new: "part k' i = file ! i" if "off \<le> i" "i < length file" for i
    proof (cases "i < off + es")
      case True
      with that show ?thesis using new frame' [of i] by simp
    next
      case False
      with that show ?thesis using new' by simp
    qed
    have part_frame: "part k' i = part k i" if "i < off \<or> length file \<le> es * (i div es)" for i
    proof -
      have "off + es \<le> i" if "\<not> i < off" "length file \<le> es * (i div es)"
      proof (rule ccontr)
        assume "\<not> off + es \<le> i"
        then have "i div es = m" using that(1) less.prems(2) es by (intro div_nat_eqI) (simp_all add: mult.commute)
        then show False using that(2) True less.prems(2) by simp
      qed
      with that show ?thesis using frame frame' [of i] by (cases "i < off") auto
    qed
    have n0: "nd0 \<le> nd" by (subst nd) simp
    then have "nd' = nd0 \<longleftrightarrow> nd = nd0 \<and> nd' = nd" using nd'(1) by auto
    also have "\<dots> \<longleftrightarrow> (\<forall>i. off \<le> i \<and> i < length file \<longrightarrow> part k i = file ! i)"
    proof
      assume "nd = nd0 \<and> nd' = nd"
      then show "\<forall>i. off \<le> i \<and> i < length file \<longrightarrow> part k i = file ! i"
        using part_new same same' by metis
    next
      assume all: "\<forall>i. off \<le> i \<and> i < length file \<longrightarrow> part k i = file ! i"
      then have "nd = nd0" using nd by simp
      with all nd'(2) same show "nd = nd0 \<and> nd' = nd" by simp
    qed
    finally have cnt': "nd' = nd0 \<longleftrightarrow> (\<forall>i. off \<le> i \<and> i < length file \<longrightarrow> part k i = file ! i)" .
    have "nd0 \<le> nd'" using nd'(1) n0 by simp
    moreover have "nd' = nd0 \<longrightarrow> part k' = part k"
      using nd'(1) n0 same same' by auto
    ultimately show ?thesis using run part_new part_frame cnt' by blast
  qed
qed

section \<open>The boot image\<close>

definition flash_kernel ::
    "'k kern \<Rightarrow> ('k \<Rightarrow> nat \<Rightarrow> word8) \<Rightarrow> ('k \<Rightarrow> int \<Rightarrow> nat) \<Rightarrow> nat \<Rightarrow> int \<Rightarrow> int \<Rightarrow> nat \<Rightarrow> string \<Rightarrow> string
      \<Rightarrow> word8 list \<Rightarrow> bool" where
  "flash_kernel K part pos psize F D es fileName devName file \<longleftrightarrow>
     nor_fd K part psize pos D \<and> file_fd K part file pos F \<and> 0 \<le> F \<and> 0 \<le> D \<and> F \<noteq> D \<and> 0 < es
     \<and> length file + es \<le> psize
     \<and> (\<forall>k. fst (k_open K fileName k) = F \<and> part (snd (k_open K fileName k)) = part k
        \<and> pos (snd (k_open K fileName k)) = (pos k)(F := 0))
     \<and> (\<forall>k. fst (k_open K devName k) = D \<and> part (snd (k_open K devName k)) = part k
        \<and> pos (snd (k_open K devName k)) = (pos k)(D := 0))
     \<and> (\<forall>k. fst (k_erasesize K D k) = es)
     \<and> (\<forall>k n. fst (k_malloc K n k) \<noteq> None \<and> part (snd (k_malloc K n k)) = part k \<and> pos (snd (k_malloc K n k)) = pos k)"

lemma flash_kernel_run:
  assumes K: "flash_kernel K part pos psize F D es fileName devName file"
  shows "\<exists>ns nd k'. ProgramFlash K fileName devName k = Some ((True, ns, nd), k')
    \<and> (\<forall>i < length file. part k' i = file ! i)
    \<and> (\<forall>i. length file \<le> es * (i div es) \<longrightarrow> part k' i = part k i)
    \<and> (nd = 0 \<longleftrightarrow> (\<forall>i < length file. part k i = file ! i)) \<and> (nd = 0 \<longrightarrow> part k' = part k)"
proof -
  have D: "nor_fd K part psize pos D" and F: "file_fd K part file pos F" and FD: "F \<noteq> D" and ge: "\<not> F < 0" "\<not> D < 0"
    and es: "0 < es" "length file + es \<le> psize" using K by (simp_all add: flash_kernel_def)
  have op: "k_open K fileName k = (F, snd (k_open K fileName k))" "k_open K devName k = (D, snd (k_open K devName k))"
    "part (snd (k_open K fileName k)) = part k" "part (snd (k_open K devName k)) = part k"
    "pos (snd (k_open K fileName k)) = (pos k)(F := 0)" "pos (snd (k_open K devName k)) = (pos k)(D := 0)" for k
    using K by (simp_all add: flash_kernel_def prod_eq_iff)
  define k0 where "k0 = snd (k_open K fileName k)"
  define k1 where "k1 = snd (k_open K devName k0)"
  have o: "k_open K fileName k = (F, k0)" "k_open K devName k0 = (D, k1)"
    unfolding k1_def k0_def by (rule op(1), rule op(2))
  define k2 where "k2 = snd (k_erasesize K D k1)"
  define k3 where "k3 = snd (k_malloc K es k2)"
  define k4 where "k4 = snd (k_malloc K es k3)"
  define k5 where "k5 = snd (k_fsize K F k4)"
  have ma: "\<exists>b. k_malloc K n k = (Some b, snd (k_malloc K n k))" for n k
    using K by (auto simp: flash_kernel_def prod_eq_iff)
  obtain fbuf where b1: "k_malloc K es k2 = (Some fbuf, k3)" using ma [of es k2] by (auto simp: k3_def)
  obtain dbuf where b2: "k_malloc K es k3 = (Some dbuf, k4)" using ma [of es k3] by (auto simp: k4_def)
  note buf = b1 b2
  have er: "k_erasesize K D k1 = (es, k2)" using K by (simp add: flash_kernel_def k2_def prod_eq_iff)
  have fs: "k_fsize K F k4 = (length file, k5)" using file_fdD(4) [OF F] by (simp add: k5_def prod_eq_iff)
  have mp: "part (snd (k_malloc K n k)) = part k" "pos (snd (k_malloc K n k)) = pos k" for n k
    using K by (simp_all add: flash_kernel_def)
  have "part k1 = part k" unfolding k1_def k0_def by (simp only: op(3,4))
  then have v: "part k5 = part k" "pos k5 = pos k1"
    unfolding k5_def k4_def k3_def k2_def by (simp_all only: file_fdD(5,6) [OF F] mp nor_fdD(13,14) [OF D])
  have "pos k5 F = 0 \<and> pos k5 D = 0" using FD by (simp add: v(2) k1_def k0_def op(5,6))
  with flash_loop_ok [OF D F FD es, of 0 k5 0 fbuf dbuf 0 0] obtain fb db ns nd k' where
    r: "flash_loop K F D es (length file) 0 (fbuf, dbuf, 0, 0, k5) = Some (fb, db, ns, nd, k')"
    "\<forall>i. i < length file \<longrightarrow> part k' i = file ! i" "\<forall>i. length file \<le> es * (i div es) \<longrightarrow> part k' i = part k5 i"
    "nd = 0 \<longleftrightarrow> (\<forall>i. i < length file \<longrightarrow> part k5 i = file ! i)" "nd = 0 \<longrightarrow> part k' = part k5"
    by (simp only: mult_0_right le0 not_less0 simp_thms) blast
  have "ProgramFlash K fileName devName k = Some ((True, ns, nd), k_close K D (k_close K F k'))"
    using ge r(1) by (simp add: ProgramFlash_def o er buf fs)
  then show ?thesis
    using r(2-5) v(1) nor_fdD(15) [OF D] file_fdD(7) [OF F] by auto
qed

text \<open>C18. \<open>ProgramFlash\<close> on NOR flash and a readable file returns true, and afterwards the partition
  starts with the contents of the file, while every sector behind the file's last one is as it was.
  It writes nothing exactly if the contents were already there, so running it again changes no
  sector.\<close>

theorem ProgramFlash_stores:
  assumes "flash_kernel K part pos psize F D es fileName devName file"
  shows "\<exists>ns nd k'. ProgramFlash K fileName devName k = Some ((True, ns, nd), k')
    \<and> (\<forall>i < length file. part k' i = file ! i)
    \<and> (\<forall>i. length file \<le> es * (i div es) \<longrightarrow> part k' i = part k i)
    \<and> (nd = 0 \<longleftrightarrow> (\<forall>i < length file. part k i = file ! i)) \<and> (nd = 0 \<longrightarrow> part k' = part k)
    \<and> (\<exists>ns' k''. ProgramFlash K fileName devName k' = Some ((True, ns', 0), k'') \<and> part k'' = part k')"
proof -
  obtain ns nd k' where r: "ProgramFlash K fileName devName k = Some ((True, ns, nd), k')"
    "\<forall>i < length file. part k' i = file ! i"
    "(\<forall>i. length file \<le> es * (i div es) \<longrightarrow> part k' i = part k i)
     \<and> (nd = 0 \<longleftrightarrow> (\<forall>i < length file. part k i = file ! i)) \<and> (nd = 0 \<longrightarrow> part k' = part k)"
    using flash_kernel_run [OF assms, of k] by blast
  obtain ns' nd' k'' where "ProgramFlash K fileName devName k' = Some ((True, ns', nd'), k'')"
    "nd' = 0 \<longleftrightarrow> (\<forall>i < length file. part k' i = file ! i)" "nd' = 0 \<longrightarrow> part k'' = part k'"
    using flash_kernel_run [OF assms, of k'] by blast
  with r show ?thesis by blast
qed

section \<open>The serial number\<close>

definition serial_kernel ::
    "'k kern \<Rightarrow> ('k \<Rightarrow> nat \<Rightarrow> word8) \<Rightarrow> ('k \<Rightarrow> int \<Rightarrow> nat) \<Rightarrow> nat \<Rightarrow> int \<Rightarrow> int \<Rightarrow> nat \<Rightarrow> bool" where
  "serial_kernel K part pos psize R W es \<longleftrightarrow> nor_fd K part psize pos R \<and> nor_fd K part psize pos W
     \<and> 0 \<le> R \<and> 0 \<le> W \<and> 16 \<le> es \<and> es \<le> psize
     \<and> (\<forall>k. fst (k_open K ''/dev/mtd4ro'' k) = R \<and> part (snd (k_open K ''/dev/mtd4ro'' k)) = part k
        \<and> pos (snd (k_open K ''/dev/mtd4ro'' k)) = (pos k)(R := 0))
     \<and> (\<forall>k. fst (k_open K ''/dev/mtd4'' k) = W \<and> part (snd (k_open K ''/dev/mtd4'' k)) = part k
        \<and> pos (snd (k_open K ''/dev/mtd4'' k)) = (pos k)(W := 0))
     \<and> (\<forall>k. fst (k_erasesize K W k) = es)"

lemma ascii_FPGA: "ascii ''FPGA '' = [0x46, 0x50, 0x47, 0x41, 0x20]"
  by (simp add: ascii_def)

lemma program_serial:
  assumes K: "serial_kernel K part pos psize R W es" and sn: "length sn \<le> 8"
  shows "\<exists>k'. ProgramFpgaSerialNumber K sn k = (True, k')
    \<and> (\<forall>i < es. part k' i = (ascii ''FPGA '' @ sn @ replicate (es - 5 - length sn) 0xff) ! i)"
proof -
  have W: "nor_fd K part psize pos W" and ge: "\<not> W < 0" and es: "16 \<le> es" "es \<le> psize"
    using K by (simp_all add: serial_kernel_def)
  note w = nor_fdD [OF W]
  have len: "length (ascii ''FPGA '') = 5" by (simp add: ascii_def)
  define k1 where "k1 = snd (k_open K ''/dev/mtd4'' k)"
  define k2 where "k2 = snd (k_erasesize K W k1)"
  define k3 where "k3 = k_erase K W 0 es (k_unlock K W 0 es k2)"
  have op: "k_open K ''/dev/mtd4'' k = (W, k1)" "k_erasesize K W k1 = (es, k2)"
    using K by (simp_all add: serial_kernel_def k1_def k2_def prod_eq_iff)
  have k3: "part k3 i = 0xff" if "i < es" for i using that by (simp add: k3_def w)
  have p3: "pos k3 W = 0" using K by (simp add: serial_kernel_def k3_def k2_def k1_def w)
  define k4 where "k4 = snd (k_write K W (ascii ''FPGA '') k3)"
  have k4: "k_write K W (ascii ''FPGA '') k3 = (5, k4)" "pos k4 W = 5"
    "part k4 = (\<lambda>i. if i < 5 then part k3 i AND ascii ''FPGA '' ! i else part k3 i)"
    using w(4-6) [of k3 "ascii ''FPGA ''"] p3 es len by (simp_all add: k4_def prod_eq_iff cong: if_cong)
  define k5 where "k5 = snd (k_write K W sn k4)"
  have k5: "k_write K W sn k4 = (int (length sn), k5)"
    "part k5 = (\<lambda>i. if 5 \<le> i \<and> i < 5 + length sn then part k4 i AND sn ! (i - 5) else part k4 i)"
    using w(4-6) [of k4 sn] k4(2) es sn by (simp_all add: k5_def prod_eq_iff cong: if_cong)
  have "ProgramFpgaSerialNumber K sn k = (True, k_close K W k5)"
    using ge sn op k4(1) k5(1) by (simp add: ProgramFpgaSerialNumber_def FPGA_SN_SIZE_def Let_def k3_def [symmetric])
  moreover have "part (k_close K W k5) i = (ascii ''FPGA '' @ sn @ replicate (es - 5 - length sn) 0xff) ! i" if "i < es" for i
    using that k3 [OF that] word8_ones len
    by (auto simp: w k5(2) k4(3) nth_append cong: if_cong)
  ultimately show ?thesis by blast
qed

lemma strchr_from_found:
  "c \<notin> set xs \<Longrightarrow> 0 \<notin> set xs \<Longrightarrow> strchr_from c i (xs @ c # ys) = Some (Some (i + length xs))"
  by (induction xs arbitrary: i) auto

lemma strchr_from_nul:
  "c \<noteq> 0 \<Longrightarrow> c \<notin> set xs \<Longrightarrow> 0 \<notin> set xs \<Longrightarrow> strchr_from c i (xs @ 0 # ys) = Some None"
  by (induction xs arbitrary: i) auto

lemma strchr_from_overrun:
  "c \<notin> set xs \<Longrightarrow> 0 \<notin> set xs \<Longrightarrow> strchr_from c i xs = None"
  by (induction xs arbitrary: i) auto

lemma c_str_append: "0 \<notin> set xs \<Longrightarrow> c_str (xs @ 0 # ys) = xs"
  unfolding c_str_def by (subst takeWhile_append2) auto

lemma read_serial:
  assumes K: "serial_kernel K part pos psize R W es" and sn: "length sn \<le> 8" and buf: "length buf = 9"
    and p: "\<forall>i < es. part k i = (ascii ''FPGA '' @ sn @ replicate (es - 5 - length sn) 0xff) ! i"
  obtains k' where "GetFpgaSerialNumber K buf k =
      (let b = sn @ replicate (8 - length sn) 0xff @ [buf ! 8] in
       case strchr_from 0xff 0 b of None \<Rightarrow> None | Some (Some q) \<Rightarrow> Some (b[q := 0], k')
         | Some None \<Rightarrow> Some (b[8 := 0], k'))"
proof -
  have R: "nor_fd K part psize pos R" and ge: "\<not> R < 0" and es: "16 \<le> es" "es \<le> psize"
    using K by (simp_all add: serial_kernel_def)
  note r = nor_fdD [OF R]
  have len: "length (ascii ''FPGA '') = 5" by (simp add: ascii_def)
  define k1 where "k1 = snd (k_open K ''/dev/mtd4ro'' k)"
  have k1: "k_open K ''/dev/mtd4ro'' k = (R, k1)" "part k1 = part k" "pos k1 R = 0"
    using K by (simp_all add: serial_kernel_def k1_def prod_eq_iff)
  define k2 where "k2 = snd (k_read K R 5 k1)"
  have "map (part k) [0..<5] = ascii ''FPGA ''"
    using p es len by (auto intro!: nth_equalityI simp: nth_append)
  then have k2: "k_read K R 5 k1 = ((5, ascii ''FPGA ''), k2)" "part k2 = part k" "pos k2 R = 5"
    using r(1-3) [of k1 5] k1(2,3) es by (simp_all add: k2_def prod_eq_iff)
  define k3 where "k3 = snd (k_read K R 8 k2)"
  have "map (part k) [5..<13] = sn @ replicate (8 - length sn) 0xff"
  proof (rule nth_equalityI)
    fix i assume "i < length (map (part k) [5..<13])"
    then have i: "i < 8" "i + 5 < es" using es by auto
    then have "part k (i + 5) = (ascii ''FPGA '' @ sn @ replicate (es - 5 - length sn) 0xff) ! (i + 5)" using p by blast
    also have "\<dots> = (sn @ replicate (8 - length sn) 0xff) ! i"
      using i len sn es by (simp add: nth_append)
    finally show "map (part k) [5..<13] ! i = (sn @ replicate (8 - length sn) 0xff) ! i" using i nth_map_upt [of i 13 5 "part k"]
      by (simp only: add.commute)
  qed (use sn in simp)
  then have k3: "k_read K R 8 k2 = ((8, sn @ replicate (8 - length sn) 0xff), k3)"
    using r(1) [of k2 8] k2(2,3) es by (simp add: k3_def prod_eq_iff)
  have b: "fill_buf (sn @ replicate (8 - length sn) 0xff) (buf[0 := 0]) = sn @ replicate (8 - length sn) 0xff @ [buf ! 8]"
  proof -
    obtain b0 b1 b2 b3 b4 b5 b6 b7 b8 where "buf = [b0, b1, b2, b3, b4, b5, b6, b7, b8]"
      using buf by (auto simp: numeral_eq_Suc length_Suc_conv)
    then show ?thesis using sn by (simp add: fill_buf_def)
  qed
  show thesis
    by (rule that [of "k_close K R k3"])
      (simp add: GetFpgaSerialNumber_def k1(1) ge k2(1) len FPGA_SN_SIZE_def k3 b Let_def cong: if_cong option.case_cong)
qed

text \<open>A serial number of at most 8 characters, none of them 0xff, is programmed, and reading it
  back into a 9-byte buffer gives it again if it has fewer than 8 characters. With exactly 8
  characters no 0xff follows within the bytes read, and the search for one goes on into the last
  byte of the caller's buffer, which nobody has set: unless that byte is 0 or 0xff by chance, the
  search leaves the buffer.\<close>

theorem serial_number_roundtrip:
  assumes "serial_kernel K part pos psize R W es" and "length sn \<le> 8" and "0 \<notin> set sn" and "0xff \<notin> set sn"
    and "length buf = 9"
  shows "\<exists>k'. ProgramFpgaSerialNumber K sn k = (True, k') \<and>
    (if length sn < 8 \<or> buf ! 8 \<in> {0, 0xff}
     then \<exists>b k''. GetFpgaSerialNumber K buf k' = Some (b, k'') \<and> c_str b = sn
     else GetFpgaSerialNumber K buf k' = None)"
proof -
  obtain k' where w: "ProgramFpgaSerialNumber K sn k = (True, k')"
    "\<forall>i < es. part k' i = (ascii ''FPGA '' @ sn @ replicate (es - 5 - length sn) 0xff) ! i"
    using program_serial [OF assms(1,2)] by blast
  let ?t = "replicate (8 - length sn) 0xff @ [buf ! 8]"
  obtain k'' where r: "GetFpgaSerialNumber K buf k' =
      (let b = sn @ ?t in case strchr_from 0xff 0 b of None \<Rightarrow> None | Some (Some q) \<Rightarrow> Some (b[q := 0], k'')
         | Some None \<Rightarrow> Some (b[8 := 0], k''))"
    by (rule read_serial [OF assms(1,2,5) w(2)])
  note s = strchr_from_found [OF assms(4,3), of 0] strchr_from_nul [OF _ assms(4,3), of 0]
  consider (ff) ys where "?t = 0xff # ys" | (nul) "length sn = 8" "buf ! 8 = 0"
    | (over) "length sn = 8" "buf ! 8 \<noteq> 0" "buf ! 8 \<noteq> 0xff"
    using assms(2) by (cases "8 - length sn") auto
  then show ?thesis
  proof cases
    case ff
    then have "length sn < 8 \<or> buf ! 8 \<in> {0, 0xff}" by (cases "8 - length sn") auto
    with w(1) r ff show ?thesis by (simp add: s Let_def list_update_append c_str_append [OF assms(3)])
  next
    case nul
    with w(1) r show ?thesis by (simp add: s Let_def list_update_append c_str_append [OF assms(3)])
  next
    case over
    then have "strchr_from 0xff 0 (sn @ [buf ! 8]) = None"
      using assms(3,4) by (intro strchr_from_overrun) auto
    with w(1) r over show ?thesis by (simp add: Let_def)
  qed
qed

section \<open>A concrete kernel\<close>

text \<open>A flash partition behind the descriptors 4 (read) and 5 (write) and a file behind 6; the state
  is the partition and the positions.\<close>

definition sim_kern :: "word8 list \<Rightarrow> ((nat \<Rightarrow> word8) \<times> (int \<Rightarrow> nat)) kern" where
  "sim_kern file = \<lparr>
     k_open = \<lambda>name (m, p). let fd = (if name = ''/dev/mtd4ro'' then 4 else if name = ''/dev/mtd4'' then 5 else 6)
                in (fd, (m, p(fd := 0))),
     k_close = \<lambda>fd k. k,
     k_read = \<lambda>fd n (m, p). ((int n, if fd = 6 then take n (drop (p fd) file) else map m [p fd..<p fd + n]),
                (m, p(fd := p fd + n))),
     k_write = \<lambda>fd bs (m, p). (int (length bs), (\<lambda>i. if p fd \<le> i \<and> i < p fd + length bs
                then m i AND bs ! (i - p fd) else m i, p(fd := p fd + length bs))),
     k_lseek = \<lambda>fd d (m, p). (m, p(fd := nat (int (p fd) + d))),
     k_fsize = \<lambda>fd k. (length file, k),
     k_erasesize = \<lambda>fd k. (16, k),
     k_unlock = \<lambda>fd a n k. k,
     k_erase = \<lambda>fd a n (m, p). (\<lambda>i. if a \<le> i \<and> i < a + n then 0xff else m i, p),
     k_malloc = \<lambda>n k. (Some (replicate n 0), k) \<rparr>"

lemma sim_kern_nor: "fd \<noteq> 6 \<Longrightarrow> nor_fd (sim_kern file) fst psize snd fd"
  by (simp add: nor_fd_def sim_kern_def cong: if_cong)

lemma sim_kern_file: "file_fd (sim_kern file) fst file snd 6"
  by (simp add: file_fd_def sim_kern_def)

lemma sim_flash_kernel:
  "length file + 16 \<le> psize \<Longrightarrow> flash_kernel (sim_kern file) fst snd psize 6 5 16 ''/media/f'' ''/dev/mtd4'' file"
  unfolding flash_kernel_def using sim_kern_nor sim_kern_file by (simp add: sim_kern_def Let_def case_prod_beta)

lemma sim_serial_kernel: "16 \<le> psize \<Longrightarrow> serial_kernel (sim_kern file) fst snd psize 4 5 16"
  unfolding serial_kernel_def using sim_kern_nor by (simp add: sim_kern_def Let_def case_prod_beta)

theorem ProgramFlash_stores_witness:
  "\<exists>ns nd k'. ProgramFlash (sim_kern (replicate 20 7)) ''/media/f'' ''/dev/mtd4'' ((\<lambda>_. 0xff), (\<lambda>_. 0)) = Some ((True, ns, nd), k')
     \<and> (\<forall>i < 20. fst k' i = 7)"
proof -
  have K: "flash_kernel (sim_kern (replicate 20 7)) fst snd 64 6 5 16 ''/media/f'' ''/dev/mtd4'' (replicate 20 7)"
    by (rule sim_flash_kernel) simp
  obtain ns nd k' where "ProgramFlash (sim_kern (replicate 20 7)) ''/media/f'' ''/dev/mtd4'' ((\<lambda>_. 0xff), (\<lambda>_. 0)) = Some ((True, ns, nd), k')"
    "\<forall>i < length (replicate 20 (7 :: word8)). fst k' i = replicate 20 7 ! i"
    using ProgramFlash_stores [OF K, of "((\<lambda>_. 0xff), (\<lambda>_. 0))"] by blast
  then show ?thesis by auto
qed

theorem serial_number_roundtrip_witness:
  "(\<exists>k'. ProgramFpgaSerialNumber (sim_kern []) (ascii ''1234-56'') ((\<lambda>_. 0), (\<lambda>_. 0)) = (True, k')
     \<and> (\<exists>b k''. GetFpgaSerialNumber (sim_kern []) (replicate 9 1) k' = Some (b, k'') \<and> c_str b = ascii ''1234-56''))
   \<and> (\<exists>k'. ProgramFpgaSerialNumber (sim_kern []) (ascii ''1234-567'') ((\<lambda>_. 0), (\<lambda>_. 0)) = (True, k')
     \<and> GetFpgaSerialNumber (sim_kern []) (replicate 9 1) k' = None)"
  using serial_number_roundtrip [OF sim_serial_kernel [of 16], of "ascii ''1234-56''" "replicate 9 1" "[]" "((\<lambda>_. 0), (\<lambda>_. 0))"]
    serial_number_roundtrip [OF sim_serial_kernel [of 16], of "ascii ''1234-567''" "replicate 9 1" "[]" "((\<lambda>_. 0), (\<lambda>_. 0))"]
  by (simp add: ascii_def numeral_eq_Suc [of num.One])

end
