(* ===== verification/BootProps.thy ===== *)
theory BootProps
  imports Boot EmioDevice QspiProps
begin

text \<open>
  The boot hooks: the quad enable bit is set and nothing else of the status register changes, and
  the serial number goes from the flash to the PROM registers of the FPGA.
\<close>

section \<open>The quad enable bit\<close>

text \<open>
  What the hook relies on from the flash chip, a Winbond W25Q128JV or W25Q128JV-M: the answers to
  the commands it sends. \<open>sr2\<close> is the chip's status register 2, \<open>wel\<close> its write enable latch,
  which a write of the register needs.
\<close>

definition winbond_flash :: "'h bsp \<Rightarrow> ('h \<Rightarrow> word8) \<Rightarrow> ('h \<Rightarrow> bool) \<Rightarrow> bool" where
  "winbond_flash B sr2 wel \<longleftrightarrow> q_found B
     \<and> (\<forall>h. fst (q_cfg_init B h) = XST_SUCCESS \<and> sr2 (snd (q_cfg_init B h)) = sr2 h)
     \<and> (\<forall>h. sr2 (q_set_options B h) = sr2 h \<and> sr2 (q_set_prescaler B h) = sr2 h \<and> sr2 (q_slave_select B h) = sr2 h)
     \<and> (\<forall>h. (\<exists>x t. t \<in> {0x40, 0x70} \<and> fst (q_transfer B [READ_ID_CMD, 0, 0, 0] h) = (XST_SUCCESS, [x, winbond_id B, t, 0x18]))
            \<and> sr2 (snd (q_transfer B [READ_ID_CMD, 0, 0, 0] h)) = sr2 h)
     \<and> (\<forall>h. (\<exists>x. fst (q_transfer B [READ_STATUS_REG2, 0] h) = (XST_SUCCESS, [x, sr2 h]))
            \<and> sr2 (snd (q_transfer B [READ_STATUS_REG2, 0] h)) = sr2 h)
     \<and> (\<forall>h. (\<exists>x. fst (q_transfer B [WRITE_ENABLE_CMD] h) = (XST_SUCCESS, [x]))
            \<and> sr2 (snd (q_transfer B [WRITE_ENABLE_CMD] h)) = sr2 h \<and> wel (snd (q_transfer B [WRITE_ENABLE_CMD] h)))
     \<and> (\<forall>h v. (\<exists>x y. fst (q_transfer B [WRITE_STATUS_REG2, v] h) = (XST_SUCCESS, [x, y]))
            \<and> sr2 (snd (q_transfer B [WRITE_STATUS_REG2, v] h)) = (if wel h then v else sr2 h))"

lemma bit_QE: "bit QE_BIT_MASK k \<longleftrightarrow> k = 1"
  by (auto simp: QE_BIT_MASK_def bit_2_iff)

lemma QE_already:
  assumes "v AND QE_BIT_MASK \<noteq> 0"
  shows "v OR QE_BIT_MASK = v"
proof -
  have "bit v 1"
  proof (rule ccontr)
    assume "\<not> bit v 1"
    then have "v AND QE_BIT_MASK = 0" by (intro bit_word_eqI) (auto simp: bit_and_iff bit_QE)
    with assms show False ..
  qed
  then show ?thesis by (intro bit_word_eqI) (auto simp: bit_or_iff bit_QE)
qed

lemma program_QE_ok:
  assumes "winbond_flash B sr2 wel"
  shows "\<exists>s'. program_QE B [READ_STATUS_REG2, 0, 0, 0] [y, sr2 (bd s), t, c] s = (True, s')
    \<and> sr2 (bd s') = sr2 (bd s) OR QE_BIT_MASK"
proof (cases "sr2 (bd s) AND QE_BIT_MASK = 0")
  case False
  then show ?thesis using QE_already [OF False] by (simp add: program_QE_def tell_def)
next
  case True
  note W = assms [unfolded winbond_flash_def]
  let ?v = "sr2 (bd s) OR QE_BIT_MASK"
  define h1 where "h1 = snd (q_transfer B [WRITE_ENABLE_CMD] (bd s))"
  obtain z where z: "q_transfer B [WRITE_ENABLE_CMD] (bd s) = ((XST_SUCCESS, [z]), h1)" "wel h1"
    using W unfolding h1_def by (metis prod.collapse)
  define h2 where "h2 = snd (q_transfer B [WRITE_STATUS_REG2, ?v] h1)"
  obtain a b where w: "q_transfer B [WRITE_STATUS_REG2, ?v] h1 = ((XST_SUCCESS, [a, b]), h2)" "sr2 h2 = ?v"
    using W z(2) unfolding h2_def by (metis prod.collapse)
  have "program_QE B [READ_STATUS_REG2, 0, 0, 0] [y, sr2 (bd s), t, c] s = (True, (tell ''Programming QE bit'' [] s)\<lparr>bd := h2\<rparr>)"
    using True by (simp add: program_QE_def tell_def transfer_def Let_def fill_buf_def z(1) w(1) cong: if_cong)
  with w(2) show ?thesis by simp
qed

text \<open>C29. Booting from SD, \<open>FpgaV3_Init_SD\<close> succeeds with a Winbond flash of either type and leaves
  its status register 2 with the quad enable bit set and every other bit as it was.\<close>

theorem FpgaV3_Init_SD_sets_QE:
  assumes "winbond_flash B sr2 wel" and "length rbuf = 4"
  shows "\<exists>s'. FpgaV3_Init_SD B rbuf s = (True, s') \<and> sr2 (bd s') = sr2 (bd s) OR QE_BIT_MASK"
proof -
  note W = assms(1) [unfolded winbond_flash_def]
  define h1 where "h1 = q_slave_select B (q_set_prescaler B (q_set_options B (snd (q_cfg_init B (bd s)))))"
  have h1: "sr2 h1 = sr2 (bd s)" "fst (q_cfg_init B (bd s)) = XST_SUCCESS" using W by (simp_all add: h1_def)
  define h2 where "h2 = snd (q_transfer B [READ_ID_CMD, 0, 0, 0] h1)"
  obtain x t where t: "t \<in> {0x40, 0x70}" "q_transfer B [READ_ID_CMD, 0, 0, 0] h1 = ((XST_SUCCESS, [x, winbond_id B, t, 0x18]), h2)"
    "sr2 h2 = sr2 h1"
    using W unfolding h2_def by (metis prod.collapse)
  define h3 where "h3 = snd (q_transfer B [READ_STATUS_REG2, 0] h2)"
  obtain y where y: "q_transfer B [READ_STATUS_REG2, 0] h2 = ((XST_SUCCESS, [y, sr2 h2]), h3)" "sr2 h3 = sr2 h2"
    using W unfolding h3_def by (metis prod.collapse)
  have "\<exists>s2. identify_flash B [x, winbond_id B, t, 0x18] (s\<lparr>bd := h2\<rparr>) = (True, s2) \<and> bd s2 = h2"
    using t(1) by (auto simp: identify_flash_def tell_def Let_def)
  then obtain s2 where s2: "identify_flash B [x, winbond_id B, t, 0x18] (s\<lparr>bd := h2\<rparr>) = (True, s2)" "bd s2 = h2" by blast
  have r: "fill_buf [x, winbond_id B, t, 0x18] rbuf = [x, winbond_id B, t, 0x18]"
    using assms(2) by (simp add: fill_buf_def)
  have "FpgaV3_Init_SD B rbuf s = program_QE B [READ_STATUS_REG2, 0, 0, 0] [y, sr2 (bd (s2\<lparr>bd := h3\<rparr>)), t, 0x18] (s2\<lparr>bd := h3\<rparr>)"
    using W h1(2) t(2) y s2 r
    by (simp add: FpgaV3_Init_SD_def transfer_def Let_def case_prod_beta h1_def [symmetric] fill_buf_def)
  with program_QE_ok [OF assms(1), of y "s2\<lparr>bd := h3\<rparr>" t "0x18"] y(2) t(3) h1(1) show ?thesis by simp
qed

section \<open>The serial number\<close>

text \<open>
  What the hook relies on from the board: the firmware honours the EMIO interface, the
  other set-up registers have no effect on it, and the flash delivers the 16
  bytes \<open>sn16\<close> without touching the firmware.
\<close>

definition serial_board ::
    "'h bsp \<Rightarrow> ('h \<Rightarrow> emio_pins) \<Rightarrow> ('h \<Rightarrow> word16 \<Rightarrow> word32) \<Rightarrow> word8 list \<Rightarrow> bool" where
  "serial_board B pins rg sn16 \<longleftrightarrow> emio_device (pf B) pins rg \<and> length sn16 = 16
     \<and> init_inert (pf B) pins rg
     \<and> (\<forall>h. fst (q_access B 0xff0000 16 h) = (XST_SUCCESS, sn16)
        \<and> pins (snd (q_access B 0xff0000 16 h)) = pins h \<and> rg (snd (q_access B 0xff0000 16 h)) = rg h)"

definition serial16 :: "word8 list \<Rightarrow> word8 list" where
  "serial16 sn = ascii ''FPGA '' @ sn @ replicate (11 - length sn) 0xff"

lemma serial_init_ready:
  assumes "serial_board B pins rg sn16"
  shows "emio_ready (pf B) pins rg (EMIO_Init (pf B) h)" "rg (EMIO_Init (pf B) h) = rg h"
  using emio_init_ready [of "pf B" pins rg] assms by (simp_all add: serial_board_def)

lemma copy_serial_ok:
  assumes B: "serial_board B pins rg (serial16 sn)" and sn: "length sn \<le> 8" "0 \<notin> set sn" "0xff \<notin> set sn"
    and ready: "emio_ready (pf B) pins rg (bd s)"
  shows "\<exists>s'. copy_serial B s = Inr s' \<and> emio_ready (pf B) pins rg (bd s')
    \<and> (\<forall>a. rg (bd s') a = (if unat (a - 0x2000) < 4 then swap32 B (le32 (\<lambda>i. serial16 sn ! i) (unat (a - 0x2000) * 4))
                            else rg (bd s) a))
    \<and> out s' = out s @ [Printf ''FPGA S/N: %s'' [Str (map (\<lambda>b. char_of (unat b)) sn)]]"
proof -
  let ?sn = "serial16 sn"
  have len: "length (ascii ''FPGA '') = 5" by (simp add: ascii_def)
  have plain: "0 \<notin> set (ascii ''FPGA '')" "0xff \<notin> set (ascii ''FPGA '')" by (simp_all add: ascii_def)
  define h1 where "h1 = snd (q_access B 0xff0000 16 (bd s))"
  have q: "q_access B 0xff0000 16 (bd s) = ((XST_SUCCESS, ?sn), h1)" "pins h1 = pins (bd s)" "rg h1 = rg (bd s)"
    using B by (simp_all add: serial_board_def h1_def prod_eq_iff)
  have ready1: "emio_ready (pf B) pins rg h1" using ready q(2) by (simp add: emio_ready_def)
  have n: "unat (ucast ((16 + 3) div 4 :: word32) :: word16) = 4" by simp
  obtain h2 where w: "EMIO_WritePromData (pf B) (swap32 B) (\<lambda>i. ?sn ! i) 16 h1 = Some (True, h2)" "emio_ready (pf B) pins rg h2"
    "\<forall>a. rg h2 a = (if unat (a - 0x2000) < 4 then swap32 B (le32 (\<lambda>i. ?sn ! i) (unat (a - 0x2000) * 4)) else rg h1 a)"
    using prom_stored [OF ready1, of "swap32 B" "\<lambda>i. ?sn ! i" 16] unfolding n by blast
  obtain k where k: "11 - length sn = Suc k" using sn(1) by (cases "11 - length sn") auto
  let ?p = "5 + length sn" and ?rest = "replicate k (0xff :: word8)"
  have sn16: "?sn = (ascii ''FPGA '' @ sn) @ 0xff # ?rest" by (simp add: serial16_def k)
  have found: "strchr_from 0xff 0 ?sn = Some (Some ?p)"
    unfolding sn16 using strchr_from_found [of "0xff" "ascii ''FPGA '' @ sn" 0 ?rest] plain sn(2,3) len by simp
  have cut: "?sn[?p := 0] = (ascii ''FPGA '' @ sn) @ 0 # ?rest"
    unfolding sn16 using len by (simp add: list_update_append)
  have str: "takeWhile (\<lambda>b. b \<noteq> 0) (drop 5 (?sn[?p := 0])) = sn"
    unfolding cut using len sn(2) by (simp add: takeWhile_append2 takeWhile_tail) (metis takeWhile_append2 takeWhile.simps(2) append_Nil2)
  have head: "take 5 ?sn = ascii ''FPGA ''" using len by (simp add: serial16_def)
  have "copy_serial B s = Inr (tell ''FPGA S/N: %s'' [Str (map (\<lambda>b. char_of (unat b)) sn)] (s\<lparr>bd := h2\<rparr>))"
    by (simp add: copy_serial_def q(1) head w(1) found str tell_def cong: if_cong option.case_cong)
  with w(2,3) q(3) show ?thesis by (simp add: tell_def)
qed

lemma check_board_ok:
  assumes ready: "emio_ready (pf B) pins rg (bd s)"
  shows "\<exists>s'. check_board B u0 u1 s = Some s' \<and> emio_ready (pf B) pins rg (bd s') \<and> rg (bd s') = rg (bd s)"
proof -
  have tell_bd: "bd (tell f args t) = bd t" for f args and t :: "'a boot" by (simp add: tell_def)
  obtain h1 where h1: "EMIO_ReadQuadlet (pf B) 4 (bd s) = Some (Some (rg (bd s) 4), h1)" "emio_ready (pf B) pins rg h1" "rg h1 = rg (bd s)"
    using emio.read_ok [OF ready] by blast
  obtain h2 where h2: "EMIO_ReadQuadlet (pf B) 0 h1 = Some (Some (rg h1 0), h2)" "emio_ready (pf B) pins rg h2" "rg h2 = rg h1"
    using emio.read_ok [OF h1(2)] by blast
  show ?thesis
    using h1 h2 by (simp add: check_board_def read_quad_def board_line_def tell_bd Let_def)
qed

text \<open>Booting from QSPI with a serial number of at most 8 characters in the flash,
  \<open>FpgaV3_Init_QSPI\<close> returns true, whatever the board is; afterwards the PROM registers 0x2000 to
  0x2003 of the FPGA hold the 16 bytes of the flash, every other register is as it was, and the
  last line printed is the serial number.\<close>

theorem FpgaV3_Init_QSPI_copies_serial:
  assumes "serial_board B pins rg (serial16 sn)" and "length sn \<le> 8" and "0 \<notin> set sn" and "0xff \<notin> set sn"
  shows "\<exists>s'. FpgaV3_Init_QSPI B version git_version u0 u1 s = Inr (True, s')
    \<and> (\<forall>a. rg (bd s') a = (if unat (a - 0x2000) < 4 then swap32 B (le32 (\<lambda>i. serial16 sn ! i) (unat (a - 0x2000) * 4))
                            else rg (bd s) a))
    \<and> last (out s') = Printf ''FPGA S/N: %s'' [Str (map (\<lambda>b. char_of (unat b)) sn)]"
proof -
  define s0 where "s0 = (let s = tell ''*** FPGA V3 ***'' [] s; s = tell ''Software Version %s'' [Str version] s;
     s = (if git_version \<noteq> version then tell '' (git %s)'' [Str git_version] s else s) in tell '''' [] s)"
  have s0: "bd s0 = bd s" by (simp add: s0_def tell_def Let_def)
  let ?s1 = "s0\<lparr>bd := EMIO_Init (pf B) (bd s0)\<rparr>"
  have ready: "emio_ready (pf B) pins rg (bd ?s1)" and rg1: "rg (bd ?s1) = rg (bd s)"
    using serial_init_ready [OF assms(1)] s0 by simp_all
  obtain s2 where s2: "check_board B u0 u1 ?s1 = Some s2" "emio_ready (pf B) pins rg (bd s2)" "rg (bd s2) = rg (bd ?s1)"
    using check_board_ok [OF ready] by blast
  obtain s3 where s3: "copy_serial B s2 = Inr s3"
    "\<forall>a. rg (bd s3) a = (if unat (a - 0x2000) < 4 then swap32 B (le32 (\<lambda>i. serial16 sn ! i) (unat (a - 0x2000) * 4)) else rg (bd s2) a)"
    "out s3 = out s2 @ [Printf ''FPGA S/N: %s'' [Str (map (\<lambda>b. char_of (unat b)) sn)]]"
    using copy_serial_ok [OF assms s2(2)] by blast
  have "FpgaV3_Init_QSPI B version git_version u0 u1 s = Inr (True, s3)"
    using s2(1) s3(1) by (simp add: FpgaV3_Init_QSPI_def s0_def Let_def cong: if_cong)
  with s3(2,3) s2(3) rg1 show ?thesis by simp
qed


section \<open>Concrete boards\<close>

definition sim_bsp ::
    "'h platform \<Rightarrow> (word8 list \<Rightarrow> 'h \<Rightarrow> (word32 \<times> word8 list) \<times> 'h) \<Rightarrow> word8 list \<Rightarrow> (nat \<Rightarrow> 'h \<Rightarrow> 'h) \<Rightarrow> 'h bsp"
where
  "sim_bsp P xfer sn16 sleep = \<lparr>
     pf = P, q_found = True, q_cfg_init = (\<lambda>h. (0, h)), q_set_options = (\<lambda>h. h), q_set_prescaler = (\<lambda>h. h),
     q_slave_select = (\<lambda>h. h), q_transfer = xfer, q_self_test = (\<lambda>h. (0, h)), q_init = (\<lambda>h. (0, h)),
     q_access = (\<lambda>a n h. ((0, sn16), h)), swap32 = (\<lambda>w. w), usleep = sleep,
     boot_mode_reg = 0xF800025C, boot_modes_mask = 7, sd_mode = 5, qspi_mode = 1, winbond_id = 0xEF\<rparr>"

text \<open>A flash chip: status register 2 and the write enable latch.\<close>

definition sim_chip :: "word8 list \<Rightarrow> word8 \<times> bool \<Rightarrow> (word32 \<times> word8 list) \<times> word8 \<times> bool" where
  "sim_chip bs = (\<lambda>(sr, we).
     if bs = [READ_ID_CMD, 0, 0, 0] then ((0, [0, 0xEF, 0x70, 0x18]), sr, we)
     else if bs = [READ_STATUS_REG2, 0] then ((0, [0, sr]), sr, we)
     else if bs = [WRITE_ENABLE_CMD] then ((0, [0]), sr, True)
     else ((0, [0, 0]), (if we then bs ! 1 else sr), False))"

definition idle_platform :: "'h platform" where
  "idle_platform = \<lparr>rd32 = (\<lambda>a h. (0, h)), wr32 = (\<lambda>a v h. h), cp15_wr = (\<lambda>r v h. h), cp15_rd = (\<lambda>r h. 0),
     gpio_base = 0, l2cc_invld_way = 0, l2cc_inv_cln_way = 0, l2cc_sync = 0\<rparr>"

lemma sim_chip_winbond: "winbond_flash (sim_bsp idle_platform sim_chip sn16 (\<lambda>n h. h)) fst snd"
  by (simp add: winbond_flash_def sim_bsp_def sim_chip_def XST_SUCCESS_def READ_ID_CMD_def READ_STATUS_REG2_def
      WRITE_ENABLE_CMD_def WRITE_STATUS_REG2_def)

theorem FpgaV3_Init_SD_sets_QE_witness:
  "\<exists>s'. FpgaV3_Init_SD (sim_bsp idle_platform sim_chip [] (\<lambda>n h. h)) [9, 9, 9, 9] \<lparr>bd = (0x40, False), out = []\<rparr> = (True, s')
    \<and> fst (bd s') = 0x42"
  using FpgaV3_Init_SD_sets_QE [OF sim_chip_winbond, of "[9, 9, 9, 9]" "[]" "\<lparr>bd = (0x40, False), out = []\<rparr>"]
  by (simp add: QE_BIT_MASK_def)

lemma emio_sim_board:
  assumes "length sn16 = 16"
  shows "serial_board (sim_bsp (emio_sim lag) xfer sn16 sleep) fpins fregs sn16"
  using assms emio_sim_device emio_sim_inert
  by (simp add: serial_board_def sim_bsp_def XST_SUCCESS_def)

theorem FpgaV3_Init_QSPI_copies_serial_witness:
  "\<exists>s'. FpgaV3_Init_QSPI (sim_bsp (emio_sim 3) (\<lambda>bs h. ((0, bs), h)) (serial16 (ascii ''1234-56'')) (\<lambda>n h. h)) ''1.0'' ''1.0'' 0 0
      \<lparr>bd = fpga_reset (\<lambda>a. 0), out = []\<rparr> = Inr (True, s')
    \<and> fregs (bd s') 0x2000 = 0x41475046 \<and> fregs (bd s') 0x2004 = 0
    \<and> last (out s') = Printf ''FPGA S/N: %s'' [Str ''1234-56'']"
proof -
  let ?sn = "ascii ''1234-56''"
  have len: "length (serial16 ?sn) = 16" by (simp add: serial16_def ascii_def)
  obtain s' where s': "FpgaV3_Init_QSPI (sim_bsp (emio_sim 3) (\<lambda>bs h. ((0, bs), h)) (serial16 ?sn) (\<lambda>n h. h)) ''1.0'' ''1.0'' 0 0
      \<lparr>bd = fpga_reset (\<lambda>a. 0), out = []\<rparr> = Inr (True, s')"
    "\<forall>a. fregs (bd s') a = (if unat (a - 0x2000) < 4 then le32 (\<lambda>i. serial16 ?sn ! i) (unat (a - 0x2000) * 4) else 0)"
    "last (out s') = Printf ''FPGA S/N: %s'' [Str (map (\<lambda>b. char_of (unat b)) ?sn)]"
    using FpgaV3_Init_QSPI_copies_serial [OF emio_sim_board [OF len], of 3 "\<lambda>bs h. ((0, bs), h)" "\<lambda>n h. h" "''1.0''" "''1.0''" 0 0
        "\<lparr>bd = fpga_reset (\<lambda>a. 0), out = []\<rparr>"]
    by (auto simp: ascii_def sim_bsp_def fpga_reset_def)
  have "map (\<lambda>b. char_of (unat b)) ?sn = ''1234-56''" by (simp add: ascii_def char_of_def bit_0)
  with s' s'(2) [rule_format, of "0x2000"] s'(2) [rule_format, of "0x2004"] show ?thesis
    by (simp add: le32_def serial16_def ascii_def)
qed

end
