(* ===== verification/Versions.thy ===== *)
theory Versions
  imports Console
begin

text \<open>
  petalinux/libfpgav3/files/fpgav3_lib.cpp: the versions the library was built from and how the
  tools print them. The version strings, which the build generates, are the record \<open>build\<close>, and those
  of a program that uses the libraries the record \<open>program_build\<close>.
\<close>

record build =
  FPGAV3_VERSION :: string
  FPGAV3_GIT_VERSION :: string
  FPGAV3_GIT_SHA :: word32

definition libfpgav3_version :: "build \<Rightarrow> string" where "libfpgav3_version B = FPGAV3_VERSION B"

definition libfpgav3_git_version :: "build \<Rightarrow> string" where "libfpgav3_git_version B = FPGAV3_GIT_VERSION B"

definition libfpgav3_git_sha :: "build \<Rightarrow> word32" where "libfpgav3_git_sha B = FPGAV3_GIT_SHA B"

definition print_fpgav3_versions :: "build \<Rightarrow> string \<Rightarrow> string \<Rightarrow> string" where
  "print_fpgav3_versions B version git_version =
     ''Software Version '' @ version
     @ (if git_version \<noteq> version then '' (git '' @ git_version @ '')'' else []) @ [CHR 0x0A]
     @ (if git_version \<noteq> libfpgav3_git_version B
        then ''Library Version '' @ libfpgav3_version B
             @ (if libfpgav3_git_version B \<noteq> libfpgav3_version B
                then '' (git '' @ libfpgav3_git_version B @ '')'' else []) @ [CHR 0x0A]
        else [])"

text \<open>\<open>VERSION\<close> and \<open>GIT_VERSION\<close> are the default arguments of \<open>print_fpgav3_versions\<close>, expanded where the
  program is compiled.\<close>

record program_build =
  libfpgav3 :: build
  VERSION :: string
  GIT_VERSION :: string
  gpiod_version_string :: string

definition EMIO_gpiod_version_string :: "program_build \<Rightarrow> string" where
  "EMIO_gpiod_version_string B = gpiod_version_string B"

end
