(* ===== verification/Tools.thy ===== *)
theory Tools
  imports QspiProps Versions
begin

text \<open>
  petalinux/fpgav3sn/files/fpgav3sn.cpp, the tool that reads or programs the serial number. Strings of
  the serial number are bytes.
\<close>

section \<open>The serial number tool\<close>

text \<open>\<open>argv\<close> is the program's name and its arguments; \<open>fpga_sn\<close> the buffer on the stack as it is found.\<close>

definition fpgav3sn ::
    "'k kern \<Rightarrow> word8 list \<Rightarrow> word8 list list \<Rightarrow> 'k \<Rightarrow> (int \<times> console list \<times> 'k) option" where
  "fpgav3sn K fpga_sn argv k =
     (if length argv = 1
      then do {
        (sn, k) \<leftarrow> GetFpgaSerialNumber K fpga_sn k;
        Some (0, if sn ! 0 \<noteq> 0 then [Printf ''%s'' [Str (map (\<lambda>b. char_of (unat b)) (c_str sn))]] else [], k)
      }
      else if 2 < length argv \<and> take 2 (argv ! 1) = ascii ''-p''
      then let (ok, k) = ProgramFpgaSerialNumber K (argv ! 2) k
           in Some (if ok then 0 else - 1, [], k)
      else Some (0, [Printf ''Syntax: fpgav3sn [-p sn]'' []], k))"

text \<open>C19. A serial number of 1 to 8 characters, none of them 0xff, that \<open>fpgav3sn -p\<close> programs is what
  \<open>fpgav3sn\<close> prints afterwards; except that with exactly 8 characters the tool reads past the end of its
  buffer, unless the last byte of the buffer, never written, happens to be 0 or 0xff.\<close>

theorem fpgav3sn_roundtrip:
  assumes "serial_kernel K part pos psize R W es" and "1 \<le> length sn" and "length sn \<le> 8"
    and "0 \<notin> set sn" and "0xff \<notin> set sn" and "length buf = 9"
  shows "\<exists>k'. fpgav3sn K buf0 [name, ascii ''-p'', sn] k = Some (0, [], k') \<and>
    (if length sn < 8 \<or> buf ! 8 \<in> {0, 0xff}
     then \<exists>k''. fpgav3sn K buf [name] k' = Some (0, [Printf ''%s'' [Str (map (\<lambda>b. char_of (unat b)) sn)]], k'')
     else fpgav3sn K buf [name] k' = None)"
proof -
  obtain k' where k': "ProgramFpgaSerialNumber K sn k = (True, k')"
    "if length sn < 8 \<or> buf ! 8 \<in> {0, 0xff}
     then \<exists>b k''. GetFpgaSerialNumber K buf k' = Some (b, k'') \<and> c_str b = sn
     else GetFpgaSerialNumber K buf k' = None"
    using serial_number_roundtrip [OF assms(1,3,4,5,6)] by blast
  have "fpgav3sn K buf0 [name, ascii ''-p'', sn] k = Some (0, [], k')"
    using k'(1) by (simp add: fpgav3sn_def ascii_def)
  moreover have "b ! 0 \<noteq> 0" if "c_str b = sn" for b
    using that assms(2) by (cases b) (auto simp: c_str_def split: if_splits)
  ultimately show ?thesis
    using k'(2) by (auto simp: fpgav3sn_def c_str_def split: if_splits)
qed

lemma fpgav3sn_roundtrip_witness:
  "\<exists>k'. fpgav3sn (sim_kern []) [] [[], ascii ''-p'', ascii ''1234-56''] ((\<lambda>_. 0), (\<lambda>_. 0)) = Some (0, [], k')
     \<and> (\<exists>k''. fpgav3sn (sim_kern []) (replicate 9 1) [[]] k' = Some (0, [Printf ''%s'' [Str ''1234-56'']], k''))"
  using fpgav3sn_roundtrip [OF sim_serial_kernel [of 16], of "ascii ''1234-56''" "replicate 9 1" "[]" "[]" "[]" "((\<lambda>_. 0), (\<lambda>_. 0))"]
  by (simp add: ascii_def char_of_def bit_0)

end
