(* ===== verification/Fpgav3Init.thy ===== *)
theory Fpgav3Init
  imports EmioGpiod Qspi Console
begin

text \<open>
  petalinux/fpgav3init/files/fpgav3init.cpp: the program that Linux runs at startup. The system
  calls and library functions it uses besides those of theory Qspi are the record \<open>sys\<close>, a
  parameter: \<open>s_creat\<close> is \<open>open\<close> for writing with creation and truncation, \<open>s_is_dir\<close> is \<open>stat\<close>
  followed by \<open>S_ISDIR\<close>. Kernel and FPGA share the state \<open>'w\<close>, which is the \<open>dev\<close> of the EMIO object
  once that exists. File names and commands are strings; what is written to a file is its bytes, with
  the terminating zero where the code writes that too. Messages are not modelled.
\<close>

record 'w sys =
  lx :: "'w kern"
  s_creat :: "string \<Rightarrow> 'w \<Rightarrow> int \<times> 'w"
  s_sendfile :: "int \<Rightarrow> int \<Rightarrow> nat \<Rightarrow> 'w \<Rightarrow> int \<times> 'w"
  s_fopen :: "string \<Rightarrow> 'w \<Rightarrow> nat option \<times> 'w"
  s_fprintf :: "nat \<Rightarrow> string \<Rightarrow> 'w \<Rightarrow> 'w"
  s_fclose :: "nat \<Rightarrow> 'w \<Rightarrow> 'w"
  s_system :: "string \<Rightarrow> 'w \<Rightarrow> int \<times> 'w"
  s_is_dir :: "string \<Rightarrow> 'w \<Rightarrow> bool \<times> 'w"
  s_mkdir :: "string \<Rightarrow> 'w \<Rightarrow> int \<times> 'w"

datatype BoardType = BOARD_UNKNOWN | BOARD_NONE | BOARD_QLA | BOARD_DQLA | BOARD_DRAC

fun BoardName :: "BoardType \<Rightarrow> string" where
  "BoardName BOARD_UNKNOWN = ''Unknown''"
| "BoardName BOARD_NONE = ''None''"
| "BoardName BOARD_QLA = ''QLA''"
| "BoardName BOARD_DQLA = ''DQLA''"
| "BoardName BOARD_DRAC = ''DRAC''"

fun FirmwareName :: "BoardType \<Rightarrow> string" where
  "FirmwareName BOARD_UNKNOWN = ''''"
| "FirmwareName BOARD_NONE = ''''"
| "FirmwareName BOARD_QLA = ''FPGA1394V3-QLA''"
| "FirmwareName BOARD_DQLA = ''FPGA1394V3-DQLA''"
| "FirmwareName BOARD_DRAC = ''FPGA1394V3-DRAC''"

definition newline :: string where "newline = [CHR 0x0A]"

section \<open>Files\<close>

definition CopyFile :: "'w sys \<Rightarrow> string \<Rightarrow> string \<Rightarrow> string \<Rightarrow> 'w \<Rightarrow> bool \<times> 'w" where
  "CopyFile S filename srcDir destDir w =
     (let (src_fd, w) = k_open (lx S) (srcDir @ ''/'' @ filename) w
      in if src_fd = - 1 then (False, w)
         else let (dest_fd, w) = s_creat S (destDir @ ''/'' @ filename) w
      in if dest_fd = - 1 then (False, k_close (lx S) src_fd w)
         else let (st_size, w) = k_fsize (lx S) src_fd w;
                  (_, w) = s_sendfile S dest_fd src_fd st_size w
              in (True, k_close (lx S) dest_fd (k_close (lx S) src_fd w)))"

definition bootgen_command :: "string \<Rightarrow> string" where
  "bootgen_command bifFile = ''bootgen -image '' @ bifFile @ '' -arch zynq -w on -process_bitstream bin''"

definition ConvertBitstream :: "'w sys \<Rightarrow> string \<Rightarrow> string \<Rightarrow> 'w \<Rightarrow> bool \<times> 'w" where
  "ConvertBitstream S firmwareName fileDir w =
     (let bifFile = fileDir @ ''/'' @ firmwareName @ ''.bif'';
          (fp, w) = s_fopen S bifFile w
      in (case fp of
            None \<Rightarrow> (False, w)
          | Some fp \<Rightarrow>
              let bitFile = fileDir @ ''/'' @ firmwareName @ ''.bit'';
                  w = s_fprintf S fp (''all:'' @ newline @ ''{'' @ newline @ ''    '' @ bitFile @ newline @ ''}'' @ newline) w;
                  w = s_fclose S fp w;
                  (ret, w) = s_system S (bootgen_command bifFile) w
              in (ret = 0, w)))"

section \<open>Loading the firmware\<close>

definition FpgaLoad :: "'w sys \<Rightarrow> string \<Rightarrow> 'w \<Rightarrow> bool \<times> 'w" where
  "FpgaLoad S binFile w =
     (let (fdn, w) = k_open (lx S) ''/sys/class/fpga_manager/fpga0/flags'' w
      in if fdn = - 1 then (False, w)
         else let (nWrite, w) = k_write (lx S) fdn (ascii ''0'' @ [0]) w;
                  w = k_close (lx S) fdn w
      in if nWrite \<noteq> 2 then (False, w)
         else let (fdn, w) = k_open (lx S) ''/sys/class/fpga_manager/fpga0/firmware'' w
      in if fdn = - 1 then (False, w)
         else let (nWrite, w) = k_write (lx S) fdn (ascii binFile @ [0]) w;
                  w = k_close (lx S) fdn w
      in if nWrite \<noteq> int (List.length binFile) + 1 then (False, w) else (True, w))"

definition ProgramFpga :: "'w sys \<Rightarrow> string \<Rightarrow> 'w \<Rightarrow> bool \<times> 'w" where
  "ProgramFpga S firmwareName w =
     (let bitFile = firmwareName @ ''.bit'';
          (ok, w) = CopyFile S bitFile ''/media'' ''/tmp'' w
      in if \<not> ok then (False, w)
         else let (ok, w) = ConvertBitstream S firmwareName ''/tmp'' w
      in if \<not> ok then (False, w)
         else let (dir, w) = s_is_dir S ''/lib/firmware'' w;
                  (ret, w) = (if dir then (0, w) else s_mkdir S ''/lib/firmware'' w)
      in if ret \<noteq> 0 then (False, w)
         else let binFile = bitFile @ ''.bin'';
                  (_, w) = CopyFile S binFile ''/tmp'' ''/lib/firmware'' w
              in FpgaLoad S binFile w)"

section \<open>Environment variables\<close>

definition export_line :: "string \<Rightarrow> word8 list \<Rightarrow> word8 list" where
  "export_line var val = ascii (''export '' @ var @ ''='') @ val @ ascii newline"

definition write_line :: "'w sys \<Rightarrow> int \<Rightarrow> word8 list \<Rightarrow> 'w \<Rightarrow> 'w" where
  "write_line S fdn buf w = snd (k_write (lx S) fdn (buf @ [0]) w)"

definition ExportFpgaInfo :: "'w sys \<Rightarrow> string \<Rightarrow> word8 list \<Rightarrow> string \<Rightarrow> word32 \<Rightarrow> 'w \<Rightarrow> bool \<times> 'w" where
  "ExportFpgaInfo S fpga_ver fpga_sn board_type board_id w =
     (let (fdn, w) = s_creat S ''/etc/profile.d/fpgav3.sh'' w
      in if fdn = - 1 then (False, w)
         else let w = write_line S fdn (export_line ''FPGAV3_VER'' (ascii fpga_ver)) w;
                  w = (if fpga_sn ! 0 \<noteq> 0 then write_line S fdn (export_line ''FPGAV3_SN'' (c_str fpga_sn)) w else w);
                  w = write_line S fdn (export_line ''FPGAV3_HW'' (ascii board_type)) w;
                  w = (if board_id < 16 then write_line S fdn (export_line ''FPGAV3_ID'' (ascii (dec (unat board_id)))) w else w)
              in (True, k_close (lx S) fdn w))"

section \<open>Ethernet\<close>

text \<open>\<open>%02d\<close>.\<close>

definition dec2 :: "nat \<Rightarrow> string" where
  "dec2 n = (if n < 10 then ''0'' @ dec n else dec n)"

definition mac_ip_commands :: "string \<Rightarrow> word32 \<Rightarrow> string list" where
  "mac_ip_commands ethName board_id =
     [''ip link set '' @ ethName @ '' down'',
      ''ip link set dev '' @ ethName @ '' address FA:61:0E:03:00:'' @ dec2 (unat board_id),
      ''ip addr add 169.254.10.'' @ dec (unat board_id) @ ''/16 broadcast + dev '' @ ethName,
      ''ip link set '' @ ethName @ '' up'',
      ''ip route add 224.0.0.100/32 dev '' @ ethName]"

definition SetMACandIP :: "'w sys \<Rightarrow> string \<Rightarrow> word32 \<Rightarrow> 'w \<Rightarrow> bool \<times> 'w" where
  "SetMACandIP S ethName board_id w =
     (True, fold (\<lambda>buffer w. snd (s_system S buffer w)) (mac_ip_commands ethName board_id) w)"

section \<open>The serial number\<close>

text \<open>\<open>W\<close> is the virtual method \<open>WriteQuadlet\<close> of the EMIO object.\<close>

definition CopyQspiToFpga ::
    "'w sys \<Rightarrow> (word16 \<Rightarrow> word32 \<Rightarrow> 'w gemio \<Rightarrow> (bool \<times> 'w gemio) option) \<Rightarrow> string \<Rightarrow> word16 \<Rightarrow> 'w gemio
      \<Rightarrow> (bool \<times> 'w gemio) option"
where
  "CopyQspiToFpga S W qspiDev nbytes e =
     (let (fdn, e) = call (k_open (lx S) qspiDev) e
      in if fdn < 0 then Some (False, e)
         else let nQuads = (of_nat ((unat nbytes + 3) div 4) :: word16);
                  nbytes = 4 * nQuads;
                  ((n, data), e) = call (k_read (lx S) fdn (unat nbytes)) e;
                  e = e\<lparr>dev := k_close (lx S) fdn (dev e)\<rparr>
      in if n \<noteq> int (unat nbytes) then Some (False, e)
         else do { (_, e) \<leftarrow> WritePromData W (\<lambda>i. data ! i) (ucast nbytes) e; Some (True, e) })"

section \<open>The main function\<close>

definition hw_str :: "word32 \<Rightarrow> word8 list" where
  "hw_str reg_hw =
     [ucast (drop_bit 24 (reg_hw AND 0xff000000)), ucast (drop_bit 16 (reg_hw AND 0x00ff0000)),
      ucast (drop_bit 8 (reg_hw AND 0x0000ff00)), ucast (reg_hw AND 0x000000ff), 0]"

definition board_id_of :: "word32 \<Rightarrow> word32" where
  "board_id_of reg_status = drop_bit 24 (reg_status AND 0x0f000000)"

definition board_type_of :: "word32 \<Rightarrow> BoardType" where
  "board_type_of reg_status =
     (let board_mask = drop_bit 20 (reg_status AND 0x00f00000)
      in if board_mask = 8 then BOARD_NONE
         else if board_mask = 4 then BOARD_QLA
         else if board_mask = 2 then BOARD_DQLA
         else if board_mask = 1 then BOARD_DRAC
         else BOARD_UNKNOWN)"

definition fpga_ver_of :: "word32 \<Rightarrow> string" where
  "fpga_ver_of reg_status = ''3.'' @ (if reg_status AND 0x00080000 \<noteq> 0 then ''0'' else ''1'')"

text \<open>The result of \<open>ReadQuadlet\<close> is ignored: the variable keeps its value \<open>u\<close> if the read fails.\<close>

definition read_or :: "'w gpiolib \<Rightarrow> word16 \<Rightarrow> word32 \<Rightarrow> 'w gemio \<Rightarrow> (word32 \<times> 'w gemio) option" where
  "read_or G addr u e = do {
     (v, e) \<leftarrow> ReadQuadlet_gpiod G addr e;
     Some (case v of None \<Rightarrow> u | Some v \<Rightarrow> v, e)
   }"

text \<open>The part after the firmware check; \<open>sn\<close> is the serial number buffer.\<close>

definition init_board :: "'w sys \<Rightarrow> 'w gpiolib \<Rightarrow> word8 list \<Rightarrow> word32 \<Rightarrow> 'w gemio \<Rightarrow> 'w gemio option" where
  "init_board S G sn reg_status e =
     (let board_id = board_id_of reg_status;
          board_type = board_type_of reg_status;
          e = do_call (ExportFpgaInfo S (fpga_ver_of reg_status) sn (BoardName board_type) board_id) e;
          e = (if FirmwareName board_type \<noteq> '''' then do_call (ProgramFpga S (FirmwareName board_type)) e else e)
      in do {
        (_, w) \<leftarrow> ProgramFlash (lx S) ''/media/qspi-boot.bin'' ''/dev/mtd0'' (dev e);
        (_, e) \<leftarrow> WriteQuadlet_gpiod G 12 0x02010000 (e\<lparr>dev := w\<rparr>);
        let e = do_call (SetMACandIP S ''eth0'' board_id) e;
        (_, e) \<leftarrow> CopyQspiToFpga S (WriteQuadlet_gpiod G) ''/dev/mtd4ro'' 16 e;
        Some e
      })"

definition init_main ::
    "'w sys \<Rightarrow> 'w gpiolib \<Rightarrow> word8 list \<Rightarrow> word32 \<Rightarrow> word32 \<Rightarrow> 'w \<Rightarrow> (int \<times> 'w) option"
where
  "init_main S G sn0 u0 u1 w = do {
     (sn, w) \<leftarrow> GetFpgaSerialNumber (lx S) sn0 w;
     let e = EMIO_Interface_Gpiod G w;
     if \<not> info e then Some (- 1, destroy G e)
     else do {
       (reg_hw, e) \<leftarrow> read_or G 4 u0 e;
       (reg_status, e) \<leftarrow> read_or G 0 u1 e;
       if c_str (hw_str reg_hw) \<noteq> ascii ''BCFG'' then Some (- 1, destroy G e)
       else do { e \<leftarrow> init_board S G sn reg_status e; Some (0, destroy G e) }
     }
   }"

end
