(* ===== verification/Demo.thy ===== *)
theory Demo
  imports Emio Console
begin

text \<open>
  demo\_app\_src/main.c: the command interpreter on the serial console. The console is the list of
  the characters still to be typed, which \<open>inbyte\<close> takes one by one, and the list of what has been
  printed (theory Console). The two-dimensional array \<open>argv\<close> is one list of characters, as it
  lies in memory. A step that does not come to its end is \<open>Inl\<close> with the reason: \<open>inbyte\<close> waits
  for a character, an access is outside its array, or the wait for the firmware never ends.
  \<open>init_platform\<close> of the BSP is a parameter. The version strings come from the generated header
  fpgav3\_version.h and are parameters too.
\<close>

definition MAX_ARG :: nat where "MAX_ARG = 20"
definition MAX_LINE :: nat where "MAX_LINE = 120"
definition MAX_QUADS :: nat where "MAX_QUADS = 32"

record 'h demo =
  stdin :: string
  printed :: "console list"
  argv :: string
  quads :: "word32 list"
  board :: 'h

definition CR :: char where "CR = CHR 0x0D"
definition NUL :: char where "NUL = CHR 0x00"
definition SPC :: char where "SPC = CHR 0x20"

definition say :: "string \<Rightarrow> arg list \<Rightarrow> 'h demo \<Rightarrow> 'h demo" where
  "say f args d = d\<lparr>printed := printed d @ [Printf f args]\<rparr>"

section \<open>Numbers\<close>

definition hex_digit :: "char \<Rightarrow> word32 option" where
  "hex_digit c =
     (let n = of_char c :: nat in
      if 48 \<le> n \<and> n \<le> 57 then Some (of_nat (n - 48))
      else if 97 \<le> n \<and> n \<le> 102 then Some (of_nat (10 + (n - 97)))
      else if 65 \<le> n \<and> n \<le> 70 then Some (of_nat (10 + (n - 65)))
      else None)"

fun get_hex_from :: "word32 \<Rightarrow> string \<Rightarrow> word32" where
  "get_hex_from val [] = val"
| "get_hex_from val (c # cs) = (case hex_digit c of None \<Rightarrow> val | Some d \<Rightarrow> get_hex_from (16 * val + d) cs)"

definition get_hex :: "string \<Rightarrow> word32" where
  "get_hex str = get_hex_from 0 str"

definition dec_digit :: "char \<Rightarrow> word32 option" where
  "dec_digit c = (let n = of_char c :: nat in if 48 \<le> n \<and> n \<le> 57 then Some (of_nat (n - 48)) else None)"

fun get_dec_from :: "word32 \<Rightarrow> string \<Rightarrow> word32" where
  "get_dec_from val [] = val"
| "get_dec_from val (c # cs) = (case dec_digit c of None \<Rightarrow> val | Some d \<Rightarrow> get_dec_from (10 * val + d) cs)"

definition get_dec :: "string \<Rightarrow> word32" where
  "get_dec str = get_dec_from 0 str"

section \<open>Reading a line\<close>

text \<open>\<open>argv[r][n] = c\<close>, which has to stay inside the row, and the string that starts at \<open>argv[i]\<close>.\<close>

definition put_char :: "nat \<Rightarrow> nat \<Rightarrow> char \<Rightarrow> string \<Rightarrow> string option" where
  "put_char r n c mem = (if r < MAX_ARG \<and> n < MAX_LINE + 1 then Some (mem[r * (MAX_LINE + 1) + n := c]) else None)"

definition arg_at :: "string \<Rightarrow> nat \<Rightarrow> string" where
  "arg_at mem i = takeWhile (\<lambda>c. c \<noteq> NUL) (drop (i * (MAX_LINE + 1)) mem)"

text \<open>The loop of \<open>get_input\<close>; the state is \<open>argc\<close>, \<open>numChar\<close>, \<open>is_space\<close>, the result adds \<open>ignore\<close>.\<close>

fun get_input_loop ::
    "string \<Rightarrow> nat \<times> nat \<times> bool \<Rightarrow> 'h demo \<Rightarrow> stuck + (bool \<times> nat \<times> nat \<times> bool) \<times> 'h demo"
where
  "get_input_loop [] st d = Inl Waiting"
| "get_input_loop (c # cs) (argc, numChar, is_space) d =
     (if c = CR then Inr ((False, argc, numChar, is_space), d\<lparr>stdin := cs\<rparr>)
      else let d = d\<lparr>stdin := cs, printed := printed d @ [Byte c]\<rparr> in
        if \<not> is_space \<and> c = SPC
        then (case put_char argc numChar NUL (argv d) of
                None \<Rightarrow> Inl Out_of_bounds
              | Some mem \<Rightarrow>
                  if argc < MAX_ARG then get_input_loop cs (argc + 1, 0, True) (d\<lparr>argv := mem\<rparr>)
                  else Inr ((True, argc, numChar, is_space),
                            say ''Too many arguments (max %d) - ignored'' [Num (int MAX_ARG)] (d\<lparr>argv := mem\<rparr>)))
        else if c = SPC then get_input_loop cs (argc, numChar, True) d
        else if numChar < MAX_LINE
        then (case put_char argc numChar c (argv d) of
                None \<Rightarrow> Inl Out_of_bounds
              | Some mem \<Rightarrow> get_input_loop cs (argc, numChar + 1, False) (d\<lparr>argv := mem\<rparr>))
        else Inr ((True, argc, numChar, False),
                  say ''Argument too long (max %d chars) - ignored'' [Num (int MAX_LINE)] d))"

definition get_input :: "'h demo \<Rightarrow> stuck + nat \<times> 'h demo" where
  "get_input d =
     (case get_input_loop (stdin d) (0, 0, True) d of
        Inl e \<Rightarrow> Inl e
      | Inr ((ignore, argc, numChar, is_space), d) \<Rightarrow>
          let d = say '''' [] d in
          if ignore then Inr (0, d)
          else (case put_char argc numChar NUL (argv d) of
                  None \<Rightarrow> Inl Out_of_bounds
                | Some mem \<Rightarrow> Inr (if is_space then argc else argc + 1, d\<lparr>argv := mem\<rparr>)))"

section \<open>The commands\<close>

definition help_lines :: "string list" where
  "help_lines =
     [''Available commands (hex:/dec: indicate hexadecimal or decimal):'',
      ''  quad <addr>                       - quadlet read from <hex:addr>'',
      ''  quad <addr> <data>                - quadlet write <hex:data> to <hex:addr>'',
      ''  block <addr> <num>                - block read <dec:num> quadlets from <hex:addr>'',
      ''  block <addr> <num> <d0> ... <dN>  - block write <dec:num> quadlets to <hex:addr>, where'',
      ''                                         <hex:d0> .. <hex:dN> are the quadlet data (N=num-1)'',
      ''  help                              - print this message'', '''']"

definition print_help :: "'h demo \<Rightarrow> 'h demo" where
  "print_help d = fold (\<lambda>l. say l []) help_lines d"

definition quad_command :: "'h platform \<Rightarrow> nat \<Rightarrow> 'h demo \<Rightarrow> stuck + 'h demo" where
  "quad_command P argc d =
     (let addr = ucast (get_hex (arg_at (argv d) 1)) in
      if argc > 2
      then let d = d\<lparr>quads := (quads d)[0 := get_hex (arg_at (argv d) 2)]\<rparr> in
           (case EMIO_WriteQuadlet P addr (quads d ! 0) (board d) of
              None \<Rightarrow> Inl No_return
            | Some (ok, h) \<Rightarrow> Inr (let d = d\<lparr>board := h\<rparr> in if ok then d else say ''Error writing quadlet'' [] d))
      else (case EMIO_ReadQuadlet P addr (board d) of
              None \<Rightarrow> Inl No_return
            | Some (None, h) \<Rightarrow> Inr (say ''Error reading quadlet'' [] (d\<lparr>board := h\<rparr>))
            | Some (Some v, h) \<Rightarrow>
                Inr (say ''  %08x'' [Num (uint v)] (d\<lparr>board := h, quads := (quads d)[0 := v]\<rparr>))))"

text \<open>
  \<open>num * sizeof(uint32_t)\<close> is computed in 32 bits, also for a negative \<open>num\<close>. A block access that
  succeeds has touched every quadlet of the byte count it was given, which is outside \<open>data\<close> if there
  are more than \<open>MAX_QUADS\<close> of them.
\<close>

definition block_write :: "'h platform \<Rightarrow> word16 \<Rightarrow> int \<Rightarrow> nat \<Rightarrow> 'h demo \<Rightarrow> stuck + 'h demo" where
  "block_write P addr num argc d =
     (let given = int argc - 3;
          (num, d) = (if num > given
                      then (given, say ''Not enough quadlets specified (writing %d of %d)'' [Num given, Num num] d)
                      else if num < given
                      then (num, say ''Ignoring %d extra quadlets'' [Num (given - num)] d)
                      else (num, d));
          d = cfor 0 num 1 (\<lambda>i d. d\<lparr>quads := (quads d)[nat i := get_hex (arg_at (argv d) (3 + nat i))]\<rparr>) d;
          nBytes = of_int num * 4
      in (case EMIO_WriteBlock P addr (\<lambda>i. quads d ! i) nBytes (board d) of
            None \<Rightarrow> Inl No_return
          | Some (ok, h) \<Rightarrow>
              if ok \<and> unat (blk_nQuads nBytes) > MAX_QUADS then Inl Out_of_bounds
              else Inr (let d = d\<lparr>board := h\<rparr> in if ok then d else say ''Error writing block'' [] d)))"

definition block_read :: "'h platform \<Rightarrow> word16 \<Rightarrow> int \<Rightarrow> 'h demo \<Rightarrow> stuck + 'h demo" where
  "block_read P addr num d =
     (case EMIO_ReadBlock P addr (of_int num * 4) (board d) of
        None \<Rightarrow> Inl No_return
      | Some (None, h) \<Rightarrow> Inr (say ''Error reading block'' [] (d\<lparr>board := h\<rparr>))
      | Some (Some ds, h) \<Rightarrow>
          if List.length ds > MAX_QUADS then Inl Out_of_bounds
          else let d = d\<lparr>board := h, quads := ds @ drop (List.length ds) (quads d)\<rparr>
               in Inr (cfor 0 num 1 (\<lambda>i d. say ''  %08x'' [Num (uint (quads d ! nat i))] d) d))"

definition block_command :: "'h platform \<Rightarrow> nat \<Rightarrow> 'h demo \<Rightarrow> stuck + 'h demo" where
  "block_command P argc d =
     (let addr = ucast (get_hex (arg_at (argv d) 1));
          num = sint (get_dec (arg_at (argv d) 2));
          (num, d) = (if num > int MAX_QUADS
                      then (int MAX_QUADS, say ''Too many quadlets (max %d)'' [Num (int MAX_QUADS)] d)
                      else (num, d))
      in if argc > 3 then block_write P addr num argc d else block_read P addr num d)"

text \<open>One turn of the endless loop, and the first \<open>n\<close> turns.\<close>

definition demo_step :: "'h platform \<Rightarrow> 'h demo \<Rightarrow> stuck + 'h demo" where
  "demo_step P d =
     (case get_input (say ''fpgav3: '' [] d) of
        Inl e \<Rightarrow> Inl e
      | Inr (argc, d) \<Rightarrow>
          let cmd = arg_at (argv d) 0 in
          if argc = 0 then Inr d
          else if cmd = ''help'' then Inr (print_help d)
          else if cmd = ''quad'' \<and> argc > 1 then quad_command P argc d
          else if cmd = ''block'' \<and> argc > 2 then block_command P argc d
          else Inr (say ''Unknown command (or too few arguments): %s'' [Str cmd] d))"

fun demo_steps :: "'h platform \<Rightarrow> nat \<Rightarrow> 'h demo \<Rightarrow> stuck + 'h demo" where
  "demo_steps P 0 d = Inr d"
| "demo_steps P (Suc n) d = (case demo_step P d of Inl e \<Rightarrow> Inl e | Inr d \<Rightarrow> demo_steps P n d)"

definition demo_main ::
    "'h platform \<Rightarrow> ('h \<Rightarrow> 'h) \<Rightarrow> string \<Rightarrow> string \<Rightarrow> nat \<Rightarrow> 'h demo \<Rightarrow> stuck + 'h demo"
where
  "demo_main P init_platform version git_version n d =
     (let d = d\<lparr>board := init_platform (board d), argv := replicate (MAX_ARG * (MAX_LINE + 1)) NUL\<rparr>;
          d = say ''Software Version %s'' [Str version] d;
          d = (if git_version \<noteq> version then say '' (git %s)'' [Str git_version] d else d);
          d = say '''' [] d;
          d = d\<lparr>board := EMIO_Init P (board d)\<rparr>;
          (v, h) = EMIO_GetVersion P (board d);
          d = say ''EMIO interface version: %d'' [Num (uint v)] (d\<lparr>board := h\<rparr>)
      in demo_steps P n (say ''Type \"help\" for more information'' [] d))"

end
