(* ===== verification/Fpgav3InitProps.thy ===== *)
theory Fpgav3InitProps
  imports Fpgav3Init Demo EmioGpiodDevice EmioMmapDevice
begin

text \<open>
  The startup program: what it leaves in the FPGA, that its commands fit its buffers, and what it
  does without its firmware.
\<close>

section \<open>Decoding\<close>

lemma byte_of:
  "(ucast (drop_bit 24 (r AND 0xff000000 :: word32)) :: word8) = ucast (drop_bit 24 r)"
  "(ucast (drop_bit 16 (r AND 0x00ff0000 :: word32)) :: word8) = ucast (drop_bit 16 r)"
  "(ucast (drop_bit 8 (r AND 0x0000ff00 :: word32)) :: word8) = ucast (drop_bit 8 r)"
  "(ucast (r AND 0x000000ff :: word32) :: word8) = ucast r"
proof -
  have "(ucast (drop_bit k (r AND push_bit k (mask 8))) :: word8) = ucast (drop_bit k r)" for k
    by (rule bit_word_eqI) (auto simp: bit_simps dest: bit_imp_le_length)
  from this [of 24] this [of 16] this [of 8] this [of 0]
  show "(ucast (drop_bit 24 (r AND 0xff000000 :: word32)) :: word8) = ucast (drop_bit 24 r)"
    "(ucast (drop_bit 16 (r AND 0x00ff0000 :: word32)) :: word8) = ucast (drop_bit 16 r)"
    "(ucast (drop_bit 8 (r AND 0x0000ff00 :: word32)) :: word8) = ucast (drop_bit 8 r)"
    "(ucast (r AND 0x000000ff :: word32) :: word8) = ucast r"
    by (simp_all add: mask_eq_exp_minus_1)
qed

lemma byte_eq: "(ucast (drop_bit k (r :: word32)) :: word8) = b \<longleftrightarrow> unat r div 2 ^ k mod 256 = unat b"
proof -
  have "(ucast (drop_bit k r) :: word8) = b \<longleftrightarrow> unat (ucast (drop_bit k r) :: word8) = unat b"
    by (metis unsigned_word_eqI)
  also have "unat (ucast (drop_bit k r) :: word8) = unat (drop_bit k r) mod 256" by (simp add: unsigned_ucast_eq take_bit_eq_mod)
  also have "unat (drop_bit k r) = unat r div 2 ^ k" by (subst unat_drop_bit_eq) (rule drop_bit_eq_div)
  finally show ?thesis .
qed

lemma hw_str_BCFG: "c_str (hw_str r) = ascii ''BCFG'' \<longleftrightarrow> r = 0x42434647"
proof
  assume a: "c_str (hw_str r) = ascii ''BCFG''"
  then have "ucast (drop_bit 24 r) = (0x42 :: word8)" "ucast (drop_bit 16 r) = (0x43 :: word8)"
    "ucast (drop_bit 8 r) = (0x46 :: word8)" "ucast (drop_bit 0 r) = (0x47 :: word8)"
    unfolding c_str_def hw_str_def ascii_def byte_of by (simp_all split: if_splits)
  then have b: "unat r div 2 ^ 24 mod 256 = 0x42" "unat r div 2 ^ 16 mod 256 = 0x43" "unat r div 2 ^ 8 mod 256 = 0x46"
    "unat r mod 256 = 0x47"
    unfolding byte_eq by simp_all
  have "unat r < 2 ^ 32" using unsigned_less [of r, where ?'a = nat] by simp
  then have "unat r div 2 ^ 24 < 256" by simp
  with b(1) have "unat r div 2 ^ 16 div 256 = 0x42" by (simp add: div_mult2_eq [symmetric])
  with b(2) div_mult_mod_eq [of "unat r div 2 ^ 16" 256] have "unat r div 2 ^ 16 = 0x4243" by simp
  then have "unat r div 2 ^ 8 div 256 = 0x4243" by (simp add: div_mult2_eq [symmetric])
  with b(3) div_mult_mod_eq [of "unat r div 2 ^ 8" 256] have "unat r div 256 = 0x424346" by simp
  with b(4) div_mult_mod_eq [of "unat r" 256] have "unat r = unat (0x42434647 :: word32)" by simp
  then show "r = 0x42434647" by (rule unsigned_word_eqI)
next
  assume "r = 0x42434647"
  then show "c_str (hw_str r) = ascii ''BCFG''" by (simp add: c_str_def hw_str_def ascii_def)
qed

lemma board_id_less: "unat (board_id_of r) < 16"
proof -
  have "board_id_of r = drop_bit 24 r AND mask 4"
    by (rule bit_word_eqI) (auto simp: board_id_of_def bit_simps mask_eq_exp_minus_1 dest: bit_imp_le_length)
  then show ?thesis by (simp add: take_bit_eq_mask [symmetric] take_bit_eq_mod unat_mod)
qed

text \<open>The status register is decoded field by field: the board number is bits 27 to 24, always
  below 16, so it is always exported; a board is recognised exactly if one of the four presence bits
  23 to 20 is set alone, and each of them names its own board.\<close>

theorem status_decoded:
  "unat (board_id_of r) = unat r div 2 ^ 24 mod 16 \<and> board_id_of r < 16
   \<and> (board_type_of r = BOARD_UNKNOWN \<longleftrightarrow> unat r div 2 ^ 20 mod 16 \<notin> {1, 2, 4, 8})
   \<and> (board_type_of r = BOARD_DRAC \<longleftrightarrow> unat r div 2 ^ 20 mod 16 = 1)
   \<and> (board_type_of r = BOARD_DQLA \<longleftrightarrow> unat r div 2 ^ 20 mod 16 = 2)
   \<and> (board_type_of r = BOARD_QLA \<longleftrightarrow> unat r div 2 ^ 20 mod 16 = 4)
   \<and> (board_type_of r = BOARD_NONE \<longleftrightarrow> unat r div 2 ^ 20 mod 16 = 8)"
proof -
  have f: "unat (drop_bit k (r AND push_bit k (mask 4))) = unat r div 2 ^ k mod 16" for k
  proof -
    have "drop_bit k (r AND push_bit k (mask 4)) = take_bit 4 (drop_bit k r)"
      by (rule bit_word_eqI) (auto simp: bit_simps dest: bit_imp_le_length)
    then have "unat (drop_bit k (r AND push_bit k (mask 4))) = take_bit 4 (drop_bit k (unat r))"
      by (simp only: unsigned_take_bit_eq unat_drop_bit_eq)
    then show ?thesis by (simp add: take_bit_eq_mod drop_bit_eq_div)
  qed
  have m: "(0x0f000000 :: word32) = push_bit 24 (mask 4)" "(0x00f00000 :: word32) = push_bit 20 (mask 4)"
    by (simp_all add: mask_eq_exp_minus_1)
  have id: "unat (board_id_of r) = unat r div 2 ^ 24 mod 16" unfolding board_id_of_def m f ..
  define b where "b = drop_bit 20 (r AND 0x00f00000)"
  have b: "unat b = unat r div 2 ^ 20 mod 16" unfolding b_def m f ..
  have t: "b = of_nat n \<longleftrightarrow> unat r div 2 ^ 20 mod 16 = n" if "n < 16" for n
  proof
    assume "b = of_nat n"
    with that show "unat r div 2 ^ 20 mod 16 = n" unfolding b [symmetric] by (simp add: unat_of_nat_less)
  next
    assume "unat r div 2 ^ 20 mod 16 = n"
    then have "of_nat (unat b) = (of_nat n :: word32)" using b by simp
    then show "b = of_nat n" by simp
  qed
  have "board_id_of r < 16" using id by (simp add: word_less_nat_alt)
  moreover have "board_type_of r = (if b = 8 then BOARD_NONE else if b = 4 then BOARD_QLA
      else if b = 2 then BOARD_DQLA else if b = 1 then BOARD_DRAC else BOARD_UNKNOWN)"
    by (simp only: board_type_of_def b_def Let_def)
  moreover have "b = 1 \<longleftrightarrow> unat r div 2 ^ 20 mod 16 = 1" "b = 2 \<longleftrightarrow> unat r div 2 ^ 20 mod 16 = 2"
    "b = 4 \<longleftrightarrow> unat r div 2 ^ 20 mod 16 = 4" "b = 8 \<longleftrightarrow> unat r div 2 ^ 20 mod 16 = 8"
    using t [of 1] t [of 2] t [of 4] t [of 8] by simp_all
  ultimately show ?thesis using id by (simp only: insert_iff empty_iff split: if_splits) auto
qed


section \<open>Texts\<close>

lemma dec_short: "n < 16 \<Longrightarrow> length (dec n) \<le> 2 \<and> length (dec2 n) = 2"
  by (subst dec.simps, subst dec2_def, subst (2 3) dec.simps) (auto simp: dec.simps [of "n div 10"])


text \<open>No command or line that the program prints into a buffer overruns it: the commands that
  set the addresses and convert the bitstream are shorter than 128 characters for every board, the
  exported lines shorter than 64 for every version, board and serial number of at most 8 characters.\<close>

theorem buffers_fit:
  "(\<forall>c \<in> set (mac_ip_commands ''eth0'' (board_id_of r)). length c < 128)
   \<and> length (bootgen_command (''/tmp/'' @ FirmwareName t @ ''.bif'')) < 128
   \<and> length (export_line ''FPGAV3_VER'' (ascii (fpga_ver_of r))) < 64
   \<and> length (export_line ''FPGAV3_SN'' (take 8 sn)) < 64
   \<and> length (export_line ''FPGAV3_HW'' (ascii (BoardName t))) < 64
   \<and> length (export_line ''FPGAV3_ID'' (ascii (dec (unat (board_id_of r))))) < 64"
  using dec_short [OF board_id_less [of r]]
  by (cases t) (simp_all add: mac_ip_commands_def bootgen_command_def export_line_def ascii_def newline_def fpga_ver_of_def min_less_iff_disj)

text \<open>The last byte of the MAC address is printed in decimal, and an address is written in
  hexadecimal: the byte is the board number only for boards 0 to 9, whereas the echo application
  uses the number itself.\<close>

theorem mac_byte_decimal:
  "get_hex (dec2 (unat (board_id_of r))) = board_id_of r \<longleftrightarrow> board_id_of r < 10"
proof -
  define n where "n = unat (board_id_of r)"
  have "n \<in> set [0..<16]" using board_id_less [of r] by (simp add: n_def)
  moreover have "\<forall>n \<in> set [0..<16]. get_hex (dec2 n) = of_nat n \<longleftrightarrow> n < 10"
    by (simp add: upt_rec dec2_def dec.simps get_hex_def hex_digit_def of_char_of char_of_def bit_0)
  ultimately have "get_hex (dec2 n) = of_nat n \<longleftrightarrow> n < 10" by blast
  then show ?thesis by (simp add: n_def word_less_nat_alt)
qed

section \<open>The whole program\<close>

text \<open>
  What the program relies on. Kernel calls leave the lines that the EMIO driver holds alone (the
  request line and the direction of the data lines, \<open>held_lines\<close>); opening, reading and closing files and
  running commands do not change FPGA registers, whereas writing may (it can load a new bitstream).
  The EMIO object can be built, the flash has sectors, and the serial number device delivers
  the 16 bytes \<open>sn16\<close>.
\<close>

definition held_lines :: "('w \<Rightarrow> gpio_pins) \<Rightarrow> 'w \<Rightarrow> bool \<times> bool" where
  "held_lines pins w = (gp_req (pins w), gp_out (pins w))"

definition kernel_keeps :: "'w kern \<Rightarrow> ('w \<Rightarrow> 'o) \<Rightarrow> bool" where
  "kernel_keeps K obs \<longleftrightarrow>
     (\<forall>n w. obs (snd (k_open K n w)) = obs w) \<and> (\<forall>d w. obs (k_close K d w) = obs w)
     \<and> (\<forall>d n w. obs (snd (k_read K d n w)) = obs w) \<and> (\<forall>d bs w. obs (snd (k_write K d bs w)) = obs w)
     \<and> (\<forall>d n w. obs (k_lseek K d n w) = obs w) \<and> (\<forall>d w. obs (snd (k_fsize K d w)) = obs w)
     \<and> (\<forall>d w. obs (snd (k_erasesize K d w)) = obs w) \<and> (\<forall>d a n w. obs (k_unlock K d a n w) = obs w)
     \<and> (\<forall>d a n w. obs (k_erase K d a n w) = obs w) \<and> (\<forall>n w. obs (snd (k_malloc K n w)) = obs w)"

definition sys_keeps :: "'w sys \<Rightarrow> ('w \<Rightarrow> 'o) \<Rightarrow> bool" where
  "sys_keeps S obs \<longleftrightarrow> kernel_keeps (lx S) obs
     \<and> (\<forall>n w. obs (snd (s_creat S n w)) = obs w) \<and> (\<forall>a b n w. obs (snd (s_sendfile S a b n w)) = obs w)
     \<and> (\<forall>n w. obs (snd (s_fopen S n w)) = obs w) \<and> (\<forall>f t w. obs (s_fprintf S f t w) = obs w)
     \<and> (\<forall>f w. obs (s_fclose S f w) = obs w) \<and> (\<forall>c w. obs (snd (s_system S c w)) = obs w)
     \<and> (\<forall>n w. obs (snd (s_is_dir S n w)) = obs w) \<and> (\<forall>n w. obs (snd (s_mkdir S n w)) = obs w)"

lemma keeps_simps:
  assumes "sys_keeps S obs"
  shows "obs (snd (k_open (lx S) n w)) = obs w" "obs (k_close (lx S) d w) = obs w"
    "obs (snd (k_read (lx S) d i w)) = obs w" "obs (snd (k_write (lx S) d bs w)) = obs w"
    "obs (k_lseek (lx S) d j w) = obs w" "obs (snd (k_fsize (lx S) d w)) = obs w"
    "obs (snd (k_erasesize (lx S) d w)) = obs w" "obs (k_unlock (lx S) d i k w) = obs w"
    "obs (k_erase (lx S) d i k w) = obs w" "obs (snd (k_malloc (lx S) i w)) = obs w"
    "obs (snd (s_creat S n w)) = obs w" "obs (snd (s_sendfile S d e i w)) = obs w"
    "obs (snd (s_fopen S n w)) = obs w" "obs (s_fprintf S i n w) = obs w"
    "obs (s_fclose S i w) = obs w" "obs (snd (s_system S n w)) = obs w"
    "obs (snd (s_is_dir S n w)) = obs w" "obs (snd (s_mkdir S n w)) = obs w"
  using assms by (simp_all add: sys_keeps_def kernel_keeps_def)

lemma program_keeps:
  assumes "sys_keeps S obs"
  shows "obs (snd (CopyFile S f a b w)) = obs w" "obs (snd (ConvertBitstream S f a w)) = obs w"
    "obs (snd (FpgaLoad S f w)) = obs w" "obs (snd (ProgramFpga S f w)) = obs w"
    "obs (snd (ExportFpgaInfo S v sn t i w)) = obs w"
proof -
  note k = keeps_simps [OF assms]
  show copy: "obs (snd (CopyFile S f a b w)) = obs w" for f a b w
    by (simp add: CopyFile_def Let_def case_prod_beta k)
  show conv: "obs (snd (ConvertBitstream S f a w)) = obs w" for f a w
    by (simp add: ConvertBitstream_def Let_def case_prod_beta k split: option.split)
  show load: "obs (snd (FpgaLoad S f w)) = obs w" for f w
    by (simp add: FpgaLoad_def Let_def case_prod_beta k)
  show "obs (snd (ProgramFpga S f w)) = obs w"
    by (simp add: ProgramFpga_def Let_def case_prod_beta k copy conv load)
  show "obs (snd (ExportFpgaInfo S v sn t i w)) = obs w"
    by (simp add: ExportFpgaInfo_def write_line_def Let_def case_prod_beta k)
qed

lemma flash_keeps:
  assumes "sys_keeps S obs" and es: "0 < es"
  shows "\<exists>st'. flash_loop (lx S) F D es fsize off st = Some st' \<and> obs (snd (snd (snd (snd st')))) = obs (snd (snd (snd (snd st))))"
proof (induction "fsize - off" arbitrary: off st rule: less_induct)
  case less
  note k = keeps_simps [OF assms(1)]
  have sec: "obs (snd (snd (snd (snd (flash_sector (lx S) F D es fsize off st))))) = obs (snd (snd (snd (snd st))))"
    by (cases st) (simp add: flash_sector_def Let_def case_prod_beta k)
  show ?case
  proof (cases "off < fsize")
    case True
    with less es sec show ?thesis by (subst flash_loop.simps) (metis add_gr_0 diff_less_mono2 less_add_same_cancel1)
  next
    case False
    then show ?thesis by (subst flash_loop.simps) simp
  qed
qed

lemma ProgramFlash_keeps:
  assumes "sys_keeps S obs" and "\<And>d w. 0 < fst (k_erasesize (lx S) d w)"
  shows "\<exists>r w'. ProgramFlash (lx S) f dv w = Some (r, w') \<and> obs w' = obs w"
proof -
  note k = keeps_simps [OF assms(1)]
  obtain F w1 where o1: "k_open (lx S) f w = (F, w1)" by fastforce
  obtain D w2 where o2: "k_open (lx S) dv w1 = (D, w2)" by fastforce
  obtain es w3 where e: "k_erasesize (lx S) D w2 = (es, w3)" by fastforce
  obtain fb w4 where m1: "k_malloc (lx S) es w3 = (fb, w4)" by fastforce
  obtain db w5 where m2: "k_malloc (lx S) es w4 = (db, w5)" by fastforce
  obtain n w6 where z: "k_fsize (lx S) F w5 = (n, w6)" by fastforce
  have obs: "obs w1 = obs w" "obs w2 = obs w" "obs w5 = obs w" "obs w6 = obs w"
    using k(1) [of f w] k(1) [of dv w1] k(7) [of D w2] k(10) [of es w3] k(10) [of es w4] k(6) [of F w5]
    by (simp_all add: o1 o2 e m1 m2 z)
  have "0 < es" using assms(2) [of D w2] e by simp
  then have loop: "\<exists>a b c d w'. flash_loop (lx S) F D es n 0 (x, y, 0, 0, w6) = Some (a, b, c, d, w') \<and> obs w' = obs w" for x y
    using flash_keeps [OF assms(1), of es F D n 0 "(x, y, 0, 0, w6)"] obs(4) by (auto split: prod.splits)
  show ?thesis
  proof (cases "F < 0 \<or> D < 0 \<or> fb = None \<or> db = None")
    case True
    then show ?thesis
      by (auto simp: ProgramFlash_def o1 o2 e m1 m2 obs k split: option.split)
  next
    case False
    then obtain x y where "fb = Some x" "db = Some y" by auto
    with False loop [of x y] show ?thesis
      by (auto simp: ProgramFlash_def o1 o2 e m1 m2 z obs k)
  qed
qed

definition init_system ::
    "'w sys \<Rightarrow> 'w gpiolib \<Rightarrow> ('w \<Rightarrow> gpio_pins) \<Rightarrow> ('w \<Rightarrow> word16 \<Rightarrow> word32) \<Rightarrow> word8 list \<Rightarrow> bool" where
  "init_system S G pins rg sn16 \<longleftrightarrow>
     sys_keeps S (held_lines pins) \<and> (\<forall>d w. 0 < fst (k_erasesize (lx S) d w))
     \<and> (\<forall>n w. rg (snd (k_open (lx S) n w)) = rg w) \<and> (\<forall>d w. rg (k_close (lx S) d w) = rg w)
     \<and> (\<forall>d n w. rg (snd (k_read (lx S) d n w)) = rg w) \<and> (\<forall>c w. rg (snd (s_system S c w)) = rg w)
     \<and> length sn16 = 16
     \<and> (\<forall>w. 0 \<le> fst (k_open (lx S) ''/dev/mtd4ro'' w)
        \<and> fst (k_read (lx S) (fst (k_open (lx S) ''/dev/mtd4ro'' w)) 16 (snd (k_open (lx S) ''/dev/mtd4ro'' w))) = (16, sn16))
     \<and> (\<forall>w. gpiod_ready G pins rg (EMIO_Interface_Gpiod G w) \<and> rg (dev (EMIO_Interface_Gpiod G w)) = rg w)
     \<and> (\<forall>w. rg (chip_close G w) = rg w) \<and> (\<forall>ls w. rg (release_bulk G ls w) = rg w)"

lemma ready_dev:
  "gpiod_ready G pins rg e \<Longrightarrow> held_lines pins w = held_lines pins (dev e) \<Longrightarrow> gpiod_ready G pins rg (e\<lparr>dev := w\<rparr>)"
  by (simp add: gpiod_ready_def held_lines_def)

lemma serial_keeps:
  assumes "\<And>n w. obs (snd (k_open K n w)) = obs w" "\<And>d w. obs (k_close K d w) = obs w"
    "\<And>d n w. obs (snd (k_read K d n w)) = obs w" "GetFpgaSerialNumber K sn w = Some (sn', w')"
  shows "obs w' = obs w"
  using assms(4)
  by (auto simp: GetFpgaSerialNumber_def Let_def case_prod_beta assms(1-3) split: if_splits option.splits)

lemma do_call_dev: "do_call f e = e\<lparr>dev := snd (f (dev e))\<rparr>"
  by (simp add: do_call_def call_def case_prod_beta Let_def)

lemma fold_keeps: "(\<And>x w. obs (f x w) = obs w) \<Longrightarrow> obs (fold f xs w) = obs w"
  by (induction xs arbitrary: w) auto

lemma copy_serial_to_fpga:
  assumes S: "init_system S G pins rg sn16" and e: "gpiod_ready G pins rg e"
  shows "\<exists>e'. CopyQspiToFpga S (WriteQuadlet_gpiod G) ''/dev/mtd4ro'' 16 e = Some (True, e')
    \<and> (\<forall>a. rg (dev e') a = (if unat (a - 0x2000) < 4 then be32 (\<lambda>i. sn16 ! i) (4 * unat (a - 0x2000)) else rg (dev e) a))"
proof -
  have keep: "sys_keeps S (held_lines pins)" using S by (simp add: init_system_def)
  define d where "d = fst (k_open (lx S) ''/dev/mtd4ro'' (dev e))"
  define w1 where "w1 = snd (k_open (lx S) ''/dev/mtd4ro'' (dev e))"
  define w2 where "w2 = snd (k_read (lx S) d 16 w1)"
  define w3 where "w3 = k_close (lx S) d w2"
  have o: "k_open (lx S) ''/dev/mtd4ro'' (dev e) = (d, w1)" "\<not> d < 0" "k_read (lx S) d 16 w1 = ((16, sn16), w2)"
    using S by (simp_all add: init_system_def d_def w1_def w2_def prod_eq_iff not_less)
  have rg3: "rg w3 = rg (dev e)" using S by (simp add: init_system_def w1_def w2_def w3_def)
  have "gpiod_ready G pins rg (e\<lparr>dev := w3\<rparr>)"
    by (rule ready_dev [OF e]) (simp add: w1_def w2_def w3_def keeps_simps [OF keep])
  then obtain e' where "WritePromData_loop (WriteQuadlet_gpiod G) bswap_32 (\<lambda>i. sn16 ! i) 4 0 (e\<lparr>dev := w3\<rparr>) = Some (True, e')"
    "rg (dev e') = fold (\<lambda>k r. r(0x2000 + of_nat k := bswap_32 (le32 (\<lambda>i. sn16 ! i) (k * 4)))) [0..<0 + 4] (rg w3)"
    using gpiod.prom_loop [of G pins rg "e\<lparr>dev := w3\<rparr>" bswap_32 "\<lambda>i. sn16 ! i" 4 0] by auto
  moreover from this(1) have "CopyQspiToFpga S (WriteQuadlet_gpiod G) ''/dev/mtd4ro'' 16 e = Some (True, e')"
    using o by (simp add: CopyQspiToFpga_def call_def w3_def WritePromData_def)
  ultimately show ?thesis
    using rg3 by (simp add: fold_upd_prom bswap_le32 mult.commute del: upt_Suc)
qed

lemma init_board_ok:
  assumes S: "init_system S G pins rg sn16" and e: "gpiod_ready G pins rg e"
  shows "\<exists>e'. init_board S G sn r e = Some e' \<and> rg (dev e') 12 = 0x02010000
    \<and> (\<forall>k < 4. rg (dev e') (0x2000 + of_nat k) = be32 (\<lambda>i. sn16 ! i) (4 * k))"
proof -
  have keep: "sys_keeps S (held_lines pins)" and es: "\<And>d w. 0 < fst (k_erasesize (lx S) d w)"
    and sys: "\<And>c w. rg (snd (s_system S c w)) = rg w" using S by (simp_all add: init_system_def)
  note p = program_keeps [OF keep]
  let ?t = "board_type_of r"
  define e1 where "e1 = do_call (ExportFpgaInfo S (fpga_ver_of r) sn (BoardName ?t) (board_id_of r)) e"
  have e1: "gpiod_ready G pins rg e1" unfolding e1_def do_call_dev by (rule ready_dev [OF e p(5)])
  define e2 where "e2 = (if FirmwareName ?t \<noteq> '''' then do_call (ProgramFpga S (FirmwareName ?t)) e1 else e1)"
  have e2: "gpiod_ready G pins rg e2"
    using e1 ready_dev [OF e1 p(4)] by (simp add: e2_def do_call_dev)
  obtain fr w where f: "ProgramFlash (lx S) ''/media/qspi-boot.bin'' ''/dev/mtd0'' (dev e2) = Some (fr, w)"
    "held_lines pins w = held_lines pins (dev e2)"
    using ProgramFlash_keeps [OF keep es] by blast
  obtain e3 where e3: "WriteQuadlet_gpiod G 12 0x02010000 (e2\<lparr>dev := w\<rparr>) = Some (True, e3)" "gpiod_ready G pins rg e3"
    "rg (dev e3) = (rg w)(12 := 0x02010000)"
    using gpiod.write_ok [OF ready_dev [OF e2 f(2)], of 12 "0x02010000"] by auto
  let ?w4 = "snd (SetMACandIP S ''eth0'' (board_id_of r) (dev e3))"
  have w4: "held_lines pins ?w4 = held_lines pins (dev e3)" "rg ?w4 = rg (dev e3)"
    by (simp_all add: SetMACandIP_def fold_keeps [where obs = "held_lines pins"] fold_keeps [where obs = rg] keeps_simps [OF keep] sys)
  obtain e5 where e5: "CopyQspiToFpga S (WriteQuadlet_gpiod G) ''/dev/mtd4ro'' 16 (e3\<lparr>dev := ?w4\<rparr>) = Some (True, e5)"
    "\<forall>a. rg (dev e5) a = (if unat (a - 0x2000) < 4 then be32 (\<lambda>i. sn16 ! i) (4 * unat (a - 0x2000)) else rg ?w4 a)"
    using copy_serial_to_fpga [OF S ready_dev [OF e3(2) w4(1)]] by auto
  have "init_board S G sn r e = Some e5"
    unfolding init_board_def Let_def e1_def [symmetric] e2_def [symmetric]
    using f(1) e3(1) e5(1) by (simp add: do_call_dev)
  moreover have "rg (dev e5) 12 = 0x02010000" using e5(2) [rule_format, of 12] w4(2) e3(3) by simp
  moreover have "rg (dev e5) (0x2000 + of_nat k) = be32 (\<lambda>i. sn16 ! i) (4 * k)" if "k < 4" for k
    using e5(2) [rule_format, of "0x2000 + of_nat k"] that by (simp add: unat_of_nat_less)
  ultimately show ?thesis by blast
qed

text \<open>C20. On a board whose firmware answers the quadlet protocol within the timeout, and unless the serial number
  read from the flash overruns its buffer (the eight characters without terminator that
  \<open>GetFpgaSerialNumber\<close> then reads beyond; the hypothesis excludes it): if register 4 identifies the BCFG
  firmware, the startup program returns 0, whichever board is attached
  and whether or not loading its firmware and updating the boot flash succeed: the PS
  Ethernet is enabled (register 12) and the PROM registers hold the serial number area of the
  flash. If register 4 holds anything else it returns -1 and has changed no register.\<close>

theorem startup_outcome:
  assumes S: "init_system S G pins rg sn16" and sn: "GetFpgaSerialNumber (lx S) sn0 w \<noteq> None"
  shows "\<exists>ret w'. init_main S G sn0 u0 u1 w = Some (ret, w') \<and>
    (if rg w 4 = 0x42434647
     then ret = 0 \<and> rg w' 12 = 0x02010000 \<and> (\<forall>k < 4. rg w' (0x2000 + of_nat k) = be32 (\<lambda>i. sn16 ! i) (4 * k))
     else ret = - 1 \<and> rg w' = rg w)"
proof -
  obtain s w1 where g: "GetFpgaSerialNumber (lx S) sn0 w = Some (s, w1)" using sn by auto
  have rg1: "rg w1 = rg w" by (rule serial_keeps [OF _ _ _ g]) (use S in \<open>simp_all add: init_system_def\<close>)
  let ?e = "EMIO_Interface_Gpiod G w1"
  have e: "gpiod_ready G pins rg ?e" "rg (dev ?e) = rg w" using S rg1 by (simp_all add: init_system_def)
  have info: "info ?e" using e(1) by (simp add: gpiod_ready_def)
  obtain e1 where e1: "ReadQuadlet_gpiod G 4 ?e = Some (Some (rg w 4), e1)" "gpiod_ready G pins rg e1" "rg (dev e1) = rg w"
    using gpiod.read_ok [OF e(1), of 4] e(2) by auto
  obtain e2 where e2: "ReadQuadlet_gpiod G 0 e1 = Some (Some (rg w 0), e2)" "gpiod_ready G pins rg e2" "rg (dev e2) = rg w"
    using gpiod.read_ok [OF e1(2), of 0] e1(3) by auto
  have destroyed: "rg (destroy G e') = rg (dev e')" for e' using S by (simp add: destroy_def init_system_def)
  have run: "init_main S G sn0 u0 u1 w = (if rg w 4 \<noteq> 0x42434647 then Some (- 1, destroy G e2)
      else do { e \<leftarrow> init_board S G s (rg w 0) e2; Some (0, destroy G e) })"
    using g info e1(1) e2(1) by (simp add: init_main_def read_or_def hw_str_BCFG)
  obtain e3 where "init_board S G s (rg w 0) e2 = Some e3" "rg (dev e3) 12 = 0x02010000"
    "\<forall>k < 4. rg (dev e3) (0x2000 + of_nat k) = be32 (\<lambda>i. sn16 ! i) (4 * k)"
    using init_board_ok [OF S e2(2)] by blast
  then show ?thesis using run destroyed e2(3) by auto
qed


section \<open>A concrete system\<close>

text \<open>Lines and firmware of \<open>line_sim\<close> that report interface version 1, and a kernel whose calls succeed.\<close>

type_synonym sim_world = "gpio_pins \<times> (word16 \<Rightarrow> word32)"

definition init_lines :: "sim_world gpiolib" where
  "init_lines = line_sim\<lparr>
     request_bulk_input := (\<lambda>ls (p, r). (0, (if ls = data_lines then p\<lparr>gp_out := False\<rparr> else p, r))),
     request_output := (\<lambda>l v (p, r). (0, (if l = req_bus_line then p\<lparr>gp_req := False\<rparr> else p, r))),
     get_value_bulk := (\<lambda>ls w. if ls = version_lines then ((0, [0, 0, 0, 1]), w) else get_value_bulk line_sim ls w)\<rparr>"

definition sim_sys :: "word8 list \<Rightarrow> sim_world sys" where
  "sim_sys sn16 = \<lparr>
     lx = \<lparr>k_open = (\<lambda>n. Pair 3), k_close = (\<lambda>d w. w), k_read = (\<lambda>d n. Pair (int n, take n sn16)),
       k_write = (\<lambda>d bs. Pair (int (length bs))), k_lseek = (\<lambda>d j w. w), k_fsize = (\<lambda>d. Pair 0),
       k_erasesize = (\<lambda>d. Pair 65536), k_unlock = (\<lambda>d a n w. w), k_erase = (\<lambda>d a n w. w),
       k_malloc = (\<lambda>n. Pair (Some (replicate n 0)))\<rparr>,
     s_creat = (\<lambda>n. Pair 4), s_sendfile = (\<lambda>a b n. Pair (int n)), s_fopen = (\<lambda>n. Pair (Some 0)),
     s_fprintf = (\<lambda>f t w. w), s_fclose = (\<lambda>f w. w), s_system = (\<lambda>c. Pair 0), s_is_dir = (\<lambda>n. Pair True),
     s_mkdir = (\<lambda>n. Pair 0)\<rparr>"

lemma version_lines_differ: "version_lines \<noteq> data_lines"
proof -
  have "length data_lines = 32" "length version_lines = 4" by (simp_all add: data_lines_def version_lines_def)
  then show ?thesis by auto
qed

lemma init_lines_device: "0 < T \<Longrightarrow> gpiod_device init_lines fst snd events T"
proof -
  assume T: "0 < T"
  from T lines_differ version_lines_differ show ?thesis
    by (auto simp: gpiod_device_def effect_def ganswers_def init_lines_def line_sim_def Let_def case_prod_beta)
qed

lemma init_lines_object:
  "gpiod_ready init_lines fst snd (EMIO_Interface_Gpiod init_lines w) \<and> snd (dev (EMIO_Interface_Gpiod init_lines w)) = snd w"
proof -
  have "EMIO_Interface_Gpiod init_lines w = (gemio_base ((fst w)\<lparr>gp_out := False, gp_req := False\<rparr>, snd w))\<lparr>info := True, version := 1, isInput := True\<rparr>"
  proof (cases w)
    case (Pair p r)
    have "from_values 4 [0, 0, 0, 1] = 1" by (simp add: from_values_def upt_rec)
    then show ?thesis
      using version_lines_differ
      by (simp add: Pair EMIO_Interface_Gpiod_def Init_gpiod_def and_then_def attempt_def get_line_def read_version_def
          call_def do_call_def SetEventMode_gpiod_def init_lines_def line_sim_def gemio_base_def iface_init_def
          iface.defs gemio.defs)
  qed
  then show ?thesis
    by (simp add: gpiod_ready_def gemio_base_def iface_init_def iface.defs gemio.defs init_lines_device)
qed

lemma sim_sys_system: "length sn16 = 16 \<Longrightarrow> init_system (sim_sys sn16) init_lines fst snd sn16"
  using init_lines_object
  by (simp add: init_system_def sys_keeps_def kernel_keeps_def sim_sys_def)
    (simp add: init_lines_def line_sim_def)

theorem startup_outcome_witness:
  "\<exists>w'. init_main (sim_sys (ascii ''FPGA 1234-56'' @ replicate 4 0xff)) init_lines [0, 0, 0, 0, 0, 0, 0, 0, 0] 0 0
      (\<lparr>gp_out = False, gp_data = [], gp_addr = [], gp_req = False, gp_done = False\<rparr>, (\<lambda>a. 0)(4 := 0x42434647)) = Some (0, w')
    \<and> snd w' 12 = 0x02010000 \<and> snd w' 0x2000 = 0x46504741"
proof -
  let ?sn = "ascii ''FPGA 1234-56'' @ replicate 4 (0xff :: word8)"
  let ?w = "(\<lparr>gp_out = False, gp_data = [], gp_addr = [], gp_req = False, gp_done = False\<rparr>, (\<lambda>a. 0)(4 := 0x42434647))"
  have len: "length ?sn = 16" by (simp add: ascii_def)
  have "GetFpgaSerialNumber (lx (sim_sys ?sn)) [0, 0, 0, 0, 0, 0, 0, 0, 0] ?w \<noteq> None"
    by (simp add: GetFpgaSerialNumber_def sim_sys_def ascii_def FPGA_SN_SIZE_def fill_buf_def)
  from startup_outcome [OF sim_sys_system [OF len] this, of 0 0] obtain w' where
    w': "init_main (sim_sys ?sn) init_lines [0, 0, 0, 0, 0, 0, 0, 0, 0] 0 0 ?w = Some (0, w')" "snd w' 12 = 0x02010000"
    "\<forall>k < 4. snd w' (0x2000 + of_nat k) = be32 (\<lambda>i. ?sn ! i) (4 * k)"
    by auto
  have "snd w' 0x2000 = 0x46504741"
    using w'(3) [rule_format, of 0] by (simp add: be32_def ascii_def)
  with w'(1,2) show ?thesis by blast
qed

end
