(* ===== verification/Serial.thy ===== *)
theory Serial
  imports BootProps Tools EmioMmapDevice Fpgav3InitProps
begin

text \<open>
  The way of a serial number through the system: the Linux tool programs it, the boot loader finds it in
  the flash and copies it to the FPGA.
\<close>

text \<open>The front of the partition after the programming is what the boot loader looks for.\<close>

lemma programmed_front:
  assumes "serial_kernel K part pos psize R W es" "length sn \<le> 8"
  obtains k' where "ProgramFpgaSerialNumber K sn k = (True, k')" "map (part k') [0..<16] = serial16 sn"
proof -
  have es: "16 \<le> es" using assms(1) by (simp add: serial_kernel_def)
  obtain k' where k': "ProgramFpgaSerialNumber K sn k = (True, k')"
    "\<forall>i < es. part k' i = (ascii ''FPGA '' @ sn @ replicate (es - 5 - length sn) 0xff) ! i"
    using program_serial [OF assms] by blast
  have len: "length (ascii ''FPGA '') = 5" by (simp add: ascii_def)
  have "map (part k') [0..<16] = serial16 sn"
  proof (rule nth_equalityI)
    show "length (map (part k') [0..<16]) = length (serial16 sn)"
      using assms(2) by (simp add: serial16_def ascii_def)
    fix i assume "i < length (map (part k') [0..<16])"
    then have "i < 16" by simp
    then show "map (part k') [0..<16] ! i = serial16 sn ! i"
      using k'(2) es assms(2) by (auto simp: serial16_def nth_append len)
  qed
  with k'(1) show thesis by (rule that)
qed

text \<open>C8. A serial number of 1 to 8 characters that \<open>fpgav3sn -p\<close> programs under Linux is what the boot loader
  announces at the next start from QSPI and copies to the FPGA: the PROM registers 0x2000 to 0x2003 hold
  FPGA, a space, the characters and 0xff, four to a register and the first in the top byte, and no other
  register changes; provided the boot loader reads the partition that Linux writes. The characters are neither 0 nor
  0xff, which is the terminator in the flash, and the BSP's byte exchange is the usual one (\<open>bswap_32\<close>).\<close>

theorem serial_number_reaches_fpga:
  assumes K: "serial_kernel K part pos psize R W es" and sn: "1 \<le> length sn" "length sn \<le> 8" "0 \<notin> set sn" "0xff \<notin> set sn"
  shows "\<exists>k'. fpgav3sn K buf [name, ascii ''-p'', sn] k = Some (0, [], k')
    \<and> (\<forall>(B :: 'h bsp) pins rg s. serial_board B pins rg (map (part k') [0..<16]) \<and> swap32 B = bswap_32 \<longrightarrow>
        (\<exists>s'. FpgaV3_Init_QSPI B ver gver u0 u1 s = Inr (True, s')
          \<and> (\<forall>a. rg (bd s') a = (if unat (a - 0x2000) < 4 then be32 (\<lambda>i. serial16 sn ! i) (4 * unat (a - 0x2000)) else rg (bd s) a))
          \<and> last (out s') = Printf ''FPGA S/N: %s'' [Str (map (\<lambda>b. char_of (unat b)) sn)]))"
proof -
  obtain k' where k': "ProgramFpgaSerialNumber K sn k = (True, k')" "map (part k') [0..<16] = serial16 sn"
    by (rule programmed_front [OF K sn(2)])
  have tool: "fpgav3sn K buf [name, ascii ''-p'', sn] k = Some (0, [], k')"
    using k'(1) by (simp add: fpgav3sn_def ascii_def)
  have boot: "\<exists>s'. FpgaV3_Init_QSPI B ver gver u0 u1 s = Inr (True, s')
      \<and> (\<forall>a. rg (bd s') a = (if unat (a - 0x2000) < 4 then be32 (\<lambda>i. serial16 sn ! i) (4 * unat (a - 0x2000)) else rg (bd s) a))
      \<and> last (out s') = Printf ''FPGA S/N: %s'' [Str (map (\<lambda>b. char_of (unat b)) sn)]"
    if "serial_board B pins rg (serial16 sn)" "swap32 B = bswap_32" for B :: "'h bsp" and pins rg s
    using FpgaV3_Init_QSPI_copies_serial [OF that(1) sn(2-4), of ver gver u0 u1 s] unfolding that(2) bswap_le32 mult.commute [of _ 4] .
  show ?thesis by (intro exI [of _ k'] conjI allI impI; (elim conjE)?) (rule tool, rule boot, simp_all only: k'(2))
qed

lemma serial_number_reaches_fpga_witness:
  "\<exists>k'. fpgav3sn (sim_kern []) [] [[], ascii ''-p'', ascii ''1234-56''] ((\<lambda>_. 0), (\<lambda>_. 0)) = Some (0, [], k')
    \<and> (\<exists>s'. FpgaV3_Init_QSPI (sim_bsp (emio_sim 3) (\<lambda>bs h. ((0, bs), h)) (map (fst k') [0..<16]) (\<lambda>n h. h)\<lparr>swap32 := bswap_32\<rparr>)
         ''1.0'' ''1.0'' 0 0 \<lparr>bd = fpga_reset (\<lambda>a. 0), out = []\<rparr> = Inr (True, s')
       \<and> fregs (bd s') 0x2000 = 0x46504741 \<and> fregs (bd s') 0x2001 = 0x20313233 \<and> fregs (bd s') 0x2004 = 0)"
proof -
  let ?sn = "ascii ''1234-56''" and ?s = "\<lparr>bd = fpga_reset (\<lambda>a. 0), out = []\<rparr>"
  let ?B = "\<lambda>k'. sim_bsp (emio_sim 3) (\<lambda>bs h. ((0, bs), h)) (map (fst k') [0..<16]) (\<lambda>n h. h)\<lparr>swap32 := bswap_32\<rparr>"
  have sn: "1 \<le> length ?sn" "length ?sn \<le> 8" "0 \<notin> set ?sn" "0xff \<notin> set ?sn" by (simp_all add: ascii_def)
  have B: "serial_board (?B k') fpins fregs (map (fst k') [0..<16])" for k' :: "(nat \<Rightarrow> word8) \<times> (int \<Rightarrow> nat)"
    using emio_sim_board [of "map (fst k') [0..<16]"] by (simp add: serial_board_def)
  obtain k' where k': "fpgav3sn (sim_kern []) [] [[], ascii ''-p'', ?sn] ((\<lambda>_. 0), (\<lambda>_. 0)) = Some (0, [], k')"
    "\<forall>(B :: emio_fpga bsp) pins rg s. serial_board B pins rg (map (fst k') [0..<16]) \<and> swap32 B = bswap_32 \<longrightarrow>
        (\<exists>s'. FpgaV3_Init_QSPI B ''1.0'' ''1.0'' 0 0 s = Inr (True, s')
          \<and> (\<forall>a. rg (bd s') a = (if unat (a - 0x2000) < 4 then be32 (\<lambda>i. serial16 ?sn ! i) (4 * unat (a - 0x2000)) else rg (bd s) a))
          \<and> last (out s') = Printf ''FPGA S/N: %s'' [Str (map (\<lambda>b. char_of (unat b)) ?sn)])"
    using serial_number_reaches_fpga [OF sim_serial_kernel [of 16] sn] by blast
  obtain s' where s': "FpgaV3_Init_QSPI (?B k') ''1.0'' ''1.0'' 0 0 ?s = Inr (True, s')"
    "\<forall>a. fregs (bd s') a = (if unat (a - 0x2000) < 4 then be32 (\<lambda>i. serial16 ?sn ! i) (4 * unat (a - 0x2000)) else fregs (bd ?s) a)"
    using k'(2) [rule_format, of "?B k'" fpins fregs ?s] B by auto
  from s'(2) [rule_format, of "0x2000"] s'(2) [rule_format, of "0x2001"] s'(2) [rule_format, of "0x2004"]
  have "fregs (bd s') 0x2000 = 0x46504741 \<and> fregs (bd s') 0x2001 = 0x20313233 \<and> fregs (bd s') 0x2004 = 0"
    by (simp add: be32_def serial16_def ascii_def fpga_reset_def)
  with k'(1) s'(1) show ?thesis by blast
qed

section \<open>Boot loader and Linux agree\<close>

text \<open>C9. The boot loader, running bare on the processor with the register-level EMIO routines, and
  the Linux startup program, through the kernel's GPIO interface, are interchangeable in
  what they make of a programmed serial number: from the same register contents both leave the FPGA with the same
  contents in every register. In particular the copy that Linux makes after a boot from QSPI
  changes nothing. The serial number has at most 8 characters, none of them 0 or 0xff, and the BSP's byte
  exchange is \<open>bswap_32\<close>.\<close>

theorem boot_and_linux_leave_same_registers:
  assumes B: "serial_board B pins rg (serial16 sn)" "swap32 B = bswap_32"
    and sn: "length sn \<le> 8" "0 \<notin> set sn" "0xff \<notin> set sn"
    and S: "init_system S G gpins grg (serial16 sn)"
  shows "\<exists>s'. FpgaV3_Init_QSPI B ver gver u0 u1 s = Inr (True, s')
    \<and> (\<forall>e. gpiod_ready G gpins grg e \<and> grg (dev e) \<in> {rg (bd s), rg (bd s')} \<longrightarrow>
        (\<exists>e'. CopyQspiToFpga S (WriteQuadlet_gpiod G) ''/dev/mtd4ro'' 16 e = Some (True, e')
          \<and> grg (dev e') = rg (bd s')))"
proof -
  let ?prom = "\<lambda>r a. if unat (a - 0x2000) < 4 then be32 (\<lambda>i. serial16 sn ! i) (4 * unat (a - 0x2000)) else r a"
  obtain s' where s': "FpgaV3_Init_QSPI B ver gver u0 u1 s = Inr (True, s')" "rg (bd s') = ?prom (rg (bd s))"
    using FpgaV3_Init_QSPI_copies_serial [OF B(1) sn, of ver gver u0 u1 s] unfolding B(2) bswap_le32 mult.commute [of _ 4] fun_eq_iff by blast
  have "\<exists>e'. CopyQspiToFpga S (WriteQuadlet_gpiod G) ''/dev/mtd4ro'' 16 e = Some (True, e') \<and> grg (dev e') = rg (bd s')"
    if "gpiod_ready G gpins grg e" "grg (dev e) \<in> {rg (bd s), rg (bd s')}" for e
  proof -
    have "?prom (grg (dev e)) = rg (bd s')" using that(2) s'(2) by (auto simp: fun_eq_iff)
    then show ?thesis using copy_serial_to_fpga [OF S that(1)] by (fastforce simp: fun_eq_iff)
  qed
  with s'(1) show ?thesis by blast
qed

definition idle_pins :: gpio_pins where
  "idle_pins = \<lparr>gp_out = False, gp_data = [], gp_addr = [], gp_req = False, gp_done = False\<rparr>"

lemma boot_and_linux_leave_same_registers_witness:
  "\<exists>s' e'. FpgaV3_Init_QSPI (sim_bsp (emio_sim 3) (\<lambda>bs h. ((0, bs), h)) (serial16 (ascii ''1234-56'')) (\<lambda>n h. h)\<lparr>swap32 := bswap_32\<rparr>)
      ''1.0'' ''1.0'' 0 0 \<lparr>bd = fpga_reset (\<lambda>a. 0), out = []\<rparr> = Inr (True, s')
    \<and> CopyQspiToFpga (sim_sys (serial16 (ascii ''1234-56''))) (WriteQuadlet_gpiod init_lines) ''/dev/mtd4ro'' 16
        (EMIO_Interface_Gpiod init_lines (idle_pins, \<lambda>a. 0)) = Some (True, e')
    \<and> snd (dev e') = fregs (bd s')"
proof -
  let ?sn = "ascii ''1234-56''" and ?s = "\<lparr>bd = fpga_reset (\<lambda>a. 0), out = []\<rparr>"
  let ?B = "sim_bsp (emio_sim 3) (\<lambda>bs h. ((0, bs), h)) (serial16 ?sn) (\<lambda>n h. h)\<lparr>swap32 := bswap_32\<rparr>"
  have sn: "length ?sn \<le> 8" "0 \<notin> set ?sn" "0xff \<notin> set ?sn" by (simp_all add: ascii_def)
  have len: "length (serial16 ?sn) = 16" by (simp add: serial16_def ascii_def)
  have B: "serial_board ?B fpins fregs (serial16 ?sn)"
    using emio_sim_board [OF len] by (simp add: serial_board_def)
  from boot_and_linux_leave_same_registers [OF B _ sn sim_sys_system [OF len], of "''1.0''" "''1.0''" 0 0 ?s]
  obtain s' where s': "FpgaV3_Init_QSPI ?B ''1.0'' ''1.0'' 0 0 ?s = Inr (True, s')"
    "\<And>e. gpiod_ready init_lines fst snd e \<Longrightarrow> snd (dev e) = fregs (bd ?s) \<Longrightarrow>
        \<exists>e'. CopyQspiToFpga (sim_sys (serial16 ?sn)) (WriteQuadlet_gpiod init_lines) ''/dev/mtd4ro'' 16 e = Some (True, e')
          \<and> snd (dev e') = fregs (bd s')" by auto
  have "fregs (bd ?s) = (\<lambda>a. 0)" by (simp add: fpga_reset_def)
  with s' init_lines_object [of "(idle_pins, \<lambda>a. 0)"] show ?thesis by simp
qed

end
