(* ===== verification/DemoProps.thy ===== *)
theory DemoProps
  imports Demo EmioDevice
begin

text \<open>
  The interpreter of the demo application: a typed line is split into its words, numbers are read
  back as they are printed, a block command reaches the driver with the typed quadlets, and two
  inputs that take it outside its arrays.
\<close>

section \<open>The array of arguments\<close>

definition argv_size :: nat where "argv_size = MAX_ARG * (MAX_LINE + 1)"

definition word_ok :: "string \<Rightarrow> bool" where
  "word_ok w \<longleftrightarrow> w \<noteq> [] \<and> length w \<le> MAX_LINE \<and> SPC \<notin> set w \<and> CR \<notin> set w \<and> NUL \<notin> set w"

text \<open>Row \<open>r\<close> starts with the characters \<open>u\<close>.\<close>

definition row_has :: "string \<Rightarrow> nat \<Rightarrow> string \<Rightarrow> bool" where
  "row_has mem r u \<longleftrightarrow> (\<forall>k < length u. mem ! (r * (MAX_LINE + 1) + k) = u ! k)"

definition args_in :: "string \<Rightarrow> string list \<Rightarrow> bool" where
  "args_in mem ws \<longleftrightarrow> (\<forall>j < length ws. row_has mem j (ws ! j @ [NUL]))"

lemmas demo_sizes = MAX_ARG_def MAX_LINE_def MAX_QUADS_def argv_size_def

lemma chars_neq [simp]: "CR \<noteq> SPC" "SPC \<noteq> CR" "NUL \<noteq> SPC" "NUL \<noteq> CR" "SPC \<noteq> NUL" "CR \<noteq> NUL"
  by (simp_all add: CR_def SPC_def NUL_def)

lemma flat_index:
  "n \<le> MAX_LINE \<Longrightarrow> m \<le> MAX_LINE \<Longrightarrow> (r * (MAX_LINE + 1) + n = q * (MAX_LINE + 1) + m) = (r = q \<and> n = m)"
proof -
  assume a: "n \<le> MAX_LINE" "m \<le> MAX_LINE"
  have "(r * (MAX_LINE + 1) + n) div (MAX_LINE + 1) = r" "(q * (MAX_LINE + 1) + m) div (MAX_LINE + 1) = q"
    using a by (simp_all add: demo_sizes)
  then show ?thesis by (metis add_left_cancel)
qed

lemma flat_bound: "r < MAX_ARG \<Longrightarrow> n \<le> MAX_LINE \<Longrightarrow> r * (MAX_LINE + 1) + n < argv_size"
  by (simp add: demo_sizes)

lemma put_char_row:
  assumes "length mem = argv_size" "r < MAX_ARG" "length u \<le> MAX_LINE" "row_has mem r u"
  shows "\<exists>mem'. put_char r (length u) c mem = Some mem' \<and> length mem' = argv_size \<and> row_has mem' r (u @ [c])
    \<and> (\<forall>q v. q \<noteq> r \<longrightarrow> length v \<le> MAX_LINE + 1 \<longrightarrow> row_has mem q v \<longrightarrow> row_has mem' q v)"
proof -
  let ?mem = "mem[r * (MAX_LINE + 1) + length u := c]"
  have b: "r * (MAX_LINE + 1) + length u < length mem" using flat_bound assms by simp
  have "row_has ?mem r (u @ [c])"
    using assms(4) b by (auto simp: row_has_def nth_append less_Suc_eq)
  moreover have "row_has ?mem q v" if v: "q \<noteq> r" "length v \<le> MAX_LINE + 1" "row_has mem q v" for q v
    unfolding row_has_def
  proof (intro allI impI)
    fix k assume k: "k < length v"
    then have "r * (MAX_LINE + 1) + length u \<noteq> q * (MAX_LINE + 1) + k"
      using flat_index [of "length u" k r q] assms(3) v(1,2) by auto
    with v(3) k show "?mem ! (q * (MAX_LINE + 1) + k) = v ! k" by (simp add: row_has_def)
  qed
  ultimately show ?thesis using assms(1,2,3) by (auto simp: put_char_def)
qed

lemma arg_at_row:
  assumes "length mem = argv_size" "r < MAX_ARG" "length w \<le> MAX_LINE" "NUL \<notin> set w" "row_has mem r (w @ [NUL])"
  shows "arg_at mem r = w"
proof -
  let ?o = "r * (MAX_LINE + 1)"
  have b: "?o + length w < length mem" using flat_bound assms by simp
  have "take (length w + 1) (drop ?o mem) = w @ [NUL]"
    using assms(5) b by (intro nth_equalityI) (auto simp: row_has_def)
  then have "drop ?o mem = w @ NUL # drop (length w + 1) (drop ?o mem)"
    by (metis append.assoc append_Cons append_Nil append_take_drop_id)
  then show ?thesis
    unfolding arg_at_def using assms(4) by (metis (mono_tags, lifting) takeWhile_append2 takeWhile.simps(2) append_Nil2)
qed

lemma args_in_mono:
  assumes "args_in mem ws" "\<forall>w \<in> set ws. length w \<le> MAX_LINE"
    "\<forall>q v. q \<noteq> r \<longrightarrow> length v \<le> MAX_LINE + 1 \<longrightarrow> row_has mem q v \<longrightarrow> row_has mem' q v" "length ws \<le> r"
  shows "args_in mem' ws"
  using assms by (auto simp: args_in_def)

section \<open>Reading a line\<close>

text \<open>What reading characters leaves alone.\<close>

definition same_board :: "'h demo \<Rightarrow> 'h demo \<Rightarrow> bool" where
  "same_board d d' \<longleftrightarrow> quads d' = quads d \<and> board d' = board d \<and> length (argv d') = length (argv d)"

lemma spaces_loop:
  "\<exists>d'. get_input_loop (replicate k SPC @ cs) (i, n, True) d = get_input_loop cs (i, n, True) d'
     \<and> same_board d d' \<and> argv d' = argv d"
proof (induction k arbitrary: d)
  case (Suc k)
  obtain d' where d': "get_input_loop (replicate k SPC @ cs) (i, n, True)
      (d\<lparr>stdin := replicate k SPC @ cs, printed := printed d @ [Byte SPC]\<rparr>) = get_input_loop cs (i, n, True) d'"
    "same_board (d\<lparr>stdin := replicate k SPC @ cs, printed := printed d @ [Byte SPC]\<rparr>) d'"
    "argv d' = argv (d\<lparr>stdin := replicate k SPC @ cs, printed := printed d @ [Byte SPC]\<rparr>)"
    using Suc.IH by blast
  then show ?case by (intro exI [of _ d']) (simp add: same_board_def)
qed (auto simp: same_board_def)

lemma word_loop:
  assumes "length (argv d) = argv_size" "i < MAX_ARG" "row_has (argv d) i u" "SPC \<notin> set w" "CR \<notin> set w"
    "length u + length w \<le> MAX_LINE" "w \<noteq> []"
  shows "\<exists>d'. get_input_loop (w @ cs) (i, length u, sp) d = get_input_loop cs (i, length u + length w, False) d'
    \<and> same_board d d' \<and> row_has (argv d') i (u @ w)
    \<and> (\<forall>q v. q \<noteq> i \<longrightarrow> length v \<le> MAX_LINE + 1 \<longrightarrow> row_has (argv d) q v \<longrightarrow> row_has (argv d') q v)"
  using assms
proof (induction w arbitrary: u sp d)
  case (Cons c w)
  then have c: "c \<noteq> SPC" "c \<noteq> CR" "length u < MAX_LINE" by auto
  let ?d = "d\<lparr>stdin := w @ cs, printed := printed d @ [Byte c]\<rparr>"
  obtain mem where m: "put_char i (length u) c (argv d) = Some mem" "length mem = argv_size" "row_has mem i (u @ [c])"
    "\<forall>q v. q \<noteq> i \<longrightarrow> length v \<le> MAX_LINE + 1 \<longrightarrow> row_has (argv d) q v \<longrightarrow> row_has mem q v"
    using put_char_row [of "argv d" i u c] Cons.prems by auto
  have step: "get_input_loop ((c # w) @ cs) (i, length u, sp) d
      = get_input_loop (w @ cs) (i, length (u @ [c]), False) (?d\<lparr>argv := mem\<rparr>)"
    using c m(1) by simp
  show ?case
  proof (cases "w = []")
    case True
    then show ?thesis
      using step m Cons.prems(1) by (intro exI [of _ "?d\<lparr>argv := mem\<rparr>"]) (simp add: same_board_def)
  next
    case False
    obtain d' where d': "get_input_loop (w @ cs) (i, length (u @ [c]), False) (?d\<lparr>argv := mem\<rparr>)
        = get_input_loop cs (i, length (u @ [c]) + length w, False) d'" "same_board (?d\<lparr>argv := mem\<rparr>) d'"
      "row_has (argv d') i ((u @ [c]) @ w)"
      "\<forall>q v. q \<noteq> i \<longrightarrow> length v \<le> MAX_LINE + 1 \<longrightarrow> row_has mem q v \<longrightarrow> row_has (argv d') q v"
      using Cons.IH [of "?d\<lparr>argv := mem\<rparr>" "u @ [c]" False] m(2,3) Cons.prems False by auto
    then show ?thesis
      using step m(2,4) Cons.prems(1) by (intro exI [of _ d']) (simp add: same_board_def)
  qed
qed simp

fun typed :: "(nat \<times> string) list \<Rightarrow> string" where
  "typed [] = []"
| "typed ((k, w) # ws) = replicate (Suc k) SPC @ w @ typed ws"

text \<open>A space ends the argument being typed.\<close>

lemma space_ends_word:
  assumes "length (argv d) = argv_size" "i < MAX_ARG" "row_has (argv d) i u" "length u \<le> MAX_LINE"
  shows "\<exists>d'. get_input_loop (SPC # cs) (i, length u, False) d = get_input_loop cs (i + 1, 0, True) d'
    \<and> same_board d d' \<and> row_has (argv d') i (u @ [NUL])
    \<and> (\<forall>q v. q \<noteq> i \<longrightarrow> length v \<le> MAX_LINE + 1 \<longrightarrow> row_has (argv d) q v \<longrightarrow> row_has (argv d') q v)"
proof -
  obtain mem where m: "put_char i (length u) NUL (argv d) = Some mem" "length mem = argv_size" "row_has mem i (u @ [NUL])"
    "\<forall>q v. q \<noteq> i \<longrightarrow> length v \<le> MAX_LINE + 1 \<longrightarrow> row_has (argv d) q v \<longrightarrow> row_has mem q v"
    using put_char_row [OF assms(1,2,4,3)] by blast
  then show ?thesis
    using assms(1,2)
    by (intro exI [of _ "d\<lparr>stdin := cs, printed := printed d @ [Byte SPC], argv := mem\<rparr>"]) (simp add: same_board_def)
qed

lemma row_has_Nil [simp]: "row_has mem r []"
  by (simp add: row_has_def)

lemma args_in_snoc: "args_in mem (ws @ [w]) = (args_in mem ws \<and> row_has mem (length ws) (w @ [NUL]))"
  by (auto simp: args_in_def nth_append less_Suc_eq)

lemma words_loop:
  assumes "length (argv d) = argv_size" "args_in (argv d) done" "row_has (argv d) (length done) u"
    "length done + length ws < MAX_ARG" "\<forall>w \<in> set (done @ u # map snd ws). word_ok w"
  shows "\<exists>d'. get_input_loop (typed ws @ cs) (length done, length u, False) d
      = get_input_loop cs (length done + length ws, length (last (u # map snd ws)), False) d'
    \<and> same_board d d' \<and> args_in (argv d') (done @ butlast (u # map snd ws))
    \<and> row_has (argv d') (length done + length ws) (last (u # map snd ws))"
  using assms
proof (induction ws arbitrary: d "done" u)
  case Nil
  then show ?case by (auto simp: same_board_def)
next
  case (Cons kw ws)
  obtain k w where kw [simp]: "kw = (k, w)" by (cases kw)
  have ok: "word_ok w" "length u \<le> MAX_LINE" "\<forall>w \<in> set done. length w \<le> MAX_LINE" using Cons.prems(5) by (auto simp: word_ok_def)
  let ?i = "length done"
  obtain d1 where d1: "get_input_loop (SPC # replicate k SPC @ w @ typed ws @ cs) (?i, length u, False) d
      = get_input_loop (replicate k SPC @ w @ typed ws @ cs) (?i + 1, 0, True) d1" "same_board d d1"
    "row_has (argv d1) ?i (u @ [NUL])"
    "\<forall>q v. q \<noteq> ?i \<longrightarrow> length v \<le> MAX_LINE + 1 \<longrightarrow> row_has (argv d) q v \<longrightarrow> row_has (argv d1) q v"
    using space_ends_word [of d ?i u] Cons.prems(1,3,4) ok(2) by fastforce
  obtain d2 where d2: "get_input_loop (replicate k SPC @ w @ typed ws @ cs) (?i + 1, 0, True) d1
      = get_input_loop (w @ typed ws @ cs) (?i + 1, 0, True) d2" "same_board d1 d2" "argv d2 = argv d1"
    using spaces_loop by blast
  have l2: "length (argv d2) = argv_size" using d1(2) d2(3) Cons.prems(1) by (simp add: same_board_def)
  obtain d3 where d3: "get_input_loop (w @ typed ws @ cs) (?i + 1, 0, True) d2
      = get_input_loop (typed ws @ cs) (?i + 1, length w, False) d3" "same_board d2 d3" "row_has (argv d3) (?i + 1) w"
    "\<forall>q v. q \<noteq> ?i + 1 \<longrightarrow> length v \<le> MAX_LINE + 1 \<longrightarrow> row_has (argv d2) q v \<longrightarrow> row_has (argv d3) q v"
    using word_loop [OF l2, of "?i + 1" "[]" w "typed ws @ cs" True] ok(1) Cons.prems(4) by (auto simp: word_ok_def)
  have "args_in (argv d3) (done @ [u])"
  proof -
    have "args_in (argv d1) done" using args_in_mono [OF Cons.prems(2) ok(3) d1(4)] by simp
    then have "args_in (argv d2) (done @ [u])" using d1(3) d2(3) by (simp add: args_in_snoc)
    then show ?thesis by (rule args_in_mono [OF _ _ d3(4)]) (use ok in auto)
  qed
  moreover have "length (argv d3) = argv_size" using l2 d3(2) by (simp add: same_board_def)
  ultimately obtain d' where d': "get_input_loop (typed ws @ cs) (length (done @ [u]), length w, False) d3
      = get_input_loop cs (length (done @ [u]) + length ws, length (last (w # map snd ws)), False) d'" "same_board d3 d'"
    "args_in (argv d') ((done @ [u]) @ butlast (w # map snd ws))"
    "row_has (argv d') (length (done @ [u]) + length ws) (last (w # map snd ws))"
    using Cons.IH [of d3 "done @ [u]" w] d3(3) Cons.prems(4,5) by auto
  show ?case
    using d1(1,2) d2(1,2) d3(1,2) d' by (intro exI [of _ d']) (auto simp: same_board_def)
qed

text \<open>A typed line, up to the return key: \<open>k\<close> spaces, a word, and further words with spaces before them.\<close>

lemma first_words:
  assumes "length (argv d) = argv_size" "length ws < MAX_ARG" "\<forall>v \<in> set (w # map snd ws). word_ok v"
  shows "\<exists>d'. get_input_loop (replicate k SPC @ w @ typed ws @ cs) (0, 0, True) d
      = get_input_loop cs (length ws, length (last (w # map snd ws)), False) d'
    \<and> same_board d d' \<and> args_in (argv d') (butlast (w # map snd ws)) \<and> row_has (argv d') (length ws) (last (w # map snd ws))"
proof -
  have w: "word_ok w" using assms(3) by simp
  obtain d1 where d1: "get_input_loop (replicate k SPC @ w @ typed ws @ cs) (0, 0, True) d
      = get_input_loop (w @ typed ws @ cs) (0, 0, True) d1" "same_board d d1" "argv d1 = argv d"
    using spaces_loop by blast
  have l1: "length (argv d1) = argv_size" using d1(3) assms(1) by simp
  obtain d2 where d2: "get_input_loop (w @ typed ws @ cs) (0, 0, True) d1 = get_input_loop (typed ws @ cs) (0, length w, False) d2"
    "same_board d1 d2" "row_has (argv d2) 0 w"
    using word_loop [OF l1, of 0 "[]" w "typed ws @ cs" True] w assms(2) by (auto simp: word_ok_def)
  have l2: "length (argv d2) = argv_size" using d2(2) l1 by (simp add: same_board_def)
  obtain d3 where "get_input_loop (typed ws @ cs) (0, length w, False) d2
      = get_input_loop cs (length ws, length (last (w # map snd ws)), False) d3" "same_board d2 d3"
    "args_in (argv d3) (butlast (w # map snd ws))" "row_has (argv d3) (length ws) (last (w # map snd ws))"
    using words_loop [OF l2, of "[]" w ws cs] d2(3) assms(2,3) by (auto simp: args_in_def)
  with d1(1,2) d2(1,2) show ?thesis by (intro exI [of _ d3]) (auto simp: same_board_def)
qed

lemma get_input_line:
  assumes "length (argv d) = argv_size" "length ws < MAX_ARG" "\<forall>v \<in> set (w # map snd ws). word_ok v"
    "stdin d = replicate k SPC @ w @ typed ws @ CR # rest"
  shows "\<exists>d'. get_input d = Inr (Suc (length ws), d') \<and> stdin d' = rest \<and> same_board d d'
    \<and> (\<forall>i \<le> length ws. arg_at (argv d') i = (w # map snd ws) ! i)"
proof -
  let ?all = "w # map snd ws"
  obtain d1 where d1: "get_input_loop (stdin d) (0, 0, True) d
      = get_input_loop (CR # rest) (length ws, length (last ?all), False) d1" "same_board d d1"
    "args_in (argv d1) (butlast ?all)" "row_has (argv d1) (length ws) (last ?all)"
    using first_words [OF assms(1-3), of k "CR # rest"] assms(4) by auto
  have ok: "word_ok v" if "v \<in> set ?all" for v using assms(3) that by blast
  have lst: "word_ok (last ?all)" by (rule ok [OF last_in_set]) simp
  have but: "\<forall>v \<in> set (butlast ?all). length v \<le> MAX_LINE" using ok in_set_butlastD by (metis word_ok_def)
  obtain mem where m: "put_char (length ws) (length (last ?all)) NUL (argv d1) = Some mem" "length mem = argv_size"
    "row_has mem (length ws) (last ?all @ [NUL])"
    "\<forall>q v. q \<noteq> length ws \<longrightarrow> length v \<le> MAX_LINE + 1 \<longrightarrow> row_has (argv d1) q v \<longrightarrow> row_has mem q v"
    using put_char_row [of "argv d1" "length ws" "last ?all" NUL] d1(2,4) assms(1,2) lst
    by (auto simp: same_board_def word_ok_def)
  have "args_in mem (butlast ?all)" by (rule args_in_mono [OF d1(3) but m(4)]) simp
  then have "args_in mem (butlast ?all @ [last ?all])" using m(3) unfolding args_in_snoc by (simp only: length_butlast list.size) simp
  then have all: "args_in mem ?all" by (simp only: append_butlast_last_id list.simps not_False_eq_True)
  have "arg_at mem i = ?all ! i" if i: "i \<le> length ws" for i
  proof (rule arg_at_row [OF m(2)])
    have "?all ! i \<in> set ?all" using i by (intro nth_mem) simp
    then show "length (?all ! i) \<le> MAX_LINE" "NUL \<notin> set (?all ! i)" using ok by (auto simp only: word_ok_def)
    show "row_has mem i (?all ! i @ [NUL])" using all i by (simp add: args_in_def less_Suc_eq_le)
  qed (use i assms(2) in simp)
  then show ?thesis
    using d1(1,2) m(1,2) assms(1)
    by (intro exI [of _ "(say '''' [] (d1\<lparr>stdin := rest\<rparr>))\<lparr>argv := mem\<rparr>"])
      (simp add: get_input_def say_def same_board_def Let_def del: nth_Cons)
qed

text \<open>A line of at most 20 words, separated and preceded by any number of spaces and ended by the
  return key, is read as exactly its words: \<open>argc\<close> is their number, \<open>argv\<close> holds them in order,
  and neither the quadlet buffer nor the board is touched. Words are nonempty, at most 120
  characters long, and free of spaces, carriage returns and NUL.\<close>

theorem get_input_parses:
  assumes "length (argv d) = argv_size" "length ws < MAX_ARG" "\<forall>v \<in> set (w # map snd ws). word_ok v"
    "stdin d = replicate k SPC @ w @ typed ws @ CR # rest"
  shows "\<exists>d'. get_input d = Inr (Suc (length ws), d') \<and> stdin d' = rest \<and> quads d' = quads d \<and> board d' = board d
    \<and> (\<forall>i \<le> length ws. arg_at (argv d') i = (w # map snd ws) ! i)"
  using get_input_line [OF assms] by (auto simp: same_board_def)

definition idle_demo :: "string \<Rightarrow> 'h \<Rightarrow> 'h demo" where
  "idle_demo line h = \<lparr>stdin = line, printed = [], argv = replicate argv_size NUL, quads = replicate MAX_QUADS 0, board = h\<rparr>"

theorem get_input_parses_witness:
  "\<exists>d'. get_input (idle_demo ('' quad  4'' @ [CR]) ()) = Inr (2, d') \<and> arg_at (argv d') 0 = ''quad'' \<and> arg_at (argv d') 1 = ''4''"
proof -
  have len: "length (argv (idle_demo ('' quad  4'' @ [CR]) ())) = argv_size" by (simp add: idle_demo_def)
  have ws: "length [(1 :: nat, ''4'')] < MAX_ARG" by (simp add: MAX_ARG_def)
  have ok: "\<forall>v \<in> set (''quad'' # map snd [(1 :: nat, ''4'')]). word_ok v"
    by (simp add: word_ok_def demo_sizes SPC_def CR_def NUL_def)
  have line: "stdin (idle_demo ('' quad  4'' @ [CR]) ()) = replicate 1 SPC @ ''quad'' @ typed [(1, ''4'')] @ CR # []"
    by (simp add: idle_demo_def SPC_def)
  obtain d' where d': "get_input (idle_demo ('' quad  4'' @ [CR]) ()) = Inr (Suc (length [(1 :: nat, ''4'')]), d')"
    "\<forall>i \<le> length [(1 :: nat, ''4'')]. arg_at (argv d') i = (''quad'' # map snd [(1 :: nat, ''4'')]) ! i"
    using get_input_parses [OF len ws ok line] by blast
  show ?thesis
    using d'(1) d'(2) [rule_format, of 0] d'(2) [rule_format, of 1] by (simp add: numeral_2_eq_2)
qed

section \<open>Outside the arrays\<close>

text \<open>C27. Twenty words followed by a space are accepted, with \<open>argc\<close> equal to the number of rows of
  \<open>argv\<close>: the next character that is not a space, be it the return key, is then written behind
  the array. The branch for too many arguments comes too late.\<close>

theorem get_input_overruns_argv:
  assumes "length (argv d) = argv_size" "Suc (length ws) = MAX_ARG" "\<forall>v \<in> set (w # map snd ws). word_ok v"
    "stdin d = replicate k SPC @ w @ typed ws @ replicate (Suc j) SPC @ c # rest" "c \<noteq> SPC"
  shows "get_input d = Inl Out_of_bounds"
proof -
  let ?last = "last (w # map snd ws)"
  obtain d1 where d1: "get_input_loop (stdin d) (0, 0, True) d
      = get_input_loop (SPC # replicate j SPC @ c # rest) (length ws, length ?last, False) d1" "same_board d d1"
    "row_has (argv d1) (length ws) ?last"
    using first_words [OF assms(1) _ assms(3), of k "SPC # replicate j SPC @ c # rest"] assms(2,4) by auto
  have "word_ok ?last" using assms(3) last_in_set by blast
  then obtain d2 where d2: "get_input_loop (SPC # replicate j SPC @ c # rest) (length ws, length ?last, False) d1
      = get_input_loop (replicate j SPC @ c # rest) (length ws + 1, 0, True) d2"
    using space_ends_word [of d1 "length ws" ?last "replicate j SPC @ c # rest"] d1(2,3) assms(1,2)
    by (auto simp: same_board_def word_ok_def)
  obtain d3 where d3: "get_input_loop (replicate j SPC @ c # rest) (length ws + 1, 0, True) d2
      = get_input_loop (c # rest) (length ws + 1, 0, True) d3"
    using spaces_loop by blast
  have "\<not> Suc (length ws) < MAX_ARG" using assms(2) by simp
  then have full: "put_char (Suc (length ws)) n x mem = None" for n x mem by (simp add: put_char_def)
  show ?thesis
    unfolding get_input_def d1(1) d2 d3
    using assms(5) full by (cases "c = CR") (simp_all add: demo_sizes Let_def say_def)
qed

theorem get_input_overruns_argv_witness:
  "get_input (idle_demo (''a'' @ typed (replicate 19 (0, ''a'')) @ [SPC, CR]) ()) = Inl Out_of_bounds"
  by (rule get_input_overruns_argv [of _ "replicate 19 (0, ''a'')" "''a''" 0 0 CR "[]"])
    (auto simp: idle_demo_def demo_sizes word_ok_def SPC_def CR_def NUL_def)

section \<open>Numbers\<close>

text \<open>The digits \<open>%08x\<close> prints.\<close>

definition hex8 :: "word32 \<Rightarrow> string" where
  "hex8 w = map (\<lambda>i. hexdig (unat (take_bit 4 (drop_bit (28 - 4 * i) w)))) [0..<8]"

lemma hex_digit_hexdig: "n < 16 \<Longrightarrow> hex_digit (hexdig n) = Some (of_nat n)"
proof -
  assume "n < 16"
  then have "n \<in> set [0..<16]" by simp
  moreover have "\<forall>n \<in> set [0..<16]. hex_digit (hexdig n) = Some (of_nat n)"
    by (simp add: hexdig_def hex_digit_def upt_rec)
  ultimately show ?thesis by blast
qed

lemma get_hex_nibbles:
  "i \<le> 8 \<Longrightarrow> get_hex_from (drop_bit (32 - 4 * i) w) (map (\<lambda>i. hexdig (unat (take_bit 4 (drop_bit (28 - 4 * i) w)))) [i..<8]) = w"
proof (induction "8 - i" arbitrary: i)
  case 0
  then have "i = 8" by simp
  then show ?case by simp
next
  case (Suc n)
  then have i: "i < 8" by simp
  let ?x = "drop_bit (28 - 4 * i) w"
  have "unat (take_bit 4 ?x) < 16"
    by (simp add: take_bit_eq_mod unat_mod)
  then have d: "hex_digit (hexdig (unat (take_bit 4 ?x))) = Some (take_bit 4 ?x)" by (simp add: hex_digit_hexdig)
  have "drop_bit (32 - 4 * i) w = drop_bit 4 ?x" using i by (simp add: drop_bit_drop_bit)
  then have "16 * drop_bit (32 - 4 * i) w + take_bit 4 ?x = ?x"
    using bits_ident [of 4 ?x] by (simp add: push_bit_eq_mult mult.commute)
  moreover have "get_hex_from (drop_bit (32 - 4 * Suc i) w)
      (map (\<lambda>i. hexdig (unat (take_bit 4 (drop_bit (28 - 4 * i) w)))) [Suc i..<8]) = w"
    by (rule Suc.hyps(1)) (use Suc.hyps(2) i in auto)
  ultimately show ?case using i d by (simp add: upt_conv_Cons)
qed

lemma get_hex_hex8: "get_hex (hex8 w) = w"
  using get_hex_nibbles [of 0 w] by (simp add: get_hex_def hex8_def)

lemma dec_digit_char: "n < 10 \<Longrightarrow> dec_digit (char_of (48 + n)) = Some (of_nat n)"
  by (simp add: dec_digit_def of_char_of)

lemma get_dec_snoc:
  "\<forall>c \<in> set xs. dec_digit c \<noteq> None \<Longrightarrow> dec_digit c = Some d
    \<Longrightarrow> get_dec_from v (xs @ [c]) = 10 * get_dec_from v xs + d"
  by (induction xs arbitrary: v) (auto split: option.splits)

lemma dec_digits: "\<forall>c \<in> set (dec n). dec_digit c \<noteq> None"
proof (induction n rule: dec.induct)
  case (1 n)
  then show ?case
    using dec_digit_char [of n] dec_digit_char [of "n mod 10"] by (subst dec.simps) auto
qed

lemma get_dec_dec: "get_dec (dec n) = of_nat n"
proof (induction n rule: dec.induct)
  case (1 n)
  show ?case
  proof (cases "n < 10")
    case True
    then show ?thesis using dec_digit_char [of n] by (subst dec.simps) (simp add: get_dec_def)
  next
    case False
    then have "get_dec (dec n) = 10 * get_dec (dec (n div 10)) + of_nat (n mod 10)"
      using get_dec_snoc [OF dec_digits dec_digit_char, of "n mod 10" 0 "n div 10"]
      by (subst dec.simps) (simp add: get_dec_def)
    also have "\<dots> = of_nat (10 * (n div 10) + n mod 10)"
      unfolding 1 [OF False] by (simp only: of_nat_add of_nat_mult of_nat_numeral)
    finally show ?thesis by simp
  qed
qed

text \<open>The number readers invert the printers: \<open>get_hex\<close> reads back every quadlet as \<open>%08x\<close>
  prints it, and \<open>get_dec\<close> reads the decimal digits of a number as the number, modulo 2 to the 32.\<close>

theorem numbers_read_back: "get_hex (hex8 w) = w \<and> get_dec (dec n) = of_nat n"
  by (simp add: get_hex_hex8 get_dec_dec)

section \<open>Typed commands\<close>

lemma hexdig_plain: "n < 16 \<Longrightarrow> hexdig n \<notin> {SPC, CR, NUL}"
  using hex_digit_hexdig [of n] by (auto simp: hex_digit_def SPC_def CR_def NUL_def)

lemma hex8_ok: "word_ok (hex8 w)"
proof -
  have "c \<notin> {SPC, CR, NUL}" if "c \<in> set (hex8 w)" for c
  proof -
    from that obtain i where "c = hexdig (unat (take_bit 4 (drop_bit (28 - 4 * i) w)))" by (auto simp: hex8_def)
    moreover have "unat (take_bit 4 (drop_bit (28 - 4 * i) w)) < 16" by (simp add: take_bit_eq_mod unat_mod)
    ultimately show ?thesis using hexdig_plain by metis
  qed
  then show ?thesis by (auto simp: word_ok_def hex8_def demo_sizes)
qed

lemma dec_length: "n < 10 ^ Suc k \<Longrightarrow> length (dec n) \<le> Suc k"
proof (induction k arbitrary: n)
  case 0
  then show ?case by (subst dec.simps) simp
next
  case (Suc k)
  then have "n div 10 < 10 ^ Suc k" by (simp add: less_mult_imp_div_less mult.commute)
  then show ?case using Suc.IH by (subst dec.simps) auto
qed

lemma dec_ok:
  assumes "n < 2 ^ 32"
  shows "word_ok (dec n)"
proof -
  have "(2 :: nat) ^ 32 < 10 ^ Suc 9" by simp
  then have "length (dec n) \<le> Suc 9" using dec_length [of n 9] assms by linarith
  moreover have "dec n \<noteq> []" by (subst dec.simps) simp
  moreover have "c \<notin> {SPC, CR, NUL}" if "c \<in> set (dec n)" for c
    using dec_digits [of n] that by (auto simp: dec_digit_def SPC_def CR_def NUL_def)
  ultimately show ?thesis by (auto simp: word_ok_def demo_sizes)
qed

lemma cmd_ok: "word_ok ''block''" "word_ok ''quad''"
  by (simp_all add: word_ok_def demo_sizes SPC_def CR_def NUL_def)

definition command_line :: "string \<Rightarrow> string list \<Rightarrow> string" where
  "command_line w ws = w @ concat (map (\<lambda>v. SPC # v) ws) @ [CR]"

lemma command_line_typed: "command_line w ws @ rest = replicate 0 SPC @ w @ typed (map (Pair 0) ws) @ CR # rest"
proof -
  have "typed (map (Pair 0) ws) = concat (map (\<lambda>v. SPC # v) ws)" by (induction ws) simp_all
  then show ?thesis by (simp add: command_line_def)
qed

text \<open>A step on a line of at most 20 words: the words are in \<open>argv\<close>, and the command is looked up.\<close>

lemma demo_step_line:
  assumes "length (argv d) = argv_size" "length ws < MAX_ARG" "\<forall>v \<in> set (w # ws). word_ok v"
    "stdin d = command_line w ws @ rest"
  obtains d' where "get_input (say ''fpgav3: '' [] d) = Inr (Suc (length ws), d')" "stdin d' = rest" "quads d' = quads d"
    "board d' = board d" "length (argv d') = argv_size" "arg_at (argv d') 0 = w"
    "\<And>i. i < length ws \<Longrightarrow> arg_at (argv d') (Suc i) = ws ! i"
proof -
  let ?d = "say ''fpgav3: '' [] d"
  have "\<exists>d'. get_input ?d = Inr (Suc (length (map (Pair (0 :: nat)) ws)), d') \<and> stdin d' = rest \<and> same_board ?d d'
    \<and> (\<forall>i \<le> length (map (Pair (0 :: nat)) ws). arg_at (argv d') i = (w # map snd (map (Pair (0 :: nat)) ws)) ! i)"
    by (rule get_input_line) (use assms in \<open>simp_all add: say_def command_line_typed o_def\<close>)
  then obtain d' where d': "get_input ?d = Inr (Suc (length ws), d')" "stdin d' = rest" "same_board ?d d'"
    "\<forall>i \<le> length ws. arg_at (argv d') i = (w # ws) ! i"
    by (auto simp: o_def)
  show thesis
    by (rule that [OF d'(1,2)])
      (use d'(3) d'(4) [rule_format, of 0] d'(4) [rule_format, of "Suc i" for i] assms(1) in
        \<open>auto simp: same_board_def say_def\<close>)
qed


lemma store_args:
  assumes "n \<le> length (quads d)"
  shows "cfor 0 (int n) 1 (\<lambda>i d. d\<lparr>quads := (quads d)[nat i := f (argv d) (nat i)]\<rparr>) d
    = d\<lparr>quads := map (f (argv d)) [0..<n] @ drop n (quads d)\<rparr>"
proof -
  let ?b = "\<lambda>i d. d\<lparr>quads := (quads d)[nat i := f (argv d) (nat i)]\<rparr>"
  have upd: "(map g [0..<j] @ drop j xs)[j := g j] = map g [0..<Suc j] @ drop (Suc j) xs" if "j < length xs"
    for j g and xs :: "word32 list"
    using that by (auto intro!: nth_equalityI simp: nth_append nth_list_update less_Suc_eq)
  show ?thesis
    by (rule cfor_inv [where P = "\<lambda>i t. 0 \<le> i \<and> i \<le> int n \<and> t = d\<lparr>quads := map (f (argv d)) [0..<nat i] @ drop (nat i) (quads d)\<rparr>"])
      (use assms in \<open>auto simp: upd nat_add_distrib simp del: upt_Suc\<close>)
qed

lemma block_write_log_cong:
  "(\<And>q. q < m \<Longrightarrow> data q = data' q) \<Longrightarrow> block_write_log P a data n m = block_write_log P a data' n m"
  unfolding block_write_log_def by (intro arg_cong [where f = concat] map_cong) auto

lemma blk_nQuads_words: "unat (blk_nQuads (w * 4)) = unat w mod 2 ^ 30"
proof -
  have "unat (w * 4) + 3 < 2 ^ 32"
  proof -
    have "unat (w * 4) = (unat w * 4) mod 2 ^ 32" by (simp add: unat_word_ariths)
    also have "\<dots> = 4 * (unat w mod 2 ^ 30)" by (simp add: mult_mod_right mult.commute)
    finally show ?thesis using mod_less_divisor [of "2 ^ 30" "unat w"] by simp
  qed
  then have "unat (w * 4 + 3) = unat (w * 4) + 3" by (simp add: unat_word_ariths)
  also have "unat (w * 4) = 4 * (unat w mod 2 ^ 30)" by (simp add: unat_word_ariths mult_mod_right mult.commute)
  finally show ?thesis by (simp add: blk_nQuads_def unat_div)
qed

lemma ucast_ucast16 [simp]: "(ucast (ucast (a :: word16) :: word32) :: word16) = a"
  by (rule bit_word_eqI) (simp add: bit_simps)

lemma sint_of_top_half:
  assumes "2 ^ 31 \<le> unat (w :: word32)"
  shows "sint w < 0"
proof -
  have "unat w < 2 * 2 ^ 31" using unsigned_less [of w, where ?'a = nat] by simp
  then have "unat w div 2 ^ 31 = 1" using assms by (intro div_nat_eqI) auto
  then have "bit (unat w) 31" by (simp add: bit_iff_odd)
  then have "bit w 31" by (simp add: bit_unsigned_iff)
  then show ?thesis by (simp add: sint_uint signed_take_bit_negative_iff bit_uint_iff)
qed

text \<open>C26. Typing \<open>block\<close> with an address, a count and that many quadlets (at most 17 fit) performs
  the block write of those quadlets at that address: on firmware that answers every request (as in the
  property of \<open>EMIO_WriteBlock\<close>), with interface version 1 and \<open>setDataOutput\<close> successful, the writes on
  the bus are those of the block protocol, with the typed quadlets as data, and nothing else.\<close>

theorem typed_block_reaches_board:
  fixes a :: word16
  assumes "length (argv d) = argv_size" "length (quads d) = MAX_QUADS" "1 \<le> length qs" "length qs \<le> 17"
    and "stdin d = command_line ''block'' (hex8 (ucast a) # dec (length qs) # map hex8 qs) @ rest"
    and "board d = (h, [])" and "responsive P" and "fst (EMIO_GetVersion P h) = 1"
    and "fst (setDataOutput P (snd (EMIO_GetVersion P h)))"
  shows "\<exists>d'. demo_step (traced P) d = Inr d' \<and> stdin d' = rest \<and> snd (board d') =
      [(gpio_base P + Reg_DirLower, 0xffffffff), (gpio_base P + Reg_OutEnLower, 0xffffffff)]
      @ block_write_log P a ((!) qs) (length qs) (length qs) @ [(gpio_base P + Reg_OutputUpper, 0)]"
proof -
  let ?n = "length qs"
  let ?ws = "hex8 (ucast a) # dec ?n # map hex8 qs"
  have "\<forall>v \<in> set (''block'' # ?ws). word_ok v" using cmd_ok hex8_ok dec_ok [of ?n] assms(4) by auto
  moreover have "length ?ws < MAX_ARG" using assms(4) by (simp add: demo_sizes)
  ultimately obtain d1 where d1: "get_input (say ''fpgav3: '' [] d) = Inr (Suc (length ?ws), d1)" "stdin d1 = rest"
    "quads d1 = quads d" "board d1 = board d" "arg_at (argv d1) 0 = ''block''"
    and args: "\<And>i. i < length ?ws \<Longrightarrow> arg_at (argv d1) (Suc i) = ?ws ! i"
    using demo_step_line [OF assms(1) _ _ assms(5)] by metis
  have a1: "get_hex (arg_at (argv d1) 1) = ucast a" and a2: "get_dec (arg_at (argv d1) 2) = of_nat ?n"
    using args [of 0] args [of 1] by (simp_all add: get_hex_hex8 get_dec_dec numeral_2_eq_2)
  have a3: "get_hex (arg_at (argv d1) (3 + i)) = qs ! i" if "i < ?n" for i
    using args [of "Suc (Suc i)"] that by (simp add: get_hex_hex8 numeral_3_eq_3)
  have num: "sint (of_nat ?n :: word32) = int ?n" using assms(4) by (simp add: signed_of_nat signed_take_bit_int_eq_self)
  have nb: "unat (blk_nQuads (of_nat ?n * 4)) = ?n"
    using assms(4) by (simp add: blk_nQuads_words unat_of_nat_less)
  let ?d2 = "d1\<lparr>quads := map (\<lambda>i. get_hex (arg_at (argv d1) (3 + i))) [0..<?n] @ drop ?n (quads d)\<rparr>"
  have fill: "cfor 0 (int ?n) 1 (\<lambda>i d. d\<lparr>quads := (quads d)[nat i := get_hex (arg_at (argv d) (3 + nat i))]\<rparr>) d1 = ?d2"
    using store_args [of ?n d1 "\<lambda>m i. get_hex (arg_at m (3 + i))"] d1(3) assms(2,4) by (simp add: demo_sizes)
  have q: "quads ?d2 ! i = qs ! i" if "i < ?n" for i using that a3 by (simp add: nth_append)
  obtain h' where w: "EMIO_WriteBlock (traced P) a (\<lambda>i. quads ?d2 ! i) (of_nat ?n * 4) (h, []) = Some (True, (h',
      [(gpio_base P + Reg_DirLower, 0xffffffff), (gpio_base P + Reg_OutEnLower, 0xffffffff)]
      @ block_write_log P a (\<lambda>i. quads ?d2 ! i) ?n ?n @ [(gpio_base P + Reg_OutputUpper, 0)]))"
    using block_write_traced [OF assms(7-9), of a "\<lambda>i. quads ?d2 ! i" "of_nat ?n * 4"] unfolding nb by blast
  have "block_command (traced P) (Suc (length ?ws)) d1
      = block_write (traced P) a (int ?n) (Suc (length ?ws)) d1"
    using assms(3,4) unfolding block_command_def a1 a2 num Let_def by (cases qs) (simp_all add: demo_sizes)
  also have "\<dots> = Inr (?d2\<lparr>board := (h',
      [(gpio_base P + Reg_DirLower, 0xffffffff), (gpio_base P + Reg_OutEnLower, 0xffffffff)]
      @ block_write_log P a (\<lambda>i. quads ?d2 ! i) ?n ?n @ [(gpio_base P + Reg_OutputUpper, 0)])\<rparr>)"
    using w d1(4) assms(4,6) nb unfolding block_write_def Let_def by (simp add: fill demo_sizes)
  also have "block_write_log P a (\<lambda>i. quads ?d2 ! i) ?n ?n = block_write_log P a ((!) qs) ?n ?n"
    by (rule block_write_log_cong) (rule q)
  finally have cmd: "block_command (traced P) (Suc (length ?ws)) d1 = Inr (?d2\<lparr>board := (h',
      [(gpio_base P + Reg_DirLower, 0xffffffff), (gpio_base P + Reg_OutEnLower, 0xffffffff)]
      @ block_write_log P a ((!) qs) ?n ?n @ [(gpio_base P + Reg_OutputUpper, 0)])\<rparr>)" .
  have "demo_step (traced P) d = block_command (traced P) (Suc (length ?ws)) d1"
    unfolding demo_step_def d1(1) using d1(5) by (simp add: Let_def)
  with cmd d1(2) show ?thesis by simp
qed

theorem typed_block_reaches_board_witness:
  "\<exists>d'. demo_step (traced (emio_sim 7)) (idle_demo (command_line ''block'' [hex8 0x1001, dec 2, hex8 0xA0, hex8 0xA1]) (fpga_reset (\<lambda>a. 0), [])) = Inr d'
    \<and> snd (board d') = [(0xE000A284, 0xffffffff), (0xE000A288, 0xffffffff), (0xE000A048, 0xA0), (0xE000A04C, 0x00891001),
      (0xE000A048, 0xA1), (0xE000A04C, 0x00111001), (0xE000A04C, 0)]"
proof -
  let ?d = "idle_demo (command_line ''block'' (hex8 (ucast (0x1001 :: word16)) # dec (length [0xA0, 0xA1 :: word32])
    # map hex8 [0xA0, 0xA1]) @ []) (fpga_reset (\<lambda>a. 0), [] :: wlog)"
  have "\<exists>d'. demo_step (traced (emio_sim 7)) ?d = Inr d' \<and> stdin d' = [] \<and> snd (board d') =
      [(gpio_base (emio_sim 7) + Reg_DirLower, 0xffffffff), (gpio_base (emio_sim 7) + Reg_OutEnLower, 0xffffffff)]
      @ block_write_log (emio_sim 7) 0x1001 ((!) [0xA0, 0xA1]) (length [0xA0, 0xA1 :: word32]) (length [0xA0, 0xA1 :: word32])
      @ [(gpio_base (emio_sim 7) + Reg_OutputUpper, 0)]"
    by (rule typed_block_reaches_board [where h = "fpga_reset (\<lambda>a. 0)"])
      (simp_all add: idle_demo_def emio_sim_responsive emio_sim_version emio_sim_output)
  moreover have log: "[(gpio_base (emio_sim 7) + Reg_DirLower, 0xffffffff), (gpio_base (emio_sim 7) + Reg_OutEnLower, 0xffffffff)]
      @ block_write_log (emio_sim 7) 0x1001 ((!) [0xA0, 0xA1]) (length [0xA0, 0xA1 :: word32]) (length [0xA0, 0xA1 :: word32])
      @ [(gpio_base (emio_sim 7) + Reg_OutputUpper, 0)]
      = [(0xE000A284, 0xffffffff), (0xE000A288, 0xffffffff), (0xE000A048, 0xA0), (0xE000A04C, 0x00891001),
      (0xE000A048, 0xA1), (0xE000A04C, 0x00111001), (0xE000A04C, 0)]"
    by (simp add: block_write_log_def blk_word_def bits_defs reg_defs emio_sim_def upt_rec)
  moreover have line: "?d = idle_demo (command_line ''block'' [hex8 0x1001, dec 2, hex8 0xA0, hex8 0xA1]) (fpga_reset (\<lambda>a. 0), [])"
  proof -
    have "length [0xA0, 0xA1 :: word32] = 2" "(ucast (0x1001 :: word16) :: word32) = 0x1001" by simp_all
    then show ?thesis by (simp only: list.map append_Nil2)
  qed
  ultimately show ?thesis
    by (simp only: log line) blast
qed

text \<open>C28. A count of 2 to the 31 or more is negative as an \<open>int\<close> and passes the check against
  \<open>MAX_QUADS\<close>: typing such a \<open>block\<close> read makes the driver read back as many quadlets as the
  low 30 bits of the count say, and with more than 32 of them the buffer on the stack is overrun. This is
  on firmware that answers every request, with interface version 1 and \<open>setDataInput\<close> successful.\<close>

theorem huge_block_count_overruns:
  assumes "length (argv d) = argv_size" and "2 ^ 31 \<le> n" and "n < 2 ^ 32" and "MAX_QUADS < n mod 2 ^ 30"
    and "stdin d = command_line ''block'' [hex8 a, dec n] @ rest" and "board d = (h, [])" and "responsive P"
    and "fst (EMIO_GetVersion P h) = 1" and "fst (setDataInput P (snd (EMIO_GetVersion P h)))"
  shows "demo_step (traced P) d = Inl Out_of_bounds"
proof -
  let ?ws = "[hex8 a, dec n]" and ?w = "of_nat n :: word32"
  have "\<forall>v \<in> set (''block'' # ?ws). word_ok v" using cmd_ok hex8_ok dec_ok [OF assms(3)] by auto
  moreover have "length ?ws < MAX_ARG" by (simp add: demo_sizes)
  ultimately obtain d1 where d1: "get_input (say ''fpgav3: '' [] d) = Inr (Suc (length ?ws), d1)" "stdin d1 = rest"
    "board d1 = board d" "arg_at (argv d1) 0 = ''block''"
    and args: "\<And>i. i < length ?ws \<Longrightarrow> arg_at (argv d1) (Suc i) = ?ws ! i"
    using demo_step_line [OF assms(1) _ _ assms(5)] by metis
  have a2: "get_dec (arg_at (argv d1) 2) = ?w" using args [of 1] by (simp add: get_dec_dec numeral_2_eq_2)
  have u: "unat ?w = n" using assms(3) by (simp add: unat_of_nat_less)
  have neg: "sint ?w < 0" using u assms(2) by (intro sint_of_top_half) simp
  have nb: "unat (blk_nQuads (of_int (sint ?w) * 4)) = n mod 2 ^ 30"
    using blk_nQuads_words [of ?w] u by simp
  let ?a = "ucast (get_hex (arg_at (argv d1) 1)) :: word16"
  obtain ds h' where r: "EMIO_ReadBlock (traced P) ?a (of_int (sint ?w) * 4) (h, []) = Some (Some ds, h')" "length ds = n mod 2 ^ 30"
    using block_read_traced [OF assms(7-9), of ?a "of_int (sint ?w) * 4"] unfolding nb by blast
  have "demo_step (traced P) d = block_command (traced P) (Suc (length ?ws)) d1"
    unfolding demo_step_def d1(1) using d1(4) by (simp add: Let_def)
  also have "\<dots> = block_read (traced P) ?a (sint ?w) d1"
    using neg unfolding block_command_def a2 Let_def by (simp add: demo_sizes)
  also have "\<dots> = Inl Out_of_bounds"
    using r assms(4) by (simp add: block_read_def d1(3) assms(6))
  finally show ?thesis .
qed


theorem huge_block_count_overruns_witness:
  "demo_step (traced (emio_sim 7)) (idle_demo (command_line ''block'' [hex8 0, dec 4294967295]) (fpga_reset (\<lambda>a. 0), [])) = Inl Out_of_bounds"
  using huge_block_count_overruns [where d = "idle_demo (command_line ''block'' [hex8 0, dec 4294967295] @ []) (fpga_reset (\<lambda>a. 0), [])"
      and n = 4294967295 and P = "emio_sim 7" and h = "fpga_reset (\<lambda>a. 0)" and a = 0 and rest = "[]"]
  by (simp add: idle_demo_def emio_sim_responsive emio_sim_version emio_sim_input demo_sizes)

text \<open>On firmware that honours the interface, a register value typed with \<open>quad\<close> is what the
  next \<open>quad\<close> read of that address prints.\<close>

theorem typed_quad_write_then_read:
  fixes a :: word16
  assumes "length (argv d) = argv_size" and "length (quads d) = MAX_QUADS" and "emio_ready P pins rg (board d)"
    and "stdin d = command_line ''quad'' [hex8 (ucast a), hex8 v] @ command_line ''quad'' [hex8 (ucast a)] @ rest"
  shows "\<exists>d'. demo_steps P 2 d = Inr d' \<and> stdin d' = rest \<and> last (printed d') = Printf ''  %08x'' [Num (uint v)]
    \<and> emio_ready P pins rg (board d') \<and> rg (board d') = (rg (board d))(a := v)"
proof -
  have ok: "\<forall>v \<in> set (''quad'' # [hex8 (ucast a), hex8 v]). word_ok v" "\<forall>v \<in> set (''quad'' # [hex8 (ucast a)]). word_ok v"
    using cmd_ok hex8_ok by auto
  have len: "length [hex8 (ucast a), hex8 v] < MAX_ARG" "length [hex8 (ucast a)] < MAX_ARG" by (simp_all add: demo_sizes)
  obtain d1 where d1: "get_input (say ''fpgav3: '' [] d) = Inr (Suc (length [hex8 (ucast a), hex8 v]), d1)"
    "stdin d1 = command_line ''quad'' [hex8 (ucast a)] @ rest" "quads d1 = quads d" "board d1 = board d"
    "length (argv d1) = argv_size" "arg_at (argv d1) 0 = ''quad''"
    and args1: "\<And>i. i < length [hex8 (ucast a), hex8 v] \<Longrightarrow> arg_at (argv d1) (Suc i) = [hex8 (ucast a), hex8 v] ! i"
    using demo_step_line [OF assms(1) len(1) ok(1) assms(4)] by metis
  obtain h1 where h1: "EMIO_WriteQuadlet P a v (board d) = Some (True, h1)" "emio_ready P pins rg h1"
    "rg h1 = (rg (board d))(a := v)"
    using emio.write_ok [OF assms(3)] by blast
  let ?d2 = "d1\<lparr>quads := (quads d1)[0 := v], board := h1\<rparr>"
  have "get_hex (arg_at (argv d1) 1) = ucast a" "get_hex (arg_at (argv d1) 2) = v" "quads d1 \<noteq> []"
    using args1 [of 0] args1 [of 1] d1(3) assms(2) by (auto simp: get_hex_hex8 numeral_2_eq_2 demo_sizes)
  then have "demo_step P d = Inr ?d2"
    unfolding demo_step_def d1(1) using d1(4,6) h1(1) by (simp add: quad_command_def)
  then obtain d2 where d2: "demo_step P d = Inr d2" "length (argv d2) = argv_size" "board d2 = h1"
    "stdin d2 = command_line ''quad'' [hex8 (ucast a)] @ rest"
    using d1(2,5) by simp
  obtain d3 where d3: "get_input (say ''fpgav3: '' [] d2) = Inr (Suc (length [hex8 (ucast a)]), d3)"
    "stdin d3 = rest" "board d3 = h1" "arg_at (argv d3) 0 = ''quad''"
    and args3: "\<And>i. i < length [hex8 (ucast a)] \<Longrightarrow> arg_at (argv d3) (Suc i) = [hex8 (ucast a)] ! i"
    using demo_step_line [OF d2(2) len(2) ok(2) d2(4)] d2(3) by metis
  obtain h2 where h2: "EMIO_ReadQuadlet P a h1 = Some (Some (rg h1 a), h2)" "emio_ready P pins rg h2" "rg h2 = rg h1"
    using emio.read_ok [OF h1(2)] by blast
  have "get_hex (arg_at (argv d3) 1) = ucast a" using args3 [of 0] by (simp add: get_hex_hex8)
  then have "demo_step P d2 = Inr (say ''  %08x'' [Num (uint v)] (d3\<lparr>board := h2, quads := (quads d3)[0 := v]\<rparr>))"
    unfolding demo_step_def d3(1) using d3(3,4) h2(1) h1(3) by (simp add: quad_command_def Let_def)
  with d2(1) have "demo_steps P 2 d = Inr (say ''  %08x'' [Num (uint v)] (d3\<lparr>board := h2, quads := (quads d3)[0 := v]\<rparr>))"
    by (simp add: numeral_2_eq_2)
  with d3(2) h2 h1(3) show ?thesis by (simp add: say_def)
qed

theorem typed_quad_write_then_read_witness:
  "\<exists>d'. demo_steps (emio_sim 7) 2 (idle_demo (command_line ''quad'' [hex8 12, hex8 0x02010000]
      @ command_line ''quad'' [hex8 12]) (fpga_reset (\<lambda>_. 0))) = Inr d'
    \<and> last (printed d') = Printf ''  %08x'' [Num 0x02010000]"
  using typed_quad_write_then_read [where d = "idle_demo (command_line ''quad'' [hex8 (ucast (12 :: word16)), hex8 0x02010000]
      @ command_line ''quad'' [hex8 (ucast (12 :: word16))] @ []) (fpga_reset (\<lambda>_. 0))" and a = 12
      and v = "0x02010000" and P = "emio_sim 7" and pins = fpins and rg = fregs and rest = "[]"] emio_sim_ready
  by (auto simp: idle_demo_def)


section \<open>The argument strings end in their rows\<close>

text \<open>The last column of \<open>argv\<close> is NUL in every row: what \<open>strcmp\<close>, \<open>get_hex\<close>, \<open>get_dec\<close> and the
  printing of a command rely on. Only the columns before it take typed characters.\<close>

definition demo_wf :: "'h demo \<Rightarrow> bool" where
  "demo_wf d \<longleftrightarrow> length (argv d) = argv_size
     \<and> (\<forall>r < MAX_ARG. argv d ! (r * (MAX_LINE + 1) + MAX_LINE) = NUL)"

lemma demo_wf_upd [simp]:
  "demo_wf (d\<lparr>stdin := s\<rparr>) = demo_wf d" "demo_wf (d\<lparr>printed := p\<rparr>) = demo_wf d" "demo_wf (d\<lparr>board := h\<rparr>) = demo_wf d"
  "demo_wf (say f as d) = demo_wf d" "demo_wf (d\<lparr>quads := q\<rparr>) = demo_wf d"
  "demo_wf (d\<lparr>board := h, quads := q\<rparr>) = demo_wf d"
  "demo_wf (d\<lparr>stdin := s, printed := p, argv := mem\<rparr>) = demo_wf (d\<lparr>argv := mem\<rparr>)"
  by (simp_all add: demo_wf_def say_def)

lemma put_char_wf:
  assumes "put_char r n c (argv d) = Some mem" "n < MAX_LINE \<or> c = NUL" "demo_wf d"
  shows "demo_wf (d\<lparr>argv := mem\<rparr>)"
proof -
  have p: "r < MAX_ARG" "n \<le> MAX_LINE" "mem = (argv d)[r * (MAX_LINE + 1) + n := c]"
    using assms(1) by (auto simp: put_char_def split: if_splits)
  have "mem ! (q * (MAX_LINE + 1) + MAX_LINE) = NUL" if "q < MAX_ARG" for q
    using assms(2,3) that flat_bound [OF that, of MAX_LINE] flat_index [OF p(2), of MAX_LINE r q]
    unfolding p(3) by (auto simp: demo_wf_def nth_list_update)
  then show ?thesis using assms(3) p(3) by (simp add: demo_wf_def)
qed

lemma put_NUL_wf: "put_char r n NUL (argv (say f as d)) = Some mem \<Longrightarrow> demo_wf d \<Longrightarrow> demo_wf ((say f as d)\<lparr>argv := mem\<rparr>)"
  using put_char_wf [of r n NUL "say f as d" mem] by simp

lemma get_input_loop_wf: "get_input_loop cs st d = Inr (r, d') \<Longrightarrow> demo_wf d \<Longrightarrow> demo_wf d'"
  by (induction cs st d rule: get_input_loop.induct)
    (auto simp: Let_def intro: put_char_wf split: if_splits option.splits)

lemma get_input_wf: "get_input d = Inr (n, d') \<Longrightarrow> demo_wf d \<Longrightarrow> demo_wf d'"
  by (auto simp: get_input_def Let_def intro: put_NUL_wf split: sum.splits if_splits option.splits dest!: get_input_loop_wf)

lemma quad_command_wf: "quad_command P n d = Inr d' \<Longrightarrow> demo_wf d \<Longrightarrow> demo_wf d'"
  by (auto simp: quad_command_def Let_def split: if_splits option.splits)

lemma cfor_wf: "(\<And>i d. demo_wf d \<Longrightarrow> demo_wf (f i d)) \<Longrightarrow> demo_wf d \<Longrightarrow> demo_wf (cfor lo hi 1 f d)"
  by (rule cfor_inv [where P = "\<lambda>i. demo_wf"]) auto

lemma block_command_wf: "block_command P n d = Inr d' \<Longrightarrow> demo_wf d \<Longrightarrow> demo_wf d'"
proof -
  have w: "block_write P a num m e = Inr e' \<Longrightarrow> demo_wf e \<Longrightarrow> demo_wf e'" for a num m e e'
    by (auto simp: block_write_def Let_def split: if_splits option.splits intro!: cfor_wf)
  have r: "block_read P a num e = Inr e' \<Longrightarrow> demo_wf e \<Longrightarrow> demo_wf e'" for a num e e'
    by (auto simp: block_read_def Let_def split: if_splits option.splits intro!: cfor_wf)
  show "block_command P n d = Inr d' \<Longrightarrow> demo_wf d \<Longrightarrow> demo_wf d'"
    by (auto simp: block_command_def Let_def split: if_splits dest: w r)
qed

lemma print_help_wf: "demo_wf (print_help d) = demo_wf d"
  by (simp add: print_help_def help_lines_def)

lemma demo_step_wf: "demo_step P d = Inr d' \<Longrightarrow> demo_wf d \<Longrightarrow> demo_wf d'"
  by (auto simp: demo_step_def Let_def print_help_wf split: sum.splits if_splits
      dest: quad_command_wf block_command_wf dest!: get_input_wf)

lemma arg_at_ends:
  assumes "demo_wf d" "r < MAX_ARG"
  shows "length (arg_at (argv d) r) \<le> MAX_LINE"
proof (rule ccontr)
  let ?xs = "drop (r * (MAX_LINE + 1)) (argv d)"
  assume "\<not> length (arg_at (argv d) r) \<le> MAX_LINE"
  then have l: "MAX_LINE < length (takeWhile (\<lambda>c. c \<noteq> NUL) ?xs)" by (simp add: arg_at_def)
  then have "takeWhile (\<lambda>c. c \<noteq> NUL) ?xs ! MAX_LINE \<noteq> NUL" using nth_mem set_takeWhileD by fastforce
  moreover have "?xs ! MAX_LINE = NUL" using assms flat_bound [of r MAX_LINE] by (simp add: demo_wf_def)
  ultimately show False using takeWhile_nth [OF l] by simp
qed

lemma demo_steps_wf: "demo_steps P n d = Inr d' \<Longrightarrow> demo_wf d \<Longrightarrow> demo_wf d'"
  by (induction n arbitrary: d) (auto split: sum.splits dest: demo_step_wf)

text \<open>C24. The strings in \<open>argv\<close> end in their rows: whatever is typed and whatever the hardware
  answers, after any number of turns of the program that return, each of the 20 strings has at most
  \<open>MAX_LINE\<close> characters, so no command has read beyond a row. This includes lines that were given up because
  of a word that is too long, which are left in \<open>argv\<close> without a new terminator.\<close>

theorem demo_arguments_end:
  assumes "demo_main P init version git n d = Inr d'" and "r < MAX_ARG"
  shows "length (arg_at (argv d') r) \<le> MAX_LINE"
proof (rule arg_at_ends [OF _ assms(2)])
  have "r * (MAX_LINE + 1) + MAX_LINE < MAX_ARG * (MAX_LINE + 1)" if "r < MAX_ARG" for r
    using flat_bound [OF that, of MAX_LINE] by (simp add: argv_size_def)
  then have "demo_wf (e\<lparr>argv := replicate (MAX_ARG * (MAX_LINE + 1)) NUL\<rparr>)" for e :: "'a demo"
    by (simp add: demo_wf_def argv_size_def)
  moreover have "demo_wf (e\<lparr>board := h, argv := mem\<rparr>) = demo_wf (e\<lparr>argv := mem\<rparr>)" for e :: "'a demo" and h mem
    by (simp add: demo_wf_def)
  ultimately show "demo_wf d'"
    using assms(1) by (auto simp: demo_main_def Let_def case_prod_beta elim!: demo_steps_wf)
qed

theorem demo_arguments_end_witness:
  "\<exists>d'. demo_main (emio_sim 7) id ''1.0'' ''1.0'' 2 (idle_demo [CR, SPC, CR] (fpga_reset (\<lambda>_. 0))) = Inr d'
    \<and> length (arg_at (argv d') 3) \<le> 120"
proof -
  obtain d' where d': "demo_main (emio_sim 7) id ''1.0'' ''1.0'' 2 (idle_demo [CR, SPC, CR] (fpga_reset (\<lambda>_. 0))) = Inr d'"
    by (simp add: demo_main_def numeral_2_eq_2 demo_step_def get_input_def idle_demo_def say_def put_char_def demo_sizes Let_def
        case_prod_beta)
  with demo_arguments_end [OF d', of 3] show ?thesis by (simp add: demo_sizes)
qed

end
