(* ===== verification/Cache.thy ===== *)
theory Cache
  imports Platform
begin

text \<open>
  The cache maintenance routines of memtest.c. The L1 routines walk the data cache by set and
  way and write one CP15 operation per line; the L2 routines write a command and poll the sync
  register, so they return an \<open>option\<close> (\<open>None\<close>: the controller never reports completion).
  The barriers \<open>isb\<close> and \<open>dsb\<close> have no effect in this sequential model.
\<close>

section \<open>L1 by set and way\<close>

definition csid_CacheSize :: "word32 \<Rightarrow> word32" where
  "csid_CacheSize CsidReg = ((drop_bit 13 CsidReg AND 0x1FF) + 1) * 128"

definition csid_NumWays :: "word32 \<Rightarrow> word32" where
  "csid_NumWays CsidReg = drop_bit 3 (CsidReg AND 0x3ff) + 1"

definition csid_LineSize :: "word32 \<Rightarrow> nat" where
  "csid_LineSize CsidReg = unat ((CsidReg AND 0x07) + 4)"

definition csid_NumSet :: "word32 \<Rightarrow> word32" where
  "csid_NumSet CsidReg =
     csid_CacheSize CsidReg div csid_NumWays CsidReg div push_bit (csid_LineSize CsidReg) 1"

text \<open>
  The double loop; the loop state is \<open>(Way, Set, h)\<close>. \<open>Set\<close> is advanced in the inner loop
  and never returned to 0, as in the source.
\<close>

definition L1_set_body ::
    "'h platform \<Rightarrow> cp15 \<Rightarrow> nat \<Rightarrow> word32 \<Rightarrow> int \<Rightarrow> word32 \<times> 'h \<Rightarrow> word32 \<times> 'h" where
  "L1_set_body P reg LineSize Way SetIndex = (\<lambda>(Set, h).
     let C7Reg = Way OR Set
     in (Set + push_bit LineSize 1, cp15_wr P reg C7Reg h))"

definition L1_way_body ::
    "'h platform \<Rightarrow> cp15 \<Rightarrow> nat \<Rightarrow> int \<Rightarrow> int \<Rightarrow> word32 \<times> word32 \<times> 'h \<Rightarrow> word32 \<times> word32 \<times> 'h" where
  "L1_way_body P reg LineSize NumSet WayIndex = (\<lambda>(Way, Set, h).
     let (Set, h) = cfor 0 NumSet 1 (L1_set_body P reg LineSize Way) (Set, h)
     in (Way + 0x40000000, Set, h))"

definition L1_setway :: "'h platform \<Rightarrow> cp15 \<Rightarrow> 'h \<Rightarrow> 'h" where
  "L1_setway P reg h =
     (let h = cp15_wr P CP15_CACHE_SIZE_SEL 0 h;
          CsidReg = cp15_rd P CP15_CACHE_SIZE_ID h;
          (_, _, h) = cfor 0 (uint (csid_NumWays CsidReg)) 1
             (L1_way_body P reg (csid_LineSize CsidReg) (uint (csid_NumSet CsidReg))) (0, 0, h)
      in h)"

definition L1DCacheInvalidate :: "'h platform \<Rightarrow> 'h \<Rightarrow> 'h" where
  "L1DCacheInvalidate P h = L1_setway P CP15_INVAL_DC_LINE_SW h"

definition L1DCacheFlush :: "'h platform \<Rightarrow> 'h \<Rightarrow> 'h" where
  "L1DCacheFlush P h = L1_setway P CP15_CLEAN_INVAL_DC_LINE_SW h"

section \<open>L2 and the combined flush\<close>

partial_function (option) L2_sync_wait :: "'h platform \<Rightarrow> 'h \<Rightarrow> 'h option" where
  "L2_sync_wait P h =
     (if fst (rd32 P (l2cc_sync P) h) = 0 then Some (snd (rd32 P (l2cc_sync P) h))
      else L2_sync_wait P (snd (rd32 P (l2cc_sync P) h)))"

definition L2CacheInvalidate :: "'h platform \<Rightarrow> 'h \<Rightarrow> 'h option" where
  "L2CacheInvalidate P h = L2_sync_wait P (wr32 P (l2cc_invld_way P) 0x0000FFFF h)"

definition L2CacheFlush :: "'h platform \<Rightarrow> 'h \<Rightarrow> 'h option" where
  "L2CacheFlush P h = L2_sync_wait P (wr32 P (l2cc_inv_cln_way P) 0x0000FFFF h)"

definition DCacheInvalidate :: "'h platform \<Rightarrow> 'h \<Rightarrow> 'h option" where
  "DCacheInvalidate P h = L2CacheFlush P (L1DCacheFlush P h)"

definition cache_ctrl :: "'h platform \<Rightarrow> bool \<Rightarrow> bool \<Rightarrow> 'h \<Rightarrow> 'h" where
  "cache_ctrl P d i h =
     (let cr1 = cp15_rd P CP15_SYS_CONTROL h;
          cr1 = (if d then cr1 OR 3 else cr1 AND NOT 3);
          cr1 = (if i then cr1 OR push_bit 12 1 else cr1 AND NOT (push_bit 12 1))
      in cp15_wr P CP15_SYS_CONTROL cr1 h)"

definition l2_ctrl :: "'h platform \<Rightarrow> word32 \<Rightarrow> 'h \<Rightarrow> 'h" where
  "l2_ctrl P val h = wr32 P (0xF8F02000 + 0x0100) val h"

end
