(* ===== verification/MemState.thy ===== *)
theory MemState
  imports Complex_Main Cache
begin

text \<open>
  The global variables of memtest.c as a record, the register accessors, the timer routines and
  the bit-field and LFSR helpers.

  The error counters \<open>werr\<close> and \<open>errcnt\<close>, which a long run on a broken memory overflows, are 32-bit
  words that wrap and are read with \<open>sint\<close>; data, addresses and masks are 32-bit words. \<open>epp\<close> is an
  integer: one run adds each of \<open>2 ^ 0\<close> to \<open>2 ^ 14\<close> at most once. \<open>double\<close> values (clock frequency, times) are exact rationals. \<open>err_buf\<close> is the memory
  around the array of that name, indexed relative to its start, so an index outside
  \<open>0..255\<close> denotes the neighbouring memory the C code would touch; \<open>err_buf_addr\<close> is the
  address the linker gives it. Console output is not modelled.
\<close>

record 'h mt =
  hw :: 'h
  werr :: word32
  epp :: int
  errcnt :: "word32 list"
  err_buf :: "int \<Rightarrow> word32"
  err_buf_addr :: word32
  qmask :: word32
  bus_width :: int
  verbose :: word32
  rseed :: word32
  memtest_stat :: int
  fast_is_bc :: int
  csv_mode :: int
  pclk :: rat
  test_time :: rat
  total_test_time :: rat
  pat1 :: "word32 list"
  pat2 :: "word32 list"
  reg_values :: "(word32 \<times> word32) list"
  iob_values :: "(word32 \<times> word32) list"
  dlist :: "word32 list"
  gresult :: "int list"
  q1 :: "int list"
  q2 :: "int list"
  q3 :: "int list"
  q4 :: "int list"

text \<open>The initial values. The two register tables are arguments; their addresses are in
  theory \<open>RegList\<close>.\<close>

definition mt_init :: "(word32 \<times> word32) list \<Rightarrow> (word32 \<times> word32) list \<Rightarrow> word32 \<Rightarrow> 'h \<Rightarrow> 'h mt" where
  "mt_init regs iobs buf h = \<lparr>hw = h, werr = 0, epp = 0, errcnt = [0, 0, 0, 0], err_buf = (\<lambda>_. 0),
     err_buf_addr = buf, qmask = 0xffffffff, bus_width = 32, verbose = 1, rseed = 0,
     memtest_stat = 1, fast_is_bc = 0, csv_mode = 0, pclk = 11111111 / 100000, test_time = 0,
     total_test_time = 0, pat1 = replicate 128 0, pat2 = replicate 128 0, reg_values = regs,
     iob_values = iobs, dlist = replicate 8 0, gresult = replicate 200 0, q1 = replicate 21 0,
     q2 = replicate 21 0, q3 = replicate 21 0, q4 = replicate 21 0\<rparr>"

lemma mt_init_sel [simp]:
  "hw (mt_init regs iobs buf h) = h" "reg_values (mt_init regs iobs buf h) = regs"
  "iob_values (mt_init regs iobs buf h) = iobs" "dlist (mt_init regs iobs buf h) = replicate 8 0"
  "errcnt (mt_init regs iobs buf h) = [0, 0, 0, 0]" "qmask (mt_init regs iobs buf h) = 0xffffffff"
  by (simp_all add: mt_init_def)

section \<open>Register access\<close>

definition REG_READ :: "'h platform \<Rightarrow> word32 \<Rightarrow> 'h mt \<Rightarrow> word32 \<times> 'h mt" where
  "REG_READ P a s = (let (v, h) = rd32 P a (hw s) in (v, s\<lparr>hw := h\<rparr>))"

definition REG_WRITE :: "'h platform \<Rightarrow> word32 \<Rightarrow> word32 \<Rightarrow> 'h mt \<Rightarrow> 'h mt" where
  "REG_WRITE P a v s = s\<lparr>hw := wr32 P a v (hw s)\<rparr>"

definition MAILBOX_STAT :: word32 where "MAILBOX_STAT = 0xF8001024 + 0x08"
definition MAILBOX_RESULT :: word32 where "MAILBOX_RESULT = 0xF8001024 + 0x14"
definition ERR_INFO :: word32 where "ERR_INFO = 0xE000B080"

lemma REG_READ_sel:
  "fst (REG_READ P a s) = fst (rd32 P a (hw s))"
  "snd (REG_READ P a s) = s\<lparr>hw := snd (rd32 P a (hw s))\<rparr>"
  by (simp_all add: REG_READ_def case_prod_beta)

section \<open>Timer\<close>

definition timer_init :: "'h platform \<Rightarrow> 'h mt \<Rightarrow> 'h mt" where
  "timer_init P s =
     (let base = 0xf8002000
      in REG_WRITE P (base + 0x0c) (push_bit 4 1 + push_bit 5 1)
           (REG_WRITE P (base + 0) (1 + push_bit 1 15) s))"

definition timer_read :: "'h platform \<Rightarrow> 'h mt \<Rightarrow> word32 \<times> 'h mt" where
  "timer_read P s = REG_READ P (0xf8002000 + 0x18) s"

definition timer_value :: "word32 \<Rightarrow> rat \<Rightarrow> rat" where
  "timer_value t fpclk = of_int (sint t) * 65536 / (fpclk * 1000000)"

section \<open>Bit fields\<close>

fun ones_mask :: "nat \<Rightarrow> word32 \<Rightarrow> word32" where
  "ones_mask 0 m = m"
| "ones_mask (Suc left) m = ones_mask left (push_bit 1 m OR 1)"

definition get_bit_field :: "word32 \<Rightarrow> nat \<Rightarrow> nat \<Rightarrow> word32" where
  "get_bit_field x bstart bwidth =
     (let msk = ones_mask bwidth 0 in signed_drop_bit bstart x AND msk)"

definition set_bit_field :: "word32 \<Rightarrow> nat \<Rightarrow> nat \<Rightarrow> word32 \<Rightarrow> word32" where
  "set_bit_field data lsb width val =
     (let msk = ones_mask width 0;
          sh_mask = push_bit lsb msk
      in (data AND NOT sh_mask) + push_bit lsb (val AND msk))"

section \<open>LFSR\<close>

text \<open>
  \<open>>>\<close> on \<open>int\<close> is the arithmetic shift of the ARM compiler; only single bits of the shifted
  value are used.
\<close>

definition YLFSR :: "word32 \<Rightarrow> word32" where
  "YLFSR a = push_bit 1 a
     + (((signed_drop_bit 30 a AND 1) XOR (signed_drop_bit 27 a AND 1)) XOR 1)"

definition calc_value :: "word32 \<Rightarrow> word32" where
  "calc_value lfsr =
     (let lsb = (signed_drop_bit 30 lfsr AND 1) XOR (signed_drop_bit 27 lfsr AND 1);
          lsb = lsb XOR 1
      in push_bit 1 lfsr + lsb)"

end
