(* ===== verification/Memtest.thy ===== *)
theory Memtest
  imports MemState
begin

text \<open>
  The memory tests of memtest.c: the shared fragments (error record, per-lane comparison, end of
  a test), the four tests, and \<open>memtest_all\<close>, which runs the selected ones.

  A test returns an \<open>option\<close> because the cache flush between its write pass and its read pass
  polls the L2 controller. Loop counters and the error counters local to a test are integers (a test
  counts each word once, and there are fewer than \<open>2 ^ 29\<close>); the global error counters, addresses
  and data are 32-bit words. The progress dots and the printed table are not modelled. All tests return 0, so
  the return value is left out.
\<close>

section \<open>Shared fragments\<close>

text \<open>\<open>error_info\<close> stores at \<open>3 * (werr - 1)\<close>, whatever the value of \<open>werr\<close>.\<close>

definition error_info ::
    "'h platform \<Rightarrow> word32 \<Rightarrow> word32 \<Rightarrow> word32 \<Rightarrow> 'h mt \<Rightarrow> 'h mt" where
  "error_info P addr wrdat rddat s =
     (let s = (if sint (werr s) \<le> 1
               then REG_WRITE P (ERR_INFO + 8) rddat
                      (REG_WRITE P (ERR_INFO + 4) wrdat (REG_WRITE P ERR_INFO addr s))
               else s)
      in if sint (werr s) \<le> 80
         then (let n = sint (werr s) - 1
               in s\<lparr>err_buf := (err_buf s)(3 * n := addr, 3 * n + 1 := wrdat, 3 * n + 2 := rddat)\<rparr>)
         else s)"

text \<open>The four byte-lane comparisons.\<close>

definition lane_errors :: "word32 \<Rightarrow> word32 \<Rightarrow> int list \<Rightarrow> int list" where
  "lane_errors data ref l =
     (let l = (if data AND 0x000000ff \<noteq> ref AND 0x000000ff then l[0 := l ! 0 + 1] else l);
          l = (if data AND 0x0000ff00 \<noteq> ref AND 0x0000ff00 then l[1 := l ! 1 + 1] else l);
          l = (if data AND 0x00ff0000 \<noteq> ref AND 0x00ff0000 then l[2 := l ! 2 + 1] else l);
          l = (if data AND 0xff000000 \<noteq> ref AND 0xff000000 then l[3 := l ! 3 + 1] else l)
      in l)"

text \<open>
  The comparison of one word; the state is \<open>(merr, lerrcnt, s)\<close>. \<open>eaddr\<close> is the address the
  caller hands to \<open>error_info\<close>.
\<close>

definition compare_word ::
    "'h platform \<Rightarrow> word32 \<Rightarrow> word32 \<Rightarrow> word32 \<Rightarrow> int \<times> int list \<times> 'h mt \<Rightarrow> int \<times> int list \<times> 'h mt"
where
  "compare_word P eaddr ref data = (\<lambda>(merr, lerrcnt, s).
     if data \<noteq> ref
     then (merr + 1, lane_errors data ref lerrcnt,
           error_info P eaddr ref data (s\<lparr>werr := werr s + 1\<rparr>))
     else (merr, lerrcnt, s))"

definition lots_of_errors :: "int list \<Rightarrow> bool" where
  "lots_of_errors l \<longleftrightarrow> l ! 0 > 1000 \<and> l ! 1 > 1000 \<and> l ! 2 > 1000 \<and> l ! 3 > 1000"

definition test_begin :: "'h platform \<Rightarrow> int \<Rightarrow> 'h mt \<Rightarrow> 'h mt" where
  "test_begin P mode s =
     timer_init P
       (if memtest_stat s \<noteq> 0 then REG_WRITE P MAILBOX_STAT (of_int (100 + mode)) s else s)"

definition test_end :: "'h platform \<Rightarrow> int \<Rightarrow> int \<times> int list \<times> 'h mt \<Rightarrow> 'h mt" where
  "test_end P mode = (\<lambda>(merr, lerrcnt, s).
     let (t, s) = timer_read P s;
         s = s\<lparr>test_time := timer_value t (pclk s)\<rparr>;
         s = s\<lparr>total_test_time := total_test_time s + test_time s\<rparr>;
         s = s\<lparr>errcnt := map (\<lambda>i. errcnt s ! i + of_int (lerrcnt ! i)) [0, 1, 2, 3]\<rparr>
     in if merr > 0 then s\<lparr>epp := epp s + 2 ^ nat mode\<rparr> else s)"

definition mt_flush :: "'h platform \<Rightarrow> 'h mt \<Rightarrow> 'h mt option" where
  "mt_flush P s = map_option (\<lambda>h. s\<lparr>hw := h\<rparr>) (DCacheInvalidate P (hw s))"

section \<open>memtest\_readonly\<close>

definition memtest_readonly :: "'h platform \<Rightarrow> word32 \<Rightarrow> int \<Rightarrow> 'h mt \<Rightarrow> 'h mt" where
  "memtest_readonly P start sz s =
     cfor 0 sz 4 (\<lambda>i s. let addr = start + of_int i in snd (REG_READ P addr s)) s"

section \<open>memtest\_simple\<close>

definition simple_write_body ::
    "'h platform \<Rightarrow> word32 \<Rightarrow> word32 list \<Rightarrow> int \<Rightarrow> 'h mt \<Rightarrow> 'h mt" where
  "simple_write_body P start dat i s =
     (let addr = start + of_int i;
          s = REG_WRITE P addr (dat ! 0) s;
          s = REG_WRITE P (addr + 4) (dat ! 1) s;
          s = REG_WRITE P (addr + 8) (dat ! 2) s
      in REG_WRITE P (addr + 12) (dat ! 3) s)"

definition simple_read_word ::
    "'h platform \<Rightarrow> word32 \<Rightarrow> word32 list \<Rightarrow> nat \<Rightarrow> int \<times> int list \<times> 'h mt \<Rightarrow> int \<times> int list \<times> 'h mt"
where
  "simple_read_word P addr dat j = (\<lambda>(merr, lerrcnt, s).
     let (data, s) = REG_READ P (addr + 4 * of_nat j) s
     in compare_word P (addr + 4 + of_nat j) (dat ! j) data (merr, lerrcnt, s))"

definition simple_read_body ::
    "'h platform \<Rightarrow> word32 \<Rightarrow> word32 list \<Rightarrow> int \<Rightarrow> int \<times> int list \<times> 'h mt
      \<Rightarrow> bool \<times> int \<times> int list \<times> 'h mt"
where
  "simple_read_body P start dat i st =
     (let addr = start + of_int i;
          st = fold (simple_read_word P addr dat) [0, 1, 2, 3] st;
          (merr, lerrcnt, s) = st
      in (merr \<noteq> 0 \<and> lots_of_errors lerrcnt, st))"

definition memtest_simple ::
    "'h platform \<Rightarrow> word32 \<Rightarrow> int \<Rightarrow> int \<Rightarrow> int \<Rightarrow> word32 \<Rightarrow> word32 \<Rightarrow> word32 \<Rightarrow> word32
      \<Rightarrow> 'h mt \<Rightarrow> 'h mt option"
where
  "memtest_simple P start sz mode loop d0 d1 d2 d3 s =
     (let dat = [d0 AND qmask s, d1 AND qmask s, d2 AND qmask s, d3 AND qmask s];
          s = test_begin P mode s;
          s = cfor 0 sz 16 (simple_write_body P start dat) s
      in do {
        s \<leftarrow> mt_flush P s;
        if loop = - 1 then Some s
        else Some (test_end P mode
               (cfor_brk 0 sz 16 (simple_read_body P start dat) (0, [0, 0, 0, 0], s)))
      })"

section \<open>memtest\_lfsr\<close>

definition lfsr_seed :: "int \<Rightarrow> int \<Rightarrow> word32 \<Rightarrow> word32" where
  "lfsr_seed loop mode rs = 0x12345678 + of_int loop + 19 * of_int mode + rs"

definition lfsr_write_body ::
    "'h platform \<Rightarrow> word32 \<Rightarrow> int \<Rightarrow> word32 \<times> 'h mt \<Rightarrow> word32 \<times> 'h mt" where
  "lfsr_write_body P start i = (\<lambda>(randval, s).
     let addr = start + of_int i;
         randval = YLFSR randval;
         ref = randval AND qmask s
     in (randval, REG_WRITE P addr ref s))"

definition lfsr_read_body ::
    "'h platform \<Rightarrow> word32 \<Rightarrow> int \<Rightarrow> word32 \<times> int \<times> int list \<times> 'h mt
      \<Rightarrow> bool \<times> word32 \<times> int \<times> int list \<times> 'h mt"
where
  "lfsr_read_body P start i = (\<lambda>(randval, merr, lerrcnt, s).
     let addr = start + of_int i;
         randval = YLFSR randval;
         ref = randval AND qmask s;
         (data, s) = REG_READ P addr s;
         (merr, lerrcnt, s) = compare_word P addr ref data (merr, lerrcnt, s)
     in (merr \<noteq> 0 \<and> lots_of_errors lerrcnt, randval, merr, lerrcnt, s))"

definition memtest_lfsr ::
    "'h platform \<Rightarrow> word32 \<Rightarrow> int \<Rightarrow> int \<Rightarrow> int \<Rightarrow> 'h mt \<Rightarrow> 'h mt option" where
  "memtest_lfsr P start sz mode loop s =
     (let s = s\<lparr>rseed := rseed s + 0x017c1e23\<rparr>;
          s = test_begin P mode s;
          (_, s) = cfor 0 sz 4 (lfsr_write_body P start) (lfsr_seed loop mode (rseed s), s)
      in do {
        s \<leftarrow> mt_flush P s;
        let (_, st) = cfor_brk 0 sz 4 (lfsr_read_body P start)
              (lfsr_seed loop mode (rseed s), 0, [0, 0, 0, 0], s);
        Some (test_end P mode st)
      })"

section \<open>memtest\_pat128\<close>

definition pat_ref :: "word32 list \<Rightarrow> word32 \<Rightarrow> int \<Rightarrow> word32" where
  "pat_ref pat qm i = (let mod128 = nat ((drop_bit 2 i) AND 0x07f) in pat ! mod128 AND qm)"

definition pat_write_body ::
    "'h platform \<Rightarrow> word32 \<Rightarrow> word32 list \<Rightarrow> int \<Rightarrow> 'h mt \<Rightarrow> 'h mt" where
  "pat_write_body P start pat i s =
     (let addr = start + of_int i in REG_WRITE P addr (pat_ref pat (qmask s) i) s)"

definition pat_read_body ::
    "'h platform \<Rightarrow> word32 \<Rightarrow> word32 list \<Rightarrow> int \<Rightarrow> int \<times> int list \<times> 'h mt
      \<Rightarrow> bool \<times> int \<times> int list \<times> 'h mt"
where
  "pat_read_body P start pat i = (\<lambda>(merr, lerrcnt, s).
     let addr = start + of_int i;
         ref = pat_ref pat (qmask s) i;
         (data, s) = REG_READ P addr s;
         (merr, lerrcnt, s) = compare_word P addr ref data (merr, lerrcnt, s)
     in (merr \<noteq> 0 \<and> lots_of_errors lerrcnt, merr, lerrcnt, s))"

definition memtest_pat128 ::
    "'h platform \<Rightarrow> word32 \<Rightarrow> int \<Rightarrow> int \<Rightarrow> word32 list \<Rightarrow> 'h mt \<Rightarrow> 'h mt option" where
  "memtest_pat128 P start sz mode pat s =
     (let s = test_begin P mode s;
          s = cfor 0 sz 4 (pat_write_body P start pat) s
      in do {
        s \<leftarrow> mt_flush P s;
        Some (test_end P mode
          (cfor_brk 0 sz 4 (pat_read_body P start pat) (0, [0, 0, 0, 0], s)))
      })"

section \<open>memtest\<close>

definition pattern1 :: "word32 list" where
  "pattern1 = [
     0x00000000, 0x00000000, 0xFFFFFFFF, 0x00000000,
     0x00000000, 0xFFFFFFFF, 0x00000000, 0xFFFFFFFF,
     0xFFFFFFFF, 0xFFFFFFFF, 0x00000000, 0xFFFFFFFF,
     0xFFFFFFFF, 0x00000000, 0xFFFFFFFF, 0x00000000]"

definition pattern1_16bit :: "word32 list" where
  "pattern1_16bit = [
     0x00000000, 0x0000FFFF, 0xFFFF0000, 0xFFFF0000,
     0xFFFFFFFF, 0xFFFF0000, 0x0000FFFF, 0x0000FFFF,
     0x00000000, 0x0000FFFF, 0xFFFF0000, 0xFFFF0000,
     0xFFFFFFFF, 0xFFFF0000, 0x0000FFFF, 0x0000FFFF]"

definition invertmask :: "word32 list" where
  "invertmask = [
     0x01010101, 0x02020202, 0x04040404, 0x08080808,
     0x10101010, 0x20202020, 0x40404040, 0x80808080]"

text \<open>The reference word of \<open>memtest\<close> and the next \<open>randval\<close>.\<close>

definition memtest_ref :: "int \<Rightarrow> word32 \<Rightarrow> word32 \<Rightarrow> int \<Rightarrow> word32 \<Rightarrow> word32 \<times> word32" where
  "memtest_ref mode qm addr i randval =
     (let mod16 = nat (drop_bit 2 i AND 0x0f);
          imaski = nat (drop_bit 6 i AND 0x07)
      in if mode = 0 then (addr AND qm, randval)
         else if mode = 1 then (0, randval)
         else if mode = 2 then (0xffffffff, randval)
         else if mode = 3 then (0xAAAAAAAA, randval)
         else if mode = 4 then (0x55555555, randval)
         else if mode = 5 then (if i AND 4 \<noteq> 0 then 0xffffffff else 0, randval)
         else if mode = 6 then (if i AND 4 \<noteq> 0 then 0 else 0xffffffff, randval)
         else if mode = 7 then (if i AND 4 \<noteq> 0 then 0xaaaaaaaa else 0x55555555, randval)
         else if mode = 8 then (if i AND 4 \<noteq> 0 then 0x55555555 else 0xaaaaaaaa, randval)
         else if mode = 9 then (pattern1 ! mod16, randval)
         else if mode = 10 then (pattern1 ! mod16 XOR invertmask ! imaski, randval)
         else (let randval = calc_value randval in (randval, randval)))"

definition memtest_write_body ::
    "'h platform \<Rightarrow> word32 \<Rightarrow> int \<Rightarrow> int \<Rightarrow> word32 \<times> 'h mt \<Rightarrow> word32 \<times> 'h mt" where
  "memtest_write_body P start mode i = (\<lambda>(randval, s).
     let addr = start + of_int i;
         (ref, randval) = memtest_ref mode (qmask s) addr i randval
     in (randval, REG_WRITE P addr ref s))"

definition memtest_read_body ::
    "'h platform \<Rightarrow> word32 \<Rightarrow> int \<Rightarrow> int \<Rightarrow> word32 \<times> int \<times> int list \<times> 'h mt
      \<Rightarrow> bool \<times> word32 \<times> int \<times> int list \<times> 'h mt"
where
  "memtest_read_body P start mode i = (\<lambda>(randval, merr, lerrcnt, s).
     let addr = start + of_int i;
         (ref, randval) = memtest_ref mode (qmask s) addr i randval;
         (data, s) = REG_READ P addr s;
         (merr, lerrcnt, s) = compare_word P addr ref data (merr, lerrcnt, s)
     in (lots_of_errors lerrcnt, randval, merr, lerrcnt, s))"

text \<open>The two values of the outer loop counter \<open>rd\<close>, each pass followed by a cache flush.\<close>

definition memtest :: "'h platform \<Rightarrow> word32 \<Rightarrow> int \<Rightarrow> int \<Rightarrow> int \<Rightarrow> 'h mt \<Rightarrow> 'h mt option" where
  "memtest P start sz mode loop s =
     (let s = test_begin P mode s;
          randval = 0x12345678 + of_int loop + 19 * of_int mode;
          (_, s) = cfor 0 sz 4 (memtest_write_body P start mode) (randval, s)
      in do {
        s \<leftarrow> mt_flush P s;
        let (_, merr, lerrcnt, s) = cfor_brk 0 sz 4 (memtest_read_body P start mode)
              (randval, 0, [0, 0, 0, 0], s);
        s \<leftarrow> mt_flush P s;
        Some (test_end P mode (merr, lerrcnt, s))
      })"

end
