(* ===== verification/MemtestAll.thy ===== *)
theory MemtestAll
  imports Memtest
begin

text \<open>
  \<open>memtest_all\<close> and the small routines around it: the 128-word patterns, the bus width, the
  I/O buffer modes, and the upload of the results to the mailbox.

  The sequence of \<open>if (sel & bit) rc = test(\<dots>)\<close> statements is the list \<open>test_table\<close>, run in
  order by \<open>run_tests\<close>; a test that does not return stops the sequence.
\<close>

section \<open>The test sequence\<close>

type_synonym 'h test = "'h mt \<Rightarrow> 'h mt option"

primrec run_tests :: "word32 \<Rightarrow> (word32 \<times> 'h test) list \<Rightarrow> 'h test" where
  "run_tests sel [] s = Some s"
| "run_tests sel (bt # ts) s =
     (if sel AND fst bt \<noteq> 0
      then (case snd bt s of None \<Rightarrow> None | Some s' \<Rightarrow> run_tests sel ts s')
      else run_tests sel ts s)"

definition wide_or_narrow :: "'h test \<Rightarrow> 'h test \<Rightarrow> 'h test" where
  "wide_or_narrow w n s = (if bus_width s = 32 then w s else n s)"

definition test_table :: "'h platform \<Rightarrow> word32 \<Rightarrow> int \<Rightarrow> int \<Rightarrow> (word32 \<times> 'h test) list" where
  "test_table P test_start test_size lp = [
     (0x0001, memtest P test_start test_size 0 lp),
     (0x0002, memtest_simple P test_start test_size 1 lp 0 0 0 0),
     (0x0004, memtest_simple P test_start test_size 2 lp 0xFFFFFFFF 0xFFFFFFFF 0xFFFFFFFF 0xFFFFFFFF),
     (0x0008, memtest_simple P test_start test_size 3 lp 0xAAAAAAAA 0xAAAAAAAA 0xAAAAAAAA 0xAAAAAAAA),
     (0x0010, memtest_simple P test_start test_size 4 lp 0x55555555 0x55555555 0x55555555 0x55555555),
     (0x0020, wide_or_narrow
        (memtest_simple P test_start test_size 5 lp 0 0xFFFFFFFF 0 0xFFFFFFFF)
        (memtest_simple P test_start test_size 5 lp 0xFFFF0000 0xFFFF0000 0xFFFF0000 0xFFFF0000)),
     (0x0040, wide_or_narrow
        (memtest_simple P test_start test_size 6 lp 0xFFFFFFFF 0 0xFFFFFFFF 0)
        (memtest_simple P test_start test_size 6 lp 0x0000FFFF 0x0000FFFF 0x0000FFFF 0x0000FFFF)),
     (0x0080, wide_or_narrow
        (memtest_simple P test_start test_size 7 lp 0x55555555 0xAAAAAAAA 0x55555555 0xAAAAAAAA)
        (memtest_simple P test_start test_size 7 lp 0xAAAA5555 0xAAAA5555 0xAAAA5555 0xAAAA5555)),
     (0x0100, wide_or_narrow
        (memtest_simple P test_start test_size 8 lp 0xAAAAAAAA 0x55555555 0xAAAAAAAA 0x55555555)
        (memtest_simple P test_start test_size 8 lp 0x5555AAAA 0x5555AAAA 0x5555AAAA 0x5555AAAA)),
     (0x0200, \<lambda>s. memtest_pat128 P test_start test_size 9 (pat1 s) s),
     (0x0400, \<lambda>s. memtest_pat128 P test_start test_size 10 (pat2 s) s),
     (0x0800, memtest_lfsr P test_start test_size 11 lp),
     (0x1000, memtest_lfsr P test_start test_size 12 lp),
     (0x2000, memtest_lfsr P test_start test_size 13 lp),
     (0x4000, memtest_lfsr P test_start test_size 14 lp)]"

section \<open>memtest\_all\<close>

definition memtest_all_init :: "'h platform \<Rightarrow> 'h mt \<Rightarrow> 'h mt" where
  "memtest_all_init P s =
     (let s = s\<lparr>werr := 0, epp := 0\<rparr>;
          s = error_info P 0 0 0 s;
          s = REG_WRITE P (ERR_INFO + 16) (err_buf_addr s) s;
          s = s\<lparr>err_buf := (\<lambda>j. if 0 \<le> j \<and> j < 250 then 0 else err_buf s j)\<rparr>;
          s = s\<lparr>errcnt := [0, 0, 0, 0]\<rparr>
      in s\<lparr>total_test_time := 0\<rparr>)"

definition memtest_all ::
    "'h platform \<Rightarrow> word32 \<Rightarrow> int \<Rightarrow> word32 \<Rightarrow> int \<Rightarrow> 'h mt \<Rightarrow> 'h mt option" where
  "memtest_all P test_start test_size sel lp s = do {
     s \<leftarrow> run_tests sel (test_table P test_start test_size lp) (memtest_all_init P s);
     Some (REG_WRITE P (ERR_INFO + 24) (of_int (epp s)) s)
   }"

section \<open>Results, patterns, bus width\<close>

definition clamp16 :: "int \<Rightarrow> int" where
  "clamp16 a = (if a > 0x0ffff then 0x0ffff else a)"

definition upload_memtest_results :: "'h platform \<Rightarrow> 'h mt \<Rightarrow> 'h mt" where
  "upload_memtest_results P s =
     (let s = fold (\<lambda>i s. REG_WRITE P (MAILBOX_RESULT + 4 * of_nat i)
                (of_int (clamp16 (sint (errcnt s ! i)))) s) [0, 1, 2, 3] s
      in REG_WRITE P (MAILBOX_RESULT + 4 * 4) (of_int (clamp16 (sint (werr s)))) s)"

definition update_patterns :: "'h mt \<Rightarrow> 'h mt" where
  "update_patterns s =
     (let base = (if bus_width s = 32 then pattern1 else pattern1_16bit)
      in s\<lparr>pat1 := map (\<lambda>i. base ! (i AND 15)) [0..<128],
           pat2 := map (\<lambda>i. let imaski = drop_bit 4 i AND 0x07
                            in base ! (i AND 15) XOR invertmask ! imaski) [0..<128]\<rparr>)"

definition R00 :: word32 where "R00 = 0xF8006000 + 0"

definition check_bus_width :: "'h platform \<Rightarrow> 'h mt \<Rightarrow> 'h mt" where
  "check_bus_width P s =
     (let (a, s) = REG_READ P R00 s;
          bw = get_bit_field a 2 2;
          s = s\<lparr>bus_width := (if bw = 1 then 16 else 32)\<rparr>
      in update_patterns s)"

definition clear_tdm_idm :: "'h platform \<Rightarrow> 'h mt \<Rightarrow> 'h mt" where
  "clear_tdm_idm P s =
     fold (\<lambda>i s. let (data, s) = REG_READ P (0xF8000B48 + 4 * of_nat i) s
                 in REG_WRITE P (0xF8000B48 + 4 * of_nat i) (data AND 0xFFFFFE7F) s) [0, 1, 2, 3::nat] s"

end
