(* ===== verification/RegList.thy ===== *)
theory RegList
  imports MemState
begin

text \<open>
  Bit fields of 32-bit registers and the lists of address-data pairs that memtest.c keeps for the
  DDR controller and its I/O buffers. A list is a list of pairs; the routines receive its length
  as \<open>listsize\<close>, which every caller sets to the size of the array.
\<close>

section \<open>Register lists\<close>

type_synonym reglist = "(word32 \<times> word32) list"

primrec update_reglist :: "reglist \<Rightarrow> word32 \<Rightarrow> nat \<Rightarrow> nat \<Rightarrow> word32 \<Rightarrow> reglist" where
  "update_reglist [] addr lsb width val = []"
| "update_reglist (e # es) addr lsb width val =
     (let (laddr, ldata) = e
      in if laddr = addr then (laddr, set_bit_field ldata lsb width val) # es
         else e # update_reglist es addr lsb width val)"

text \<open>The first argument is the value of \<open>ldata\<close> so far: without a match the loop leaves the
  last entry's data in it.\<close>

primrec reglist_scan :: "word32 \<Rightarrow> reglist \<Rightarrow> word32 \<Rightarrow> nat \<Rightarrow> nat \<Rightarrow> word32" where
  "reglist_scan ldata [] addr lsb width = ldata"
| "reglist_scan ldata (e # es) addr lsb width =
     (let (laddr, ldata) = e
      in if laddr = addr then get_bit_field ldata lsb width
         else reglist_scan ldata es addr lsb width)"

definition get_reglist_value :: "reglist \<Rightarrow> word32 \<Rightarrow> nat \<Rightarrow> nat \<Rightarrow> word32" where
  "get_reglist_value l addr lsb width = reglist_scan (- 1) l addr lsb width"

section \<open>The tables\<close>

text \<open>The addresses of \<open>ddriob_reg_values\<close> and \<open>ddrc_reg_values\<close>; the data start as 0.\<close>

definition ddriob_addrs :: "word32 list" where
  "ddriob_addrs = [
     0xf8000b40, 0xf8000b44, 0xf8000b48, 0xf8000b4c, 0xf8000b50, 0xf8000b54, 0xf8000b58, 0xf8000b5c,
     0xf8000b60, 0xf8000b64, 0xf8000b68, 0xf8000b6c, 0xf8000b70, 0xf8000b70, 0xf8000b70]"

definition ddrc_addrs :: "word32 list" where
  "ddrc_addrs = [
     0xf8006000, 0xf8006004, 0xf8006008, 0xf800600c, 0xf8006010, 0xf8006014, 0xf8006018, 0xf800601c,
     0xf8006020, 0xf8006024, 0xf8006028, 0xf800602c, 0xf8006030, 0xf8006034, 0xf8006038, 0xf800603c,
     0xf8006040, 0xf8006044, 0xf8006048, 0xf8006050, 0xf8006058, 0xf800605c, 0xf8006060, 0xf8006064,
     0xf8006068, 0xf800606c, 0xf80060a0, 0xf80060a4, 0xf80060a8, 0xf80060ac, 0xf80060b0, 0xf80060b4,
     0xf80060b8, 0xf80060bc, 0xf80060c4, 0xf80060c8, 0xf80060dc, 0xf80060f0, 0xf80060f4, 0xf8006114,
     0xf8006118, 0xf800611c, 0xf8006120, 0xf8006124, 0xf800612c, 0xf8006130, 0xf8006134, 0xf8006138,
     0xf8006140, 0xf8006144, 0xf8006148, 0xf800614c, 0xf8006154, 0xf8006158, 0xf800615c, 0xf8006160,
     0xf8006168, 0xf800616c, 0xf8006170, 0xf8006174, 0xf800617c, 0xf8006180, 0xf8006184, 0xf8006188,
     0xf8006190, 0xf8006194, 0xf8006204, 0xf8006208, 0xf800620c, 0xf8006210, 0xf8006214, 0xf8006218,
     0xf800621c, 0xf8006220, 0xf8006224, 0xf80062a8, 0xf80062ac, 0xf80062b0, 0xf80062b4, 0xf8006000]"

definition ddrc_table0 :: reglist where "ddrc_table0 = map (\<lambda>a. (a, 0)) ddrc_addrs"
definition ddriob_table0 :: reglist where "ddriob_table0 = map (\<lambda>a. (a, 0)) ddriob_addrs"

section \<open>Reading and writing the tables\<close>

definition ddrc_init :: "'h platform \<Rightarrow> 'h mt \<Rightarrow> 'h mt" where
  "ddrc_init P s = fold (\<lambda>(addr, data) s. REG_WRITE P addr data s) (reg_values s) s"

fun ddriob_get_loop :: "'h platform \<Rightarrow> reglist \<Rightarrow> 'h mt \<Rightarrow> reglist \<times> 'h mt" where
  "ddriob_get_loop P [] s = ([], s)"
| "ddriob_get_loop P ((addr, _) # es) s =
     (let (data, s) = REG_READ P addr s;
          s = REG_WRITE P addr data s;
          (es', s) = ddriob_get_loop P es s
      in ((addr, data) # es', s))"

definition ddriob_get :: "'h platform \<Rightarrow> 'h mt \<Rightarrow> 'h mt" where
  "ddriob_get P s =
     (let (l, s) = ddriob_get_loop P (iob_values s) s in s\<lparr>iob_values := l\<rparr>)"

fun ddrc_get_loop :: "'h platform \<Rightarrow> reglist \<Rightarrow> 'h mt \<Rightarrow> reglist \<times> 'h mt" where
  "ddrc_get_loop P [] s = ([], s)"
| "ddrc_get_loop P ((addr, _) # es) s =
     (let (data, s) = REG_READ P addr s;
          (es', s) = ddrc_get_loop P es s
      in ((addr, data) # es', s))"

definition ddrc_get :: "'h platform \<Rightarrow> 'h mt \<Rightarrow> 'h mt" where
  "ddrc_get P s =
     (let (l, s) = ddrc_get_loop P (reg_values s) s
      in s\<lparr>reg_values := update_reglist l (fst (l ! 0)) 0 1 0\<rparr>)"

section \<open>Drive strength and slew rate\<close>

definition set_drive_strength :: "'h platform \<Rightarrow> word32 \<Rightarrow> word32 \<Rightarrow> word32 \<Rightarrow> 'h mt \<Rightarrow> 'h mt" where
  "set_drive_strength P addr driven drivep s =
     (let (dat, s) = REG_READ P addr s;
          dat = set_bit_field dat 7 7 (driven XOR 0x028);
          dat = set_bit_field dat 0 7 (drivep XOR 0x02c)
      in REG_WRITE P addr dat s)"

definition set_slew_rate :: "'h platform \<Rightarrow> word32 \<Rightarrow> word32 \<Rightarrow> word32 \<Rightarrow> 'h mt \<Rightarrow> 'h mt" where
  "set_slew_rate P addr n p s =
     (let (dat, s) = REG_READ P addr s;
          dat = set_bit_field dat 19 5 n;
          dat = set_bit_field dat 14 5 p
      in REG_WRITE P addr dat s)"

section \<open>Bit fields are lenses\<close>

text \<open>
  The contract of a bit field: what is written is read back, cut to the width; the last write
  wins; writing back what was read changes nothing.
\<close>

locale bit_field =
  fixes rd :: "word32 \<Rightarrow> word32" and wr :: "word32 \<Rightarrow> word32 \<Rightarrow> word32" and width :: nat
  assumes read_write: "rd (wr d v) = take_bit width v"
    and write_write: "wr (wr d u) v = wr d v"
    and write_read: "wr d (rd d) = d"
begin

lemma write_same: "take_bit width v = rd d \<Longrightarrow> wr d v = d"
  by (metis read_write write_read write_write)

lemma write_cut: "wr d (take_bit width v) = wr d v"
  by (metis read_write write_read write_write)

lemma update_iff: "wr d u = wr d v \<longleftrightarrow> take_bit width u = take_bit width v"
  by (metis read_write write_cut)

end

lemma ones_mask_mask: "ones_mask n 0 = mask n"
proof -
  have step: "push_bit 1 (mask m) OR 1 = (mask (Suc m) :: word32)" for m
    by (simp add: mask_Suc_double push_bit_eq_mult or.commute mult.commute)
  have "ones_mask n (mask m) = mask (m + n)" for m
    by (induction n arbitrary: m) (simp_all only: ones_mask.simps step add_0_right add_Suc_shift)
  from this [of 0] show ?thesis by simp
qed

lemma bit_set_bit_field:
  "lsb + width \<le> 32 \<Longrightarrow> bit (set_bit_field d lsb width v) n =
     (if lsb \<le> n \<and> n < lsb + width then bit v (n - lsb) else bit d n)"
proof -
  assume le: "lsb + width \<le> 32"
  have "set_bit_field d lsb width v
      = (d AND NOT (push_bit lsb (mask width))) OR push_bit lsb (v AND mask width)"
    unfolding set_bit_field_def Let_def ones_mask_mask
    by (rule disjunctive_add) (auto simp: bit_simps)
  then show ?thesis using le
    by (auto simp: bit_simps dest: bit_imp_le_length)
qed

lemma bit_get_bit_field:
  "lsb + width \<le> 32 \<Longrightarrow> bit (get_bit_field d lsb width) n = (n < width \<and> bit d (lsb + n))"
  by (auto simp: get_bit_field_def ones_mask_mask Let_def bit_simps add.commute)

lemma bit_field_lens:
  assumes "lsb + width \<le> 32"
  shows "bit_field (\<lambda>d. get_bit_field d lsb width) (\<lambda>d. set_bit_field d lsb width) width"
  by unfold_locales
    (rule bit_word_eqI, use assms in \<open>auto simp: bit_get_bit_field bit_set_bit_field bit_simps\<close>)+

text \<open>The fields the program writes.\<close>

interpretation dq_offset: bit_field "\<lambda>d. get_bit_field d 24 7" "\<lambda>d. set_bit_field d 24 7" 7
  by (rule bit_field_lens) simp

interpretation slave_ratio: bit_field "\<lambda>d. get_bit_field d 0 10" "\<lambda>d. set_bit_field d 0 10" 10
  by (rule bit_field_lens) simp

interpretation drive_n: bit_field "\<lambda>d. get_bit_field d 7 7" "\<lambda>d. set_bit_field d 7 7" 7
  by (rule bit_field_lens) simp

interpretation drive_p: bit_field "\<lambda>d. get_bit_field d 0 7" "\<lambda>d. set_bit_field d 0 7" 7
  by (rule bit_field_lens) simp

interpretation slew_n: bit_field "\<lambda>d. get_bit_field d 19 5" "\<lambda>d. set_bit_field d 19 5" 5
  by (rule bit_field_lens) simp

interpretation slew_p: bit_field "\<lambda>d. get_bit_field d 14 5" "\<lambda>d. set_bit_field d 14 5" 5
  by (rule bit_field_lens) simp

lemma field_other:
  assumes "lsb + width \<le> 32" "lsb' + width' \<le> 32" "lsb + width \<le> lsb' \<or> lsb' + width' \<le> lsb"
  shows "get_bit_field (set_bit_field d lsb width v) lsb' width' = get_bit_field d lsb' width'"
  by (rule bit_word_eqI) (use assms in \<open>auto simp: bit_get_bit_field bit_set_bit_field\<close>)

lemma field_same:
  "lsb + width \<le> 32 \<Longrightarrow> get_bit_field (set_bit_field d lsb width v) lsb width = take_bit width v"
  using bit_field.read_write [OF bit_field_lens] .

section \<open>Register lists as maps\<close>

lemma update_reglist_addrs [simp]: "map fst (update_reglist l a lsb width v) = map fst l"
  by (induction l) (auto simp: Let_def case_prod_beta)

lemma update_reglist_absent: "a \<notin> fst ` set l \<Longrightarrow> update_reglist l a lsb width v = l"
  by (induction l) (auto simp: Let_def case_prod_beta)

lemma reglist_scan_update:
  assumes "lsb + width \<le> 32" "a \<in> fst ` set l"
  shows "reglist_scan x (update_reglist l a lsb width v) a lsb width = take_bit width v"
  using assms(2) by (induction l arbitrary: x) (auto simp: Let_def case_prod_beta field_same [OF assms(1)])

lemma reglist_scan_start:
  "a \<in> fst ` set l \<Longrightarrow> reglist_scan x l a lsb width = reglist_scan y l a lsb width"
  by (cases l) (auto simp: Let_def case_prod_beta)

lemma reglist_scan_other:
  assumes "lsb + width \<le> 32" "lsb' + width' \<le> 32" "a' \<in> fst ` set l"
    and "a' \<noteq> a \<or> lsb + width \<le> lsb' \<or> lsb' + width' \<le> lsb"
  shows "reglist_scan x (update_reglist l a lsb width v) a' lsb' width' = reglist_scan x l a' lsb' width'"
  using assms(3,4)
  by (induction l arbitrary: x)
    (auto simp: Let_def case_prod_beta field_other [OF assms(1,2)] rev_image_eqI intro: reglist_scan_start)

text \<open>A register list is a map from addresses to registers made of bit fields. After
  \<open>update_reglist\<close> the field reads back as the value cut to its width, every disjoint field of
  the same register and every field of another register in the list reads as before, and the
  addresses of the list are unchanged.\<close>

theorem reglist_field_update:
  assumes "lsb + width \<le> 32" "lsb' + width' \<le> 32" "a \<in> fst ` set l" "a' \<in> fst ` set l"
    and "a' \<noteq> a \<or> lsb + width \<le> lsb' \<or> lsb' + width' \<le> lsb"
  shows "get_reglist_value (update_reglist l a lsb width v) a lsb width = take_bit width v
    \<and> get_reglist_value (update_reglist l a lsb width v) a' lsb' width'
        = get_reglist_value l a' lsb' width'
    \<and> map fst (update_reglist l a lsb width v) = map fst l"
  using assms by (simp add: get_reglist_value_def reglist_scan_update reglist_scan_other)

lemma reglist_field_update_witness:
  "get_reglist_value (update_reglist ddrc_table0 0xf8006118 24 7 0x1c8) 0xf8006118 24 7 = 0x48"
proof -
  have a: "(0xf8006118 :: word32) \<in> fst ` set ddrc_table0"
    by (simp add: ddrc_table0_def ddrc_addrs_def)
  from reglist_field_update [of 24 7 0 10 "0xf8006118" ddrc_table0 "0xf8006118" "0x1c8"] a
  show ?thesis by (simp add: take_bit_eq_mask mask_eq_exp_minus_1)
qed

section \<open>Saving and restoring the DDR controller\<close>

lemma ddrc_init_hw:
  "ddrc_init P s = s\<lparr>hw := fold (\<lambda>(a, d). wr32 P a d) (reg_values s) (hw s)\<rparr>"
proof -
  have "fold (\<lambda>(addr, data) s. REG_WRITE P addr data s) l s
      = s\<lparr>hw := fold (\<lambda>(a, d). wr32 P a d) l (hw s)\<rparr>" for l
    by (induction l arbitrary: s) (auto simp: REG_WRITE_def)
  then show ?thesis by (simp add: ddrc_init_def)
qed

lemma traced_fold_writes:
  "fold (\<lambda>(a, d). wr32 (traced P) a d) l (h, t) = (fold (\<lambda>(a, d). wr32 P a d) l h, t @ l)"
  by (induction l arbitrary: h t) auto

lemma ddrc_get_loop_pure:
  assumes "\<And>a h. rd32 P a h = (rv a, h)"
  shows "ddrc_get_loop P l s = (map (\<lambda>(a, _). (a, rv a)) l, s)"
  by (induction l) (auto simp: REG_READ_def assms)

text \<open>C40. \<open>ddrc_get\<close> followed by \<open>ddrc_init\<close> reprograms the DDR controller with the
  configuration it had. On registers that read as \<open>rv\<close> and with the table's addresses in
  \<open>reg_values\<close>, the writes are, in order: the control register with its enable bit cleared, then
  every other register of the table with the value read, ending with the control register as read,
  which enables the controller again.\<close>

theorem ddrc_save_restore:
  assumes rd: "\<And>a h. rd32 P a h = (rv a, h)" and addrs: "map fst (reg_values s) = ddrc_addrs"
    and hw: "hw s = (h, t)"
  shows "snd (hw (ddrc_init (traced P) (ddrc_get (traced P) s)))
    = t @ (0xf8006000, rv 0xf8006000 AND NOT 1)
        # map (\<lambda>a. (a, rv a)) (tl (butlast ddrc_addrs)) @ [(0xf8006000, rv 0xf8006000)]"
proof -
  have rdt: "rd32 (traced P) a h = (rv a, h)" for a h
    by (cases h) (simp add: rd)
  have one: "set_bit_field x 0 1 0 = x AND NOT 1" for x
    by (rule bit_word_eqI) (auto simp: bit_set_bit_field bit_simps)
  let ?l = "map (\<lambda>(a, _). (a, rv a)) (reg_values s)"
  have l: "?l = map (\<lambda>a. (a, rv a)) ddrc_addrs"
    by (simp add: addrs [symmetric] case_prod_beta)
  have upd: "update_reglist ?l (fst (?l ! 0)) 0 1 0
      = (0xf8006000, rv 0xf8006000 AND NOT 1) # map (\<lambda>a. (a, rv a)) (tl ddrc_addrs)"
    unfolding l by (simp add: ddrc_addrs_def one [simplified])
  have last: "tl ddrc_addrs = tl (butlast ddrc_addrs) @ [0xf8006000]"
    by (simp add: ddrc_addrs_def)
  have "reg_values (ddrc_get (traced P) s) = update_reglist ?l (fst (?l ! 0)) 0 1 0"
    "hw (ddrc_get (traced P) s) = (h, t)"
    by (simp_all add: ddrc_get_def ddrc_get_loop_pure [OF rdt] hw)
  then show ?thesis
    unfolding ddrc_init_hw upd last by (simp add: traced_fold_writes)
qed

lemma ddrc_save_restore_witness:
  "snd (hw (ddrc_init (traced (ram_platform\<lparr>rd32 := \<lambda>a h. (a, h)\<rparr>))
     (ddrc_get (traced (ram_platform\<lparr>rd32 := \<lambda>a h. (a, h)\<rparr>))
       (mt_init ddrc_table0 [] 0 ((\<lambda>_. 0, [])))))) ! 1 = (0xf8006004, 0xf8006004)"
  by (subst ddrc_save_restore [where rv = "\<lambda>a. a" and h = "\<lambda>_. 0" and t = "[]"])
    (simp_all add: mt_init_def ddrc_table0_def ddrc_addrs_def)

text \<open>\<open>set_drive_strength\<close> is one read-modify-write: the value written carries the n-drive
  code (exclusive-or 0x28) in bits 13 to 7, the p-drive code (exclusive-or 0x2c) in bits 6 to 0,
  each cut to 7 bits, and the register's other bits as read.\<close>

theorem set_drive_strength_fields:
  "\<exists>v. hw (set_drive_strength P addr dn dp s) = wr32 P addr v (snd (rd32 P addr (hw s)))
    \<and> get_bit_field v 7 7 = take_bit 7 (dn XOR 0x28)
    \<and> get_bit_field v 0 7 = take_bit 7 (dp XOR 0x2c)
    \<and> get_bit_field v 14 18 = get_bit_field (fst (rd32 P addr (hw s))) 14 18"
  by (rule exI [of _ "set_bit_field (set_bit_field (fst (rd32 P addr (hw s))) 7 7 (dn XOR 0x28)) 0 7
        (dp XOR 0x2c)"])
    (simp add: set_drive_strength_def REG_READ_def REG_WRITE_def case_prod_beta Let_def
      field_other drive_n.read_write drive_p.read_write)

end
