(* ===== verification/BestEye.thy ===== *)
theory BestEye
  imports Prelude
begin

text \<open>
  \<open>find_best_eye\<close> of memtest.c: it rates every experiment of an eye measurement and picks one.
  The four quality arrays are lists that the function overwrites in their first \<open>cnt\<close> entries.
  An access outside \<open>qual3\<close> is \<open>None\<close>: the neighbour test reads \<open>qual3[maxpos - 1]\<close>
  without checking for index 0. Integers are unbounded; with results of an eye measurement (offsets
  0 to 128, or 9999 and -9999 for a closed lane) every value stays far below \<open>2 ^ 31\<close>.
\<close>

section \<open>Quality of one experiment\<close>

definition eye_width :: "int list \<Rightarrow> nat \<Rightarrow> nat \<Rightarrow> int" where
  "eye_width x i j = (let lo = x ! (8 * i + 2 * j + 0); hi = x ! (8 * i + 2 * j + 1) in hi - lo)"

definition qual1_of :: "int list \<Rightarrow> nat \<Rightarrow> int" where
  "qual1_of x i =
     (let (bad, sum) = fold (\<lambda>j (bad, sum).
            let w = eye_width x i j
            in (if w \<le> 0 then bad + 1 else bad, sum + w)) [0, 1, 2, 3] (0 :: int, 0)
      in if bad > 0 then 0 else sum)"

definition qual2_of :: "int list \<Rightarrow> nat \<Rightarrow> int" where
  "qual2_of x i =
     (let avg = qual1_of x i;
          sum = fold (\<lambda>j sum.
            let w = eye_width x i j;
                w = (if w \<le> 0 then 0 else w);
                a = \<bar>avg - w\<bar>
            in sum + a * a) [0, 1, 2, 3] 0
      in sum div 4)"

definition qual3_of :: "int list \<Rightarrow> nat \<Rightarrow> int" where
  "qual3_of x i = qual1_of x i * qual1_of x i - qual2_of x i"

text \<open>Overwrites the first \<open>cnt\<close> entries of an array.\<close>

definition fill :: "(nat \<Rightarrow> int) \<Rightarrow> nat \<Rightarrow> int list \<Rightarrow> int list" where
  "fill f cnt old = map f [0..<cnt] @ drop cnt old"

section \<open>The four best\<close>

definition best_but :: "int list \<Rightarrow> nat \<Rightarrow> int list \<Rightarrow> int \<times> int" where
  "best_but q3 cnt excl =
     fold (\<lambda>i (maxval, maxpos).
       let a = q3 ! i
       in if a > maxval \<and> int i \<notin> set excl then (a, int i) else (maxval, maxpos))
     [0..<cnt] (- 9999, - 1)"

definition q_at :: "int list \<Rightarrow> int \<Rightarrow> int option" where
  "q_at q i = (if 0 \<le> i \<and> i < int (length q) then Some (q ! nat i) else None)"

definition neighbours :: "int list \<Rightarrow> int \<Rightarrow> int option" where
  "neighbours q p = do { a \<leftarrow> q_at q (p - 1); b \<leftarrow> q_at q (p + 1); Some (a + b) }"

definition best_choice :: "int list \<Rightarrow> nat \<Rightarrow> int option" where
  "best_choice q3 cnt =
     (let (v0, p0) = best_but q3 cnt [];
          (v1, p1) = best_but q3 cnt [p0];
          (v2, p2) = best_but q3 cnt [p0, p1];
          (v3, p3) = best_but q3 cnt [p0, p1, p2]
      in if v0 = v1 \<and> v1 = v2
         then if p1 = p0 + 1 \<and> p2 = p1 + 1 then Some p1
              else do {
                n0 \<leftarrow> neighbours q3 p0;
                n1 \<leftarrow> neighbours q3 p1;
                n2 \<leftarrow> neighbours q3 p2;
                Some (if n0 \<ge> n1 \<and> n0 \<ge> n2 then p0
                      else if n1 \<ge> n0 \<and> n1 \<ge> n2 then p1
                      else if n2 \<ge> n0 \<and> n2 \<ge> n1 then p2
                      else p0)
              }
         else if v0 = v1
         then do {
           n0 \<leftarrow> neighbours q3 p0;
           n1 \<leftarrow> neighbours q3 p1;
           Some (if n0 \<ge> n1 then p0 else if n1 \<ge> n0 then p1 else p0)
         }
         else Some p0)"

text \<open>The result is the choice together with the four quality arrays.\<close>

definition find_best_eye ::
    "int list \<Rightarrow> nat \<Rightarrow> int list \<Rightarrow> int list \<Rightarrow> int list \<Rightarrow> int list
      \<Rightarrow> (int \<times> int list \<times> int list \<times> int list \<times> int list) option"
where
  "find_best_eye x cnt qual1 qual2 qual3 qual4 =
     (let q1 = fill (qual1_of x) cnt qual1;
          q2 = fill (qual2_of x) cnt qual2;
          q3 = fill (qual3_of x) cnt qual3;
          q4 = fill (qual3_of x) cnt qual4
      in map_option (\<lambda>choice. (choice, q1, q2, q3, q4)) (best_choice q3 cnt))"

section \<open>What the quality measures\<close>

definition all_open :: "int list \<Rightarrow> nat \<Rightarrow> bool" where
  "all_open x i \<longleftrightarrow> list_all (\<lambda>j. 0 < eye_width x i j) [0, 1, 2, 3]"

lemma qual1_cases:
  "qual1_of x i = (if all_open x i
     then eye_width x i 0 + eye_width x i 1 + eye_width x i 2 + eye_width x i 3 else 0)"
  by (auto simp: qual1_of_def all_open_def Let_def)

lemma qual3_closed: "\<not> all_open x i \<Longrightarrow> qual3_of x i \<le> 0"
  by (simp add: qual3_of_def qual1_cases qual2_of_def Let_def pos_imp_zdiv_nonneg_iff)

lemma qual3_open:
  assumes "all_open x i"
  shows "0 < qual3_of x i"
proof -
  define a b c d where w: "a = eye_width x i 0" "b = eye_width x i (Suc 0)" "c = eye_width x i 2"
    "d = eye_width x i 3"
  have pos: "0 < a" "0 < b" "0 < c" "0 < d" using assms by (simp_all add: all_open_def w)
  define S where "S = a + b + c + d"
  have q1: "qual1_of x i = S" by (simp add: qual1_cases assms S_def w)
  let ?T = "(S - a) * (S - a) + (S - b) * (S - b) + (S - c) * (S - c) + (S - d) * (S - d)"
  have q2: "qual2_of x i = ?T div 4"
    using pos by (simp add: qual2_of_def q1 Let_def w [symmetric] abs_if S_def)
  have sq: "a * a + b * b + c * c + d * d \<le> S * S"
    using pos by (simp add: S_def algebra_simps)
  have "?T = 2 * (S * S) + (a * a + b * b + c * c + d * d)"
    by (simp add: S_def algebra_simps)
  also have "\<dots> \<le> 3 * (S * S)" using sq by simp
  finally have "?T div 4 \<le> 3 * (S * S) div 4" by (intro zdiv_mono1) simp_all
  also have "\<dots> < S * S"
  proof -
    have "0 < S * S" using pos by (intro mult_pos_pos) (simp_all add: S_def)
    then show ?thesis by simp
  qed
  finally show ?thesis by (simp add: qual3_of_def q1 q2)
qed

lemma qual3_pos_iff: "0 < qual3_of x i \<longleftrightarrow> all_open x i"
  using qual3_open qual3_closed by fastforce

section \<open>The maximum search\<close>

lemma best_but_spec:
  "case best_but q cnt excl of (v, p) \<Rightarrow>
     (p = - 1 \<and> v = - 9999 \<or> (\<exists>i<cnt. p = int i \<and> v = q ! i \<and> int i \<notin> set excl \<and> - 9999 < v))
     \<and> (\<forall>i<cnt. int i \<notin> set excl \<longrightarrow> q ! i \<le> max v (- 9999))
     \<and> (\<forall>i. int i < p \<longrightarrow> int i \<notin> set excl \<longrightarrow> q ! i < v)"
proof -
  let ?f = "\<lambda>i (maxval, maxpos).
       let a = q ! i in if a > maxval \<and> int i \<notin> set excl then (a, int i) else (maxval, maxpos)"
  have "case fold ?f [0..<n] (- 9999, - 1) of (v, p) \<Rightarrow> - 9999 \<le> v \<and>
     (p = - 1 \<and> v = - 9999 \<or> (\<exists>i<n. p = int i \<and> v = q ! i \<and> int i \<notin> set excl \<and> - 9999 < v))
     \<and> (\<forall>i<n. int i \<notin> set excl \<longrightarrow> q ! i \<le> v)
     \<and> (\<forall>i. int i < p \<longrightarrow> int i \<notin> set excl \<longrightarrow> q ! i < v)" for n
  proof (induction n)
    case (Suc n)
    obtain v p where vp: "fold ?f [0..<n] (- 9999, - 1) = (v, p)" by fastforce
    have step: "fold ?f [0..<Suc n] (- 9999, - 1)
        = (if v < q ! n \<and> int n \<notin> set excl then (q ! n, int n) else (v, p))"
      using vp by (simp add: Let_def)
    have IH: "- 9999 \<le> v" "p = - 1 \<and> v = - 9999
        \<or> (\<exists>i<n. p = int i \<and> v = q ! i \<and> int i \<notin> set excl \<and> - 9999 < v)"
      "\<And>i. i < n \<Longrightarrow> int i \<notin> set excl \<Longrightarrow> q ! i \<le> v"
      "\<And>i. int i < p \<Longrightarrow> int i \<notin> set excl \<Longrightarrow> q ! i < v"
      using Suc [unfolded vp] by simp_all
    show ?case
    proof (cases "v < q ! n \<and> int n \<notin> set excl")
      case True
      then have "\<forall>i<Suc n. int i \<notin> set excl \<longrightarrow> q ! i \<le> q ! n"
        using IH(3) by (metis less_Suc_eq less_imp_le order_refl order_trans)
      moreover have "\<forall>i. int i < int n \<longrightarrow> int i \<notin> set excl \<longrightarrow> q ! i < q ! n"
        using IH(3) True by (metis le_less_trans of_nat_less_iff)
      ultimately show ?thesis unfolding step using True IH(1) by auto
    next
      case False
      then have "\<forall>i<Suc n. int i \<notin> set excl \<longrightarrow> q ! i \<le> v"
        using IH(3) by (metis less_Suc_eq not_less)
      then show ?thesis unfolding step using False IH(1,2,4) by (auto simp: less_Suc_eq)
    qed
  qed simp
  from this [of cnt] show ?thesis by (auto simp: best_but_def)
qed

lemma best_but_max:
  assumes "best_but q cnt excl = (v, p)"
  shows "p = - 1 \<and> v = - 9999 \<or> (\<exists>i<cnt. p = int i \<and> v = q ! i \<and> int i \<notin> set excl)"
    "i < cnt \<Longrightarrow> int i \<notin> set excl \<Longrightarrow> - 9999 < q ! i \<Longrightarrow> q ! i \<le> v"
    "int k < p \<Longrightarrow> int k \<notin> set excl \<Longrightarrow> q ! k < v"
  using best_but_spec [where q = q and cnt = cnt and excl = excl] assms by (auto simp: max_def split: if_splits)

text \<open>Of several equal best values it finds the one in front.\<close>

lemma best_but_top:
  assumes "best_but q cnt excl = (v, p)" "\<forall>k<cnt. q ! k \<le> M" "- 9999 < M" "i < cnt" "int i \<notin> set excl" "q ! i = M"
  shows "v = M \<and> (\<exists>j<cnt. p = int j \<and> q ! j = M \<and> int j \<notin> set excl \<and> j \<le> i)"
proof -
  have "M \<le> v" using best_but_max(2) [OF assms(1), of i] assms by simp
  then obtain j where j: "j < cnt" "p = int j" "v = q ! j" "int j \<notin> set excl"
    using best_but_max(1) [OF assms(1)] assms(3) by auto
  have v: "v = M" using \<open>M \<le> v\<close> j assms(2) by fastforce
  moreover have "j \<le> i" using best_but_max(3) [OF assms(1), of i] assms(5,6) j v by force
  ultimately show ?thesis using j by auto
qed

text \<open>When some value exceeds -9999, whatever is chosen is an index of a maximal value.\<close>

lemma best_choice_max:
  assumes ret: "best_choice q cnt = Some c" and some: "\<exists>i<cnt. - 9999 < q ! i"
  shows "\<exists>i<cnt. c = int i \<and> (\<forall>k<cnt. q ! k \<le> q ! i)"
proof -
  obtain v0 p0 where b0: "best_but q cnt [] = (v0, p0)" by fastforce
  obtain v1 p1 where b1: "best_but q cnt [p0] = (v1, p1)" by fastforce
  obtain v2 p2 where b2: "best_but q cnt [p0, p1] = (v2, p2)" by fastforce
  obtain v3 p3 where b3: "best_but q cnt [p0, p1, p2] = (v3, p3)" by fastforce
  from some best_but_max(2) [OF b0] have v0: "- 9999 < v0" by fastforce
  have all: "q ! k \<le> v0" if "k < cnt" for k
    using best_but_max(2) [OF b0, of k] that v0 by fastforce
  have top: "\<exists>i<cnt. p = int i \<and> (\<forall>k<cnt. q ! k \<le> q ! i)"
    if "best_but q cnt excl = (v, p)" "v = v0" for excl v p
    using best_but_max(1) [OF that(1)] that(2) v0 all by auto
  have "c = p0 \<or> v0 = v1 \<and> c = p1 \<or> v0 = v1 \<and> v1 = v2 \<and> c = p2"
    using ret by (auto simp: best_choice_def b0 b1 b2 b3 Let_def bind_eq_Some_conv split: if_splits)
  then show ?thesis using top [OF b0] top [OF b1] top [OF b2] by auto
qed

lemma fill_nth: "i < cnt \<Longrightarrow> fill f cnt old ! i = f i"
  by (simp add: fill_def nth_append)

text \<open>C37. The experiment \<open>find_best_eye\<close> chooses is the best one: if any experiment has an open
  eye on all four lanes and the function returns, its choice is the index of an experiment, that
  experiment is open on all four lanes, and no experiment has a larger quality value.\<close>

theorem find_best_eye_open:
  assumes ret: "find_best_eye x cnt q1 q2 q3 q4 = Some (choice, r)"
    and some: "i0 < cnt" "all_open x i0"
  shows "\<exists>i<cnt. choice = int i \<and> all_open x i \<and> (\<forall>k<cnt. qual3_of x k \<le> qual3_of x i)"
proof -
  let ?q = "fill (qual3_of x) cnt q3"
  have "best_choice ?q cnt = Some choice"
    using ret by (auto simp: find_best_eye_def Let_def)
  moreover have "\<exists>i<cnt. - 9999 < ?q ! i"
    using some qual3_open [OF some(2)] by (intro exI [of _ i0]) (simp add: fill_nth)
  ultimately obtain i where i: "i < cnt" "choice = int i" "\<forall>k<cnt. ?q ! k \<le> ?q ! i"
    using best_choice_max by blast
  then have max: "\<forall>k<cnt. qual3_of x k \<le> qual3_of x i" by (simp add: fill_nth)
  then have "0 < qual3_of x i" using some qual3_open [OF some(2)] by force
  with i(1,2) max show ?thesis by (auto simp: qual3_pos_iff)
qed

definition demo_eyes :: "int list" where
  "demo_eyes = [9999, -9999, 40, 88, 40, 88, 40, 88,
                36, 92, 40, 88, 40, 88, 32, 96,
                44, 84, 40, 88, 40, 88, 40, 88]"

lemma find_best_eye_open_witness:
  "\<exists>i<3. 1 = int i \<and> all_open demo_eyes i"
proof -
  have "fst (the (find_best_eye demo_eyes 3 [] [] [] [])) = 1
      \<and> find_best_eye demo_eyes 3 [] [] [] [] \<noteq> None" by code_simp
  then obtain r where r: "find_best_eye demo_eyes 3 [] [] [] [] = Some (1, r)" by auto
  have "all_open demo_eyes 2" by code_simp
  from find_best_eye_open [OF r _ this] show ?thesis by auto
qed

lemma best_choice_tie:
  assumes max: "\<forall>k<cnt. q ! k \<le> q ! 0" and top: "- 9999 < q ! 0" and i: "0 < i" "i < cnt" "q ! i = q ! 0"
  shows "best_choice q cnt = None \<longleftrightarrow> \<not> (2 < cnt \<and> q ! 1 = q ! 0 \<and> q ! 2 = q ! 0)"
proof -
  obtain v0 p0 where b0: "best_but q cnt [] = (v0, p0)" by fastforce
  obtain v1 p1 where b1: "best_but q cnt [p0] = (v1, p1)" by fastforce
  obtain v2 p2 where b2: "best_but q cnt [p0, p1] = (v2, p2)" by fastforce
  obtain v3 p3 where b3: "best_but q cnt [p0, p1, p2] = (v3, p3)" by fastforce
  have p0: "v0 = q ! 0" "p0 = 0" using best_but_top [OF b0 max top, of 0] i by auto
  have one: "v1 = q ! 0" "\<exists>j. p1 = int j \<and> q ! j = q ! 0 \<and> 0 < j \<and> j \<le> i"
    using best_but_top [OF b1 max top, of i] i p0 by auto
  note choice = best_choice_def b0 prod.case b1 b2 b3 Let_def
  have none: "neighbours q p0 = None" by (simp add: neighbours_def q_at_def p0)
  show ?thesis
  proof (cases "2 < cnt \<and> q ! 1 = q ! 0 \<and> q ! 2 = q ! 0")
    case True
    then have p1: "p1 = 1" using best_but_top [OF b1 max top, of 1] p0 by force
    have "v2 = q ! 0 \<and> (\<exists>j<cnt. p2 = int j \<and> q ! j = q ! 0 \<and> int j \<notin> set [p0, p1] \<and> j \<le> 2)"
      by (rule best_but_top [OF b2 max top]) (use True p0 p1 in auto)
    then have "v2 = q ! 0" "p2 = 2" using p0 p1 by auto
    then have "best_choice q cnt = Some 1" unfolding choice using p0 p1 one(1) by simp
    with True show ?thesis by simp
  next
    case False
    have "\<not> (v1 = v2 \<and> p1 = p0 + 1 \<and> p2 = p1 + 1)"
    proof
      assume a: "v1 = v2 \<and> p1 = p0 + 1 \<and> p2 = p1 + 1"
      then have "2 < cnt" "q ! 2 = q ! 0" using best_but_max(1) [OF b2] p0 one(1) by auto
      moreover have "q ! 1 = q ! 0" using one(2) a p0 by auto
      ultimately show False using False by simp
    qed
    then have "best_choice q cnt = None" unfolding choice using none p0(1) one(1) by auto
    with False show ?thesis by simp
  qed
qed

text \<open>C38. The neighbour comparison runs off the front of the array. When the best quality value (above -9999) is
  that of experiment 0 and at least one other experiment ties with it, \<open>find_best_eye\<close> reads
  \<open>qual3[-1]\<close>, for which the model has no result, unless the experiments 0, 1 and 2 all tie. The array is assumed to be
  longer than the number of experiments; then index -1, the left neighbour of experiment 0, is the only access of
  the comparison outside the array.\<close>

theorem find_best_eye_underrun:
  assumes "\<forall>k<cnt. qual3_of x k \<le> qual3_of x 0" "- 9999 < qual3_of x 0"
    and "0 < i" "i < cnt" "qual3_of x i = qual3_of x 0" and len: "cnt < length q3"
  shows "(find_best_eye x cnt q1 q2 q3 q4 = None
      \<longleftrightarrow> \<not> (2 < cnt \<and> qual3_of x 1 = qual3_of x 0 \<and> qual3_of x 2 = qual3_of x 0))
    \<and> (\<forall>p. 0 \<le> p \<and> p < int cnt \<longrightarrow> q_at (fill (qual3_of x) cnt q3) (p + 1) \<noteq> None
        \<and> (q_at (fill (qual3_of x) cnt q3) (p - 1) = None \<longleftrightarrow> p - 1 = - 1))"
proof
  let ?q = "fill (qual3_of x) cnt q3"
  have q: "?q ! k = qual3_of x k" if "k < cnt" for k using that by (rule fill_nth)
  have "best_choice ?q cnt = None \<longleftrightarrow> \<not> (2 < cnt \<and> ?q ! 1 = ?q ! 0 \<and> ?q ! 2 = ?q ! 0)"
    by (rule best_choice_tie [where i = i]) (use assms in \<open>simp_all add: q\<close>)
  then show "find_best_eye x cnt q1 q2 q3 q4 = None
      \<longleftrightarrow> \<not> (2 < cnt \<and> qual3_of x 1 = qual3_of x 0 \<and> qual3_of x 2 = qual3_of x 0)"
    using assms(3,4) by (auto simp: find_best_eye_def Let_def q)
  have "length ?q = length q3" using len by (simp add: fill_def)
  then show "\<forall>p. 0 \<le> p \<and> p < int cnt \<longrightarrow> q_at ?q (p + 1) \<noteq> None \<and> (q_at ?q (p - 1) = None \<longleftrightarrow> p - 1 = - 1)"
    using len by (auto simp: q_at_def)
qed

text \<open>Experiments 0 and 2 tie, experiment 1 is worse.\<close>

lemma find_best_eye_underrun_witness:
  "find_best_eye [40, 88, 40, 88, 40, 88, 40, 88, 60, 64, 60, 64, 60, 64, 60, 64,
      40, 88, 40, 88, 40, 88, 40, 88] 3 [] [] [0, 0, 0, 0] [] = None"
proof -
  let ?x = "[40, 88, 40, 88, 40, 88, 40, 88, 60, 64, 60, 64, 60, 64, 60, 64,
      40, 88, 40, 88, 40, 88, 40, 88] :: int list"
  have q: "qual3_of ?x 2 = qual3_of ?x 0" "- 9999 < qual3_of ?x 0" "qual3_of ?x 1 < qual3_of ?x 0" by code_simp+
  have "k < 3 \<Longrightarrow> k = 0 \<or> k = 1 \<or> k = (2 :: nat)" for k by linarith
  then have "\<forall>k<3. qual3_of ?x k \<le> qual3_of ?x 0" using q by (metis less_imp_le order_refl)
  from find_best_eye_underrun [OF this q(2), of 2 "[0, 0, 0, 0]" "[]" "[]" "[]"] q show ?thesis by simp
qed

end
