(* ===== verification/Eye.thy ===== *)
theory Eye
  imports MemtestAll RegList BestEye
begin

text \<open>
  The eye measurements of memtest.c: the sweep of a delay offset outwards from the middle, with a
  memory test at every point, for the write eye (through the register list and \<open>ddrc_init\<close>) and
  for the read eye (direct register writes), and the drive-strength optimisation built on them.

  Left out: console output, and the value returned in \<open>rc\<close>, which is always 0. The scale
  \<open>scl\<close> of \<open>measure_write_eye\<close> is only printed; \<open>x0\<close> and \<open>x1\<close> are not used by the
  code.
\<close>

section \<open>The sweep\<close>

definition eye_mmax :: "int \<Rightarrow> nat" where
  "eye_mmax step = (if step = 2 then 32 else if step = 1 then 64 else 16)"

definition eye_mstep :: "int \<Rightarrow> int" where
  "eye_mstep step = (if step = 2 then 2 else if step = 1 then 1 else 4)"

definition eye_offset :: "nat \<Rightarrow> int \<Rightarrow> nat \<Rightarrow> int" where
  "eye_offset k mstep m = (if k = 0 then 64 + mstep * int m else 60 - mstep * int m)"

text \<open>The result check after one memory test: \<open>mineye\<close> and \<open>maxeye\<close> of the lanes without errors.\<close>

definition eye_check :: "int \<Rightarrow> word32 list \<Rightarrow> int list \<times> int list \<Rightarrow> int list \<times> int list" where
  "eye_check i errs = (\<lambda>(mineye, maxeye).
     (map (\<lambda>j. if errs ! j = 0 then min (mineye ! j) i else mineye ! j) [0, 1, 2, 3],
      map (\<lambda>j. if errs ! j = 0 then max (maxeye ! j) i else maxeye ! j) [0, 1, 2, 3]))"

definition all_lanes_fail :: "word32 list \<Rightarrow> bool" where
  "all_lanes_fail e \<longleftrightarrow> sint (e ! 0) > 0 \<and> sint (e ! 1) > 0 \<and> sint (e ! 2) > 0 \<and> sint (e ! 3) > 0"

text \<open>
  The loop over \<open>m\<close>: \<open>left\<close> iterations remain. \<open>point\<close> sets the offset, re-initialises and
  runs the memory test.
\<close>

primrec eye_m_loop ::
    "(int \<Rightarrow> 'h mt \<Rightarrow> 'h mt option) \<Rightarrow> nat \<Rightarrow> int \<Rightarrow> nat \<Rightarrow> nat \<Rightarrow> (int list \<times> int list) \<times> 'h mt
      \<Rightarrow> ((int list \<times> int list) \<times> 'h mt) option"
where
  "eye_m_loop point k mstep 0 m st = Some st"
| "eye_m_loop point k mstep (Suc left) m st =
     (let i = eye_offset k mstep m; (eyes, s) = st
      in if i < 0 \<or> i > 128 then Some st
         else do {
           s \<leftarrow> point i s;
           let eyes = eye_check i (errcnt s) eyes;
           if all_lanes_fail (errcnt s) then Some (eyes, s)
           else eye_m_loop point k mstep left (m + 1) (eyes, s)
         })"

definition no_eyes :: "int list \<times> int list" where
  "no_eyes = ([9999, 9999, 9999, 9999], [- 9999, - 9999, - 9999, - 9999])"

definition eye_sweep ::
    "(int \<Rightarrow> 'h mt \<Rightarrow> 'h mt option) \<Rightarrow> int \<Rightarrow> 'h mt \<Rightarrow> ((int list \<times> int list) \<times> 'h mt) option"
where
  "eye_sweep point step s = do {
     let mmax = eye_mmax step;
     let mstep = eye_mstep step;
     st \<leftarrow> eye_m_loop point 0 mstep (mmax + 1) 0 (no_eyes, s);
     eye_m_loop point 1 mstep (mmax + 1) 0 st
   }"

section \<open>Common parts\<close>

definition R2C :: word32 where "R2C = 0xF8006000 + 0x0B0"
definition R46 :: word32 where "R46 = 0xF8006000 + 0x118"
definition R50 :: word32 where "R50 = 0xF8006000 + 0x140"
definition R55 :: word32 where "R55 = 0xF8006000 + 0x154"
definition R5F :: word32 where "R5F = 0xF8006000 + 0x17C"
definition R65 :: word32 where "R65 = 0xF8006000 + 0x194"
definition R5A :: word32 where "R5A = 0xF8006000 + 0x168"

definition eye_sel :: "int \<Rightarrow> int \<Rightarrow> word32" where
  "eye_sel fast_bc fast =
     (if fast_bc \<noteq> 0 then (if fast \<noteq> 0 then 0x0180 else 0x0E00)
      else (if fast \<noteq> 0 then 0x0E00 else 0x1E60))"

definition eye_result :: "int list \<times> int list \<Rightarrow> int list" where
  "eye_result = (\<lambda>(mineye, maxeye). concat (map (\<lambda>j. [mineye ! j, maxeye ! j]) [0, 1, 2, 3]))"

definition eye_pack :: "int \<Rightarrow> int \<Rightarrow> int" where
  "eye_pack mineye maxeye =
     (let cc = mineye; ww = min maxeye 255
      in if cc > 255 \<or> ww < 0 then 0 else cc + ww * 256)"

definition eye_save :: "'h platform \<Rightarrow> int list \<times> int list \<Rightarrow> 'h mt \<Rightarrow> 'h mt" where
  "eye_save P = (\<lambda>(mineye, maxeye) s.
     fold (\<lambda>j s. REG_WRITE P (MAILBOX_RESULT + 4 * of_nat j)
       (of_int (eye_pack (mineye ! j) (maxeye ! j))) s) [0, 1, 2, 3] s)"

section \<open>The write eye\<close>

definition set_wr_offset :: "nat \<Rightarrow> int \<Rightarrow> reglist \<Rightarrow> reglist" where
  "set_wr_offset j i l =
     (let l = update_reglist l (R46 + 4 * of_nat j) 24 7 (of_int i);
          dqs = get_reglist_value l (R55 + 4 * of_nat j) 0 10
      in update_reglist l (R5F + 4 * of_nat j) 0 10 (dqs + of_int i))"

definition write_eye_point ::
    "'h platform \<Rightarrow> word32 \<Rightarrow> int \<Rightarrow> int \<Rightarrow> int \<Rightarrow> 'h mt \<Rightarrow> 'h mt option" where
  "write_eye_point P test_start test_size fast i s =
     (let s = REG_WRITE P MAILBOX_STAT (of_int i) s;
          s = s\<lparr>reg_values := fold (\<lambda>j. set_wr_offset j i) [0, 1, 2, 3] (reg_values s)\<rparr>;
          s = ddrc_init P s
      in memtest_all P test_start test_size (eye_sel (fast_is_bc s) fast) 0 s)"

text \<open>
  The adjustment of the centre. The source runs it once after its loops over \<open>j\<close>, so \<open>j\<close> is
  4 and \<open>cc\<close> is the value the last loop left: the centre of lane 3.
\<close>

definition write_eye_fix :: "int \<Rightarrow> int list \<times> int list \<Rightarrow> 'h mt \<Rightarrow> 'h mt" where
  "write_eye_fix fix_ctr eyes s =
     (if verbose s AND 0x20 \<noteq> 0 \<and> fix_ctr \<noteq> 0
      then (let j = 4; cc = (fst eyes ! 3 + snd eyes ! 3) div 2
            in s\<lparr>reg_values := set_wr_offset j cc (reg_values s)\<rparr>)
      else s)"

definition measure_write_eye ::
    "'h platform \<Rightarrow> int \<Rightarrow> int \<Rightarrow> int \<Rightarrow> int \<Rightarrow> bool \<Rightarrow> 'h mt \<Rightarrow> (int list \<times> 'h mt) option"
where
  "measure_write_eye P step sz_scl fast fix_ctr save s =
     (let s = s\<lparr>memtest_stat := 0\<rparr>;
          test_start = 1024 * 1024;
          test_size = 1024 * 1024 * sz_scl;
          saved = reg_values s
      in do {
        (eyes, s) \<leftarrow> eye_sweep (write_eye_point P test_start test_size fast) step s;
        let s = s\<lparr>reg_values := saved\<rparr>;
        let s = (if save then eye_save P eyes s else s);
        let s = REG_WRITE P (MAILBOX_RESULT + 4 * 4) 0 s;
        let s = write_eye_fix fix_ctr eyes s;
        Some (eye_result eyes, s\<lparr>memtest_stat := 1\<rparr>)
      })"

section \<open>The read eye\<close>

text \<open>Reads \<open>reg_50[j]\<close>, \<open>reg_5a[j]\<close> and computes \<open>fwsr[j]\<close> for the four lanes.\<close>

fun read_eye_regs :: "'h platform \<Rightarrow> nat list \<Rightarrow> 'h mt \<Rightarrow> (word32 \<times> word32 \<times> word32) list \<times> 'h mt" where
  "read_eye_regs P [] s = ([], s)"
| "read_eye_regs P (j # js) s =
     (let (r50, s) = REG_READ P (R50 + 4 * of_nat j) s;
          (r5a, s) = REG_READ P (R5A + 4 * of_nat j) s;
          (rest, s) = read_eye_regs P js s
      in ((r50, r5a, r5a - r50) # rest, s))"

definition read_eye_point ::
    "'h platform \<Rightarrow> word32 \<Rightarrow> (word32 \<times> word32 \<times> word32) list \<Rightarrow> word32 \<Rightarrow> int \<Rightarrow> int \<Rightarrow> int
      \<Rightarrow> 'h mt \<Rightarrow> 'h mt option"
where
  "read_eye_point P ctrl_reg regs test_start test_size fast i s =
     (let s = REG_WRITE P MAILBOX_STAT (of_int i) s;
          s = REG_WRITE P R00 (ctrl_reg AND 0xfffffffe) s;
          s = fold (\<lambda>j s. REG_WRITE P (R5A + 4 * of_nat j) (of_int i + snd (snd (regs ! j)))
                (REG_WRITE P (R50 + 4 * of_nat j) (of_int i) s)) [0, 1, 2, 3] s;
          s = REG_WRITE P R00 ctrl_reg s
      in memtest_all P test_start test_size (eye_sel (fast_is_bc s) fast) 0 s)"

definition read_eye_restore ::
    "'h platform \<Rightarrow> word32 \<Rightarrow> word32 \<Rightarrow> word32 \<Rightarrow> (word32 \<times> word32 \<times> word32) list \<Rightarrow> 'h mt \<Rightarrow> 'h mt" where
  "read_eye_restore P ctrl_reg reg_2c reg_65 regs s =
     (let s = REG_WRITE P R00 (ctrl_reg AND 0xfffffffe) s;
          s = REG_WRITE P R2C reg_2c s;
          s = REG_WRITE P R65 reg_65 s;
          s = fold (\<lambda>j s. REG_WRITE P (R5A + 4 * of_nat j) (fst (snd (regs ! j)))
                (REG_WRITE P (R50 + 4 * of_nat j) (fst (regs ! j)) s)) [0, 1, 2, 3] s
      in REG_WRITE P R00 ctrl_reg s)"

definition measure_read_eye ::
    "'h platform \<Rightarrow> word32 \<Rightarrow> int \<Rightarrow> int \<Rightarrow> int \<Rightarrow> 'h mt \<Rightarrow> (int list \<times> 'h mt) option"
where
  "measure_read_eye P test_start test_size fast istep s =
     (let (ctrl_reg, s) = REG_READ P R00 s;
          (reg_2c, s) = REG_READ P R2C s;
          (reg_65, s) = REG_READ P R65 s;
          s = s\<lparr>memtest_stat := 0\<rparr>;
          (regs, s) = read_eye_regs P [0, 1, 2, 3] s;
          s = REG_WRITE P R00 (ctrl_reg AND 0xfffffffe) s;
          s = REG_WRITE P R2C (reg_2c AND NOT (push_bit 28 1)) s;
          s = REG_WRITE P R65 (reg_65 AND NOT (push_bit 16 1)) s
      in do {
        (eyes, s) \<leftarrow> eye_sweep (read_eye_point P ctrl_reg regs test_start test_size fast) istep s;
        let s = read_eye_restore P ctrl_reg reg_2c reg_65 regs s;
        let s = eye_save P eyes s;
        let s = REG_WRITE P (MAILBOX_RESULT + 4 * 4) 1 s;
        Some (eye_result eyes, s\<lparr>memtest_stat := 1\<rparr>)
      })"

section \<open>Write eye and drive strength\<close>

definition drive_n_of :: "rat \<Rightarrow> word32" where
  "drive_n_of scl = of_int \<lfloor>28 * scl + 1 / 2\<rfloor>"

definition drive_p_of :: "rat \<Rightarrow> word32" where
  "drive_p_of scl = of_int \<lfloor>64 * scl + 1 / 2\<rfloor>"

definition reg_drive_addr :: word32 where "reg_drive_addr = 0xf8000b5c"
definition reg_drive_data :: word32 where "reg_drive_data = 0xf8000b60"
definition reg_drive_diff :: word32 where "reg_drive_diff = 0xf8000b64"
definition reg_drive_clock :: word32 where "reg_drive_clock = 0xf8000b68"

definition apply_drive :: "'h platform \<Rightarrow> bool \<Rightarrow> rat \<Rightarrow> 'h mt \<Rightarrow> 'h mt" where
  "apply_drive P do_all scl s =
     (let dn = drive_n_of scl; dp = drive_p_of scl;
          s = set_drive_strength P reg_drive_data dn dp s
      in if do_all
         then set_drive_strength P reg_drive_clock dn dp
                (set_drive_strength P reg_drive_diff dn dp
                  (set_drive_strength P reg_drive_addr dn dp s))
         else s)"

text \<open>The loop over the drive scale; the state is \<open>(scl, cnt, rslti, s)\<close>.\<close>

function weye_loop ::
    "'h platform \<Rightarrow> bool \<Rightarrow> rat \<Rightarrow> nat \<Rightarrow> nat \<Rightarrow> 'h mt \<Rightarrow> (nat \<times> 'h mt) option" where
  "weye_loop P do_all scl cnt rslti s =
     (if scl \<le> 151 / 100
      then (case measure_write_eye P 4 1 0 0 False (apply_drive P do_all scl s) of
              None \<Rightarrow> None
            | Some (result, s) \<Rightarrow>
                weye_loop P do_all (scl + 5 / 100) (cnt + 1) (rslti + 8)
                  (s\<lparr>gresult := take rslti (gresult s) @ result @ drop (rslti + 8) (gresult s)\<rparr>))
      else Some (cnt, s))"
  by pat_completeness auto
termination
proof (relation "measure (\<lambda>(P, do_all, scl, cnt, rslti, s). nat (\<lfloor>(151 / 100 - scl) * 20\<rfloor> + 1))", simp)
  fix scl :: rat assume "scl \<le> 151 / 100"
  then have "0 \<le> (151 / 100 - scl) * 20" by simp
  then have "0 \<le> \<lfloor>(151 / 100 - scl) * 20\<rfloor>" by simp
  moreover have "(151 / 100 - (scl + 5 / 100)) * 20 = (151 / 100 - scl) * 20 - 1"
    by (simp add: algebra_simps)
  then have "\<lfloor>(151 / 100 - (scl + 5 / 100)) * 20\<rfloor> = \<lfloor>(151 / 100 - scl) * 20\<rfloor> - 1"
    by (simp only: floor_diff_one)
  ultimately have "nat (\<lfloor>(151 / 100 - (scl + 5 / 100)) * 20\<rfloor> + 1) < nat (\<lfloor>(151 / 100 - scl) * 20\<rfloor> + 1)"
    by simp
  then show "((P, do_all, scl + 5 / 100, c, r, t), P', do_all', scl, c', r', t')
      \<in> measure (\<lambda>(P, do_all, scl, cnt, rslti, s). nat (\<lfloor>(151 / 100 - scl) * 20\<rfloor> + 1))"
    for P :: "'a platform" and do_all c r t and P' :: "'a platform" and do_all' c' r' t'
    by simp
qed

declare weye_loop.simps [simp del]

text \<open>Step 5: the offsets of the chosen experiment.\<close>

definition weye_offsets :: "int \<Rightarrow> 'h mt \<Rightarrow> 'h mt" where
  "weye_offsets choice s =
     fold (\<lambda>j s. let lo = gresult s ! nat (8 * choice + 2 * int j + 0);
                     hi = gresult s ! nat (8 * choice + 2 * int j + 1);
                     ctr = (lo + hi) div 2
                 in s\<lparr>reg_values := set_wr_offset j ctr (reg_values s)\<rparr>) [0, 1, 2, 3] s"

definition weye_test1 :: "'h platform \<Rightarrow> bool \<Rightarrow> 'h mt \<Rightarrow> 'h mt option" where
  "weye_test1 P do_all s =
     (let s = ddriob_get P (ddrc_get P s);
          scl0 = 6 / 10
      in do {
        (cnt, s) \<leftarrow> weye_loop P do_all scl0 0 0 s;
        (choice, a1, a2, a3, a4) \<leftarrow> find_best_eye (gresult s) cnt (q1 s) (q2 s) (q3 s) (q4 s);
        let s = s\<lparr>q1 := a1, q2 := a2, q3 := a3, q4 := a4\<rparr>;
        if choice < 0 then None
        else do {
          let s = weye_offsets choice s;
          let s = apply_drive P do_all (scl0 + 5 / 100 * of_int choice) s;
          let s = ddrc_init P s;
          memtest_all P (1024 * 1024) (1024 * 1024) 0x7fff 0 s
        }
      })"

end
