(* ===== verification/Pll.thy ===== *)
theory Pll
  imports RegList
begin

text \<open>
  Clock and monitor routines of memtest.c: \<open>my_set_pll\<close> with its two tables, and the XADC
  access. \<open>double\<close> values are exact rationals; the delay loop \<open>noop\<close> computes a value nobody
  uses and touches no register, so it is left out. A table access out of range is \<open>None\<close>.
\<close>

section \<open>Tables\<close>

definition pll_config_table :: "word32 list" where
  "pll_config_table = [
     0x001772C0, 0x001772C0, 0x001772C0, 0x001772C0, 0x001772C0, 0x001772C0,
     0x001772C0, 0x001772C0, 0x001772C0, 0x001772C0, 0x001772C0, 0x001772C0,
     0x001772C0, 0x001772C0, 0x001772C0, 0x001772C0, 0x001772C0, 0x001772C0,
     0x001772C0, 0x001772C0, 0x001772C0, 0x001772C0, 0x001772C0, 0x001772C0,
     0x001772C0, 0x001772C0, 0x001772C0, 0x0015E2C0, 0x0015E2C0, 0x001452C0,
     0x001452C0, 0x0012C220, 0x0012C220, 0x0012C220, 0x00113220, 0x00113220,
     0x00113220, 0x000FA220, 0x000FA220, 0x000FA220, 0x000FA220, 0x000FA3C0,
     0x000FA3C0, 0x000FA3C0, 0x000FA3C0, 0x000FA3C0, 0x000FA3C0, 0x000FA3C0,
     0x000FA240, 0x000FA240, 0x000FA240, 0x000FA240, 0x000FA240, 0x000FA240,
     0x000FA240, 0x000FA240, 0x000FA240, 0x000FA240, 0x000FA240, 0x000FA240,
     0x000FA240, 0x000FA240, 0x000FA240, 0x000FA240, 0x000FA240, 0x000FA240,
     0x000FA240, 0x000FA240, 0x000FA240, 0x000FA240, 0x000FA240, 0x000FA240,
     0x000FA240, 0x000FA240, 0x000FA240, 0x000FA240, 0x000FA240, 0x000FA240,
     0x000FA240, 0x000FA240, 0x000FA240, 0x000FA240, 0x000FA240, 0x000FA240,
     0x000FA240, 0x000FA240, 0x000FA240, 0x000FA240, 0x000FA240, 0x000FA240,
     0x000FA240, 0x000FA240, 0x000FA240, 0x000FA240, 0x000FA240, 0x000FA240,
     0x000FA240, 0x000FA240, 0x000FA240, 0x000FA240]"

definition dci_ctrl_table :: "word32 list" where
  "dci_ctrl_table = [
     0x02300201, 0x02400201, 0x02400201, 0x02500201, 0x02500201, 0x01900301,
     0x02600201, 0x00B00701, 0x02700201, 0x02800201, 0x02800201, 0x01B00301,
     0x02900201, 0x02A00201, 0x02A00201, 0x01100501, 0x02B00201, 0x01D00301,
     0x02C00201, 0x02D00201, 0x02D00201, 0x00D00701, 0x02E00201, 0x01F00301,
     0x02F00201, 0x01300501, 0x03000201, 0x03100201, 0x03100201, 0x02100301,
     0x03200201, 0x03300201, 0x03300201, 0x03400201, 0x03400201, 0x02300301,
     0x03500201, 0x03600201, 0x03600201, 0x03700201, 0x03700201, 0x02500301,
     0x03800201, 0x03900201, 0x03900201, 0x01700501, 0x03A00201, 0x02700301,
     0x03B00201, 0x01100701, 0x03C00201, 0x00B00B01, 0x03D00201, 0x02900301,
     0x03E00201, 0x01900501, 0x03F00201, 0x02000401, 0x02000401, 0x02B00301,
     0x01A00501, 0x02C00301, 0x02C00301, 0x01300701, 0x02D00301, 0x02D00301,
     0x02200401, 0x02E00301, 0x02E00301, 0x02300401, 0x02300401, 0x02F00301,
     0x00D00B01, 0x00D00B01, 0x03000301, 0x01D00501, 0x03100301, 0x03100301,
     0x02500401, 0x03200301, 0x03200301, 0x02600401, 0x02600401, 0x03300301,
     0x01600701, 0x01F00501, 0x03400301, 0x03500301, 0x03500301, 0x03500301,
     0x02800401, 0x01700701, 0x03600301, 0x02900401, 0x02900401, 0x03700301,
     0x03800301, 0x03800301, 0x03800301, 0x00D00D01, 0x02200501, 0x03900301,
     0x02B00401, 0x03A00301, 0x03A00301, 0x02300501, 0x02C00401, 0x03B00301,
     0x03C00301, 0x03C00301, 0x03C00301, 0x01A00701, 0x01A00701, 0x03D00301,
     0x02E00401, 0x02500501, 0x03E00301, 0x01100B01, 0x02F00401, 0x03F00301,
     0x02600501, 0x03000401, 0x03000401, 0x02700501, 0x02700501, 0x02700501,
     0x03100401, 0x02100601, 0x02100601, 0x03200401, 0x03200401, 0x01D00701,
     0x01D00701, 0x01D00701, 0x03300401, 0x02900501, 0x01700901, 0x01700901,
     0x03400401, 0x01300B01, 0x02A00501, 0x03500401, 0x03500401, 0x02B00501,
     0x02B00501, 0x02B00501, 0x03600401, 0x01F00701, 0x03700401, 0x03700401,
     0x03700401, 0x01100D01, 0x02500601, 0x03800401, 0x03800401, 0x02D00501,
     0x03900401, 0x03900401, 0x03900401, 0x02E00501, 0x02E00501, 0x02100701,
     0x03A00401, 0x02700601, 0x02700601, 0x02F00501, 0x03B00401, 0x02200701,
     0x02200701, 0x03C00401, 0x03C00401, 0x01600B01, 0x01600B01, 0x01B00901,
     0x03D00401, 0x03100501, 0x02900601, 0x01300D01, 0x03E00401, 0x03200501,
     0x03200501]"

section \<open>my\_set\_pll\<close>

definition unlock_slcr :: "'h platform \<Rightarrow> 'h mt \<Rightarrow> 'h mt" where
  "unlock_slcr P s = REG_WRITE P (0xF8000000 + 0x008) 0x0000DF0D s"

definition ddr_nonsecure :: "'h platform \<Rightarrow> 'h mt \<Rightarrow> 'h mt" where
  "ddr_nonsecure P s = REG_WRITE P 0xf8000430 0xffffffff s"

definition pll_ctrl :: "nat \<Rightarrow> word32" where
  "pll_ctrl pll = 0xF8000000 + (if pll = 0 then 0x100 else if pll = 1 then 0x104 else 0x108)"

definition pll_cfg :: "nat \<Rightarrow> word32" where
  "pll_cfg pll = 0xF8000000 + (if pll = 0 then 0x110 else if pll = 1 then 0x114 else 0x118)"

definition PLL_STATUS :: word32 where "PLL_STATUS = 0xF8000000 + 0x10C"
definition CPU_CLK_CTRL :: word32 where "CPU_CLK_CTRL = 0xF8000000 + 0x120"
definition DDR_CLK_CTRL :: word32 where "DDR_CLK_CTRL = 0xF8000000 + 0x124"
definition DCI_CLK_CTRL :: word32 where "DCI_CLK_CTRL = 0xF8000000 + 0x128"

text \<open>
  The lock poll: \<open>k\<close> counts the polls; the result is \<open>k\<close> after a lock and \<open>None\<close> for
  the value \<open>- 1\<close> of \<open>locked\<close>, which the loop sets after more than 2000 polls.
\<close>

function pll_poll :: "'h platform \<Rightarrow> nat \<Rightarrow> nat \<Rightarrow> 'h mt \<Rightarrow> nat option \<times> 'h mt" where
  "pll_poll P pll k s =
     (let (st, s) = REG_READ P PLL_STATUS s;
          locked = signed_drop_bit pll st AND 1;
          k = k + 1
      in if locked \<noteq> 0 then (Some k, s)
         else if k > 2000 then (None, s)
         else pll_poll P pll k s)"
  by pat_completeness auto
termination
  by (relation "measure (\<lambda>(P, pll, k, s). 2001 - k)") auto

declare pll_poll.simps [simp del]

definition table_at :: "word32 list \<Rightarrow> int \<Rightarrow> word32 option" where
  "table_at t i = (if 0 \<le> i \<and> i < int (length t) then Some (t ! nat i) else None)"

definition lim :: "int \<Rightarrow> int \<Rightarrow> int \<Rightarrow> int" where
  "lim a lo hi = max (min a hi) lo"

definition trunc_rat :: "rat \<Rightarrow> int" where
  "trunc_rat x = (if 0 \<le> x then \<lfloor>x\<rfloor> else - \<lfloor>- x\<rfloor>)"

text \<open>Step 7: the output divider.\<close>

definition pll_set_outdiv :: "'h platform \<Rightarrow> nat \<Rightarrow> int \<Rightarrow> 'h mt \<Rightarrow> 'h mt" where
  "pll_set_outdiv P pll outdiv s =
     (if pll = 1
      then (let (cval, s) = REG_READ P DDR_CLK_CTRL s;
                sh_mask = push_bit 20 0x3f;
                cval = (cval AND NOT sh_mask) OR push_bit 20 (of_int outdiv AND 0x3f)
            in REG_WRITE P DDR_CLK_CTRL cval s)
      else if pll = 0
      then (let (cval, s) = REG_READ P CPU_CLK_CTRL s;
                sh_mask = push_bit 8 0x3f;
                cval = (cval AND NOT sh_mask) OR push_bit 8 (of_int outdiv AND 0x3f)
            in REG_WRITE P CPU_CLK_CTRL cval s)
      else s)"

text \<open>The DCI divisor for a 10 MHz DCI clock, and the timer clock, after a lock.\<close>

definition pll_after :: "'h platform \<Rightarrow> nat \<Rightarrow> int \<Rightarrow> rat \<Rightarrow> rat \<Rightarrow> 'h mt \<Rightarrow> 'h mt option" where
  "pll_after P pll fbdiv fref fout s = do {
     s \<leftarrow> (if pll = 1
           then do {
             let fvco = fref * of_int fbdiv;
             let val = trunc_rat (fvco / 10);
             let k = lim val 70 250;
             cval \<leftarrow> table_at dci_ctrl_table (k - 70);
             Some (REG_WRITE P DCI_CLK_CTRL cval s)
           }
           else Some s);
     Some (if pll = 0 then s\<lparr>pclk := fout * (16666 / 100000)\<rparr> else s)
   }"

definition my_set_pll :: "'h platform \<Rightarrow> nat \<Rightarrow> int \<Rightarrow> int \<Rightarrow> rat \<Rightarrow> 'h mt \<Rightarrow> 'h mt option" where
  "my_set_pll P pll fbdiv outdiv fref s =
     (let fout = fref * of_int fbdiv / of_int outdiv;
          s = unlock_slcr P s;
          (v, s) = REG_READ P (pll_ctrl pll) s;
          val = v OR push_bit 4 1;
          s = REG_WRITE P (pll_ctrl pll) val s;
          val = val OR push_bit 0 1;
          s = REG_WRITE P (pll_ctrl pll) val s;
          sh_mask = push_bit 12 0x07f;
          val = (val AND NOT sh_mask) + push_bit 12 (of_int fbdiv AND 0x07f);
          s = REG_WRITE P (pll_ctrl pll) val s;
          i = min 99 fbdiv
      in do {
        cval \<leftarrow> table_at pll_config_table i;
        let s = REG_WRITE P (pll_cfg pll) cval s;
        let val = val XOR push_bit 0 1;
        let s = REG_WRITE P (pll_ctrl pll) val s;
        let (locked, s) = pll_poll P pll 0 s;
        case locked of
          None \<Rightarrow> Some s
        | Some k \<Rightarrow>
            (let s = pll_set_outdiv P pll outdiv s;
                 val = val XOR push_bit 4 1;
                 s = REG_WRITE P (pll_ctrl pll) val s
             in pll_after P pll fbdiv fref fout s)
      })"

section \<open>XADC\<close>

definition rd_cmd :: "word32 \<Rightarrow> word32" where
  "rd_cmd addr = push_bit 26 1 + push_bit 16 addr"

definition wr_cmd :: "word32 \<Rightarrow> word32 \<Rightarrow> word32" where
  "wr_cmd addr data = push_bit 26 2 + push_bit 16 addr + (data AND 0x0ffff)"

definition voltage :: "int \<Rightarrow> rat" where
  "voltage x = (of_int x * 3) / (4096 * 16)"

definition temperature :: "int \<Rightarrow> rat" where
  "temperature x = (of_int x * (503975 / 1000)) / (4096 * 16) - 27315 / 100"

definition alist :: "word32 list" where
  "alist = [0, 1, 2, 6, 0xd, 0xe, 0xf, 0]"

definition xadc_read_body :: "'h platform \<Rightarrow> int \<Rightarrow> 'h mt \<Rightarrow> 'h mt" where
  "xadc_read_body P i s =
     (let (v, s) = REG_READ P 0xf8007114 s in s\<lparr>dlist := (dlist s)[nat i := v]\<rparr>)"

definition get_xadc_regs :: "'h platform \<Rightarrow> word32 list \<Rightarrow> nat \<Rightarrow> 'h mt \<Rightarrow> 'h mt" where
  "get_xadc_regs P list cnt s =
     (let s = cfor 0 (int cnt) 1 (\<lambda>i s. REG_WRITE P 0xf8007110 (rd_cmd (list ! nat i)) s) s;
          s = REG_WRITE P 0xf8007110 (rd_cmd (list ! (cnt - 1))) s;
          (_, s) = REG_READ P 0xf8007114 s
      in cfor 0 (int cnt) 1 (xadc_read_body P) s)"

definition init_xadc :: "'h platform \<Rightarrow> 'h mt \<Rightarrow> 'h mt" where
  "init_xadc P s =
     (let s = REG_WRITE P 0xf8007100 0x80001114 s;
          s = REG_WRITE P 0xf8007118 0 s;
          (c, s) = REG_READ P 0xf800710c s;
          cnt = uint (signed_drop_bit 12 c AND 0x0f)
      in cfor 0 cnt 1 (\<lambda>j s. snd (REG_READ P 0xf8007114 s)) s)"

definition read_xadc :: "'h platform \<Rightarrow> 'h mt \<Rightarrow> rat list \<times> 'h mt" where
  "read_xadc P s =
     (let s = init_xadc P s;
          s = get_xadc_regs P alist 7 s;
          d = (\<lambda>i. sint (dlist s ! i))
      in (temperature (d 0) # map (\<lambda>i. voltage (d i)) [1, 2, 3, 4, 5, 6], s))"

definition get_xadc_temperature :: "'h platform \<Rightarrow> 'h mt \<Rightarrow> rat \<times> 'h mt" where
  "get_xadc_temperature P s =
     (let s = init_xadc P s;
          s = get_xadc_regs P alist 1 s
      in (temperature (sint (dlist s ! 0)), s))"

end
