(* ===== verification/MemtestRun.thy ===== *)
theory MemtestRun
  imports Eye Pll
begin

text \<open>
  \<open>memtest_run\<close> of memtest.c: the command loop of the memory diagnostics and the test server
  driven by the mailbox registers. The state is the record \<open>run\<close>: the globals (\<open>mts\<close>), the
  local settings of the function, and what survives from one call to the next beside the globals: the
  loop count, the size selection and the static variable of the size command.

  Parameters: \<open>dc\<close> is \<open>Xil_DCacheEnable\<close> (\<open>True\<close>) and \<open>Xil_DCacheDisable\<close> (\<open>False\<close>)
  of the BSP. The start value of \<open>pll_div\<close>, which the source leaves uninitialised, is a field of
  the initial state. The delay loop around \<open>calc_value\<close> and console output have no effect on
  the state. An iteration that does not return, or reads outside an array, is \<open>None\<close>.
\<close>

section \<open>Mailbox and state\<close>

definition MAILBOX_XREGV :: word32 where "MAILBOX_XREGV = 0xF8001000"
definition MAILBOX_GO :: word32 where "MAILBOX_GO = 0xF8001024 + 0x00"
definition MAILBOX_DONE :: word32 where "MAILBOX_DONE = 0xF8001024 + 0x04"
definition MAILBOX_START :: word32 where "MAILBOX_START = 0xF8001024 + 0x0C"
definition MAILBOX_SIZE :: word32 where "MAILBOX_SIZE = 0xF8001024 + 0x10"
definition MAILBOX_MODE :: word32 where "MAILBOX_MODE = 0xF8001024 + 0x28"
definition MAILBOX_LAST :: word32 where "MAILBOX_LAST = 0xF8001024 + 0x2C"

definition mbyte :: word32 where "mbyte = 1024 * 1024"

definition test_sizes :: "int list" where
  "test_sizes = [16, 32, 64, 127, 128, 255, 511, 1023]"

record 'h run =
  mts :: "'h mt"
  imin :: int
  imax :: int
  istep :: int
  testsize_scl :: int
  scl_temp :: int
  fast :: int
  fix_center :: int
  printerr :: int
  pll_div :: int
  remote_mode :: int
  cache_enable :: int
  go :: word32
  test_loop_cnt :: word32
  test_size_sel :: int
  cum_errcnt :: "word32 list"

text \<open>The values when the program starts, and the assignments of each call of the function.\<close>

definition run_init :: "'h mt \<Rightarrow> int \<Rightarrow> 'h run" where
  "run_init s div0 = \<lparr>mts = s, imin = 8, imax = 120, istep = 4, testsize_scl = 1, scl_temp = 1, fast = 1,
     fix_center = 0, printerr = 0, pll_div = div0, remote_mode = 0, cache_enable = 1, go = 0,
     test_loop_cnt = 1, test_size_sel = 0, cum_errcnt = [0, 0, 0, 0]\<rparr>"

definition run_enter :: "int \<Rightarrow> 'h run \<Rightarrow> 'h run" where
  "run_enter div0 r = r\<lparr>imin := 8, imax := 120, istep := 4, testsize_scl := 1, fast := 1,
     fix_center := 0, printerr := 0, pll_div := div0, cache_enable := 1\<rparr>"

definition on_mt :: "('h mt \<Rightarrow> 'h mt) \<Rightarrow> 'h run \<Rightarrow> 'h run" where
  "on_mt f r = r\<lparr>mts := f (mts r)\<rparr>"

definition on_mt_opt :: "('h mt \<Rightarrow> 'h mt option) \<Rightarrow> 'h run \<Rightarrow> 'h run option" where
  "on_mt_opt f r = map_option (\<lambda>s. r\<lparr>mts := s\<rparr>) (f (mts r))"

section \<open>The range of a mailbox test\<close>

text \<open>\<open>start\<close> and \<open>a\<close> are the words read from \<open>MAILBOX_START\<close> and \<open>MAILBOX_SIZE\<close>.\<close>

definition mailbox_range :: "word32 \<Rightarrow> word32 \<Rightarrow> word32 \<times> word32" where
  "mailbox_range start a =
     (let test_start = start * mbyte;
          test_size = (a AND 0x3ff) * mbyte;
          test_start = (if sint test_start < sint mbyte then mbyte else test_start);
          test_start = (if sint test_start > sint (1023 * mbyte) then mbyte else test_start);
          test_size = (if sint test_size < sint mbyte then mbyte else test_size)
      in if sint (test_start + test_size) > sint (1024 * mbyte)
         then (mbyte, 16 * mbyte) else (test_start, test_size))"

section \<open>Commands that only change settings\<close>

definition is_key :: "char \<Rightarrow> char \<Rightarrow> char \<Rightarrow> bool" where
  "is_key c lower upper \<longleftrightarrow> c = lower \<or> c = upper"

definition flip :: "int \<Rightarrow> int" where
  "flip x = x XOR 1"

text \<open>Division of an \<open>int\<close> by 2 truncates towards zero.\<close>

definition half :: "int \<Rightarrow> int" where
  "half x = (if 0 \<le> x then x div 2 else - (- x div 2))"

definition next_scl :: "'h run \<Rightarrow> 'h run" where
  "next_scl r =
     (let temp = scl_temp r * 2;
          scl = (if temp > 128 then temp - 1 else temp)
      in if scl > 1023 then r\<lparr>scl_temp := 1, testsize_scl := 1\<rparr>
         else r\<lparr>scl_temp := temp, testsize_scl := scl\<rparr>)"

text \<open>The assignments of the commands k, l, m, t, w, n, f, c, e, v, q, in the order of the source.\<close>

definition set_command :: "char \<Rightarrow> 'h run \<Rightarrow> 'h run" where
  "set_command c r =
     (if is_key c (CHR ''k'') (CHR ''K'') then r\<lparr>istep := 4, testsize_scl := 1, fast := 1\<rparr>
      else if is_key c (CHR ''l'') (CHR ''L'') then r\<lparr>test_loop_cnt := test_loop_cnt r * 2\<rparr>
      else if is_key c (CHR ''m'') (CHR ''M'')
      then r\<lparr>test_loop_cnt := of_int (max 1 (half (sint (test_loop_cnt r))))\<rparr>
      else if is_key c (CHR ''t'') (CHR ''T'') then r\<lparr>test_size_sel := (test_size_sel r + 1) mod 8\<rparr>
      else if is_key c (CHR ''w'') (CHR ''W'')
      then r\<lparr>imin := max (imin r - 4) 0, imax := min (imax r + 4) 128\<rparr>
      else if is_key c (CHR ''n'') (CHR ''N'')
      then r\<lparr>imin := min (imin r + 4) 60, imax := max (imax r - 4) 68\<rparr>
      else if is_key c (CHR ''f'') (CHR ''F'') then r\<lparr>fast := flip (fast r)\<rparr>
      else if is_key c (CHR ''c'') (CHR ''C'') then r\<lparr>fix_center := flip (fix_center r)\<rparr>
      else if is_key c (CHR ''e'') (CHR ''E'') then next_scl r
      else if is_key c (CHR ''v'') (CHR ''V'') then r\<lparr>printerr := flip (printerr r)\<rparr>
      else if is_key c (CHR ''q'') (CHR ''Q'')
      then (let st = half (istep r) in r\<lparr>istep := (if st < 1 then 4 else st)\<rparr>)
      else r)"

section \<open>Commands that run something\<close>

definition test_verbose :: "'h run \<Rightarrow> 'h run" where
  "test_verbose r = on_mt (\<lambda>s. s\<lparr>verbose := of_int (1 + printerr r * 8)\<rparr>) r"

definition eye_verbose :: "'h run \<Rightarrow> 'h run" where
  "eye_verbose r = on_mt (\<lambda>s. s\<lparr>verbose := 0x22 OR of_int (printerr r * 8)\<rparr>) r"

text \<open>The commands s, 1 to 6: \<open>n\<close> megabytes from address 1 MB.\<close>

definition run_test :: "'h platform \<Rightarrow> int \<Rightarrow> 'h run \<Rightarrow> 'h run option" where
  "run_test P n r = on_mt_opt (memtest_all P mbyte (n * (1024 * 1024)) 0x7fff 0) (test_verbose r)"

definition loop_test_body :: "'h platform \<Rightarrow> int \<Rightarrow> 'h run \<Rightarrow> 'h run option" where
  "loop_test_body P lp r = do {
     r \<leftarrow> on_mt_opt (memtest_all P mbyte (1024 * 1024 * (test_sizes ! nat (test_size_sel r))) 0x7fff lp) r;
     Some (r\<lparr>cum_errcnt := map (\<lambda>i. cum_errcnt r ! i + errcnt (mts r) ! i) [0, 1, 2, 3]\<rparr>)
   }"

definition loop_test :: "'h platform \<Rightarrow> 'h run \<Rightarrow> 'h run option" where
  "loop_test P r =
     (let r = (test_verbose r)\<lparr>cum_errcnt := [0, 0, 0, 0]\<rparr>
      in cfor_opt 0 (sint (test_loop_cnt r)) 1 (loop_test_body P) r)"

definition store_result :: "int list \<Rightarrow> 'h mt \<Rightarrow> 'h mt" where
  "store_result result s = s\<lparr>gresult := result @ drop 8 (gresult s)\<rparr>"

definition run_write_eye :: "'h platform \<Rightarrow> 'h run \<Rightarrow> 'h run option" where
  "run_write_eye P r =
     (let r = eye_verbose r
      in on_mt_opt (\<lambda>s. do {
           let s = ddriob_get P (ddrc_get P s);
           (result, s) \<leftarrow> measure_write_eye P (istep r) (testsize_scl r) (fast r) (fix_center r) True s;
           Some (ddrc_init P (store_result result s))
         }) r)"

definition run_read_eye :: "'h platform \<Rightarrow> 'h run \<Rightarrow> 'h run option" where
  "run_read_eye P r =
     (let r = eye_verbose r
      in on_mt_opt (\<lambda>s. do {
           (result, s) \<leftarrow> measure_read_eye P mbyte (1024 * 1024 * testsize_scl r) (fast r) (istep r) s;
           Some (store_result result s)
         }) r)"

definition toggle_cache :: "(bool \<Rightarrow> 'h \<Rightarrow> 'h) \<Rightarrow> 'h run \<Rightarrow> 'h run" where
  "toggle_cache dc r =
     (if cache_enable r = 1
      then on_mt (\<lambda>s. s\<lparr>hw := dc False (hw s)\<rparr>) r\<lparr>cache_enable := 0\<rparr>
      else on_mt (\<lambda>s. s\<lparr>hw := dc True (hw s)\<rparr>) r\<lparr>cache_enable := 1\<rparr>)"

definition toggle_remote :: "'h platform \<Rightarrow> 'h run \<Rightarrow> 'h run" where
  "toggle_remote P r =
     (let r = r\<lparr>remote_mode := flip (remote_mode r)\<rparr>;
          r = on_mt (\<lambda>s. REG_WRITE P MAILBOX_START 0
                (REG_WRITE P MAILBOX_DONE 0 (REG_WRITE P MAILBOX_GO 0 s))) r
      in r\<lparr>go := 0\<rparr>)"

definition step_pll :: "'h platform \<Rightarrow> 'h run \<Rightarrow> 'h run option" where
  "step_pll P r =
     (let d = pll_div r + 4;
          r = r\<lparr>pll_div := (if d > 48 then 32 else d)\<rparr>
      in on_mt_opt (my_set_pll P 0 (pll_div r) 2 (3333333 / 100000)) r)"

text \<open>
  The chain of comparisons on the command character. The result says whether \<open>mem_test\<close> was set
  and whether the command returned from \<open>memtest_run\<close>. The second test for \<open>z\<close>, which would
  toggle the remote mode, comes after the one for the cache, as in the source.
\<close>

definition exec_command ::
    "'h platform \<Rightarrow> (bool \<Rightarrow> 'h \<Rightarrow> 'h) \<Rightarrow> char \<Rightarrow> 'h run \<Rightarrow> ((bool \<times> bool) \<times> 'h run) option" where
  "exec_command P dc c r =
     (let test = (\<lambda>n ret. map_option (Pair (True, ret)) (run_test P n r));
          other = map_option (Pair (False, False))
      in if is_key c (CHR ''s'') (CHR ''S'') then test 1 True
      else if c = CHR ''1'' then test 32 True
      else if c = CHR ''2'' then test 64 False
      else if c = CHR ''3'' then test 128 False
      else if c = CHR ''4'' then test 255 False
      else if c = CHR ''5'' then test 511 False
      else if c = CHR ''6'' then test 1023 False
      else if c = CHR ''7'' then other (loop_test P r)
      else if is_key c (CHR ''d'') (CHR ''D'')
      then other (on_mt_opt (weye_test1 P False) (on_mt (\<lambda>s. s\<lparr>verbose := 0x40\<rparr>) r))
      else if is_key c (CHR ''a'') (CHR ''A'')
      then other (on_mt_opt (weye_test1 P True) (on_mt (\<lambda>s. s\<lparr>verbose := 0\<rparr>) r))
      else if is_key c (CHR ''b'') (CHR ''B'')
      then other (Some (on_mt (\<lambda>s. update_patterns (s\<lparr>bus_width := (if bus_width s = 32 then 16 else 32)\<rparr>)) r))
      else if is_key c (CHR ''z'') (CHR ''Z'') then other (Some (toggle_cache dc r))
      else if is_key c (CHR ''i'') (CHR ''I'') then other (run_write_eye P r)
      else if is_key c (CHR ''j'') (CHR ''J'')
      then other (Some (on_mt (\<lambda>s. s\<lparr>fast_is_bc := flip (fast_is_bc s)\<rparr>) r))
      else if is_key c (CHR ''r'') (CHR ''R'') then other (run_read_eye P r)
      else if is_key c (CHR ''y'') (CHR ''Y'')
      then other (Some (on_mt (\<lambda>s. s\<lparr>csv_mode := flip (csv_mode s)\<rparr>) r))
      else if is_key c (CHR ''x'') (CHR ''X'') then other (Some (on_mt (\<lambda>s. snd (read_xadc P s)) r))
      else if is_key c (CHR ''z'') (CHR ''Z'') then other (Some (toggle_remote P r))
      else if c = CHR ''8''
      then other (on_mt_opt (memtest_simple P mbyte (64 * (1024 * 1024)) 0 (- 1) 0xFFFFFFFF 0 0xFFFFFFFF 0) r)
      else if c = CHR ''9'' then other (Some (on_mt (memtest_readonly P mbyte (64 * (1024 * 1024))) r))
      else if is_key c (CHR ''p'') (CHR ''P'') then other (step_pll P r)
      else other (Some (set_command c r)))"

section \<open>The command loop\<close>

text \<open>Polls \<open>MAILBOX_GO\<close> until it differs from \<open>g\<close>.\<close>

partial_function (option) go_wait :: "'h platform \<Rightarrow> word32 \<Rightarrow> 'h mt \<Rightarrow> (word32 \<times> 'h mt) option" where
  "go_wait P g s =
     (if fst (REG_READ P MAILBOX_GO s) \<noteq> g then Some (REG_READ P MAILBOX_GO s)
      else go_wait P g (snd (REG_READ P MAILBOX_GO s)))"

datatype command = StartSize | Menu char

definition get_command :: "'h platform \<Rightarrow> 'h run \<Rightarrow> (command \<times> 'h run) option" where
  "get_command P r =
     (if remote_mode r \<noteq> 0
      then do {
        (k, s) \<leftarrow> go_wait P (go r) (mts r);
        let (rc, s) = REG_READ P MAILBOX_START s;
        let r = r\<lparr>mts := s, go := k\<rparr>;
        Some (if rc AND 0x8000 = 0 then StartSize else Menu (char_of (unat (rc AND 0x0ff))), r)
      }
      else Some (Menu (CHR ''s''), r))"

definition start_size_test :: "'h platform \<Rightarrow> 'h run \<Rightarrow> 'h run option" where
  "start_size_test P r =
     on_mt_opt (\<lambda>s.
       let (st, s) = REG_READ P MAILBOX_START s;
           (a, s) = REG_READ P MAILBOX_SIZE s;
           (test_start, test_size) = mailbox_range st a;
           (sel, s) = REG_READ P MAILBOX_MODE s
       in memtest_all P test_start (sint test_size) sel 0 (s\<lparr>verbose := of_int (1 + printerr r * 8)\<rparr>)) r"

definition post_done :: "'h platform \<Rightarrow> 'h mt \<Rightarrow> 'h mt" where
  "post_done P s = (let (k, s) = REG_READ P MAILBOX_DONE s in REG_WRITE P MAILBOX_DONE (k + 1) s)"

definition report_done :: "'h platform \<Rightarrow> bool \<Rightarrow> 'h run \<Rightarrow> 'h run" where
  "report_done P mem_test r =
     (if remote_mode r \<noteq> 0
      then on_mt (\<lambda>s. post_done P (if mem_test then upload_memtest_results P s else s)) r
      else r)"

text \<open>One iteration of the \<open>while (1)\<close>; the flag says that the function returned.\<close>

definition run_step :: "'h platform \<Rightarrow> (bool \<Rightarrow> 'h \<Rightarrow> 'h) \<Rightarrow> 'h run \<Rightarrow> (bool \<times> 'h run) option" where
  "run_step P dc r = do {
     (cmd, r) \<leftarrow> get_command P r;
     let r = on_mt (check_bus_width P) r;
     ((mem_test, ret), r) \<leftarrow> (case cmd of
        StartSize \<Rightarrow> map_option (Pair (True, False)) (start_size_test P r)
      | Menu c \<Rightarrow> exec_command P dc c r);
     Some (if ret then (True, r) else (False, report_done P mem_test r))
   }"

partial_function (option) run_loop :: "'h platform \<Rightarrow> (bool \<Rightarrow> 'h \<Rightarrow> 'h) \<Rightarrow> 'h run \<Rightarrow> 'h run option" where
  "run_loop P dc r =
     (case run_step P dc r of
        None \<Rightarrow> None
      | Some (ret, r) \<Rightarrow> if ret then Some r else run_loop P dc r)"

definition setup_regs :: "'h platform \<Rightarrow> 'h mt \<Rightarrow> 'h mt" where
  "setup_regs P s =
     (let s = clear_tdm_idm P (ddr_nonsecure P (unlock_slcr P s));
          s = REG_WRITE P MAILBOX_GO 0 s;
          s = REG_WRITE P MAILBOX_DONE 0 s;
          s = REG_WRITE P MAILBOX_START 1 s;
          s = REG_WRITE P MAILBOX_SIZE 4 s;
          s = REG_WRITE P MAILBOX_MODE 0x07FFF s
      in REG_WRITE P MAILBOX_LAST 0x08000 s)"

definition run_setup :: "'h platform \<Rightarrow> 'h run \<Rightarrow> 'h run" where
  "run_setup P r =
     (let s = setup_regs P (mts r);
          (k, s) = REG_READ P MAILBOX_XREGV s;
          s = s\<lparr>pat1 := map (\<lambda>i. pattern1 ! (i AND 15)) [0..<128],
                pat2 := map (\<lambda>i. let imaski = drop_bit 4 i AND 0x07
                                 in pattern1 ! (i AND 15) XOR invertmask ! imaski) [0..<128]\<rparr>
      in r\<lparr>mts := s, go := 0, remote_mode := (if k = 0x55 then 1 else 0)\<rparr>)"

definition memtest_run :: "'h platform \<Rightarrow> (bool \<Rightarrow> 'h \<Rightarrow> 'h) \<Rightarrow> int \<Rightarrow> 'h run \<Rightarrow> 'h run option" where
  "memtest_run P dc div0 r = run_loop P dc (run_setup P (run_enter div0 r))"

section \<open>The other test modes\<close>

text \<open>
  \<open>test_mode\<close> 2 repeats a write-only test whose mode counts modulo 256; \<open>test_mode\<close> 0 serves
  tests requested through the mailbox. Both loops never end; the model is one iteration of each.
\<close>

definition probe_step :: "'h platform \<Rightarrow> int \<times> 'h mt \<Rightarrow> (int \<times> 'h mt) option" where
  "probe_step P = (\<lambda>(k, s). do {
     s \<leftarrow> memtest_simple P mbyte (4 * (1024 * 1024)) k (- 1) 0xFFFFFFFF 0 0xFFFFFFFF 0 s;
     Some ((k + 1) AND 0x0ff, s)
   })"

definition xregv_table :: "'h platform \<Rightarrow> word32 \<Rightarrow> int \<Rightarrow> int \<Rightarrow> (word32 \<times> 'h test) list" where
  "xregv_table P test_start test_size lp = [
     (0x0001, memtest P test_start test_size 0 lp),
     (0x0002, memtest_simple P test_start test_size 1 lp 0 0 0 0),
     (0x0004, memtest_simple P test_start test_size 2 lp 0xFFFFFFFF 0xFFFFFFFF 0xFFFFFFFF 0xFFFFFFFF),
     (0x0008, memtest_simple P test_start test_size 3 lp 0xAAAAAAAA 0xAAAAAAAA 0xAAAAAAAA 0xAAAAAAAA),
     (0x0010, memtest_simple P test_start test_size 4 lp 0x55555555 0x55555555 0x55555555 0x55555555),
     (0x0020, memtest_simple P test_start test_size 5 lp 0 0xFFFFFFFF 0 0xFFFFFFFF),
     (0x0040, memtest_simple P test_start test_size 6 lp 0xFFFFFFFF 0 0xFFFFFFFF 0),
     (0x0080, memtest_simple P test_start test_size 7 lp 0x55555555 0xAAAAAAAA 0x55555555 0xAAAAAAAA),
     (0x0100, memtest_simple P test_start test_size 8 lp 0xAAAAAAAA 0x55555555 0xAAAAAAAA 0x55555555),
     (0x0200, \<lambda>s. memtest_pat128 P test_start test_size 9 (pat1 s) s),
     (0x0400, \<lambda>s. memtest_pat128 P test_start test_size 10 (pat2 s) s),
     (0x0800, memtest_lfsr P test_start test_size 11 lp),
     (0x1000, memtest_lfsr P test_start test_size 12 lp),
     (0x2000, memtest_lfsr P test_start test_size 13 lp),
     (0x4000, memtest_lfsr P test_start test_size 14 lp)]"

text \<open>The request: start, size, loop count and selection, after clamping.\<close>

definition xregv_request :: "'h platform \<Rightarrow> 'h mt \<Rightarrow> (word32 \<times> word32 \<times> int \<times> word32) \<times> 'h mt" where
  "xregv_request P s =
     (let (st, s) = REG_READ P MAILBOX_START s;
          (a, s) = REG_READ P MAILBOX_SIZE s;
          s = s\<lparr>verbose := (if a AND 1 \<noteq> 0 then 9 else 1)\<rparr>;
          loop_cnt = uint (signed_drop_bit 10 a AND 0x3f);
          loop_cnt = (if loop_cnt < 1 then 1 else loop_cnt);
          (test_start, test_size) = mailbox_range st a;
          (sel, s) = REG_READ P MAILBOX_MODE s
      in ((test_start, test_size, loop_cnt, sel), s))"

definition xregv_special :: "'h platform \<Rightarrow> word32 \<Rightarrow> int \<Rightarrow> 'h mt \<Rightarrow> (int \<times> 'h mt) option" where
  "xregv_special P sel loop_cnt s =
     (if sel AND 0x08000 \<noteq> 0
      then map_option (Pair 0) (if sel = 0x8001 then weye_test1 P False s else Some s)
      else Some (loop_cnt, s))"

definition xregv_caches :: "'h platform \<Rightarrow> 'h mt \<Rightarrow> 'h mt" where
  "xregv_caches P s =
     (let (last, s) = REG_READ P MAILBOX_LAST s;
          on = (last AND 1 = 0);
          s = s\<lparr>hw := l2_ctrl P (if on then 1 else 0) (cache_ctrl P on on (hw s))\<rparr>
      in s\<lparr>verbose := (if last AND 2 \<noteq> 0 then 9 else 1)\<rparr>)"

definition xregv_loops :: "'h platform \<Rightarrow> word32 \<Rightarrow> word32 \<Rightarrow> word32 \<Rightarrow> int \<Rightarrow> 'h mt \<Rightarrow> 'h mt option" where
  "xregv_loops P test_start test_size sel loop_cnt s =
     cfor_opt 0 loop_cnt 1 (\<lambda>lp. run_tests sel (xregv_table P test_start (sint test_size) lp))
       (s\<lparr>werr := 0, errcnt := [0, 0, 0, 0], total_test_time := 0\<rparr>)"

definition xregv_step :: "'h platform \<Rightarrow> word32 \<times> 'h mt \<Rightarrow> (word32 \<times> 'h mt) option" where
  "xregv_step P = (\<lambda>(g, s). do {
     let (_, s) = REG_READ P (0xF8F02000 + 0x0100) s;
     (k, s) \<leftarrow> go_wait P g s;
     let ((test_start, test_size, loop_cnt, sel), s) = xregv_request P s;
     (loop_cnt, s) \<leftarrow> xregv_special P sel loop_cnt s;
     let s = xregv_caches P s;
     s \<leftarrow> xregv_loops P test_start test_size sel loop_cnt s;
     Some (k, post_done P (upload_memtest_results P s))
   })"

end
