(* ===== verification/Menu.thy ===== *)
theory Menu
  imports Boot MemtestRun
begin

text \<open>
  mfg\_test\_src/menu.c: the menu of the manufacturing test, with the tests it calls. The hook of
  mfg\_test\_src/fsbl\_hooks.c calls \<open>menu\<close> before the hand-over. \<open>stdin\<close> holds the characters
  still to be typed. The variables of memtest.c and the hardware are the state \<open>run\<close>, which the
  memory test changes.
\<close>

record 'h menu_state =
  m_in :: string
  m_out :: "console list"
  m_run :: "'h run"

text \<open>Running code that works on the board and the output.\<close>

definition boot_of :: "'h menu_state \<Rightarrow> 'h boot" where
  "boot_of m = \<lparr>bd = hw (mts (m_run m)), out = m_out m\<rparr>"

definition with_boot :: "'h menu_state \<Rightarrow> 'h boot \<Rightarrow> 'h menu_state" where
  "with_boot m s = m\<lparr>m_out := out s, m_run := on_mt (\<lambda>t. t\<lparr>hw := bd s\<rparr>) (m_run m)\<rparr>"

definition mtell :: "string \<Rightarrow> arg list \<Rightarrow> 'h menu_state \<Rightarrow> 'h menu_state" where
  "mtell f args m = m\<lparr>m_out := m_out m @ [Printf f args]\<rparr>"

section \<open>The board switch\<close>

text \<open>One reading of the switch: the state is \<open>switchOK\<close>, \<open>last_id\<close>, \<open>prev_id\<close>, \<open>debounce\<close>; the
  result also tells whether the setting is printed as found.\<close>

definition board_id_step :: "int \<Rightarrow> int \<times> int \<times> int \<times> int \<Rightarrow> bool \<times> int \<times> int \<times> int \<times> int" where
  "board_id_step board_id = (\<lambda>(switchOK, last_id, prev_id, debounce).
     (let (prev_id, debounce) = (if board_id = prev_id then (prev_id, debounce + 1) else (board_id, 0))
      in if board_id \<noteq> last_id \<and> debounce \<ge> 10
         then let mask = push_bit (nat board_id) 1;
                  new = (switchOK AND mask = 0);
                  switchOK = (if new then switchOK OR mask else switchOK)
              in (new, switchOK, board_id, prev_id, 0)
         else (False, switchOK, last_id, prev_id, debounce)))"

definition read_board_id :: "'h bsp \<Rightarrow> word32 \<Rightarrow> 'h boot \<Rightarrow> (int \<times> 'h boot) option" where
  "read_board_id B u s = map_option (\<lambda>(r, s). (uint (drop_bit 24 (r AND 0x0f000000)), s)) (read_quad B 0 u s)"

partial_function (option) TestBoardID_loop ::
    "'h bsp \<Rightarrow> word32 \<Rightarrow> int \<times> int \<times> int \<times> int \<Rightarrow> 'h boot \<Rightarrow> 'h boot option"
where
  "TestBoardID_loop B u st s =
     (if fst st = 0x0000ffff then Some s
      else do {
        (board_id, s) \<leftarrow> read_board_id B u s;
        let s = s\<lparr>bd := usleep B 10000 (bd s)\<rparr>;
        let (found, st) = board_id_step board_id st;
        TestBoardID_loop B u st (if found then tell ''  Found %d'' [Num board_id] s else s)
      })"

definition TestBoardID :: "'h bsp \<Rightarrow> word32 \<Rightarrow> 'h boot \<Rightarrow> 'h boot option" where
  "TestBoardID B u s =
     map_option (tell '''' [])
       (TestBoardID_loop B u (0, 16, 16, 0) (tell ''Rotate switch to all 16 settings'' [] s))"

section \<open>The menu\<close>

definition TestQSPI :: "'h bsp \<Rightarrow> 'h boot \<Rightarrow> 'h boot" where
  "TestQSPI B s =
     (let (status, h) = QspiPsSelfTestExample B (bd s); s = s\<lparr>bd := h\<rparr>
      in if status = 0 then tell ''QSPI Test PASS'' [] s else tell ''QSPI Test FAIL'' [] s)"

text \<open>\<open>dc\<close> and \<open>pdiv\<close> are those of \<open>memtest_run\<close>.\<close>

definition TestMemory :: "'h bsp \<Rightarrow> (bool \<Rightarrow> 'h \<Rightarrow> 'h) \<Rightarrow> int \<Rightarrow> 'h menu_state \<Rightarrow> 'h menu_state option" where
  "TestMemory B dc pdiv m =
     map_option (\<lambda>r. mtell ''... Finished'' [] (m\<lparr>m_run := r\<rparr>)) (memtest_run (pf B) dc pdiv (m_run m))"

definition menu_option ::
    "'h bsp \<Rightarrow> (bool \<Rightarrow> 'h \<Rightarrow> 'h) \<Rightarrow> int \<Rightarrow> word32 \<Rightarrow> char \<Rightarrow> 'h menu_state \<Rightarrow> 'h menu_state option"
where
  "menu_option B dc pdiv u option m =
     (if option = CHR ''1'' then map_option (with_boot m) (TestBoardID B u (boot_of m))
      else if option = CHR ''2'' then Some (with_boot m (TestQSPI B (boot_of m)))
      else if option = CHR ''3'' then TestMemory B dc pdiv m
      else Some m)"

definition menu_lines :: "string list" where
  "menu_lines = [''0) Exit'', ''1) Test board id'', ''2) Test QSPI'', ''3) Test memory'', ''Enter selection:'']"

text \<open>The loop consumes one character per turn; the output of a turn ends with the option twice,
  once printed and once as a byte.\<close>

fun menu_loop ::
    "'h bsp \<Rightarrow> (bool \<Rightarrow> 'h \<Rightarrow> 'h) \<Rightarrow> int \<Rightarrow> word32 \<Rightarrow> string \<Rightarrow> 'h menu_state \<Rightarrow> stuck + 'h menu_state"
where
  "menu_loop B dc pdiv u [] m = Inl Waiting"
| "menu_loop B dc pdiv u (c # cs) m =
     (let m = fold (\<lambda>l. mtell l []) menu_lines m;
          m = m\<lparr>m_in := cs, m_out := m_out m @ (if c = CHR 0x0D then [Byte (CHR 0x0A)] else [])\<rparr>;
          m = mtell ''Option Selected : %c'' [Str [c]] m;
          m = mtell '''' [] (m\<lparr>m_out := m_out m @ [Byte c]\<rparr>)
      in (case menu_option B dc pdiv u c m of
            None \<Rightarrow> Inl No_return
          | Some m \<Rightarrow> if c = CHR ''0'' then Inr (mtell ''Exiting'' [] m)
                      else menu_loop B dc pdiv u cs m))"

definition menu ::
    "'h bsp \<Rightarrow> (bool \<Rightarrow> 'h \<Rightarrow> 'h) \<Rightarrow> int \<Rightarrow> word32 \<Rightarrow> 'h menu_state \<Rightarrow> stuck + 'h menu_state"
where
  "menu B dc pdiv u m =
     (let s = boot_of m;
          s = s\<lparr>bd := EMIO_Init (pf B) (bd s)\<rparr>;
          (st, h) = q_init B (bd s);
          s = s\<lparr>bd := h\<rparr>
      in (case (if st = XST_SUCCESS then copy_serial B s
                else Inr (tell ''Failed to initialize QSPI'' [] s)) of
            Inl e \<Rightarrow> Inl e
          | Inr s \<Rightarrow> menu_loop B dc pdiv u (m_in m) (mtell '''' [] (with_boot m s))))"

definition FsblHookBeforeBitstreamDload_mfg :: word32 where "FsblHookBeforeBitstreamDload_mfg = XST_SUCCESS"
definition FsblHookAfterBitstreamDload_mfg :: word32 where "FsblHookAfterBitstreamDload_mfg = XST_SUCCESS"

definition FsblHookBeforeHandoff_mfg ::
    "'h bsp \<Rightarrow> (bool \<Rightarrow> 'h \<Rightarrow> 'h) \<Rightarrow> int \<Rightarrow> word32 \<Rightarrow> 'h menu_state \<Rightarrow> stuck + word32 \<times> 'h menu_state"
where
  "FsblHookBeforeHandoff_mfg B dc pdiv u m =
     (case menu B dc pdiv u m of Inl e \<Rightarrow> Inl e | Inr m \<Rightarrow> Inr (XST_SUCCESS, m))"

partial_function (option) FsblHookFallback_mfg :: "'h \<Rightarrow> 'h option" where
  "FsblHookFallback_mfg h = FsblHookFallback_mfg h"

end
