(* ===== verification/MenuProps.thy ===== *)
theory MenuProps
  imports Menu BootProps
begin

text \<open>
  The board switch test: which readings of the switch count as found, and that the test ends.
\<close>

section \<open>Runs of readings\<close>

text \<open>The setting \<open>i\<close> was read 11 times in a row.\<close>

definition held :: "int \<Rightarrow> int list \<Rightarrow> bool" where
  "held i ids \<longleftrightarrow> (\<exists>pre suf. ids = pre @ replicate 11 i @ suf)"

definition switch_run :: "int list \<Rightarrow> int \<times> int \<times> int \<times> int" where
  "switch_run ids = fold (\<lambda>i st. snd (board_id_step i st)) ids (0, 16, 16, 0)"

definition is_id :: "int \<Rightarrow> bool" where
  "is_id i \<longleftrightarrow> 0 \<le> i \<and> i < 16"

text \<open>The last reading and how often it was repeated.\<close>

fun tail_run :: "int list \<Rightarrow> nat" where
  "tail_run [] = 0"
| "tail_run [x] = 0"
| "tail_run (x # y # ys) = (if x = y then Suc (tail_run (y # ys)) else 0)"

definition repeats :: "int list \<Rightarrow> nat" where
  "repeats ids = tail_run (rev ids)"

lemma repeats_snoc:
  "repeats (ids @ [i]) = (if ids \<noteq> [] \<and> last ids = i then Suc (repeats ids) else 0)"
  by (cases ids rule: rev_cases) (auto simp: repeats_def)

lemma tail_run_replicate: "n \<le> tail_run (x # xs) \<Longrightarrow> \<exists>ys. x # xs = replicate (Suc n) x @ ys"
proof (induction xs arbitrary: n)
  case (Cons y ys)
  then show ?case
    by (cases n) (auto split: if_splits)
qed simp

lemma repeats_replicate:
  assumes "ids \<noteq> []" "n \<le> repeats ids"
  shows "\<exists>pre. ids = pre @ replicate (Suc n) (last ids)"
proof -
  obtain x xs where r: "rev ids = x # xs" using assms(1) by (cases "rev ids") auto
  then have l: "last ids = x" by (metis last_rev list.sel(1) rev_rev_ident hd_rev)
  from tail_run_replicate [of n x xs] assms(2) obtain ys where "rev ids = replicate (Suc n) x @ ys"
    by (auto simp: repeats_def r)
  then have "ids = rev ys @ rev (replicate (Suc n) x)" by (metis rev_append rev_rev_ident)
  then show ?thesis using l by (metis rev_replicate)
qed

lemma held_snoc:
  "held i (ids @ [j]) \<longleftrightarrow> held i ids \<or> i = j \<and> 10 \<le> repeats (ids @ [j])"
proof
  assume "held i (ids @ [j])"
  then obtain pre suf where e: "ids @ [j] = pre @ replicate 11 i @ suf" by (auto simp: held_def)
  show "held i ids \<or> i = j \<and> 10 \<le> repeats (ids @ [j])"
  proof (cases suf rule: rev_cases)
    case Nil
    have "repeats (pre @ replicate (Suc n) i) \<ge> n" for n
    proof (induction n)
      case (Suc n)
      have "pre @ replicate (Suc (Suc n)) i = (pre @ replicate (Suc n) i) @ [i]" by (simp add: replicate_append_same)
      with Suc show ?case by (simp add: repeats_snoc del: append_assoc)
    qed simp
    from this [of 10] have "10 \<le> repeats (ids @ [j])" unfolding e Nil by (simp add: numeral_eq_Suc)
    moreover have "i = j" using e Nil by (metis append_Nil2 last_appendR last_replicate last_snoc replicate_empty zero_neq_numeral)
    ultimately show ?thesis by simp
  next
    case (snoc suf' x)
    then have "ids = pre @ replicate 11 i @ suf'" using e by simp
    then show ?thesis by (auto simp: held_def)
  qed
next
  assume "held i ids \<or> i = j \<and> 10 \<le> repeats (ids @ [j])"
  then show "held i (ids @ [j])"
  proof
    assume "held i ids"
    then show ?thesis by (force simp: held_def)
  next
    assume "i = j \<and> 10 \<le> repeats (ids @ [j])"
    then show ?thesis using repeats_replicate [of "ids @ [j]" 10] by (force simp: held_def numeral_eq_Suc)
  qed
qed

section \<open>Exactly the held settings are found\<close>

definition sw_inv :: "int list \<Rightarrow> int \<times> int \<times> int \<times> int \<Rightarrow> bool" where
  "sw_inv ids = (\<lambda>(ok, lst, prev, deb).
     prev = (if ids = [] then 16 else last ids)
     \<and> take_bit 16 ok = ok \<and> (\<forall>i. is_id i \<longrightarrow> (bit ok (nat i) \<longleftrightarrow> held i ids))
     \<and> (lst = 16 \<or> held lst ids)
     \<and> (lst \<noteq> prev \<longrightarrow> deb = int (repeats ids) \<and> deb < 10))"

lemma set_mask:
  fixes ok :: int
  shows "bit (if ok AND push_bit k 1 = 0 then ok OR push_bit k 1 else ok) n \<longleftrightarrow> bit ok n \<or> n = k"
proof (cases "ok AND push_bit k 1 = 0")
  case True
  then show ?thesis by (auto simp: bit_simps)
next
  case False
  have "bit ok k"
  proof (rule ccontr)
    assume "\<not> bit ok k"
    then have "ok AND push_bit k 1 = 0" by (intro bit_eqI) (auto simp: bit_simps)
    with False show False by simp
  qed
  with False show ?thesis by auto
qed

lemma sw_inv_step:
  assumes inv: "sw_inv ids st" and j: "is_id j" and ids: "\<forall>i \<in> set ids. is_id i"
  shows "sw_inv (ids @ [j]) (snd (board_id_step j st))"
proof -
  obtain ok lst prev deb where st: "st = (ok, lst, prev, deb)" by (cases st)
  have prev: "prev = (if ids = [] then 16 else last ids)" and low: "take_bit 16 ok = ok"
    and bits: "\<And>i. is_id i \<Longrightarrow> bit ok (nat i) \<longleftrightarrow> held i ids" and lst: "lst = 16 \<or> held lst ids"
    and deb: "lst \<noteq> prev \<Longrightarrow> deb = int (repeats ids) \<and> deb < 10"
    using inv by (auto simp: sw_inv_def st)
  let ?deb = "if j = prev then deb + 1 else 0"
  have j16: "j \<noteq> 16" "nat j < 16" using j by (auto simp: is_id_def)
  have rep: "int (repeats (ids @ [j])) = ?deb" if "j = prev \<longrightarrow> lst \<noteq> prev"
    using that prev deb j16 by (auto simp: repeats_snoc split: if_splits)
  show ?thesis
  proof (cases "j \<noteq> lst \<and> ?deb \<ge> 10")
    case True
    then have "j = prev" "lst \<noteq> prev" by (auto split: if_splits)
    with True rep have r: "10 \<le> repeats (ids @ [j])" by simp
    let ?ok = "if ok AND push_bit (nat j) 1 = 0 then ok OR push_bit (nat j) 1 else ok"
    have "snd (board_id_step j st) = (?ok, j, j, 0)"
      using True by (simp add: board_id_step_def st Let_def split: if_splits)
    moreover have "take_bit 16 ?ok = ?ok"
    proof (rule bit_eqI, unfold bit_take_bit_iff set_mask)
      fix n
      have "bit ok n \<Longrightarrow> n < 16" using low by (metis bit_take_bit_iff)
      then show "(n < 16 \<and> (bit ok n \<or> n = nat j)) = (bit ok n \<or> n = nat j)" using j16 by blast
    qed
    moreover have "bit ?ok (nat i) \<longleftrightarrow> held i (ids @ [j])" if i: "is_id i" for i
      using bits [OF i] r i j unfolding set_mask held_snoc by (auto simp: is_id_def)
    moreover have "held j (ids @ [j])" using r by (simp add: held_snoc)
    ultimately show ?thesis by (simp add: sw_inv_def)
  next
    case False
    have st': "snd (board_id_step j st) = (ok, lst, j, ?deb)"
      using False by (auto simp: board_id_step_def st Let_def)
    have keep: "held i ids" if "i = j" "10 \<le> repeats (ids @ [j])" for i
    proof (cases "j = lst")
      case True
      then show ?thesis using lst j16 that(1) by auto
    next
      case n: False
      then have "?deb < 10" using False by auto
      moreover have "int (repeats (ids @ [j])) = ?deb" by (rule rep) (use n in auto)
      ultimately show ?thesis using that(2) by linarith
    qed
    have "bit ok (nat i) \<longleftrightarrow> held i (ids @ [j])" if i: "is_id i" for i
      using bits [OF i] keep [of i] by (auto simp: held_snoc)
    moreover have "lst = 16 \<or> held lst (ids @ [j])" using lst by (auto simp: held_snoc)
    moreover have "lst \<noteq> j \<Longrightarrow> ?deb = int (repeats (ids @ [j])) \<and> ?deb < 10"
      using False rep by auto
    ultimately show ?thesis unfolding st' sw_inv_def using low by (cases "lst = j") simp_all
  qed
qed

lemma switch_run_inv: "\<forall>i \<in> set ids. is_id i \<Longrightarrow> sw_inv ids (switch_run ids)"
proof (induction ids rule: rev_induct)
  case Nil
  have "\<not> held i []" for i by (simp add: held_def)
  then show ?case by (simp add: switch_run_def sw_inv_def)
next
  case (snoc j ids)
  then show ?case using sw_inv_step [of ids "switch_run ids" j] by (simp add: switch_run_def)
qed

text \<open>C30. After any sequence of readings of the board switch, the bits of \<open>switchOK\<close> are exactly the
  settings that were read at least 11 times in a row at some point, in any order and however often
  the switch bounced between other settings.\<close>

theorem switch_found_iff_held:
  assumes "\<forall>i \<in> set ids. is_id i" and "is_id i"
  shows "bit (fst (switch_run ids)) (nat i) \<longleftrightarrow> held i ids"
  using switch_run_inv [OF assms(1)] assms(2) by (auto simp: sw_inv_def split: prod.splits)

theorem switch_found_iff_held_witness:
  "bit (fst (switch_run (replicate 5 3 @ [4] @ replicate 11 3))) (nat 3)
    \<and> \<not> bit (fst (switch_run (replicate 10 3 @ [4] @ replicate 10 3))) (nat 3)"
proof -
  have "held 3 (replicate 5 3 @ [4] @ replicate 11 3)"
    unfolding held_def by (intro exI [of _ "replicate 5 3 @ [4]"] exI [of _ "[]"]) simp
  then have yes: "bit (fst (switch_run (replicate 5 3 @ [4] @ replicate 11 3))) (nat 3)"
    using switch_found_iff_held [of "replicate 5 3 @ [4] @ replicate 11 3" 3] by (auto simp: is_id_def)
  have "\<not> bit (fst (switch_run (replicate 10 3 @ [4] @ replicate 10 3))) (nat 3)"
    by (simp add: switch_run_def board_id_step_def numeral_eq_Suc)
  with yes show ?thesis by blast
qed


section \<open>The test ends\<close>

lemma full_mask:
  assumes "take_bit 16 ok = (ok :: int)" and "\<And>i. is_id i \<Longrightarrow> bit ok (nat i)"
  shows "ok = 0xffff"
proof -
  have "bit ok n \<longleftrightarrow> n < 16" for n
  proof
    assume "bit ok n"
    then show "n < 16" using assms(1) by (metis bit_take_bit_iff)
  next
    assume "n < 16"
    then show "bit ok n" using assms(2) [of "int n"] by (simp add: is_id_def)
  qed
  then have "ok = mask 16" by (intro bit_eqI) (simp add: bit_mask_iff)
  then show ?thesis by (simp add: mask_eq_exp_minus_1)
qed

lemma board_id_is_id: "is_id (uint (drop_bit 24 (r AND 0x0f000000 :: word32)))"
proof -
  have "drop_bit 24 r AND 15 = take_bit 4 (drop_bit 24 r)" by (simp add: take_bit_eq_mask mask_eq_exp_minus_1)
  then show ?thesis by (simp add: is_id_def take_bit_eq_mod uint_mod)
qed

text \<open>The first \<open>n\<close> readings from hardware state \<open>h\<close>, if each of them returns.\<close>

fun readings :: "'h bsp \<Rightarrow> word32 \<Rightarrow> nat \<Rightarrow> 'h \<Rightarrow> (int list \<times> 'h) option" where
  "readings B u 0 h = Some ([], h)"
| "readings B u (Suc n) h = do {
     (i, s) \<leftarrow> read_board_id B u \<lparr>bd = h, out = []\<rparr>;
     (ids, h) \<leftarrow> readings B u n (usleep B 10000 (bd s));
     Some (i # ids, h)
   }"

lemma read_board_id_out:
  "read_board_id B u s = map_option (\<lambda>(i, t). (i, s\<lparr>bd := bd t\<rparr>)) (read_board_id B u \<lparr>bd = bd s, out = []\<rparr>)"
  by (cases s) (simp add: read_board_id_def read_quad_def option.map_comp o_def case_prod_beta)

lemma read_board_id_is_id: "read_board_id B u s = Some (i, s') \<Longrightarrow> is_id i"
  unfolding read_board_id_def using board_id_is_id by fastforce

lemma loop_ends:
  assumes "readings B u n (bd s) = Some (ids, h')" and "\<forall>i \<in> set pre. is_id i"
    and "\<And>i. is_id i \<Longrightarrow> held i (pre @ ids)"
  shows "\<exists>s'. TestBoardID_loop B u (switch_run pre) s = Some s'"
  using assms
proof (induction n arbitrary: s ids pre)
  case 0
  then have "sw_inv pre (switch_run pre)" using switch_run_inv by blast
  with 0 have "fst (switch_run pre) = 0xffff" by (intro full_mask) (auto simp: sw_inv_def split: prod.splits)
  then show ?case by (simp add: TestBoardID_loop.simps)
next
  case (Suc n)
  obtain i t js where i: "read_board_id B u \<lparr>bd = bd s, out = []\<rparr> = Some (i, t)"
    "readings B u n (usleep B 10000 (bd t)) = Some (js, h')" "ids = i # js"
    using Suc.prems(1) by (auto split: Option.bind_splits)
  have id: "is_id i" by (rule read_board_id_is_id [OF i(1)])
  let ?st = "board_id_step i (switch_run pre)"
  let ?s = "s\<lparr>bd := usleep B 10000 (bd t)\<rparr>"
  let ?s1 = "if fst ?st then tell ''  Found %d'' [Num i] ?s else ?s"
  have step: "snd ?st = switch_run (pre @ [i])" by (simp add: switch_run_def)
  have "readings B u n (bd ?s1) = Some (js, h')" using i(2) by (simp add: tell_def)
  then obtain s' where s': "TestBoardID_loop B u (switch_run (pre @ [i])) ?s1 = Some s'"
    using Suc.IH [of ?s1 js "pre @ [i]"] Suc.prems(2,3) id i(3) by auto
  show ?case
  proof (cases "fst (switch_run pre) = 0xffff")
    case True
    then show ?thesis by (simp add: TestBoardID_loop.simps)
  next
    case False
    then have "TestBoardID_loop B u (switch_run pre) s = TestBoardID_loop B u (snd ?st) ?s1"
      using i(1) by (subst TestBoardID_loop.simps) (simp add: read_board_id_out [of B u s] case_prod_beta)
    with s' step show ?thesis by simp
  qed
qed

text \<open>C31. The board switch test ends: if the readings of the switch return and at some point each of
  the 16 settings has been held for 11 readings, the endless loop is left.\<close>

theorem TestBoardID_ends:
  assumes "readings B u n (bd s) = Some (ids, h')" and "\<And>i. is_id i \<Longrightarrow> held i ids"
  shows "\<exists>s'. TestBoardID B u s = Some s'"
proof -
  have "readings B u n (bd (tell ''Rotate switch to all 16 settings'' [] s)) = Some (ids, h')"
    using assms(1) by (simp add: tell_def)
  from loop_ends [OF this, of "[]"] assms(2) show ?thesis
    by (auto simp: TestBoardID_def switch_run_def)
qed


section \<open>A switch that is rotated\<close>

text \<open>Every wait of the test loop advances register 1; the switch, bits 27 to 24 of register 0, moves
  on to the next setting after each 11 waits.\<close>

definition turn_switch :: "nat \<Rightarrow> emio_fpga \<Rightarrow> emio_fpga" where
  "turn_switch n h = h\<lparr>fregs := (fregs h)(1 := fregs h 1 + 1, 0 := push_bit 24 ((fregs h 1 + 1) div 11))\<rparr>"

definition rotating :: "emio_fpga bsp" where
  "rotating = sim_bsp (emio_sim 2) (\<lambda>bs h. ((0, bs), h)) [] turn_switch"

lemma rotating_readings:
  assumes "emio_ready (emio_sim 2) fpins fregs h" "fregs h 1 = of_nat c" "fregs h 0 = push_bit 24 (of_nat c div 11)" "c + n \<le> 176"
  shows "\<exists>h'. readings rotating u n h = Some (map (\<lambda>k. int (k div 11)) [c..<c + n], h')"
  using assms
proof (induction n arbitrary: h c)
  case (Suc n)
  have c: "c < 176" using Suc.prems(4) by simp
  have u: "unat (of_nat c div 11 :: word32) = c div 11" using c by (simp add: unat_div unat_of_nat)
  have id: "uint (drop_bit 24 (push_bit 24 (of_nat c div 11) AND 0x0f000000 :: word32)) = int (c div 11)"
  proof -
    have "of_nat (unat (of_nat c div 11 :: word32)) = (of_nat c div 11 :: word32)" by simp
    then have "(of_nat c div 11 :: word32) = of_nat (c div 11)" unfolding u by (rule sym)
    moreover have "c div 11 \<in> set [0..<16]" using c by (auto simp: less_mult_imp_div_less)
    ultimately show ?thesis by (auto simp: upt_rec)
  qed
  obtain h1 where h1: "EMIO_ReadQuadlet (emio_sim 2) 0 h = Some (Some (fregs h 0), h1)"
    "emio_ready (emio_sim 2) fpins fregs h1" "fregs h1 = fregs h"
    using emio.read_ok [OF Suc.prems(1)] by blast
  have r: "read_board_id rotating u \<lparr>bd = h, out = []\<rparr> = Some (int (c div 11), \<lparr>bd = h1, out = []\<rparr>)"
    using h1(1) Suc.prems(3) id by (simp add: read_board_id_def read_quad_def rotating_def sim_bsp_def)
  have "emio_ready (emio_sim 2) fpins fregs (turn_switch 10000 h1)" using h1(2) by (simp add: emio_ready_def turn_switch_def)
  then obtain h' where "readings rotating u n (turn_switch 10000 h1) = Some (map (\<lambda>k. int (k div 11)) [Suc c..<Suc c + n], h')"
    using Suc.IH [of "turn_switch 10000 h1" "Suc c"] Suc.prems(2,4) h1(3) by (auto simp: turn_switch_def add.commute)
  moreover have "usleep rotating = turn_switch" by (simp add: rotating_def sim_bsp_def)
  moreover have "[c..<c + Suc n] = c # [Suc c..<Suc c + n]" by (simp add: upt_conv_Cons del: upt_Suc)
  ultimately show ?case using r by (simp del: upt_Suc add_Suc add_Suc_right)
qed simp

lemma rotating_held:
  assumes "is_id i"
  shows "held i (map (\<lambda>k. int (k div 11)) [0..<176])"
proof -
  define m where "m = nat i"
  have m: "m < 16" "i = int m" using assms by (auto simp: m_def is_id_def)
  have split: "[0..<176] = [0..<11 * m] @ [11 * m..<11 * m + 11] @ [11 * m + 11..<176]"
    using m(1) upt_add_eq_append [of 0 "11 * m" "176 - 11 * m"] upt_add_eq_append [of "11 * m" "11 * m + 11" "165 - 11 * m"]
    by (simp del: upt_eq_Cons_conv upt_Suc)
  have "map (\<lambda>k. int (k div 11)) [11 * m..<11 * m + 11] = replicate 11 i"
    using m(2) by (intro nth_equalityI) auto
  then show ?thesis unfolding split held_def by auto
qed

theorem TestBoardID_ends_witness:
  "\<exists>s'. TestBoardID rotating 0 \<lparr>bd = fpga_reset (\<lambda>a. 0), out = []\<rparr> = Some s'"
proof -
  obtain h' where "readings rotating 0 176 (bd \<lparr>bd = fpga_reset (\<lambda>a. 0), out = []\<rparr>)
      = Some (map (\<lambda>k. int (k div 11)) [0..<176], h')"
    using rotating_readings [OF emio_sim_ready [of 2 "\<lambda>a. 0"], of 0 176 0] by (auto simp: fpga_reset_def)
  then show ?thesis by (rule TestBoardID_ends) (rule rotating_held)
qed

text \<open>The hooks for a failed boot never hand over.\<close>

lemma FsblHookFallback_never_returns: "FsblHookFallback h = None" "FsblHookFallback_mfg h = None"
proof -
  have "False" if "FsblHookFallback h = Some h'" for h'
    by (rule FsblHookFallback.raw_induct [OF _ that]) blast
  moreover have "False" if "FsblHookFallback_mfg h = Some h'" for h'
    by (rule FsblHookFallback_mfg.raw_induct [OF _ that]) blast
  ultimately show "FsblHookFallback h = None" "FsblHookFallback_mfg h = None"
    by (meson option.exhaust_sel)+
qed

end
