(* ===== verification/CacheSpec.thy ===== *)
theory CacheSpec
  imports Cache
begin

text \<open>
  The cache maintenance operations: the L1 walk is a fold of one CP15 operation per line over an
  explicit list of operands, and on the Cortex-A9 geometry that list names every line of the data
  cache exactly once. The L2 operations return when the sync register reads 0 at some poll.
\<close>

section \<open>The L1 walk\<close>

definition setway_operand :: "nat \<Rightarrow> nat \<Rightarrow> nat \<Rightarrow> nat \<Rightarrow> word32" where
  "setway_operand ls nset w k =
     (of_nat w * 0x40000000) OR (of_nat (w * nset + k) * push_bit ls 1)"

lemma setway_eta:
  "setway_operand ls nset w =
     (\<lambda>k. (of_nat w * 0x40000000) OR (of_nat (w * nset + k) * push_bit ls 1))"
  by (simp add: fun_eq_iff setway_operand_def)

definition setway_ops :: "nat \<Rightarrow> nat \<Rightarrow> nat \<Rightarrow> word32 list" where
  "setway_ops ls nway nset =
     concat (map (\<lambda>w. map (setway_operand ls nset w) [0..<nset]) [0..<nway])"

lemma L1_set_loop:
  "cfor 0 (int n) 1 (L1_set_body P reg ls Way) (s0, h) =
     (s0 + of_nat n * push_bit ls 1,
      fold (cp15_wr P reg) (map (\<lambda>k. Way OR (s0 + of_nat k * push_bit ls 1)) [0..<n]) h)"
proof -
  let ?val = "\<lambda>k. Way OR (s0 + of_nat k * push_bit ls 1)"
  let ?st = "\<lambda>j. (s0 + of_nat j * push_bit ls 1, fold (cp15_wr P reg) (map ?val [0..<j]) h)"
  have "cfor 0 (int n) 1 (L1_set_body P reg ls Way) (s0, h) = ?st n"
  proof (rule cfor_inv [where P = "\<lambda>i st. 0 \<le> i \<and> i \<le> int n \<and> st = ?st (nat i)"])
    fix i st assume "0 \<le> i" "i < int n" "0 \<le> i \<and> i \<le> int n \<and> st = ?st (nat i)"
    then show "0 \<le> i + 1 \<and> i + 1 \<le> int n \<and> L1_set_body P reg ls Way i st = ?st (nat (i + 1))"
      by (simp add: L1_set_body_def nat_add_distrib algebra_simps)
  qed simp_all
  then show ?thesis .
qed

lemma L1_way_loop:
  "snd (snd (cfor 0 (int m) 1 (L1_way_body P reg ls (int n)) (0, 0, h))) =
     fold (cp15_wr P reg) (setway_ops ls m n) h"
proof -
  let ?st = "\<lambda>w. (of_nat w * 0x40000000 :: word32, of_nat (w * n) * push_bit ls 1 :: word32,
    fold (cp15_wr P reg) (setway_ops ls w n) h)"
  have "cfor 0 (int m) 1 (L1_way_body P reg ls (int n)) (0, 0, h) = ?st m"
  proof (rule cfor_inv [where P = "\<lambda>i st. 0 \<le> i \<and> i \<le> int m \<and> st = ?st (nat i)"])
    fix i st assume "0 \<le> i" "i < int m" and st: "0 \<le> i \<and> i \<le> int m \<and> st = ?st (nat i)"
    then obtain w where w: "i = int w" using nonneg_int_cases by blast
    have ops: "map (\<lambda>k. of_nat w * 0x40000000 OR (of_nat (w * n) * push_bit ls 1 + of_nat k * push_bit ls 1))
      [0..<n] = map (setway_operand ls n w) [0..<n]"
      by (simp add: setway_eta algebra_simps)
    show "0 \<le> i + 1 \<and> i + 1 \<le> int m
        \<and> L1_way_body P reg ls (int n) i st = ?st (nat (i + 1))"
      using st \<open>i < int m\<close>
      by (simp add: w nat_add_distrib setway_ops_def L1_way_body_def L1_set_loop ops [simplified]
          del: push_bit_of_1) (simp add: setway_eta algebra_simps)
  qed (simp_all add: setway_ops_def)
  then show ?thesis by simp
qed

definition csid :: "'h platform \<Rightarrow> 'h \<Rightarrow> word32" where
  "csid P h = cp15_rd P CP15_CACHE_SIZE_ID (cp15_wr P CP15_CACHE_SIZE_SEL 0 h)"

lemma L1_setway_fold:
  "L1_setway P reg h =
     fold (cp15_wr P reg)
       (setway_ops (csid_LineSize (csid P h)) (unat (csid_NumWays (csid P h)))
          (unat (csid_NumSet (csid P h))))
       (cp15_wr P CP15_CACHE_SIZE_SEL 0 h)"
proof -
  define m n where "m = unat (csid_NumWays (csid P h))" and "n = unat (csid_NumSet (csid P h))"
  have "uint (csid_NumWays (csid P h)) = int m" "uint (csid_NumSet (csid P h)) = int n"
    by (simp_all add: m_def n_def)
  then show ?thesis
    by (simp add: L1_setway_def Let_def csid_def [symmetric] case_prod_beta L1_way_loop
        m_def [symmetric] n_def [symmetric])
qed

section \<open>Coverage on the Cortex-A9\<close>

text \<open>
  The 32 KB data cache of the Zynq's Cortex-A9: 4 ways, 256 sets, lines of 32 bytes. An operand
  of a set/way operation names way \<open>[31:30]\<close> and set \<open>[12:5]\<close>.
\<close>

definition a9_csid :: word32 where "a9_csid = 0x701FE019"

definition l1_line :: "word32 \<Rightarrow> nat \<times> nat" where
  "l1_line v = (unat (drop_bit 30 v), unat (drop_bit 5 v AND 0xff))"

definition l1_lines :: "(nat \<times> nat) set" where
  "l1_lines = {0..<4} \<times> {0..<256}"

lemma a9_geometry:
  "csid_LineSize a9_csid = 5" "csid_NumWays a9_csid = 4" "csid_NumSet a9_csid = 256"
  by (simp_all add: csid_LineSize_def csid_NumWays_def csid_NumSet_def csid_CacheSize_def a9_csid_def
      push_bit_eq_mult)

lemma setway_operand_a9:
  assumes "w < 4" "k < 256"
  shows "setway_operand 5 256 w k
    = push_bit 30 (of_nat w) OR (push_bit 13 (of_nat w) OR push_bit 5 (of_nat k))"
proof -
  have k8: "\<not> bit k n" if "8 \<le> n" for n
  proof -
    have "(2::nat) ^ 8 \<le> 2 ^ n" using that by (intro power_increasing) simp_all
    then have "k < 2 ^ n" using assms(2) by simp
    then show ?thesis by (simp add: bit_iff_odd)
  qed
  have "(of_nat (w * 256 + k) :: word32) = push_bit 8 (of_nat w) + of_nat k"
    by (simp add: push_bit_eq_mult)
  also have "\<dots> = push_bit 8 (of_nat w) OR of_nat k"
  proof (rule disjunctive_add)
    fix n
    show "\<not> bit (push_bit 8 (of_nat w) :: word32) n \<or> \<not> bit (of_nat k :: word32) n"
      by (cases "8 \<le> n") (auto simp: bit_simps k8)
  qed
  finally have "(of_nat (w * 256 + k) :: word32) * push_bit 5 1
    = push_bit 5 (push_bit 8 (of_nat w) OR of_nat k)"
    by (simp add: push_bit_eq_mult)
  moreover have "(of_nat w :: word32) * 0x40000000 = push_bit 30 (of_nat w)"
    by (simp add: push_bit_eq_mult)
  ultimately show ?thesis
    by (simp add: setway_operand_def push_bit_or)
qed

lemma nat_bit_less: "bit (k::nat) n \<Longrightarrow> k < 2 ^ m \<Longrightarrow> n < m"
proof (rule ccontr)
  assume bit: "bit k n" and k: "k < 2 ^ m" and "\<not> n < m"
  then have "(2::nat) ^ m \<le> 2 ^ n" by (intro power_increasing) simp_all
  with k have "k < 2 ^ n" by (rule less_le_trans)
  with bit show False by (simp add: bit_iff_odd)
qed

lemma l1_line_operand:
  assumes "w < 4" "k < 256"
  shows "l1_line (setway_operand 5 256 w k) = (w, k)"
proof -
  have w2: "bit w n \<Longrightarrow> n < 2" for n
    using nat_bit_less [of w n 2] assms(1) by simp
  have k8: "bit k n \<Longrightarrow> n < 8" for n
    using nat_bit_less [of k n 8] assms(2) by simp
  let ?v = "push_bit 30 (of_nat w) OR (push_bit 13 (of_nat w) OR push_bit 5 (of_nat k)) :: word32"
  have "drop_bit 30 ?v = of_nat w"
    by (rule bit_word_eqI) (auto simp: bit_simps dest: w2 k8)
  moreover have m: "(0xff :: word32) = mask 8" by (simp add: mask_eq_exp_minus_1)
  have "drop_bit 5 ?v AND 0xff = of_nat k"
    unfolding m by (rule bit_word_eqI) (auto simp: bit_simps dest: w2 k8)
  ultimately show ?thesis
    using assms by (simp add: setway_operand_a9 l1_line_def unat_of_nat)
qed

lemma setway_ops_lines:
  "map l1_line (setway_ops 5 4 256) = List.product [0..<4] [0..<256]"
proof -
  have "map l1_line (map (setway_operand 5 256 w) [0..<256]) = map (Pair w) [0..<256]"
    if "w < 4" for w
    using that by (simp add: l1_line_operand)
  then have "map (\<lambda>w. map l1_line (map (setway_operand 5 256 w) [0..<256])) [0..<4]
    = map (\<lambda>w. map (Pair w) [0..<256]) [0..<4]"
    by (intro map_cong) simp_all
  then show ?thesis
    by (simp only: setway_ops_def map_concat map_map comp_def product_concat_map)
qed

lemma L1_setway_a9:
  assumes "csid P h = a9_csid"
  shows "L1_setway P reg h =
    fold (cp15_wr P reg) (setway_ops 5 4 256) (cp15_wr P CP15_CACHE_SIZE_SEL 0 h)"
  by (simp add: L1_setway_fold assms a9_geometry)

lemma setway_ops_cover:
  "distinct (map l1_line (setway_ops 5 4 256))"
  "set (map l1_line (setway_ops 5 4 256)) = l1_lines"
  unfolding setway_ops_lines
   apply (simp only: distinct_product distinct_upt)
  apply (simp only: set_product set_upt l1_lines_def)
  done

text \<open>
  The operands of ways 1 to 3 also carry the way number in bits \<open>[29:13]\<close>, which the
  architecture wants to be zero: \<open>Set\<close> is not reset at the start of a way.
\<close>

lemma setway_sbz: "setway_operand 5 256 1 0 AND 0x3FFFE000 \<noteq> 0"
  by (simp add: setway_operand_def push_bit_eq_mult)

text \<open>C32. On the Cortex-A9's 32 KB cache geometry the L1 routines of memtest.c maintain the whole
  data cache: \<open>L1DCacheFlush\<close> and \<open>L1DCacheInvalidate\<close> select the level-1 cache and then
  issue one clean-and-invalidate (respectively invalidate) operation per line, and every pair of
  a way and a set is named exactly once.\<close>

theorem L1_maintenance_covers:
  assumes "csid P h = a9_csid"
  shows "\<exists>ops. L1DCacheFlush P h
        = fold (cp15_wr P CP15_CLEAN_INVAL_DC_LINE_SW) ops (cp15_wr P CP15_CACHE_SIZE_SEL 0 h)
      \<and> L1DCacheInvalidate P h
        = fold (cp15_wr P CP15_INVAL_DC_LINE_SW) ops (cp15_wr P CP15_CACHE_SIZE_SEL 0 h)
      \<and> distinct (map l1_line ops) \<and> set (map l1_line ops) = {0..<4} \<times> {0..<256}"
  using L1_setway_a9 [OF assms] setway_ops_cover
  by (auto simp: L1DCacheFlush_def L1DCacheInvalidate_def l1_lines_def)

definition a9_log :: "(cp15 \<times> word32) list platform" where
  "a9_log = \<lparr>
     rd32 = (\<lambda>a h. (0, h)), wr32 = (\<lambda>a v h. h),
     cp15_wr = (\<lambda>r v h. h @ [(r, v)]), cp15_rd = (\<lambda>r h. a9_csid),
     gpio_base = 0, l2cc_invld_way = 0xF8F0277C,
     l2cc_inv_cln_way = 0xF8F027FC, l2cc_sync = 0xF8F02730\<rparr>"

lemma a9_log_fold:
  "fold (cp15_wr a9_log r) ops h = h @ map (Pair r) ops"
  by (induction ops arbitrary: h) (simp_all add: a9_log_def)

lemma L1_maintenance_covers_witness:
  "length (L1DCacheFlush a9_log []) = 1025"
proof -
  have "csid a9_log [] = a9_csid" by (simp add: csid_def a9_log_def)
  from L1_maintenance_covers [OF this] obtain ops where ops:
    "L1DCacheFlush a9_log []
        = fold (cp15_wr a9_log CP15_CLEAN_INVAL_DC_LINE_SW) ops (cp15_wr a9_log CP15_CACHE_SIZE_SEL 0 [])"
    "distinct (map l1_line ops)" "set (map l1_line ops) = {0..<4} \<times> {0..<256}" by blast
  have "length ops = 1024"
    using distinct_card [OF ops(2)] ops(3) by (simp add: card_cartesian_product)
  then show ?thesis
    unfolding ops(1) a9_log_fold by (simp add: a9_log_def)
qed

section \<open>The L2 controller\<close>

fun sync_polls :: "'h platform \<Rightarrow> nat \<Rightarrow> 'h \<Rightarrow> 'h" where
  "sync_polls P 0 h = h"
| "sync_polls P (Suc k) h = sync_polls P k (snd (rd32 P (l2cc_sync P) h))"

definition sync_at :: "'h platform \<Rightarrow> nat \<Rightarrow> 'h \<Rightarrow> bool" where
  "sync_at P k h \<longleftrightarrow> fst (rd32 P (l2cc_sync P) (sync_polls P k h)) = 0"

lemma L2_sync_wait_returns:
  "sync_at P k h \<Longrightarrow> \<exists>n\<le>k. L2_sync_wait P h = Some (sync_polls P (Suc n) h)"
proof (induction k arbitrary: h)
  case 0
  then show ?case by (simp add: L2_sync_wait.simps [of P h] sync_at_def)
next
  case (Suc k)
  show ?case
  proof (cases "fst (rd32 P (l2cc_sync P) h) = 0")
    case True
    then show ?thesis
      by (intro exI [of _ 0]) (simp add: L2_sync_wait.simps [of P h])
  next
    case False
    from Suc.prems have "sync_at P k (snd (rd32 P (l2cc_sync P) h))"
      by (simp add: sync_at_def)
    then obtain n where "n \<le> k" "L2_sync_wait P (snd (rd32 P (l2cc_sync P) h))
        = Some (sync_polls P (Suc n) (snd (rd32 P (l2cc_sync P) h)))"
      using Suc.IH by blast
    with False show ?thesis
      by (intro exI [of _ "Suc n"]) (simp add: L2_sync_wait.simps [of P h])
  qed
qed

end
