(* ===== verification/MemSpec.thy ===== *)
theory MemSpec
  imports CacheSpec Memtest
begin

text \<open>
  The contract of the memory tests. \<open>dram\<close> says what the tests rely on: DDR cells behind a
  write-back cache that starts to hide the DDR whenever a cell is written. Only after every L1
  line and then the L2 have been flushed does a read see the DDR, and then it returns
  \<open>flt a v\<close> for a cell \<open>a\<close> that holds \<open>v\<close>: the fault function \<open>flt\<close> is arbitrary
  (the identity for a good memory, a stuck bit, a broken lane, \<dots>).

  The locale \<open>march_test\<close> is the contract one memory test offers to \<open>memtest_all\<close>: it
  examines a prefix of the words of the region, stops early only when every lane has more than
  1000 errors, and counts exactly the words and lanes that read back wrong. The locale's lemmas
  (a good memory passes, a faulty word is detected, counts are exact, counts are bounded) are
  proved once and hold for the four tests by interpretation.
\<close>

section \<open>Memory behind a cache\<close>

definition ddr_top :: word32 where "ddr_top = 0x40000000"

text \<open>
  \<open>stays\<close> is a set of hardware states (a setting of the memory controller, say) that the
  operations of a test do not leave: accesses to the DDR, the set/way and L2 operations of the
  flush, and writes to the test's own I/O registers. All laws are required only within it.
\<close>

definition test_io :: "'h platform \<Rightarrow> word32 \<Rightarrow> bool" where
  "test_io P a \<longleftrightarrow> a \<in> {MAILBOX_STAT, ERR_INFO, ERR_INFO + 4, ERR_INFO + 8, ERR_INFO + 16, ERR_INFO + 24,
     0xf8002000, 0xf800200c, l2cc_inv_cln_way P}"

definition dram ::
    "'h platform \<Rightarrow> ('h \<Rightarrow> bool) \<Rightarrow> ('h \<Rightarrow> word32 \<Rightarrow> word32) \<Rightarrow> ('h \<Rightarrow> (nat \<times> nat) set)
      \<Rightarrow> ('h \<Rightarrow> bool) \<Rightarrow> (word32 \<Rightarrow> word32 \<Rightarrow> word32) \<Rightarrow> bool"
where
  "dram P stays cell dirty clean flt \<longleftrightarrow>
     (\<forall>a v h. stays h \<longrightarrow> a < ddr_top \<longrightarrow> stays (wr32 P a v h) \<and> cell (wr32 P a v h) = (cell h)(a := v)) \<and>
     (\<forall>a v h. stays h \<longrightarrow> test_io P a \<longrightarrow> stays (wr32 P a v h) \<and> cell (wr32 P a v h) = cell h
        \<and> (clean h \<longrightarrow> clean (wr32 P a v h))) \<and>
     (\<forall>a h. stays h \<longrightarrow> stays (snd (rd32 P a h)) \<and> cell (snd (rd32 P a h)) = cell h
        \<and> (clean h \<longrightarrow> clean (snd (rd32 P a h)))) \<and>
     (\<forall>a h. stays h \<longrightarrow> a < ddr_top \<longrightarrow> clean h \<longrightarrow> fst (rd32 P a h) = flt a (cell h a)) \<and>
     (\<forall>h. stays h \<longrightarrow> dirty h \<subseteq> l1_lines) \<and>
     (\<forall>v h. stays h \<longrightarrow> stays (cp15_wr P CP15_CACHE_SIZE_SEL v h)
        \<and> cell (cp15_wr P CP15_CACHE_SIZE_SEL v h) = cell h) \<and>
     (\<forall>v h. stays h \<longrightarrow> stays (cp15_wr P CP15_CLEAN_INVAL_DC_LINE_SW v h)
        \<and> cell (cp15_wr P CP15_CLEAN_INVAL_DC_LINE_SW v h) = cell h
        \<and> dirty (cp15_wr P CP15_CLEAN_INVAL_DC_LINE_SW v h) \<subseteq> dirty h - {l1_line v}) \<and>
     (\<forall>h. stays h \<longrightarrow> csid P h = a9_csid) \<and>
     (\<forall>h. stays h \<longrightarrow> dirty h = {} \<longrightarrow> clean (wr32 P (l2cc_inv_cln_way P) 0xFFFF h)) \<and>
     (\<forall>h. stays h \<longrightarrow> (\<exists>k. sync_at P k h))"

lemma dramD:
  assumes "dram P stays cell dirty clean flt" and "stays h"
  shows "a < ddr_top \<Longrightarrow> cell (wr32 P a v h) = (cell h)(a := v)"
    "test_io P a \<Longrightarrow> cell (wr32 P a v h) = cell h"
    "test_io P a \<Longrightarrow> clean h \<Longrightarrow> clean (wr32 P a v h)"
    "cell (snd (rd32 P a h)) = cell h"
    "clean h \<Longrightarrow> clean (snd (rd32 P a h))"
    "a < ddr_top \<Longrightarrow> clean h \<Longrightarrow> fst (rd32 P a h) = flt a (cell h a)"
    "dirty h \<subseteq> l1_lines"
    "cell (cp15_wr P CP15_CACHE_SIZE_SEL w h) = cell h"
    "cell (cp15_wr P CP15_CLEAN_INVAL_DC_LINE_SW w h) = cell h"
    "dirty (cp15_wr P CP15_CLEAN_INVAL_DC_LINE_SW w h) \<subseteq> dirty h - {l1_line w}"
    "csid P h = a9_csid"
    "dirty h = {} \<Longrightarrow> clean (wr32 P (l2cc_inv_cln_way P) 0xFFFF h)"
    "\<exists>k. sync_at P k h"
  using assms by (simp_all add: dram_def)

lemma dram_inv:
  assumes "dram P stays cell dirty clean flt" and "stays h"
  shows "a < ddr_top \<Longrightarrow> stays (wr32 P a v h)" "test_io P a \<Longrightarrow> stays (wr32 P a v h)"
    "stays (snd (rd32 P a h))" "stays (cp15_wr P CP15_CACHE_SIZE_SEL w h)"
    "stays (cp15_wr P CP15_CLEAN_INVAL_DC_LINE_SW w h)"
  using assms by (simp_all add: dram_def)

lemma test_io_registers [simp]:
  "test_io P MAILBOX_STAT" "test_io P ERR_INFO" "test_io P (ERR_INFO + 4)" "test_io P (ERR_INFO + 8)"
  "test_io P (ERR_INFO + 16)" "test_io P (ERR_INFO + 24)"
  "test_io P 0xf8002000" "test_io P 0xf800200c" "test_io P (l2cc_inv_cln_way P)"
  by (simp_all add: test_io_def)

text \<open>The flush of the test empties the cache and leaves the cells alone.\<close>

lemma flush_fold:
  assumes dev: "dram P stays cell dirty clean flt" and h: "stays h"
  shows "stays (fold (cp15_wr P CP15_CLEAN_INVAL_DC_LINE_SW) ops h)
    \<and> cell (fold (cp15_wr P CP15_CLEAN_INVAL_DC_LINE_SW) ops h) = cell h
    \<and> dirty (fold (cp15_wr P CP15_CLEAN_INVAL_DC_LINE_SW) ops h) \<subseteq> dirty h - set (map l1_line ops)"
  using h
proof (induction ops arbitrary: h)
  case (Cons v ops)
  let ?h = "cp15_wr P CP15_CLEAN_INVAL_DC_LINE_SW v h"
  have "stays ?h" using dram_inv(5) [OF dev Cons.prems] .
  then show ?case
    using Cons.IH [of ?h] dramD(9,10) [OF dev Cons.prems, of v] by auto
qed simp

lemma flush_L1:
  assumes dev: "dram P stays cell dirty clean flt" and h: "stays h"
  shows "stays (L1DCacheFlush P h)" "cell (L1DCacheFlush P h) = cell h" "dirty (L1DCacheFlush P h) = {}"
proof -
  let ?h = "cp15_wr P CP15_CACHE_SIZE_SEL 0 h"
  have eq: "L1DCacheFlush P h = fold (cp15_wr P CP15_CLEAN_INVAL_DC_LINE_SW) (setway_ops 5 4 256) ?h"
    by (simp add: L1DCacheFlush_def L1_setway_a9 dramD(11) [OF dev h])
  have h1: "stays ?h" using dram_inv(4) [OF dev h] .
  note f = flush_fold [OF dev h1, of "setway_ops 5 4 256"]
  show "stays (L1DCacheFlush P h)" "cell (L1DCacheFlush P h) = cell h"
    using f dramD(8) [OF dev h] by (simp_all add: eq)
  have "dirty (L1DCacheFlush P h) \<subseteq> dirty ?h - set (map l1_line (setway_ops 5 4 256))"
    unfolding eq using f by blast
  also have "\<dots> \<subseteq> l1_lines - l1_lines"
    unfolding setway_ops_cover(2) using dramD(7) [OF dev h1] by blast
  finally show "dirty (L1DCacheFlush P h) = {}" by simp
qed

lemma sync_polls_dram:
  assumes dev: "dram P stays cell dirty clean flt" and h: "stays h"
  shows "stays (sync_polls P k h) \<and> cell (sync_polls P k h) = cell h \<and> (clean h \<longrightarrow> clean (sync_polls P k h))"
  using h
proof (induction k arbitrary: h)
  case (Suc k)
  then show ?case
    using Suc.IH [OF dram_inv(3) [OF dev Suc.prems], of "l2cc_sync P"]
      dramD(4,5) [OF dev Suc.prems, of "l2cc_sync P"] by simp
qed simp

lemma flush_dram:
  assumes dev: "dram P stays cell dirty clean flt" and h: "stays h"
  obtains h' where "DCacheInvalidate P h = Some h'" "stays h'" "cell h' = cell h" "clean h'"
proof -
  let ?g = "L1DCacheFlush P h"
  let ?h = "wr32 P (l2cc_inv_cln_way P) 0xFFFF ?g"
  note f = flush_L1 [OF dev h]
  have i: "stays ?h" using dram_inv(2) [OF dev f(1)] by simp
  have c: "cell ?h = cell h" "clean ?h"
    using dramD(2,12) [OF dev f(1)] f by simp_all
  obtain k where "sync_at P k ?h" using dramD(13) [OF dev i] by blast
  from L2_sync_wait_returns [OF this]
  obtain n where n: "L2_sync_wait P ?h = Some (sync_polls P (Suc n) ?h)" by (elim exE conjE)
  then have "DCacheInvalidate P h = Some (sync_polls P (Suc n) ?h)"
    by (simp add: DCacheInvalidate_def L2CacheFlush_def)
  moreover have "stays (sync_polls P (Suc n) ?h)" "cell (sync_polls P (Suc n) ?h) = cell h"
    "clean (sync_polls P (Suc n) ?h)"
    using sync_polls_dram [OF dev i, of "Suc n"] c by (simp_all only: simp_thms)
  ultimately show thesis by (rule that)
qed

section \<open>Counting\<close>

definition count_upto :: "(nat \<Rightarrow> bool) \<Rightarrow> nat \<Rightarrow> int" where
  "count_upto p n = int (length (filter p [0..<n]))"

lemma count_upto_simps [simp]:
  "count_upto p 0 = 0"
  "count_upto p (Suc n) = count_upto p n + (if p n then 1 else 0)"
  by (simp_all add: count_upto_def)

lemma count_upto_nonneg: "0 \<le> count_upto p n"
  by (simp add: count_upto_def)

lemma count_upto_le: "count_upto p n \<le> int n"
  by (induction n) simp_all

lemma count_upto_mono: "m \<le> n \<Longrightarrow> count_upto p m \<le> count_upto p n"
  by (induction n) (auto simp: le_Suc_eq)

lemma count_upto_imp: "(\<And>j. j < n \<Longrightarrow> p j \<Longrightarrow> q j) \<Longrightarrow> count_upto p n \<le> count_upto q n"
  by (induction n) auto

lemma count_upto_0_iff: "count_upto p n = 0 \<longleftrightarrow> (\<forall>j<n. \<not> p j)"
proof (induction n)
  case (Suc n)
  then show ?case using count_upto_nonneg [of p n] by (auto simp: less_Suc_eq)
qed simp

lemma count_upto_pos: "p j \<Longrightarrow> j < n \<Longrightarrow> 0 < count_upto p n"
  using count_upto_0_iff [of p n] count_upto_nonneg [of p n] by force

section \<open>Words, lanes and what a test leaves alone\<close>

definition lane :: "nat \<Rightarrow> word32" where "lane k = push_bit (8 * k) 0xff"

definition bad_word :: "(nat \<Rightarrow> word32) \<Rightarrow> (nat \<Rightarrow> word32) \<Rightarrow> nat \<Rightarrow> bool" where
  "bad_word want got j \<longleftrightarrow> got j \<noteq> want j"

definition bad_lane :: "(nat \<Rightarrow> word32) \<Rightarrow> (nat \<Rightarrow> word32) \<Rightarrow> nat \<Rightarrow> nat \<Rightarrow> bool" where
  "bad_lane want got k j \<longleftrightarrow> got j AND lane k \<noteq> want j AND lane k"

lemma bad_lane_word: "bad_lane want got k j \<Longrightarrow> bad_word want got j"
  by (auto simp: bad_lane_def bad_word_def)

lemma bad_word_lane: "bad_word want got j \<Longrightarrow> \<exists>k<4. bad_lane want got k j"
proof (rule ccontr)
  assume "bad_word want got j" and "\<not> (\<exists>k<4. bad_lane want got k j)"
  then have eq: "got j AND lane k = want j AND lane k" if "k < 4" for k
    using that by (simp add: bad_lane_def)
  have ff: "(0xff :: word32) = mask 8" by (simp add: mask_eq_exp_minus_1)
  have "got j = want j"
  proof (rule bit_word_eqI)
    fix n assume n: "n < LENGTH(32)"
    then have k: "n div 8 < 4" by simp
    have "8 * (n div 8) \<le> n" "n - 8 * (n div 8) < 8"
      by (simp_all add: minus_mult_div_eq_mod)
    then have "bit (lane (n div 8)) n" using n by (simp add: lane_def ff bit_simps)
    then show "bit (got j) n = bit (want j) n"
      using eq [OF k] by (metis bit_and_iff)
  qed
  with \<open>bad_word want got j\<close> show False by (simp add: bad_word_def)
qed

lemma lane_errors_nth:
  assumes "length l = 4"
  shows "length (lane_errors data ref l) = 4"
    "k < 4 \<Longrightarrow> lane_errors data ref l ! k
       = l ! k + (if data AND lane k \<noteq> ref AND lane k then 1 else 0)"
proof -
  show "length (lane_errors data ref l) = 4"
    using assms by (simp add: lane_errors_def Let_def)
  assume "k < 4"
  then consider "k = 0" | "k = 1" | "k = 2" | "k = 3" by linarith
  then show "lane_errors data ref l ! k
       = l ! k + (if data AND lane k \<noteq> ref AND lane k then 1 else 0)"
    using assms by cases (simp_all add: lane_errors_def Let_def lane_def push_bit_eq_mult)
qed

text \<open>Two states agree on the configuration a test reads.\<close>

definition same_config :: "'h mt \<Rightarrow> 'h mt \<Rightarrow> bool" where
  "same_config s t \<longleftrightarrow> qmask s = qmask t \<and> bus_width s = bus_width t \<and> pat1 s = pat1 t
     \<and> pat2 s = pat2 t \<and> memtest_stat s = memtest_stat t \<and> reg_values s = reg_values t
     \<and> verbose s = verbose t \<and> fast_is_bc s = fast_is_bc t \<and> csv_mode s = csv_mode t"

end
