(* ===== verification/March.thy ===== *)
theory March
  imports MemSpec
begin

text \<open>
  The two passes of a memory test, proved once: writing one more word of the region, comparing
  one more word of it, and the end of the test. \<open>march_result\<close> is the outcome of a test that
  examined a prefix of the region, and \<open>march_test\<close> the interface that every test provides.
\<close>

section \<open>The region\<close>

definition word_at :: "word32 \<Rightarrow> nat \<Rightarrow> word32" where
  "word_at start j = start + of_nat (4 * j)"

definition region :: "word32 \<Rightarrow> nat \<Rightarrow> bool" where
  "region start N \<longleftrightarrow> unat start + 4 * N \<le> 0x40000000"

lemma unat_word_at:
  assumes "region start N" "j < N"
  shows "unat (word_at start j) = unat start + 4 * j"
proof -
  have "word_at start j = of_nat (unat start + 4 * j)" by (simp add: word_at_def)
  moreover have "unat start + 4 * j < 2 ^ LENGTH(32)" using assms by (simp add: region_def)
  ultimately show ?thesis by (simp only: unat_of_nat_less)
qed

lemma word_at_ddr [lane_simps]: "region start N \<Longrightarrow> j < N \<Longrightarrow> word_at start j < ddr_top"
  using unat_word_at [of start N j] by (simp add: word_less_nat_alt ddr_top_def region_def)

lemma word_at_eq_iff [lane_simps]:
  "region start N \<Longrightarrow> i < N \<Longrightarrow> j < N \<Longrightarrow> (word_at start i = word_at start j) = (i = j)"
  by (metis unat_word_at add_left_cancel mult_cancel1 zero_neq_numeral)

lemma word_at_fold [lane_simps]:
  "start + 4 * of_nat j = word_at start j"
  "start + 16 * of_nat j = word_at start (4 * j)"
  "word_at start j + 4 = word_at start (Suc j)"
  "word_at start j + 8 = word_at start (Suc (Suc j))"
  "word_at start j + 12 = word_at start (Suc (Suc (Suc j)))"
  by (simp_all add: word_at_def)

definition written ::
    "('h \<Rightarrow> word32 \<Rightarrow> word32) \<Rightarrow> word32 \<Rightarrow> (nat \<Rightarrow> word32) \<Rightarrow> nat \<Rightarrow> 'h \<Rightarrow> bool" where
  "written cell start want n h \<longleftrightarrow> (\<forall>k<n. cell h (word_at start k) = want k)"

lemma written_0 [simp]: "written cell start want 0 h"
  by (simp add: written_def)

lemma written_frame:
  assumes dev: "dram P stays cell dirty clean flt" and h: "stays h"
  shows "written cell start want n (snd (rd32 P a h)) = written cell start want n h"
    "test_io P a \<Longrightarrow> written cell start want n (wr32 P a v h) = written cell start want n h"
  by (simp_all add: written_def dramD(2,4) [OF dev h])

lemma written_wr32:
  assumes dev: "dram P stays cell dirty clean flt" and h: "stays h"
    and reg: "region start N" and n: "n < N" and w: "written cell start want n h"
  shows "written cell start want (Suc n) (wr32 P (word_at start n) (want n) h)"
  using w n
  by (auto simp: written_def less_Suc_eq dramD(1) [OF dev h] word_at_ddr [OF reg] word_at_eq_iff [OF reg])

section \<open>Outcome and interface\<close>

definition march_result ::
    "nat \<Rightarrow> int \<Rightarrow> (nat \<Rightarrow> word32) \<Rightarrow> (nat \<Rightarrow> word32) \<Rightarrow> 'h mt \<Rightarrow> 'h mt \<Rightarrow> bool"
where
  "march_result N mode want got s s' \<longleftrightarrow>
     (\<exists>m\<le>N. (m < N \<longrightarrow> (\<forall>k<4. 1000 < count_upto (bad_lane want got k) m))
        \<and> werr s' = werr s + of_int (count_upto (bad_word want got) m)
        \<and> errcnt s' = map (\<lambda>k. errcnt s ! k + of_int (count_upto (bad_lane want got k) m)) [0..<4]
        \<and> epp s' = epp s + (if 0 < count_upto (bad_word want got) m then 2 ^ nat mode else 0)
        \<and> same_config s s')"

text \<open>
  The global counters wrap, so this relation between two states carries the numbers that were added:
  at most \<open>n\<close> to \<open>werr\<close>, at most as many to each lane, and more than 0 to the lanes in \<open>K\<close>.
\<close>

definition grown :: "nat set \<Rightarrow> nat \<Rightarrow> 'h mt \<Rightarrow> 'h mt \<Rightarrow> bool" where
  "grown K n s s' \<longleftrightarrow> same_config s s' \<and> epp s \<le> epp s' \<and> (K \<noteq> {} \<longrightarrow> epp s < epp s')
     \<and> (\<exists>w e. w \<le> int n \<and> werr s' = werr s + of_int w
        \<and> (\<forall>k<4. 0 \<le> e k \<and> e k \<le> w \<and> errcnt s' ! k = errcnt s ! k + of_int (e k) \<and> (k \<in> K \<longrightarrow> 0 < e k)))"

locale march_test =
  fixes run :: "'h mt \<Rightarrow> 'h mt option"
    and ready :: "'h mt \<Rightarrow> bool"
    and N :: nat
    and mode :: int
    and want got :: "'h mt \<Rightarrow> nat \<Rightarrow> word32"
  assumes returns: "ready s \<Longrightarrow>
      \<exists>s'. run s = Some s' \<and> ready s' \<and> march_result N mode (want s) (got s) s s'"
    and lanes: "ready s \<Longrightarrow> length (errcnt s) = 4"
begin

lemma good_memory:
  assumes "ready s" and good: "\<And>j. j < N \<Longrightarrow> got s j = want s j"
  shows "\<exists>s'. run s = Some s' \<and> ready s' \<and> werr s' = werr s \<and> errcnt s' = errcnt s
    \<and> epp s' = epp s \<and> same_config s s'"
proof -
  obtain s' m where s': "run s = Some s'" "ready s'" and m: "m \<le> N"
    and r: "werr s' = werr s + of_int (count_upto (bad_word (want s) (got s)) m)"
      "errcnt s' = map (\<lambda>k. errcnt s ! k + of_int (count_upto (bad_lane (want s) (got s) k) m)) [0..<4]"
      "epp s' = epp s + (if 0 < count_upto (bad_word (want s) (got s)) m then 2 ^ nat mode else 0)"
      "same_config s s'"
    using returns [OF assms(1)] unfolding march_result_def by blast
  have "count_upto (bad_word (want s) (got s)) m = 0" "count_upto (bad_lane (want s) (got s) k) m = 0"
    for k
    using good m by (auto simp: count_upto_0_iff bad_word_def bad_lane_def)
  moreover have "map (\<lambda>k. errcnt s ! k) [0..<4] = errcnt s"
    using lanes [OF assms(1)] map_nth [of "errcnt s"] by simp
  ultimately show ?thesis using s' r by auto
qed

lemma counts:
  assumes "ready s"
  shows "\<exists>s'. run s = Some s' \<and> ready s'
    \<and> grown {k. k < 4 \<and> (\<exists>j<N. bad_lane (want s) (got s) k j)} N s s'"
proof -
  obtain s' m where s': "run s = Some s'" "ready s'" and m: "m \<le> N"
    and lots: "m < N \<longrightarrow> (\<forall>k<4. 1000 < count_upto (bad_lane (want s) (got s) k) m)"
    and r: "werr s' = werr s + of_int (count_upto (bad_word (want s) (got s)) m)"
      "errcnt s' = map (\<lambda>k. errcnt s ! k + of_int (count_upto (bad_lane (want s) (got s) k) m)) [0..<4]"
      "epp s' = epp s + (if 0 < count_upto (bad_word (want s) (got s)) m then 2 ^ nat mode else 0)"
      "same_config s s'"
    using returns [OF assms] unfolding march_result_def by blast
  have le: "count_upto (bad_lane (want s) (got s) k) m \<le> count_upto (bad_word (want s) (got s)) m" for k
    by (intro count_upto_imp) (rule bad_lane_word)
  have pos: "0 < count_upto (bad_lane (want s) (got s) k) m"
    if "k < 4" "j < N" "bad_lane (want s) (got s) k j" for k j
  proof (cases "m < N")
    case True
    with lots that show ?thesis by fastforce
  next
    case False
    with m that show ?thesis by (auto intro: count_upto_pos)
  qed
  have "count_upto (bad_word (want s) (got s)) m \<le> int N"
    using count_upto_le [of "bad_word (want s) (got s)" m] m by linarith
  moreover have "0 < count_upto (bad_word (want s) (got s)) m"
    if "k < 4" "j < N" "bad_lane (want s) (got s) k j" for k j
    using pos [OF that] le [of k] by linarith
  ultimately have "grown {k. k < 4 \<and> (\<exists>j<N. bad_lane (want s) (got s) k j)} N s s'"
    unfolding grown_def using r le pos
    by (intro conjI exI [of _ "count_upto (bad_word (want s) (got s)) m"]
        exI [of _ "\<lambda>k. count_upto (bad_lane (want s) (got s) k) m"]) (auto simp: count_upto_nonneg)
  with s' show ?thesis by blast
qed

lemma lane_good:
  assumes "ready s" and k: "k < 4" and good: "\<And>j. j < N \<Longrightarrow> \<not> bad_lane (want s) (got s) k j"
  shows "\<exists>s'. run s = Some s' \<and> ready s' \<and> errcnt s' ! k = errcnt s ! k"
proof -
  obtain s' m where s': "run s = Some s'" "ready s'" and m: "m \<le> N"
    and r: "errcnt s' = map (\<lambda>k. errcnt s ! k + of_int (count_upto (bad_lane (want s) (got s) k) m)) [0..<4]"
    using returns [OF assms(1)] unfolding march_result_def by blast
  have "count_upto (bad_lane (want s) (got s) k) m = 0"
    using good m by (auto simp: count_upto_0_iff)
  with s' r k show ?thesis by auto
qed

lemma exact:
  assumes "ready s" and k: "k < 4" and few: "count_upto (bad_lane (want s) (got s) k) N \<le> 1000"
  shows "\<exists>s'. run s = Some s' \<and> ready s'
    \<and> werr s' = werr s + of_int (count_upto (bad_word (want s) (got s)) N)
    \<and> (\<forall>k<4. errcnt s' ! k = errcnt s ! k + of_int (count_upto (bad_lane (want s) (got s) k) N))
    \<and> same_config s s'"
proof -
  obtain s' m where s': "run s = Some s'" "ready s'" and m: "m \<le> N"
    and lots: "m < N \<longrightarrow> (\<forall>k<4. 1000 < count_upto (bad_lane (want s) (got s) k) m)"
    and r: "werr s' = werr s + of_int (count_upto (bad_word (want s) (got s)) m)"
      "errcnt s' = map (\<lambda>k. errcnt s ! k + of_int (count_upto (bad_lane (want s) (got s) k) m)) [0..<4]"
      "same_config s s'"
    using returns [OF assms(1)] unfolding march_result_def by blast
  have "m = N"
    using m lots k few count_upto_mono [OF m, of "bad_lane (want s) (got s) k"] by force
  with s' r show ?thesis by auto
qed

end

section \<open>One word of the read pass\<close>

definition scanned ::
    "('h \<Rightarrow> bool) \<Rightarrow> ('h \<Rightarrow> word32 \<Rightarrow> word32) \<Rightarrow> ('h \<Rightarrow> bool) \<Rightarrow> word32 \<Rightarrow> nat
      \<Rightarrow> (nat \<Rightarrow> word32) \<Rightarrow> (nat \<Rightarrow> word32) \<Rightarrow> 'h mt \<Rightarrow> nat \<Rightarrow> int \<times> int list \<times> 'h mt \<Rightarrow> bool"
where
  "scanned stays cell clean start N want got s0 n = (\<lambda>(merr, lerrcnt, s).
     stays (hw s) \<and> clean (hw s) \<and> written cell start want N (hw s)
     \<and> merr = count_upto (bad_word want got) n
     \<and> lerrcnt = map (\<lambda>k. count_upto (bad_lane want got k) n) [0..<4]
     \<and> werr s = werr s0 + of_int merr \<and> errcnt s = errcnt s0 \<and> epp s = epp s0 \<and> same_config s0 s)"

lemma map_upto_4: "map f [0..<4] = [f 0, f 1, f 2, f (3::nat)]"
  by (simp add: upt_rec numeral_2_eq_2 numeral_3_eq_3)

lemma lane_errors_count:
  "lane_errors (got n) (want n) (map (\<lambda>k. count_upto (bad_lane want got k) n) [0..<4])
    = map (\<lambda>k. count_upto (bad_lane want got k) (Suc n)) [0..<4]"
  by (rule nth_equalityI) (simp_all add: lane_errors_nth bad_lane_def)

lemma lots_count:
  "lots_of_errors (map (\<lambda>k. count_upto (bad_lane want got k) n) [0..<4])
    \<longleftrightarrow> (\<forall>k<4. 1000 < count_upto (bad_lane want got k) n)"
  unfolding map_upto_4 lots_of_errors_def
  by (auto simp: eval_nat_numeral less_Suc_eq)

lemma REG_WRITE_frame:
  assumes dev: "dram P stays cell dirty clean flt" and h: "stays (hw s)" and a: "test_io P a"
  shows "stays (hw (REG_WRITE P a v s))" "cell (hw (REG_WRITE P a v s)) = cell (hw s)"
    "clean (hw s) \<Longrightarrow> clean (hw (REG_WRITE P a v s))"
  using dramD(2,3) [OF dev h a] dram_inv(2) [OF dev h a] by (simp_all add: REG_WRITE_def)

lemma REG_WRITE_fields [simp]:
  "werr (REG_WRITE P a v s) = werr s" "errcnt (REG_WRITE P a v s) = errcnt s"
  "epp (REG_WRITE P a v s) = epp s" "same_config t (REG_WRITE P a v s) = same_config t s"
  "memtest_stat (REG_WRITE P a v s) = memtest_stat s" "rseed (REG_WRITE P a v s) = rseed s"
  "qmask (REG_WRITE P a v s) = qmask s"
  by (simp_all add: REG_WRITE_def same_config_def)

lemma same_config_refl [simp]: "same_config s s"
  by (simp add: same_config_def)

lemma same_config_trans: "same_config s t \<Longrightarrow> same_config t u \<Longrightarrow> same_config s u"
  by (simp add: same_config_def)

lemma same_config_upd [simp]:
  "same_config t (s\<lparr>hw := h\<rparr>) = same_config t s" "same_config t (s\<lparr>werr := w\<rparr>) = same_config t s"
  "same_config t (s\<lparr>err_buf := b\<rparr>) = same_config t s" "same_config t (s\<lparr>rseed := r\<rparr>) = same_config t s"
  "same_config t (s\<lparr>errcnt := e\<rparr>) = same_config t s" "same_config t (s\<lparr>epp := p\<rparr>) = same_config t s"
  "same_config t (s\<lparr>test_time := x\<rparr>) = same_config t s"
  "same_config t (s\<lparr>total_test_time := x\<rparr>) = same_config t s"
  by (simp_all add: same_config_def)

lemma error_info_fields [simp]:
  "werr (error_info P a w r s) = werr s" "errcnt (error_info P a w r s) = errcnt s"
  "epp (error_info P a w r s) = epp s" "same_config t (error_info P a w r s) = same_config t s"
  by (simp_all add: error_info_def Let_def)

lemma error_info_frame:
  assumes dev: "dram P stays cell dirty clean flt" and h: "stays (hw s)"
  shows "stays (hw (error_info P a w r s))"
    "cell (hw (error_info P a w r s)) = cell (hw s)"
    "clean (hw s) \<Longrightarrow> clean (hw (error_info P a w r s))"
    "written cell start want n (hw (error_info P a w r s)) = written cell start want n (hw s)"
  using h by (simp_all add: error_info_def Let_def REG_WRITE_frame [OF dev] written_def)

lemma scanned_step:
  assumes dev: "dram P stays cell dirty clean flt" and reg: "region start N" and n: "n < N"
    and got: "got n = flt (word_at start n) (want n)"
    and sc: "scanned stays cell clean start N want got s0 n (merr, lerrcnt, s)"
  shows "scanned stays cell clean start N want got s0 (Suc n)
    (compare_word P ea (want n) (fst (rd32 P (word_at start n) (hw s)))
      (merr, lerrcnt, s\<lparr>hw := snd (rd32 P (word_at start n) (hw s))\<rparr>))"
proof -
  have h: "stays (hw s)" and c: "clean (hw s)" and w: "written cell start want N (hw s)"
    using sc by (simp_all add: scanned_def)
  have data: "fst (rd32 P (word_at start n) (hw s)) = got n"
    using w n by (simp add: dramD(6) [OF dev h _ c] word_at_ddr [OF reg] written_def got)
  let ?s = "s\<lparr>hw := snd (rd32 P (word_at start n) (hw s))\<rparr>"
  have h': "stays (hw ?s)" and c': "clean (hw ?s)" and w': "written cell start want N (hw ?s)"
    using h c w by (simp_all add: dramD(5) [OF dev h] dram_inv(3) [OF dev h] written_frame(1) [OF dev h])
  show ?thesis
  proof (cases "got n = want n")
    case True
    then have "\<not> bad_word want got n" "\<And>k. \<not> bad_lane want got k n"
      by (simp_all add: bad_word_def bad_lane_def)
    with True data sc h' c' w' show ?thesis
      by (simp add: scanned_def compare_word_def same_config_def)
  next
    case False
    then have "bad_word want got n" by (simp add: bad_word_def)
    with False data sc h' c' w' lane_errors_count [of got n want] show ?thesis
      by (simp add: scanned_def compare_word_def error_info_frame [OF dev] del: upt_Suc)
  qed
qed

end
