(* ===== verification/MarchTests.thy ===== *)
theory MarchTests
  imports March
begin

text \<open>
  The four memory tests of memtest.c provide the interface \<open>march_test\<close>: the write pass fills
  the region with the test's reference words, the flush exposes the DDR, the read pass compares
  the words in the same order, and the end of the test adds the local counts to the global ones.
\<close>

section \<open>Write pass\<close>

definition filled ::
    "('h \<Rightarrow> bool) \<Rightarrow> ('h \<Rightarrow> word32 \<Rightarrow> word32) \<Rightarrow> word32 \<Rightarrow> (nat \<Rightarrow> word32) \<Rightarrow> 'h mt \<Rightarrow> nat \<Rightarrow> 'h mt \<Rightarrow> bool" where
  "filled stays cell start want s0 n s \<longleftrightarrow>
     stays (hw s) \<and> written cell start want n (hw s) \<and> werr s = werr s0 \<and> errcnt s = errcnt s0
     \<and> epp s = epp s0 \<and> same_config s0 s \<and> rseed s = rseed s0"

lemma filled_config: "filled stays cell start want s0 n s \<Longrightarrow> same_config s0 s \<and> qmask s = qmask s0"
  by (simp add: filled_def same_config_def)

lemma filled_write:
  assumes dev: "dram P stays cell dirty clean flt" and reg: "region start N" and n: "n < N"
    and f: "filled stays cell start want s0 n s" and v: "v = want n"
  shows "filled stays cell start want s0 (Suc n) (REG_WRITE P (word_at start n) v s)"
proof -
  have h: "stays (hw s)" and w: "written cell start want n (hw s)"
    using f by (simp_all add: filled_def)
  show ?thesis
    using f written_wr32 [OF dev h reg n w] dram_inv(1) [OF dev h word_at_ddr [OF reg n], of "want n"]
    by (simp add: filled_def v) (simp add: REG_WRITE_def)
qed

lemma test_begin_filled:
  assumes dev: "dram P stays cell dirty clean flt" and h: "stays (hw s)"
  shows "filled stays cell start want s 0 (test_begin P mode s)"
  using h by (simp add: filled_def test_begin_def timer_init_def Let_def REG_WRITE_frame [OF dev])

lemma test_begin_fields [simp]:
  "rseed (test_begin P mode s) = rseed s" "qmask (test_begin P mode s) = qmask s"
  by (simp_all add: test_begin_def timer_init_def Let_def)

lemma flush_filled:
  assumes dev: "dram P stays cell dirty clean flt" and f: "filled stays cell start want s0 N s"
  obtains h' where "mt_flush P s = Some (s\<lparr>hw := h'\<rparr>)"
    "filled stays cell start want s0 N (s\<lparr>hw := h'\<rparr>)" "clean h'"
proof -
  have h: "stays (hw s)" using f by (simp add: filled_def)
  obtain h' where "DCacheInvalidate P (hw s) = Some h'" "stays h'" "cell h' = cell (hw s)" "clean h'"
    using dev h by (rule flush_dram)
  then show thesis using f
    by (intro that) (simp_all add: mt_flush_def filled_def written_def)
qed

section \<open>Read pass and end\<close>

lemma scanned_0:
  assumes "filled stays cell start want s0 N s" "clean (hw s)"
  shows "scanned stays cell clean start N want got s0 0 (0, [0, 0, 0, 0], s)"
  using assms by (simp add: filled_def scanned_def map_upto_4)

definition test_ready ::
    "'h platform \<Rightarrow> ('h \<Rightarrow> bool) \<Rightarrow> ('h \<Rightarrow> word32 \<Rightarrow> word32) \<Rightarrow> ('h \<Rightarrow> (nat \<times> nat) set)
      \<Rightarrow> ('h \<Rightarrow> bool) \<Rightarrow> (word32 \<Rightarrow> word32 \<Rightarrow> word32) \<Rightarrow> word32 \<Rightarrow> nat \<Rightarrow> 'h mt \<Rightarrow> bool"
where
  "test_ready P stays cell dirty clean flt start N s \<longleftrightarrow>
     dram P stays cell dirty clean flt \<and> region start N \<and> length (errcnt s) = 4 \<and> stays (hw s)"

lemma test_end_result:
  assumes dev: "dram P stays cell dirty clean flt"
    and sc: "scanned stays cell clean start N want got s0 m (merr, lerrcnt, s)" and m: "m \<le> N"
    and lots: "m < N \<longrightarrow> lots_of_errors lerrcnt"
  shows "march_result N mode want got s0 (test_end P mode (merr, lerrcnt, s))
    \<and> length (errcnt (test_end P mode (merr, lerrcnt, s))) = 4
    \<and> stays (hw (test_end P mode (merr, lerrcnt, s)))"
proof -
  have h: "stays (hw s)" using sc by (simp add: scanned_def)
  have "stays (hw (test_end P mode (merr, lerrcnt, s)))"
    using dram_inv(3) [OF dev h, of "0xf8002000 + 0x18"]
    by (simp add: test_end_def timer_read_def REG_READ_def Let_def case_prod_beta)
  moreover let ?s' = "test_end P mode (merr, lerrcnt, s)"
  from sc have st: "merr = count_upto (bad_word want got) m"
      "lerrcnt = map (\<lambda>k. count_upto (bad_lane want got k) m) [0..<4]"
      "werr s = werr s0 + of_int merr" "errcnt s = errcnt s0" "epp s = epp s0" "same_config s0 s"
    by (simp_all add: scanned_def)
  moreover have "werr ?s' = werr s" "epp ?s' = epp s + (if 0 < merr then 2 ^ nat mode else 0)"
    "errcnt ?s' = map (\<lambda>k. errcnt s ! k + of_int (lerrcnt ! k)) [0..<4]" "same_config s0 ?s' = same_config s0 s"
    by (simp_all add: test_end_def timer_read_def REG_READ_def Let_def case_prod_beta map_upto_4)
  moreover have "map (\<lambda>k. errcnt s ! k + of_int (lerrcnt ! k)) [0..<4]
      = map (\<lambda>k. errcnt s0 ! k + of_int (count_upto (bad_lane want got k) m)) [0..<4]"
    by (rule map_cong) (simp_all add: st)
  moreover have "m < N \<longrightarrow> (\<forall>k<4. 1000 < count_upto (bad_lane want got k) m)"
    using lots unfolding st(2) lots_count .
  ultimately show ?thesis
    using m st by (auto simp: march_result_def)
qed

text \<open>The words a fault function lets the read pass see.\<close>

abbreviation seen ::
    "(word32 \<Rightarrow> word32 \<Rightarrow> word32) \<Rightarrow> word32 \<Rightarrow> (nat \<Rightarrow> word32) \<Rightarrow> nat \<Rightarrow> word32" where
  "seen flt start want j \<equiv> flt (word_at start j) (want j)"

section \<open>memtest\_pat128\<close>

definition pat_want :: "word32 list \<Rightarrow> 'h mt \<Rightarrow> nat \<Rightarrow> word32" where
  "pat_want pat s j = pat ! (j mod 128) AND qmask s"

lemma pat_ref_want: "pat_ref pat (qmask s) (4 * int j) = pat_want pat s j"
proof -
  have "drop_bit 2 (4 * int j) = int j" by (simp add: drop_bit_eq_div)
  moreover have "int j AND 0x7f = int (j mod 128)"
    using take_bit_eq_mask [of 7 "int j"]
    by (simp add: take_bit_eq_mod mask_eq_exp_minus_1 zmod_int)
  ultimately show ?thesis by (simp add: pat_ref_def pat_want_def)
qed

lemma pat_result:
  assumes ready: "test_ready P stays cell dirty clean flt start (n_iter sz 4) s"
  shows "\<exists>s'. memtest_pat128 P start sz mode pat s = Some s'
    \<and> test_ready P stays cell dirty clean flt start (n_iter sz 4) s'
    \<and> march_result (n_iter sz 4) mode (pat_want pat s) (seen flt start (pat_want pat s)) s s'"
proof -
  let ?N = "n_iter sz 4" and ?w = "pat_want pat s"
  from ready have dev: "dram P stays cell dirty clean flt" and reg: "region start ?N"
      and h: "stays (hw s)"
    by (simp_all add: test_ready_def)
  let ?s1 = "cfor 0 sz 4 (pat_write_body P start pat) (test_begin P mode s)"
  have "filled stays cell start ?w s ?N ?s1"
  proof (rule cfor_count)
    fix k t assume k: "k < ?N" and f: "filled stays cell start ?w s k t"
    then have "pat_ref pat (qmask t) (4 * int k) = ?w k"
      using filled_config [OF f] pat_ref_want [of pat s k] by simp
    with filled_write [OF dev reg k f]
    show "filled stays cell start ?w s (Suc k) (pat_write_body P start pat (4 * int k) t)"
      by (simp add: pat_write_body_def word_at_fold)
  qed (simp_all add: test_begin_filled [OF dev] h)
  then obtain h' where h': "mt_flush P ?s1 = Some (?s1\<lparr>hw := h'\<rparr>)"
      "filled stays cell start ?w s ?N (?s1\<lparr>hw := h'\<rparr>)" "clean h'"
    by (rule flush_filled [OF dev])
  let ?r = "cfor_brk 0 sz 4 (pat_read_body P start pat) (0, [0, 0, 0, 0], ?s1\<lparr>hw := h'\<rparr>)"
  have "\<exists>m\<le>?N. scanned stays cell clean start ?N ?w (seen flt start ?w) s m ?r
      \<and> (m < ?N \<longrightarrow> lots_of_errors (fst (snd ?r)))"
  proof (rule cfor_brk_count)
    fix k t assume k: "k < ?N" and sc: "scanned stays cell clean start ?N ?w (seen flt start ?w) s k t"
    obtain merr l u where t: "t = (merr, l, u)" by (cases t)
    have "pat_ref pat (qmask u) (4 * int k) = ?w k"
      using sc pat_ref_want [of pat s k] by (simp add: scanned_def same_config_def t)
    with scanned_step [OF dev reg k refl sc [unfolded t], of "word_at start k"]
    show "scanned stays cell clean start ?N ?w (seen flt start ?w) s (Suc k)
        (snd (pat_read_body P start pat (4 * int k) t))"
      "fst (pat_read_body P start pat (4 * int k) t) \<Longrightarrow>
        lots_of_errors (fst (snd (snd (pat_read_body P start pat (4 * int k) t))))"
      by (simp_all add: t pat_read_body_def word_at_fold REG_READ_def Let_def case_prod_beta)
  qed (use h' in \<open>simp_all add: scanned_0\<close>)
  then obtain m where m: "m \<le> ?N" "scanned stays cell clean start ?N ?w (seen flt start ?w) s m ?r"
      "m < ?N \<longrightarrow> lots_of_errors (fst (snd ?r))" by blast
  obtain merr l u where r: "?r = (merr, l, u)" by (cases ?r)
  show ?thesis
    using test_end_result [OF dev m(2) [unfolded r] m(1) m(3) [unfolded r fst_conv snd_conv], of mode] dev reg
    by (simp add: memtest_pat128_def Let_def h'(1) r test_ready_def)
qed

section \<open>memtest\_lfsr\<close>

definition lfsr_want :: "int \<Rightarrow> int \<Rightarrow> 'h mt \<Rightarrow> nat \<Rightarrow> word32" where
  "lfsr_want loop mode s j =
     (YLFSR ^^ Suc j) (lfsr_seed loop mode (rseed s + 0x017c1e23)) AND qmask s"

lemma march_result_rseed:
  "march_result N mode want got (s\<lparr>rseed := r\<rparr>) s' = march_result N mode want got s s'"
  by (simp add: march_result_def same_config_def)

lemma lfsr_result:
  assumes ready: "test_ready P stays cell dirty clean flt start (n_iter sz 4) s"
  shows "\<exists>s'. memtest_lfsr P start sz mode loop s = Some s'
    \<and> test_ready P stays cell dirty clean flt start (n_iter sz 4) s'
    \<and> march_result (n_iter sz 4) mode (lfsr_want loop mode s)
        (seen flt start (lfsr_want loop mode s)) s s'"
proof -
  let ?N = "n_iter sz 4" and ?w = "lfsr_want loop mode s"
  let ?s0 = "s\<lparr>rseed := rseed s + 0x017c1e23\<rparr>"
  let ?seed = "lfsr_seed loop mode (rseed s + 0x017c1e23)"
  from ready have dev: "dram P stays cell dirty clean flt" and reg: "region start ?N"
      and h: "stays (hw s)"
    by (simp_all add: test_ready_def)
  let ?r1 = "cfor 0 sz 4 (lfsr_write_body P start) (?seed, test_begin P mode ?s0)"
  have "fst ?r1 = (YLFSR ^^ ?N) ?seed \<and> filled stays cell start ?w ?s0 ?N (snd ?r1)"
  proof (rule cfor_count)
    fix k t assume k: "k < ?N"
      and t: "fst t = (YLFSR ^^ k) ?seed \<and> filled stays cell start ?w ?s0 k (snd t)"
    then have "YLFSR (fst t) AND qmask (snd t) = ?w k"
      using filled_config [of stays cell start ?w ?s0 k "snd t"] by (simp add: lfsr_want_def)
    with filled_write [OF dev reg k, of ?w ?s0 "snd t"] t
    show "fst (lfsr_write_body P start (4 * int k) t) = (YLFSR ^^ Suc k) ?seed
        \<and> filled stays cell start ?w ?s0 (Suc k) (snd (lfsr_write_body P start (4 * int k) t))"
      by (simp add: lfsr_write_body_def word_at_fold case_prod_beta Let_def)
  qed (simp_all add: test_begin_filled [OF dev] h)
  then have f1: "filled stays cell start ?w ?s0 ?N (snd ?r1)" ..
  then obtain h' where h': "mt_flush P (snd ?r1) = Some ((snd ?r1)\<lparr>hw := h'\<rparr>)"
      "filled stays cell start ?w ?s0 ?N ((snd ?r1)\<lparr>hw := h'\<rparr>)" "clean h'"
    by (rule flush_filled [OF dev])
  have seed: "lfsr_seed loop mode (rseed (snd ?r1)) = ?seed"
    using f1 by (simp add: filled_def)
  let ?r = "cfor_brk 0 sz 4 (lfsr_read_body P start) (?seed, 0, [0, 0, 0, 0], (snd ?r1)\<lparr>hw := h'\<rparr>)"
  have "\<exists>m\<le>?N. (fst ?r = (YLFSR ^^ m) ?seed
        \<and> scanned stays cell clean start ?N ?w (seen flt start ?w) ?s0 m (snd ?r))
      \<and> (m < ?N \<longrightarrow> lots_of_errors (fst (snd (snd ?r))))"
  proof (rule cfor_brk_count)
    fix k t assume k: "k < ?N" and sc: "fst t = (YLFSR ^^ k) ?seed
        \<and> scanned stays cell clean start ?N ?w (seen flt start ?w) ?s0 k (snd t)"
    obtain rv merr l u where t: "t = (rv, merr, l, u)" by (cases t)
    have "YLFSR rv AND qmask u = ?w k"
      using sc by (simp add: scanned_def same_config_def t lfsr_want_def)
    with scanned_step [OF dev reg k refl conjunct2 [OF sc, unfolded t snd_conv], of "word_at start k"]
      conjunct1 [OF sc]
    show "fst (snd (lfsr_read_body P start (4 * int k) t)) = (YLFSR ^^ Suc k) ?seed
        \<and> scanned stays cell clean start ?N ?w (seen flt start ?w) ?s0 (Suc k)
        (snd (snd (lfsr_read_body P start (4 * int k) t)))"
      "fst (lfsr_read_body P start (4 * int k) t) \<Longrightarrow>
        lots_of_errors (fst (snd (snd (snd (lfsr_read_body P start (4 * int k) t)))))"
      by (simp_all add: t lfsr_read_body_def word_at_fold REG_READ_def Let_def case_prod_beta)
  qed (use h' in \<open>simp_all add: scanned_0\<close>)
  then obtain m where m: "m \<le> ?N" "scanned stays cell clean start ?N ?w (seen flt start ?w) ?s0 m (snd ?r)"
      "m < ?N \<longrightarrow> lots_of_errors (fst (snd (snd ?r)))" by blast
  obtain merr l u where r: "snd ?r = (merr, l, u)" by (cases "snd ?r")
  have "memtest_lfsr P start sz mode loop s = Some (test_end P mode (merr, l, u))"
    by (simp add: memtest_lfsr_def Let_def h'(1) seed r case_prod_beta)
  then show ?thesis
    using test_end_result [OF dev m(2) [unfolded r] m(1) m(3) [unfolded r fst_conv snd_conv], of mode] dev reg
    by (simp add: r test_ready_def march_result_rseed)
qed

section \<open>memtest\<close>

primrec memtest_rand :: "int \<Rightarrow> int \<Rightarrow> word32 \<Rightarrow> word32 \<Rightarrow> nat \<Rightarrow> word32" where
  "memtest_rand mode loop qm start 0 = 0x12345678 + of_int loop + 19 * of_int mode"
| "memtest_rand mode loop qm start (Suc k) =
     snd (memtest_ref mode qm (word_at start k) (4 * int k) (memtest_rand mode loop qm start k))"

definition memtest_want :: "int \<Rightarrow> int \<Rightarrow> word32 \<Rightarrow> 'h mt \<Rightarrow> nat \<Rightarrow> word32" where
  "memtest_want mode loop start s k =
     fst (memtest_ref mode (qmask s) (word_at start k) (4 * int k)
       (memtest_rand mode loop (qmask s) start k))"

lemma memtest_result:
  assumes ready: "test_ready P stays cell dirty clean flt start (n_iter sz 4) s"
  shows "\<exists>s'. memtest P start sz mode loop s = Some s'
    \<and> test_ready P stays cell dirty clean flt start (n_iter sz 4) s'
    \<and> march_result (n_iter sz 4) mode (memtest_want mode loop start s)
        (seen flt start (memtest_want mode loop start s)) s s'"
proof -
  let ?N = "n_iter sz 4" and ?w = "memtest_want mode loop start s"
  let ?rv = "memtest_rand mode loop (qmask s) start"
  have step: "memtest_ref mode (qmask s) (word_at start k) (4 * int k) (?rv k) = (?w k, ?rv (Suc k))"
    for k by (simp add: memtest_want_def)
  from ready have dev: "dram P stays cell dirty clean flt" and reg: "region start ?N"
      and h: "stays (hw s)"
    by (simp_all add: test_ready_def)
  let ?r1 = "cfor 0 sz 4 (memtest_write_body P start mode) (?rv 0, test_begin P mode s)"
  have "fst ?r1 = ?rv ?N \<and> filled stays cell start ?w s ?N (snd ?r1)"
  proof (rule cfor_count)
    fix k t assume k: "k < ?N"
      and t: "fst t = ?rv k \<and> filled stays cell start ?w s k (snd t)"
    have "memtest_ref mode (qmask (snd t)) (word_at start k) (4 * int k) (fst t)
        = (?w k, ?rv (Suc k))"
      using step t filled_config [of stays cell start ?w s k "snd t"] by (simp del: memtest_rand.simps)
    with filled_write [OF dev reg k, of ?w s "snd t"] t
    show "fst (memtest_write_body P start mode (4 * int k) t) = ?rv (Suc k)
        \<and> filled stays cell start ?w s (Suc k) (snd (memtest_write_body P start mode (4 * int k) t))"
      by (simp add: memtest_write_body_def word_at_fold case_prod_beta Let_def del: memtest_rand.simps)
  qed (simp_all add: test_begin_filled [OF dev] h del: memtest_rand.simps)
  then obtain h' where h': "mt_flush P (snd ?r1) = Some ((snd ?r1)\<lparr>hw := h'\<rparr>)"
      "filled stays cell start ?w s ?N ((snd ?r1)\<lparr>hw := h'\<rparr>)" "clean h'"
    using flush_filled [OF dev] by blast
  let ?r = "cfor_brk 0 sz 4 (memtest_read_body P start mode)
      (?rv 0, 0, [0, 0, 0, 0], (snd ?r1)\<lparr>hw := h'\<rparr>)"
  have "\<exists>m\<le>?N. (fst ?r = ?rv m
        \<and> scanned stays cell clean start ?N ?w (seen flt start ?w) s m (snd ?r))
      \<and> (m < ?N \<longrightarrow> lots_of_errors (fst (snd (snd ?r))))"
  proof (rule cfor_brk_count)
    fix k t assume k: "k < ?N" and sc: "fst t = ?rv k
        \<and> scanned stays cell clean start ?N ?w (seen flt start ?w) s k (snd t)"
    obtain rv merr l u where t: "t = (rv, merr, l, u)" by (cases t)
    have "memtest_ref mode (qmask u) (word_at start k) (4 * int k) rv = (?w k, ?rv (Suc k))"
      using step [of k] sc by (simp add: scanned_def same_config_def t del: memtest_rand.simps)
    with scanned_step [OF dev reg k refl conjunct2 [OF sc, unfolded t snd_conv], of "word_at start k"]
    show "fst (snd (memtest_read_body P start mode (4 * int k) t)) = ?rv (Suc k)
        \<and> scanned stays cell clean start ?N ?w (seen flt start ?w) s (Suc k)
        (snd (snd (memtest_read_body P start mode (4 * int k) t)))"
      "fst (memtest_read_body P start mode (4 * int k) t) \<Longrightarrow>
        lots_of_errors (fst (snd (snd (snd (memtest_read_body P start mode (4 * int k) t)))))"
      by (simp_all add: t memtest_read_body_def word_at_fold REG_READ_def Let_def case_prod_beta
          del: memtest_rand.simps)
  qed (use h' in \<open>simp_all add: scanned_0 del: memtest_rand.simps\<close>)
  then obtain m where m: "m \<le> ?N" "scanned stays cell clean start ?N ?w (seen flt start ?w) s m (snd ?r)"
      "m < ?N \<longrightarrow> lots_of_errors (fst (snd (snd ?r)))" by blast
  obtain merr l u where r: "snd ?r = (merr, l, u)" by (cases "snd ?r")
  have hu: "stays (hw u)" using m(2) unfolding r by (simp add: scanned_def)
  obtain h2 where "DCacheInvalidate P (hw u) = Some h2" "stays h2" "cell h2 = cell (hw u)"
      "clean h2"
    using dev hu by (rule flush_dram)
  then have fl: "mt_flush P u = Some (u\<lparr>hw := h2\<rparr>)"
    and sc2: "scanned stays cell clean start ?N ?w (seen flt start ?w) s m (merr, l, u\<lparr>hw := h2\<rparr>)"
    using m(2) unfolding r by (simp_all add: mt_flush_def scanned_def written_def)
  have "memtest P start sz mode loop s = Some (test_end P mode (merr, l, u\<lparr>hw := h2\<rparr>))"
    using h'(1) r fl by (simp add: memtest_def Let_def case_prod_beta)
  then show ?thesis
    using test_end_result [OF dev sc2, of mode] m(1) m(3) [unfolded r fst_conv snd_conv] dev reg
    by (simp add: test_ready_def)
qed

section \<open>memtest\_simple\<close>

definition simple_want ::
    "word32 \<Rightarrow> word32 \<Rightarrow> word32 \<Rightarrow> word32 \<Rightarrow> 'h mt \<Rightarrow> nat \<Rightarrow> word32" where
  "simple_want d0 d1 d2 d3 s j =
     [d0 AND qmask s, d1 AND qmask s, d2 AND qmask s, d3 AND qmask s] ! (j mod 4)"

lemma simple_want_group:
  "[d0 AND qmask s, d1 AND qmask s, d2 AND qmask s, d3 AND qmask s]
    = map (\<lambda>i. simple_want d0 d1 d2 d3 s (4 * k + i)) [0, 1, 2, 3]"
proof -
  have "(4 * k + 0) mod 4 = 0" "(4 * k + 1) mod 4 = 1" "(4 * k + 2) mod 4 = 2"
    "(4 * k + 3) mod 4 = 3" by presburger+
  then show ?thesis by (simp only: simple_want_def list.map) simp
qed

lemma simple_result:
  assumes ready: "test_ready P stays cell dirty clean flt start (4 * n_iter sz 16) s" and loop: "loop \<noteq> - 1"
  shows "\<exists>s'. memtest_simple P start sz mode loop d0 d1 d2 d3 s = Some s'
    \<and> test_ready P stays cell dirty clean flt start (4 * n_iter sz 16) s'
    \<and> march_result (4 * n_iter sz 16) mode (simple_want d0 d1 d2 d3 s)
        (seen flt start (simple_want d0 d1 d2 d3 s)) s s'"
proof -
  let ?K = "n_iter sz 16" and ?N = "4 * n_iter sz 16" and ?w = "simple_want d0 d1 d2 d3 s"
  define dat where "dat = [d0 AND qmask s, d1 AND qmask s, d2 AND qmask s, d3 AND qmask s]"
  have dat: "dat = map (\<lambda>i. ?w (4 * k + i)) [0, 1, 2, 3]" for k
    unfolding dat_def by (rule simple_want_group)
  from ready have dev: "dram P stays cell dirty clean flt" and reg: "region start ?N"
      and h: "stays (hw s)"
    by (simp_all add: test_ready_def)
  let ?s1 = "cfor 0 sz 16 (simple_write_body P start dat) (test_begin P mode s)"
  have "filled stays cell start ?w s (4 * ?K) ?s1"
  proof (rule cfor_count)
    fix k t assume k: "k < ?K" and f: "filled stays cell start ?w s (4 * k) t"
    have n: "4 * k < ?N" "Suc (4 * k) < ?N" "Suc (Suc (4 * k)) < ?N" "Suc (Suc (Suc (4 * k))) < ?N"
      using k by linarith+
    have four: "4 + 4 * k = Suc (Suc (Suc (Suc (4 * k))))" by simp
    note f1 = filled_write [OF dev reg n(1) f refl]
    note f2 = filled_write [OF dev reg n(2) f1 refl]
    note f3 = filled_write [OF dev reg n(3) f2 refl]
    from filled_write [OF dev reg n(4) f3 refl]
    show "filled stays cell start ?w s (4 * Suc k) (simple_write_body P start dat (16 * int k) t)"
      by (simp add: simple_write_body_def dat [of k] word_at_fold numeral_2_eq_2 numeral_3_eq_3 four)
  qed (simp_all add: test_begin_filled [OF dev] h)
  then obtain h' where h': "mt_flush P ?s1 = Some (?s1\<lparr>hw := h'\<rparr>)"
      "filled stays cell start ?w s ?N (?s1\<lparr>hw := h'\<rparr>)" "clean h'"
    by (rule flush_filled [OF dev])
  let ?sc = "scanned stays cell clean start ?N ?w (seen flt start ?w) s"
  have word: "?sc (Suc (4 * k + i)) (simple_read_word P (word_at start (4 * k)) dat i st)"
    if k: "k < ?K" and i: "i < 4" and st: "?sc (4 * k + i) st" for k i st
  proof -
    obtain merr l u where t: "st = (merr, l, u)" by (cases st)
    have n: "4 * k + i < ?N" using k i by linarith
    have a: "word_at start (4 * k) + 4 * of_nat i = word_at start (4 * k + i)"
      by (simp add: word_at_def)
    have "dat ! i = ?w (4 * k + i)"
    proof -
      consider "i = 0" | "i = 1" | "i = 2" | "i = 3" using i by linarith
      then show ?thesis by cases (simp_all add: dat [of k])
    qed
    with scanned_step [OF dev reg n refl st [unfolded t]] show ?thesis
      by (simp add: t simple_read_word_def a REG_READ_def Let_def case_prod_beta)
  qed
  let ?r = "cfor_brk 0 sz 16 (simple_read_body P start dat) (0, [0, 0, 0, 0], ?s1\<lparr>hw := h'\<rparr>)"
  have "\<exists>m\<le>?K. ?sc (4 * m) ?r \<and> (m < ?K \<longrightarrow> lots_of_errors (fst (snd ?r)))"
  proof (rule cfor_brk_count)
    fix k t assume k: "k < ?K" and sc: "?sc (4 * k) t"
    let ?f = "simple_read_word P (word_at start (4 * k)) dat"
    have idx: "Suc (4 * k + 0) = 4 * k + 1" "Suc (4 * k + 1) = 4 * k + 2" "Suc (4 * k + 2) = 4 * k + 3"
      "Suc (4 * k + 3) = 4 * Suc k" by simp_all
    have s1: "?sc (4 * k + 1) (?f 0 t)" using word [OF k, of 0 t] sc unfolding idx by simp
    have s2: "?sc (4 * k + 2) (?f 1 (?f 0 t))" using word [OF k _ s1] unfolding idx by simp
    have s3: "?sc (4 * k + 3) (?f 2 (?f 1 (?f 0 t)))" using word [OF k _ s2] unfolding idx by simp
    have "?sc (4 * Suc k) (?f 3 (?f 2 (?f 1 (?f 0 t))))" using word [OF k _ s3] unfolding idx by simp
    then show "?sc (4 * Suc k) (snd (simple_read_body P start dat (16 * int k) t))"
      "fst (simple_read_body P start dat (16 * int k) t) \<Longrightarrow>
        lots_of_errors (fst (snd (snd (simple_read_body P start dat (16 * int k) t))))"
      by (simp_all add: simple_read_body_def word_at_fold Let_def case_prod_beta)
  qed (use h' in \<open>simp_all add: scanned_0\<close>)
  then obtain m where m: "m \<le> ?K" "?sc (4 * m) ?r" "m < ?K \<longrightarrow> lots_of_errors (fst (snd ?r))"
    by blast
  obtain merr l u where r: "?r = (merr, l, u)" by (cases ?r)
  have "memtest_simple P start sz mode loop d0 d1 d2 d3 s = Some (test_end P mode (merr, l, u))"
    using loop by (simp add: memtest_simple_def Let_def dat_def [symmetric] h'(1) r)
  then show ?thesis
    using test_end_result [OF dev m(2) [unfolded r], of mode] m(1) m(3) [unfolded r fst_conv snd_conv]
      dev reg
    by (simp add: test_ready_def)
qed

section \<open>The tests provide the interface\<close>

lemma test_ready_lanes: "test_ready P stays cell dirty clean flt start N s \<Longrightarrow> length (errcnt s) = 4"
  by (simp add: test_ready_def)

interpretation pat128: march_test
  "memtest_pat128 P start sz mode pat"
  "test_ready P stays cell dirty clean flt start (n_iter sz 4)" "n_iter sz 4" mode
  "pat_want pat" "\<lambda>s. seen flt start (pat_want pat s)"
  for P stays cell dirty clean flt start sz mode pat
  by unfold_locales (erule pat_result test_ready_lanes)+

interpretation lfsr: march_test
  "memtest_lfsr P start sz mode loop"
  "test_ready P stays cell dirty clean flt start (n_iter sz 4)" "n_iter sz 4" mode
  "lfsr_want loop mode" "\<lambda>s. seen flt start (lfsr_want loop mode s)"
  for P stays cell dirty clean flt start sz mode loop
  by unfold_locales (erule lfsr_result test_ready_lanes)+

interpretation mtest: march_test
  "memtest P start sz mode loop"
  "test_ready P stays cell dirty clean flt start (n_iter sz 4)" "n_iter sz 4" mode
  "memtest_want mode loop start" "\<lambda>s. seen flt start (memtest_want mode loop start s)"
  for P stays cell dirty clean flt start sz mode loop
  by unfold_locales (erule memtest_result test_ready_lanes)+

definition simple_ready ::
    "'h platform \<Rightarrow> ('h \<Rightarrow> bool) \<Rightarrow> ('h \<Rightarrow> word32 \<Rightarrow> word32) \<Rightarrow> ('h \<Rightarrow> (nat \<times> nat) set)
      \<Rightarrow> ('h \<Rightarrow> bool) \<Rightarrow> (word32 \<Rightarrow> word32 \<Rightarrow> word32) \<Rightarrow> word32 \<Rightarrow> nat \<Rightarrow> int \<Rightarrow> 'h mt \<Rightarrow> bool"
where
  "simple_ready P stays cell dirty clean flt start N loop s \<longleftrightarrow>
     test_ready P stays cell dirty clean flt start N s \<and> loop \<noteq> - 1"

interpretation simple: march_test
  "memtest_simple P start sz mode loop d0 d1 d2 d3"
  "simple_ready P stays cell dirty clean flt start (4 * n_iter sz 16) loop" "4 * n_iter sz 16" mode
  "simple_want d0 d1 d2 d3" "\<lambda>s. seen flt start (simple_want d0 d1 d2 d3 s)"
  for P stays cell dirty clean flt start sz mode loop d0 d1 d2 d3
  using simple_result test_ready_lanes by unfold_locales (auto simp: simple_ready_def)

end
