(* ===== verification/DdrSim.thy ===== *)
theory DdrSim
  imports MemSpec
begin

text \<open>
  Hardware that meets the contract \<open>dram\<close>: DDR cells, the registers of the DDR controller, the
  set of L1 lines that may hold dirty data, and a flag for the L2. While a line is dirty a read
  returns the stored value; after the flush it returns what the DDR delivers under the current
  controller settings. Writes outside the controller's register block, the DDR and the L2 flush
  register are ignored.
\<close>

record ddr_sim =
  ddr_cell :: "word32 \<Rightarrow> word32"
  ddr_cfg :: "word32 \<Rightarrow> word32"
  l1_dirty :: "(nat \<times> nat) set"
  l2_dirty :: bool

definition sim_dirty :: "ddr_sim \<Rightarrow> (nat \<times> nat) set" where
  "sim_dirty s = l1_dirty s \<inter> l1_lines"

definition sim_clean :: "ddr_sim \<Rightarrow> bool" where
  "sim_clean s \<longleftrightarrow> sim_dirty s = {} \<and> \<not> l2_dirty s"

definition ddrc_block :: "word32 \<Rightarrow> bool" where
  "ddrc_block a \<longleftrightarrow> 0xF8006000 \<le> a \<and> a < 0xF8007000"

type_synonym ddr_fault = "(word32 \<Rightarrow> word32) \<Rightarrow> word32 \<Rightarrow> word32 \<Rightarrow> word32"

definition sim_rd :: "ddr_fault \<Rightarrow> word32 \<Rightarrow> ddr_sim \<Rightarrow> word32" where
  "sim_rd flt a s =
     (if a < ddr_top then (if sim_clean s then flt (ddr_cfg s) a (ddr_cell s a) else ddr_cell s a)
      else if ddrc_block a then ddr_cfg s a else 0)"

definition sim_wr :: "word32 \<Rightarrow> word32 \<Rightarrow> ddr_sim \<Rightarrow> ddr_sim" where
  "sim_wr a v s =
     (if a < ddr_top
      then s\<lparr>ddr_cell := (ddr_cell s)(a := v), l1_dirty := l1_lines, l2_dirty := True\<rparr>
      else if ddrc_block a then s\<lparr>ddr_cfg := (ddr_cfg s)(a := v)\<rparr>
      else if a = 0xF8F027FC then s\<lparr>l2_dirty := (l2_dirty s \<and> sim_dirty s \<noteq> {})\<rparr>
      else s)"

definition ddr_platform :: "ddr_fault \<Rightarrow> ddr_sim platform" where
  "ddr_platform flt = \<lparr>
     rd32 = (\<lambda>a s. (sim_rd flt a s, s)), wr32 = sim_wr,
     cp15_wr = (\<lambda>r v s. if r = CP15_CLEAN_INVAL_DC_LINE_SW
        then s\<lparr>l1_dirty := l1_dirty s - {l1_line v}\<rparr> else s),
     cp15_rd = (\<lambda>r s. a9_csid),
     gpio_base = 0xE000A000, l2cc_invld_way = 0xF8F0277C,
     l2cc_inv_cln_way = 0xF8F027FC, l2cc_sync = 0xF8F02730\<rparr>"

lemma ddr_platform_sel [simp]:
  "rd32 (ddr_platform flt) a s = (sim_rd flt a s, s)" "wr32 (ddr_platform flt) = sim_wr"
  "cp15_wr (ddr_platform flt) CP15_CACHE_SIZE_SEL v s = s"
  "cp15_wr (ddr_platform flt) CP15_CLEAN_INVAL_DC_LINE_SW v s = s\<lparr>l1_dirty := l1_dirty s - {l1_line v}\<rparr>"
  "cp15_rd (ddr_platform flt) r s = a9_csid" "l2cc_inv_cln_way (ddr_platform flt) = 0xF8F027FC"
  "l2cc_sync (ddr_platform flt) = 0xF8F02730"
  by (simp_all add: ddr_platform_def)

lemma sim_io_wr:
  "test_io (ddr_platform flt) a \<Longrightarrow> a = 0xF8F027FC \<or> sim_wr a v s = s"
  "sim_wr 0xF8F027FC v s = s\<lparr>l2_dirty := (l2_dirty s \<and> sim_dirty s \<noteq> {})\<rparr>"
  by (auto simp: test_io_def sim_wr_def ddrc_block_def ddr_top_def MAILBOX_STAT_def ERR_INFO_def)

lemma ddr_platform_dram:
  "dram (ddr_platform flt) (\<lambda>s. flt (ddr_cfg s) = F) ddr_cell sim_dirty sim_clean F"
proof -
  have "sync_at (ddr_platform flt) 0 s" for s
    by (simp add: sync_at_def sim_rd_def ddrc_block_def ddr_top_def)
  then have sync: "\<exists>k. sync_at (ddr_platform flt) k s" for s by blast
  have csid: "csid (ddr_platform flt) s = a9_csid" for s
    by (simp add: csid_def)
  have io: "ddr_cfg (sim_wr a v s) = ddr_cfg s \<and> ddr_cell (sim_wr a v s) = ddr_cell s
      \<and> (sim_clean s \<longrightarrow> sim_clean (sim_wr a v s))" if "test_io (ddr_platform flt) a" for a v s
    using sim_io_wr(1) [OF that, of v s]
    by (auto simp: sim_io_wr(2) sim_clean_def sim_dirty_def)
  have mem: "a < ddr_top \<Longrightarrow> ddr_cfg (sim_wr a v s) = ddr_cfg s
      \<and> ddr_cell (sim_wr a v s) = (ddr_cell s)(a := v)" for a v s
    by (simp add: sim_wr_def)
  have l2: "sim_dirty s = {} \<Longrightarrow> sim_clean (sim_wr 0xF8F027FC v s)" for v s
    by (simp add: sim_io_wr(2) sim_clean_def sim_dirty_def)
  show ?thesis
    unfolding dram_def
    by (intro conjI allI impI)
      (simp_all add: sync csid io mem l2 sim_rd_def, auto simp: sim_dirty_def)
qed

definition sim_reset :: ddr_sim where
  "sim_reset = \<lparr>ddr_cell = (\<lambda>a. 0), ddr_cfg = (\<lambda>a. 0), l1_dirty = {}, l2_dirty = False\<rparr>"

end
