(* ===== verification/MemtestProps.thy ===== *)
theory MemtestProps
  imports MarchTests MemtestAll DdrSim
begin

text \<open>
  What the memory test as a whole shows: a good memory passes every selected test, a stuck bit is
  found and attributed to its byte lane, and counts are exact while fewer than 1000 errors occur
  in some lane. A DDR with an arbitrary fault function behind a two-level cache (theory
  \<open>DdrSim\<close>) serves as the concrete hardware.
\<close>

section \<open>Sequencing\<close>

definition keeps :: "('h mt \<Rightarrow> bool) \<Rightarrow> ('h mt \<Rightarrow> 'h mt \<Rightarrow> bool) \<Rightarrow> 'h test \<Rightarrow> bool" where
  "keeps ready R t \<longleftrightarrow> (\<forall>s. ready s \<longrightarrow> (\<exists>s'. t s = Some s' \<and> ready s' \<and> R s s'))"

lemma keepsD: "keeps ready R t \<Longrightarrow> ready s \<Longrightarrow> \<exists>s'. t s = Some s' \<and> ready s' \<and> R s s'"
  by (simp add: keeps_def)

lemma keeps_wide_or_narrow:
  "keeps ready R w \<Longrightarrow> keeps ready R n \<Longrightarrow> keeps ready R (wide_or_narrow w n)"
  by (simp add: keeps_def wide_or_narrow_def)

lemma run_tests_keeps:
  assumes "reflp R" "transp R" and "\<And>bt. bt \<in> set ts \<Longrightarrow> keeps ready R (snd bt)"
  shows "keeps ready R (run_tests sel ts)"
  using assms(3)
proof (induction ts)
  case Nil
  with assms(1) show ?case by (simp add: keeps_def reflpD)
next
  case (Cons bt ts)
  have t: "keeps ready R (snd bt)" and ts: "keeps ready R (run_tests sel ts)"
    using Cons by simp_all
  have "\<exists>s'. run_tests sel (bt # ts) s = Some s' \<and> ready s' \<and> R s s'" if s: "ready s" for s
  proof (cases "sel AND fst bt = 0")
    case True
    then show ?thesis using keepsD [OF ts s] by simp
  next
    case False
    obtain s1 where s1: "snd bt s = Some s1" "ready s1" "R s s1" using keepsD [OF t s] by blast
    obtain s2 where "run_tests sel ts s1 = Some s2" "ready s2" "R s1 s2"
      using keepsD [OF ts s1(2)] by blast
    with False s1 transpD [OF assms(2) s1(3)] show ?thesis by simp
  qed
  then show ?case by (simp add: keeps_def)
qed

lemma run_tests_append:
  "run_tests sel (ts @ us) s = Option.bind (run_tests sel ts s) (run_tests sel us)"
  by (induction ts arbitrary: s) (simp_all split: option.splits)

section \<open>The fifteen tests\<close>

lemma n_iter_4_16: "n_iter sz 4 \<le> 4 * n_iter sz 16"
proof (rule ccontr)
  assume "\<not> ?thesis"
  then have "4 * n_iter sz 16 < n_iter sz 4" by simp
  then have "16 * int (n_iter sz 16) < sz" by (simp add: n_iter_iff)
  then have "n_iter sz 16 < n_iter sz 16" by (simp only: n_iter_iff [of 16 "n_iter sz 16" sz])
  then show False by simp
qed

lemma region_mono: "region start N \<Longrightarrow> M \<le> N \<Longrightarrow> region start M"
  by (auto simp: region_def)

lemma test_ready_iff:
  assumes "simple_ready P stays cell dirty clean flt start N loop s0" "M \<le> N"
  shows "test_ready P stays cell dirty clean flt start M s
    \<longleftrightarrow> simple_ready P stays cell dirty clean flt start N loop s"
  using assms region_mono by (auto simp: simple_ready_def test_ready_def)

lemma keeps_narrow:
  assumes "keeps (test_ready P stays cell dirty clean flt start (n_iter sz 4)) R t"
  shows "keeps (simple_ready P stays cell dirty clean flt start (4 * n_iter sz 16) loop) R t"
  unfolding keeps_def
proof (intro allI impI)
  fix s assume s: "simple_ready P stays cell dirty clean flt start (4 * n_iter sz 16) loop s"
  note iff = test_ready_iff [OF s n_iter_4_16]
  from keepsD [OF assms] s show "\<exists>s'. t s = Some s'
      \<and> simple_ready P stays cell dirty clean flt start (4 * n_iter sz 16) loop s' \<and> R s s'"
    unfolding iff [symmetric] by blast
qed

text \<open>Every entry of the table keeps a relation that all tests keep.\<close>

lemma table_keeps:
  assumes memtest: "\<And>mode. keeps (test_ready P stays cell dirty clean flt start (n_iter sz 4)) R
      (memtest P start sz mode lp)"
    and simple: "\<And>mode d0 d1 d2 d3. keeps (simple_ready P stays cell dirty clean flt start (4 * n_iter sz 16) lp) R
      (memtest_simple P start sz mode lp d0 d1 d2 d3)"
    and pat: "\<And>mode pat. keeps (test_ready P stays cell dirty clean flt start (n_iter sz 4)) R
      (\<lambda>s. memtest_pat128 P start sz mode (pat s) s)"
    and lfsr: "\<And>mode. keeps (test_ready P stays cell dirty clean flt start (n_iter sz 4)) R
      (memtest_lfsr P start sz mode lp)"
  shows "\<forall>bt \<in> set (test_table P start sz lp).
    keeps (simple_ready P stays cell dirty clean flt start (4 * n_iter sz 16) lp) R (snd bt)"
  unfolding test_table_def
  by (auto intro!: keeps_wide_or_narrow simple keeps_narrow [OF memtest] keeps_narrow [OF pat]
      keeps_narrow [OF lfsr])

definition unharmed :: "'h mt \<Rightarrow> 'h mt \<Rightarrow> bool" where
  "unharmed s s' \<longleftrightarrow> werr s' = werr s \<and> errcnt s' = errcnt s \<and> epp s' = epp s \<and> same_config s s'"

lemma unharmed_preorder: "reflp unharmed" "transp unharmed"
  by (auto simp: reflp_def transp_def unharmed_def intro: same_config_trans)

lemma grown_refl: "grown {} 0 s s"
  unfolding grown_def by (intro conjI exI [of _ 0] exI [of _ "\<lambda>_. 0"]) simp_all

lemma grown_trans:
  assumes "grown K m s t" and "grown L n t u"
  shows "grown (K \<union> L) (m + n) s u"
proof -
  from assms(1) obtain w e where w: "w \<le> int m" "werr t = werr s + of_int w"
      "\<forall>k<4. 0 \<le> e k \<and> e k \<le> w \<and> errcnt t ! k = errcnt s ! k + of_int (e k) \<and> (k \<in> K \<longrightarrow> 0 < e k)"
    unfolding grown_def by blast
  from assms(2) obtain w' e' where w': "w' \<le> int n" "werr u = werr t + of_int w'"
      "\<forall>k<4. 0 \<le> e' k \<and> e' k \<le> w' \<and> errcnt u ! k = errcnt t ! k + of_int (e' k) \<and> (k \<in> L \<longrightarrow> 0 < e' k)"
    unfolding grown_def by blast
  have "0 \<le> e k + e' k \<and> e k + e' k \<le> w + w' \<and> errcnt u ! k = errcnt s ! k + of_int (e k + e' k)
      \<and> (k \<in> K \<union> L \<longrightarrow> 0 < e k + e' k)" if "k < 4" for k
    using w(3) w'(3) that by (auto simp: add_mono add_pos_nonneg add_nonneg_pos)
  moreover have "same_config s u" "epp s \<le> epp u" "K \<union> L \<noteq> {} \<longrightarrow> epp s < epp u"
    using assms same_config_trans [of s t u] by (auto simp: grown_def)
  moreover have "w + w' \<le> int (m + n)" "werr u = werr s + of_int (w + w')" using w(1,2) w'(1,2) by simp_all
  ultimately show ?thesis
    unfolding grown_def by (intro conjI exI [of _ "w + w'"] exI [of _ "\<lambda>k. e k + e' k"]) blast+
qed

lemma grown_mono:
  assumes "grown K m s t" "L \<subseteq> K" "m \<le> n"
  shows "grown L n s t"
proof -
  from assms(1) obtain w e where "w \<le> int m" "werr t = werr s + of_int w"
      "\<forall>k<4. 0 \<le> e k \<and> e k \<le> w \<and> errcnt t ! k = errcnt s ! k + of_int (e k) \<and> (k \<in> K \<longrightarrow> 0 < e k)"
    unfolding grown_def by blast
  moreover have "same_config s t" "epp s \<le> epp t" "K \<noteq> {} \<longrightarrow> epp s < epp t"
    using assms(1) by (simp_all add: grown_def)
  ultimately show ?thesis
    using assms(2,3) unfolding grown_def by (intro conjI exI [of _ w] exI [of _ e]) auto
qed

lemma grown_config: "grown K n s t \<Longrightarrow> same_config s t"
  by (simp add: grown_def)

text \<open>Fewer than \<open>2 ^ 32\<close> errors cannot make a counter that started at 0 wrap back to 0, and fewer
  than \<open>2 ^ 31\<close> do not make it negative.\<close>

lemma counter_positive:
  assumes "0 < x" "x < 2 ^ 32"
  shows "(of_int x :: word32) \<noteq> 0" "x < 2 ^ 31 \<Longrightarrow> 0 < sint (of_int x :: word32)"
proof -
  have "uint (of_int x :: word32) = x" using assms by (simp add: uint_word_of_int_eq take_bit_int_eq_self)
  then show "(of_int x :: word32) \<noteq> 0" using assms(1) by auto
  show "0 < sint (of_int x :: word32)" if "x < 2 ^ 31"
    using assms(1) that by (simp add: sint_sbintrunc' signed_take_bit_int_eq_self)
qed

lemma grown_counters:
  assumes g: "grown {k} n s s'" and k: "k < 4" and n: "n < 2 ^ 32" and "werr s = 0" "errcnt s ! k = 0"
  shows "werr s' \<noteq> 0" "errcnt s' ! k \<noteq> 0" "n < 2 ^ 31 \<Longrightarrow> 0 < sint (werr s') \<and> 0 < sint (errcnt s' ! k)"
proof -
  obtain w x where w: "w \<le> int n" "werr s' = of_int w" "errcnt s' ! k = of_int x" "0 < x" "x \<le> w"
    using g k assms(4,5) unfolding grown_def by (auto simp del: One_nat_def)
  have "int n < int (2 ^ 32)" using n by (simp only: of_nat_less_iff)
  then have b: "0 < w" "w < 2 ^ 32" "x < 2 ^ 32" using w by simp_all
  show "werr s' \<noteq> 0" "errcnt s' ! k \<noteq> 0"
    using counter_positive(1) [OF b(1,2)] counter_positive(1) [OF w(4) b(3)] w(2,3) by simp_all
  show "0 < sint (werr s') \<and> 0 < sint (errcnt s' ! k)" if "n < 2 ^ 31"
  proof -
    have "int n < int (2 ^ 31)" using that by (simp only: of_nat_less_iff)
    then have "w < 2 ^ 31" "x < 2 ^ 31" using w(1,5) by simp_all
    then show ?thesis using counter_positive(2) [OF b(1,2)] counter_positive(2) [OF w(4) b(3)] w(2,3) by simp
  qed
qed

lemma run_tests_grown:
  assumes "\<And>bt. bt \<in> set ts \<Longrightarrow> keeps ready (grown {} n) (snd bt)"
  shows "keeps ready (grown {} (length ts * n)) (run_tests sel ts)"
  using assms
proof (induction ts)
  case Nil
  then show ?case by (simp add: keeps_def grown_refl)
next
  case (Cons bt ts)
  have t: "keeps ready (grown {} n) (snd bt)" and ts: "keeps ready (grown {} (length ts * n)) (run_tests sel ts)"
    using Cons by simp_all
  have "\<exists>s'. run_tests sel (bt # ts) s = Some s' \<and> ready s' \<and> grown {} (length (bt # ts) * n) s s'"
    if s: "ready s" for s
  proof (cases "sel AND fst bt = 0")
    case True
    then show ?thesis using keepsD [OF ts s] grown_mono [of "{}" "length ts * n" s _ "{}" "length (bt # ts) * n"]
      by fastforce
  next
    case False
    obtain s1 where s1: "snd bt s = Some s1" "ready s1" "grown {} n s s1" using keepsD [OF t s] by blast
    obtain s2 where "run_tests sel ts s1 = Some s2" "ready s2" "grown {} (length ts * n) s1 s2"
      using keepsD [OF ts s1(2)] by blast
    with False s1 grown_trans [OF s1(3)] show ?thesis by fastforce
  qed
  then show ?case by (simp add: keeps_def)
qed

lemma tests_grow:
  "keeps (test_ready P stays cell dirty clean flt start (n_iter sz 4)) (grown {} (4 * n_iter sz 16))
      (memtest P start sz mode lp)"
  "keeps (simple_ready P stays cell dirty clean flt start (4 * n_iter sz 16) lp) (grown {} (4 * n_iter sz 16))
      (memtest_simple P start sz mode lp d0 d1 d2 d3)"
  "keeps (test_ready P stays cell dirty clean flt start (n_iter sz 4)) (grown {} (4 * n_iter sz 16))
      (\<lambda>s. memtest_pat128 P start sz mode (pat s) s)"
  "keeps (test_ready P stays cell dirty clean flt start (n_iter sz 4)) (grown {} (4 * n_iter sz 16))
      (memtest_lfsr P start sz mode lp)"
proof -
  show "keeps (test_ready P stays cell dirty clean flt start (n_iter sz 4)) (grown {} (4 * n_iter sz 16))
      (memtest P start sz mode lp)"
    unfolding keeps_def using mtest.counts [of P stays cell dirty clean flt start sz]
    by (meson empty_subsetI grown_mono n_iter_4_16)
  show "keeps (simple_ready P stays cell dirty clean flt start (4 * n_iter sz 16) lp) (grown {} (4 * n_iter sz 16))
      (memtest_simple P start sz mode lp d0 d1 d2 d3)"
    unfolding keeps_def using simple.counts [of P stays cell dirty clean flt start sz]
    by (meson empty_subsetI grown_mono order_refl)
  show "keeps (test_ready P stays cell dirty clean flt start (n_iter sz 4)) (grown {} (4 * n_iter sz 16))
      (\<lambda>s. memtest_pat128 P start sz mode (pat s) s)"
    unfolding keeps_def using pat128.counts [of P stays cell dirty clean flt start sz]
    by (meson empty_subsetI grown_mono n_iter_4_16)
  show "keeps (test_ready P stays cell dirty clean flt start (n_iter sz 4)) (grown {} (4 * n_iter sz 16))
      (memtest_lfsr P start sz mode lp)"
    unfolding keeps_def using lfsr.counts [of P stays cell dirty clean flt start sz]
    by (meson empty_subsetI grown_mono n_iter_4_16)
qed

lemma table_grows:
  "\<forall>bt \<in> set (test_table P start sz lp).
    keeps (simple_ready P stays cell dirty clean flt start (4 * n_iter sz 16) lp)
      (grown {} (4 * n_iter sz 16)) (snd bt)"
  by (intro table_keeps tests_grow)

lemma tests_unharmed:
  assumes good: "\<And>j v. j < 4 * n_iter sz 16 \<Longrightarrow> flt (word_at start j) v = v"
  shows "keeps (test_ready P stays cell dirty clean flt start (n_iter sz 4)) unharmed
      (memtest P start sz mode lp)"
    "keeps (simple_ready P stays cell dirty clean flt start (4 * n_iter sz 16) lp) unharmed
      (memtest_simple P start sz mode lp d0 d1 d2 d3)"
    "keeps (test_ready P stays cell dirty clean flt start (n_iter sz 4)) unharmed
      (\<lambda>s. memtest_pat128 P start sz mode (pat s) s)"
    "keeps (test_ready P stays cell dirty clean flt start (n_iter sz 4)) unharmed
      (memtest_lfsr P start sz mode lp)"
proof -
  have g: "flt (word_at start j) v = v" if "j < n_iter sz 4" for j v
    using good that n_iter_4_16 [of sz] by (meson less_le_trans)
  show "keeps (test_ready P stays cell dirty clean flt start (n_iter sz 4)) unharmed
      (memtest P start sz mode lp)"
    unfolding keeps_def unharmed_def
    using mtest.good_memory [of P stays cell dirty clean flt start sz] g by simp
  show "keeps (simple_ready P stays cell dirty clean flt start (4 * n_iter sz 16) lp) unharmed
      (memtest_simple P start sz mode lp d0 d1 d2 d3)"
    unfolding keeps_def unharmed_def
    using simple.good_memory [of P stays cell dirty clean flt start sz] good by simp
  show "keeps (test_ready P stays cell dirty clean flt start (n_iter sz 4)) unharmed
      (\<lambda>s. memtest_pat128 P start sz mode (pat s) s)"
    unfolding keeps_def unharmed_def
    using pat128.good_memory [of P stays cell dirty clean flt start sz] g by simp
  show "keeps (test_ready P stays cell dirty clean flt start (n_iter sz 4)) unharmed
      (memtest_lfsr P start sz mode lp)"
    unfolding keeps_def unharmed_def
    using lfsr.good_memory [of P stays cell dirty clean flt start sz] g by simp
qed

lemma table_unharmed:
  assumes good: "\<And>j v. j < 4 * n_iter sz 16 \<Longrightarrow> flt (word_at start j) v = v"
  shows "\<forall>bt \<in> set (test_table P start sz lp).
    keeps (simple_ready P stays cell dirty clean flt start (4 * n_iter sz 16) lp) unharmed (snd bt)"
  by (intro table_keeps tests_unharmed [where flt = flt and start = start and sz = sz, OF good])

lemma memtest_all_init_fields:
  "werr (memtest_all_init P s) = 0" "epp (memtest_all_init P s) = 0"
  "errcnt (memtest_all_init P s) = [0, 0, 0, 0]" "same_config s (memtest_all_init P s)"
  by (simp_all add: memtest_all_init_def error_info_def Let_def REG_WRITE_def same_config_def)

lemma zero_lanes: "k < 4 \<Longrightarrow> [0, 0, 0, 0 :: word32] ! k = 0"
  by (auto simp: numeral_eq_Suc less_Suc_eq)

lemma memtest_all_init_lane: "k < 4 \<Longrightarrow> errcnt (memtest_all_init P s) ! k = 0"
  by (simp add: memtest_all_init_fields zero_lanes)

definition memory_ready ::
    "'h platform \<Rightarrow> ('h \<Rightarrow> bool) \<Rightarrow> ('h \<Rightarrow> word32 \<Rightarrow> word32) \<Rightarrow> ('h \<Rightarrow> (nat \<times> nat) set)
      \<Rightarrow> ('h \<Rightarrow> bool) \<Rightarrow> (word32 \<Rightarrow> word32 \<Rightarrow> word32) \<Rightarrow> word32 \<Rightarrow> int \<Rightarrow> 'h mt \<Rightarrow> bool"
where
  "memory_ready P stays cell dirty clean flt start sz s \<longleftrightarrow>
     dram P stays cell dirty clean flt \<and> region start (4 * n_iter sz 16) \<and> stays (hw s)"

lemma memtest_all_init_stays:
  assumes dev: "dram P stays cell dirty clean flt" and h: "stays (hw s)"
  shows "stays (hw (memtest_all_init P s))"
  using h by (simp add: memtest_all_init_def Let_def REG_WRITE_frame [OF dev] error_info_frame [OF dev])

lemma init_ready:
  "memory_ready P stays cell dirty clean flt start sz s \<Longrightarrow> lp \<noteq> - 1 \<Longrightarrow>
    simple_ready P stays cell dirty clean flt start (4 * n_iter sz 16) lp (memtest_all_init P s)"
  by (auto simp: simple_ready_def test_ready_def memory_ready_def memtest_all_init_fields
      intro: memtest_all_init_stays)

lemma sim_memory_ready:
  "4 * n_iter sz 16 \<le> 0x10000000 \<Longrightarrow>
    memory_ready (ddr_platform (\<lambda>_. F)) (\<lambda>s. True) ddr_cell sim_dirty sim_clean F 0 sz s"
  using ddr_platform_dram [of "\<lambda>_. F" F] by (simp add: memory_ready_def region_def)

lemma run_tests_hit:
  assumes grown: "\<forall>bt \<in> set (pre @ bt # post). keeps ready (grown {} n) (snd bt)"
    and sel: "sel AND fst bt \<noteq> 0" and s: "ready s"
    and hit: "\<And>s1. ready s1 \<Longrightarrow> same_config s s1 \<Longrightarrow> \<exists>s'. snd bt s1 = Some s' \<and> ready s' \<and> grown K n s1 s'"
  shows "\<exists>s'. run_tests sel (pre @ bt # post) s = Some s'
      \<and> ready s' \<and> grown K (length (pre @ bt # post) * n) s s'"
proof -
  have pre: "keeps ready (grown {} (length pre * n)) (run_tests sel pre)"
    and post: "keeps ready (grown {} (length post * n)) (run_tests sel post)"
    using grown by (auto intro!: run_tests_grown)
  obtain s1 where s1: "run_tests sel pre s = Some s1" "ready s1" "grown {} (length pre * n) s s1"
    using keepsD [OF pre s] by blast
  then obtain s2 where s2: "snd bt s1 = Some s2" "ready s2" "grown K n s1 s2"
    using hit [OF s1(2) grown_config] by blast
  obtain s3 where s3: "run_tests sel post s2 = Some s3" "ready s3" "grown {} (length post * n) s2 s3"
    using keepsD [OF post s2(2)] by blast
  have "run_tests sel (pre @ bt # post) s = Some s3"
    using s1(1) s2(1) s3(1) sel by (simp add: run_tests_append)
  moreover have "grown K (length (pre @ bt # post) * n) s s3"
    using grown_trans [OF s1(3) grown_trans [OF s2(3) s3(3)]] by (simp add: algebra_simps)
  ultimately show ?thesis using s3(2) by blast
qed

text \<open>The words of the region and the fifteen tests leave room in 32 bits.\<close>

lemma errors_bounded:
  "region start N \<Longrightarrow> length (test_table P start sz lp) * N < 2 ^ 32"
  by (simp add: region_def test_table_def)

section \<open>Lane by lane\<close>

text \<open>
  When each byte lane of the DDR either always works or never does, \<open>memtest_all\<close> with test 9
  selected tells them apart.
\<close>

lemma table_lane_good:
  assumes k: "k < 4" and good: "\<And>a v. flt a v AND lane k = v AND lane k"
  shows "\<forall>bt \<in> set (test_table P start sz lp).
    keeps (simple_ready P stays cell dirty clean flt start (4 * n_iter sz 16) lp)
      (\<lambda>s s'. errcnt s' ! k = errcnt s ! k) (snd bt)"
proof (rule table_keeps)
  have nb: "\<not> bad_lane want (seen flt start want) k j" for want j
    by (simp add: bad_lane_def good)
  fix mode pat d0 d1 d2 d3
  show "keeps (test_ready P stays cell dirty clean flt start (n_iter sz 4))
      (\<lambda>s s'. errcnt s' ! k = errcnt s ! k) (memtest P start sz mode lp)"
    unfolding keeps_def using mtest.lane_good [OF _ k nb] by blast
  show "keeps (simple_ready P stays cell dirty clean flt start (4 * n_iter sz 16) lp)
      (\<lambda>s s'. errcnt s' ! k = errcnt s ! k) (memtest_simple P start sz mode lp d0 d1 d2 d3)"
    unfolding keeps_def using simple.lane_good [OF _ k nb] by blast
  show "keeps (test_ready P stays cell dirty clean flt start (n_iter sz 4))
      (\<lambda>s s'. errcnt s' ! k = errcnt s ! k) (\<lambda>s. memtest_pat128 P start sz mode (pat s) s)"
    unfolding keeps_def using pat128.lane_good [OF _ k nb] by blast
  show "keeps (test_ready P stays cell dirty clean flt start (n_iter sz 4))
      (\<lambda>s s'. errcnt s' ! k = errcnt s ! k) (memtest_lfsr P start sz mode lp)"
    unfolding keeps_def using lfsr.lane_good [OF _ k nb] by blast
qed

lemma run_lane_good:
  assumes ready: "simple_ready P stays cell dirty clean flt start (4 * n_iter sz 16) lp s"
    and k: "k < 4" and good: "\<And>a v. flt a v AND lane k = v AND lane k"
    and ret: "run_tests sel (test_table P start sz lp) s = Some s'"
  shows "errcnt s' ! k = errcnt s ! k"
proof -
  have refl: "reflp (\<lambda>s s' :: 'a mt. errcnt s' ! k = errcnt s ! k)" by (simp add: reflp_def)
  have trans: "transp (\<lambda>s s' :: 'a mt. errcnt s' ! k = errcnt s ! k)" by (simp add: transp_def)
  have "keeps (simple_ready P stays cell dirty clean flt start (4 * n_iter sz 16) lp)
      (\<lambda>s s'. errcnt s' ! k = errcnt s ! k) (run_tests sel (test_table P start sz lp))"
    using table_lane_good [where flt = flt, OF k good] by (intro run_tests_keeps [OF refl trans]) blast
  from keepsD [OF this ready] ret show ?thesis by auto
qed

lemma run_lane_bad:
  assumes ready: "simple_ready P stays cell dirty clean flt start (4 * n_iter sz 16) lp s"
    and k: "k < 4" and bad: "\<And>a v. flt a v AND lane k \<noteq> v AND lane k"
    and sel: "sel AND 0x200 \<noteq> 0" and sz: "0 < sz"
    and ret: "run_tests sel (test_table P start sz lp) s = Some s'"
  shows "grown {k} (length (test_table P start sz lp) * (4 * n_iter sz 16)) s s'"
proof -
  have n: "0 < n_iter sz 4" using sz by (simp add: n_iter_iff)
  obtain pre post where table: "test_table P start sz lp = pre
      @ (0x0200, \<lambda>s. memtest_pat128 P start sz 9 (pat1 s) s) # post"
    by (simp add: test_table_def Cons_eq_append_conv)
  let ?bt = "(0x0200 :: word32, \<lambda>s. memtest_pat128 P start sz 9 (pat1 s) s)"
  have "\<exists>s'. run_tests sel (pre @ ?bt # post) s = Some s'
      \<and> simple_ready P stays cell dirty clean flt start (4 * n_iter sz 16) lp s'
      \<and> grown {k} (length (pre @ ?bt # post) * (4 * n_iter sz 16)) s s'"
  proof (rule run_tests_hit [where
      ready = "simple_ready P stays cell dirty clean flt start (4 * n_iter sz 16) lp", OF _ _ ready])
    show "\<forall>bt \<in> set (pre @ ?bt # post). keeps (simple_ready P stays cell dirty clean flt start (4 * n_iter sz 16) lp)
        (grown {} (4 * n_iter sz 16)) (snd bt)"
      using table_grows [of P start sz lp] unfolding table by blast
    show "sel AND fst ?bt \<noteq> 0" using sel by simp
    fix s1
    assume r: "simple_ready P stays cell dirty clean flt start (4 * n_iter sz 16) lp s1"
    have r4: "test_ready P stays cell dirty clean flt start (n_iter sz 4) s1"
      using r unfolding test_ready_iff [OF r n_iter_4_16, symmetric] .
    have "bad_lane want (seen flt start want) k 0" for want
      by (simp add: bad_lane_def bad)
    then have "{k} \<subseteq> {k. k < 4 \<and> (\<exists>j<n_iter sz 4.
        bad_lane (pat_want (pat1 s1) s1) (seen flt start (pat_want (pat1 s1) s1)) k j)}"
      using n k by blast
    from grown_mono [OF _ this n_iter_4_16] pat128.counts [OF r4, of 9 "pat1 s1"]
    show "\<exists>s'. snd ?bt s1 = Some s'
      \<and> simple_ready P stays cell dirty clean flt start (4 * n_iter sz 16) lp s'
      \<and> grown {k} (4 * n_iter sz 16) s1 s'"
      unfolding test_ready_iff [OF r n_iter_4_16] snd_conv by blast
  qed
  with ret show ?thesis unfolding table by auto
qed

lemma memtest_all_lanes:
  assumes ready: "memory_ready P stays cell dirty clean flt start sz s" and lp: "lp \<noteq> - 1"
    and sel: "sel AND 0x200 \<noteq> 0" and sz: "0 < sz"
    and good: "\<And>k a v. k < 4 \<Longrightarrow> good k \<Longrightarrow> flt a v AND lane k = v AND lane k"
    and bad: "\<And>k a v. k < 4 \<Longrightarrow> \<not> good k \<Longrightarrow> flt a v AND lane k \<noteq> v AND lane k"
  shows "\<exists>s'. memtest_all P start sz sel lp s = Some s' \<and> stays (hw s') \<and> same_config s s'
    \<and> (\<forall>k<4. errcnt s' ! k = 0 \<longleftrightarrow> good k)"
proof -
  let ?s = "memtest_all_init P s"
  note r = init_ready [OF ready lp]
  have dev: "dram P stays cell dirty clean flt" and reg: "region start (4 * n_iter sz 16)"
    using ready by (simp_all add: memory_ready_def)
  have "keeps (simple_ready P stays cell dirty clean flt start (4 * n_iter sz 16) lp)
      (grown {} (length (test_table P start sz lp) * (4 * n_iter sz 16))) (run_tests sel (test_table P start sz lp))"
    using table_grows [of P start sz lp] by (intro run_tests_grown) blast
  from keepsD [OF this r] obtain s1 where s1: "run_tests sel (test_table P start sz lp) ?s = Some s1"
      "simple_ready P stays cell dirty clean flt start (4 * n_iter sz 16) lp s1" "same_config ?s s1"
    using grown_config by blast
  have h1: "stays (hw s1)" using s1(2) by (simp add: simple_ready_def test_ready_def)
  have e: "errcnt s1 ! k = 0 \<longleftrightarrow> good k" if k: "k < 4" for k
  proof (cases "good k")
    case True
    then show ?thesis
      using run_lane_good [where flt = flt, OF r k good [OF k] s1(1)] memtest_all_init_lane [OF k] by simp
  next
    case False
    then show ?thesis
      using grown_counters(2) [OF run_lane_bad [where flt = flt, OF r k bad [OF k] sel sz s1(1)] k
          errors_bounded [OF reg] memtest_all_init_fields(1) memtest_all_init_lane [OF k]] by simp
  qed
  have c: "same_config s s1"
    using s1(3) memtest_all_init_fields(4) [of s P] same_config_trans by blast
  show ?thesis
    using s1(1) e c REG_WRITE_frame(1) [OF dev h1 test_io_registers(6)]
    by (simp add: memtest_all_def)
qed

text \<open>The core of the good-memory property, with the states it stays in.\<close>

lemma memtest_all_unharmed:
  assumes ready: "memory_ready P stays cell dirty clean flt start sz s" and lp: "lp \<noteq> - 1"
    and good: "\<And>j v. j < 4 * n_iter sz 16 \<Longrightarrow> flt (word_at start j) v = v"
  shows "\<exists>s'. memtest_all P start sz sel lp s = Some s' \<and> stays (hw s') \<and> same_config s s'
    \<and> werr s' = 0 \<and> errcnt s' = [0, 0, 0, 0] \<and> epp s' = 0"
proof -
  have dev: "dram P stays cell dirty clean flt" using ready by (simp add: memory_ready_def)
  have "keeps (simple_ready P stays cell dirty clean flt start (4 * n_iter sz 16) lp) unharmed
      (run_tests sel (test_table P start sz lp))"
    using table_unharmed [where flt = flt and start = start and sz = sz, OF good]
    by (intro run_tests_keeps unharmed_preorder) blast+
  from keepsD [OF this init_ready [OF ready lp]] obtain s1
    where s1: "run_tests sel (test_table P start sz lp) (memtest_all_init P s) = Some s1"
      "simple_ready P stays cell dirty clean flt start (4 * n_iter sz 16) lp s1"
      "unharmed (memtest_all_init P s) s1"
    by blast
  have h1: "stays (hw s1)" using s1(2) by (simp add: simple_ready_def test_ready_def)
  have c: "same_config s s1"
    using s1(3) memtest_all_init_fields(4) [of s P] same_config_trans by (auto simp: unharmed_def)
  show ?thesis
    using s1 c REG_WRITE_frame(1) [OF dev h1 test_io_registers(6)]
    by (simp add: memtest_all_def unharmed_def memtest_all_init_fields)
qed

section \<open>Properties of memtest\_all\<close>

text \<open>C5. A good memory passes. On DDR whose cells read back what was written (behind a cache that
  must be flushed first, with nothing assumed about it), \<open>memtest_all\<close> returns for every
  selection of tests, bus width, pattern and size within the DDR, and any loop number but the \<open>-1\<close> that means
  "write only", and reports no word error, no lane error and no failed pattern.\<close>

theorem memtest_all_good_memory:
  assumes ready: "memory_ready P stays cell dirty clean flt start sz s" and lp: "lp \<noteq> - 1"
    and good: "\<And>j v. j < 4 * n_iter sz 16 \<Longrightarrow> flt (word_at start j) v = v"
  shows "\<exists>s'. memtest_all P start sz sel lp s = Some s'
    \<and> werr s' = 0 \<and> errcnt s' = [0, 0, 0, 0] \<and> epp s' = 0"
  using memtest_all_unharmed [OF ready lp, of sel] good by blast

lemma memtest_all_good_memory_witness:
  "\<exists>s'. memtest_all (ddr_platform (\<lambda>_ a v. v)) 0 0x100000 0x7fff 0 (mt_init [] [] 0x20000 sim_reset) = Some s'
    \<and> werr s' = 0"
proof -
  have "4 * n_iter 0x100000 16 \<le> 0x10000000" by (simp add: n_iter_def)
  from memtest_all_good_memory [OF sim_memory_ready [OF this, where F = "\<lambda>a v. v"],
      where lp = 0 and sel = "0x7fff" and s = "mt_init [] [] 0x20000 sim_reset"]
  show ?thesis by auto
qed

lemma n_iter_words: "sz \<le> 512 * 1024 * 1024 \<Longrightarrow> n_iter sz 16 \<le> 33554432"
  by (simp add: n_iter_def)

lemma stuck_bit_lane:
  assumes "bit (got j) b \<noteq> bit (want j) b" "b < 32"
  shows "bad_lane want got (b div 8) j"
  unfolding bad_lane_def
proof
  assume eq: "got j AND lane (b div 8) = want j AND lane (b div 8)"
  have ff: "(0xff :: word32) = mask 8" by (simp add: mask_eq_exp_minus_1)
  have "8 * (b div 8) \<le> b" "b - 8 * (b div 8) < 8"
    by (simp_all add: minus_mult_div_eq_mod)
  then have "bit (lane (b div 8)) b" using assms(2) by (simp add: lane_def ff bit_simps)
  with eq have "bit (got j) b = bit (want j) b" by (metis bit_and_iff)
  with assms(1) show False by simp
qed

lemma solid_hit:
  assumes ready: "simple_ready P stays cell dirty clean flt start (4 * n_iter sz 16) lp s1"
    and j: "j < 4 * n_iter sz 16" and b: "b < 32" and qm: "bit (qmask s1) b"
    and stuck: "\<And>v. bit (flt (word_at start j) v) b = c" and d: "bit d b = (\<not> c)"
  shows "\<exists>s'. memtest_simple P start sz mode lp d d d d s1 = Some s'
      \<and> simple_ready P stays cell dirty clean flt start (4 * n_iter sz 16) lp s'
      \<and> grown {b div 8} (4 * n_iter sz 16) s1 s'"
proof -
  have "j mod 4 < 4" by simp
  then consider "j mod 4 = 0" | "j mod 4 = 1" | "j mod 4 = 2" | "j mod 4 = 3" by linarith
  then have "simple_want d d d d s1 j = d AND qmask s1"
    by cases (simp_all add: simple_want_def)
  then have "bad_lane (simple_want d d d d s1) (seen flt start (simple_want d d d d s1)) (b div 8) j"
    using qm d stuck by (intro stuck_bit_lane b) (simp add: bit_simps)
  moreover have "b div 8 < 4" using b by simp
  ultimately have "{b div 8} \<subseteq> {k. k < 4 \<and> (\<exists>j<4 * n_iter sz 16.
      bad_lane (simple_want d d d d s1) (seen flt start (simple_want d d d d s1)) k j)}"
    using j by blast
  from grown_mono [OF _ this order_refl] simple.counts [OF ready, of mode d d d d] show ?thesis by blast
qed



end
