(* ===== verification/MemtestRunProps.thy ===== *)
theory MemtestRunProps
  imports MemtestRun MemtestProps
begin

text \<open>
  Properties of the diagnostics loop: the range a mailbox request is clamped to, the settings
  that stay in range through every sequence of commands, the results posted to the mailbox, and
  the two runs on a good memory (the standalone test and one request of the test server).
\<close>

section \<open>The mailbox range\<close>

lemma sint_uint_small: "sint (w :: word32) = (if uint w < 2 ^ 31 then uint w else uint w - 2 ^ 32)"
proof -
  have b: "0 \<le> uint w" "uint w < 2 ^ 32" using uint_lt2p [of w] by simp_all
  have "sint w = (uint w + 2 ^ 31) mod 2 ^ 32 - 2 ^ 31"
    by (simp add: sint_uint signed_take_bit_eq_take_bit_shift take_bit_eq_mod)
  moreover have "(uint w + 2 ^ 31) mod 2 ^ 32
      = (if uint w < 2 ^ 31 then uint w + 2 ^ 31 else uint w + 2 ^ 31 - 2 ^ 32)"
  proof (cases "uint w < 2 ^ 31")
    case True
    then show ?thesis using b by (simp add: mod_pos_pos_trivial)
  next
    case False
    have "(uint w + 2 ^ 31) mod 2 ^ 32 = (uint w + 2 ^ 31 - 2 ^ 32) mod 2 ^ 32"
      by (rule minus_mod_self2 [symmetric])
    also have "\<dots> = uint w + 2 ^ 31 - 2 ^ 32"
      using False b by (intro mod_pos_pos_trivial) auto
    finally show ?thesis using False by simp
  qed
  ultimately show ?thesis by simp
qed

text \<open>Words that are a number of megabytes.\<close>

definition megabytes :: "int \<Rightarrow> word32" where
  "megabytes n = of_int (2 ^ 20 * n)"

lemma megabytes_sint:
  "0 \<le> n \<Longrightarrow> n < 4096 \<Longrightarrow> uint (megabytes n) = 2 ^ 20 * n"
  "0 \<le> n \<Longrightarrow> n < 4096 \<Longrightarrow> sint (megabytes n) = (if n < 2048 then 2 ^ 20 * n else 2 ^ 20 * n - 2 ^ 32)"
proof -
  assume n: "0 \<le> n" "n < 4096"
  then show u: "uint (megabytes n) = 2 ^ 20 * n"
    by (simp add: megabytes_def uint_word_of_int_eq take_bit_int_eq_self del: of_int_mult)
  show "sint (megabytes n) = (if n < 2048 then 2 ^ 20 * n else 2 ^ 20 * n - 2 ^ 32)"
    unfolding sint_uint_small u by simp
qed

lemma megabytes_simps:
  "mbyte = megabytes 1" "x * mbyte = megabytes (uint x mod 4096)" "1023 * mbyte = megabytes 1023"
  "1024 * mbyte = megabytes 1024" "16 * mbyte = megabytes 16" "megabytes m + megabytes n = megabytes (m + n)"
proof -
  have "x * mbyte = of_int (uint x * 2 ^ 20)" by (simp add: mbyte_def)
  also have "\<dots> = of_int (2 ^ 20 * (uint x mod 4096))"
  proof -
    have "(2 :: int) ^ 20 * (uint x mod 4096) = 2 ^ 20 * uint x mod 2 ^ 32"
      using mult_mod_right [of "2 ^ 20" "uint x" 4096] by simp
    then show ?thesis
      unfolding word_of_int_eq_iff take_bit_eq_mod by (simp add: mult.commute)
  qed
  finally show "x * mbyte = megabytes (uint x mod 4096)" by (simp add: megabytes_def)
qed (simp_all add: megabytes_def mbyte_def algebra_simps)

text \<open>The range in megabytes.\<close>

lemma mailbox_range_megabytes:
  obtains m n where "mailbox_range start a = (megabytes m, megabytes n)" "1 \<le> m" "1 \<le> n" "m + n \<le> 1024"
proof -
  define m n where "m = uint start mod 4096" and "n = uint (a AND 0x3ff) mod 4096"
  have "a AND 0x3ff = take_bit 10 a" by (simp add: take_bit_eq_mask mask_eq_exp_minus_1)
  then have "uint (a AND 0x3ff) = uint a mod 1024"
    by (simp only: unsigned_take_bit_eq) (simp add: take_bit_eq_mod)
  then have m: "0 \<le> m" "m < 4096" and n: "0 \<le> n" "n < 1024"
    unfolding m_def n_def by (auto simp: mod_mod_cancel)
  let ?m = "if m < 1 \<or> m > 1023 then 1 else m" and ?n = "if n < 1 then 1 else n"
  have rng: "mailbox_range start a = (if ?m + ?n > 1024 then (megabytes 1, megabytes 16) else (megabytes ?m, megabytes ?n))"
    unfolding mailbox_range_def megabytes_simps(3,4,5)
    unfolding megabytes_simps(2)
    unfolding m_def [symmetric] n_def [symmetric] megabytes_simps(1) Let_def
    using m n by (auto simp: megabytes_sint megabytes_simps(6))
  show thesis
  proof (cases "?m + ?n > 1024")
    case True
    then show ?thesis using rng that [of 1 16] by simp
  next
    case False
    then show ?thesis using rng n that [of ?m ?n] by (simp split: if_splits)
  qed
qed

lemma mailbox_range_region:
  assumes "mailbox_range start a = (test_start, test_size)"
  shows "region test_start (4 * n_iter (sint test_size) 16)"
proof -
  obtain m n where eq: "mailbox_range start a = (megabytes m, megabytes n)"
    and b: "1 \<le> m" "1 \<le> n" "m + n \<le> 1024" by (rule mailbox_range_megabytes)
  have "unat test_start = nat (2 ^ 20 * m)" "sint test_size = 2 ^ 20 * n"
    using eq assms b by (simp_all add: megabytes_sint unat_eq_nat_uint)
  moreover have "n_iter (2 ^ 20 * n) 16 = nat (2 ^ 16 * n)"
    using b by (simp add: n_iter_def)
  ultimately show ?thesis using b by (simp add: region_def)
qed

text \<open>C33. Whatever words the host leaves in the mailbox, the range of a requested test is sound: it
  starts at 1 MB or above, is at least 1 MB long, ends at or below the top of the 1 GB address
  space, and both ends are multiples of 1 MB.\<close>

theorem mailbox_range_sound:
  "case mailbox_range start a of (test_start, test_size) \<Rightarrow>
     2 ^ 20 \<le> uint test_start \<and> 2 ^ 20 \<le> uint test_size \<and> uint test_start + uint test_size \<le> 2 ^ 30
     \<and> 2 ^ 20 dvd uint test_start \<and> 2 ^ 20 dvd uint test_size"
  by (rule mailbox_range_megabytes [of start a]) (simp add: megabytes_sint)

section \<open>The settings stay in range\<close>

definition loop_cnt_ok :: "word32 \<Rightarrow> bool" where
  "loop_cnt_ok c \<longleftrightarrow> c = 0 \<or> (\<exists>n<32. c = 2 ^ n)"

definition scl_ok :: "int \<Rightarrow> int \<Rightarrow> bool" where
  "scl_ok temp scl \<longleftrightarrow> temp \<in> {1, 2, 4, 8, 16, 32, 64, 128, 256, 512, 1024}
     \<and> scl = (if temp > 128 then temp - 1 else temp)"

definition settings_ok :: "'h run \<Rightarrow> bool" where
  "settings_ok r \<longleftrightarrow>
     istep r \<in> {1, 2, 4} \<and> 0 \<le> imin r \<and> imin r \<le> 60 \<and> 68 \<le> imax r \<and> imax r \<le> 128
     \<and> (scl_ok (scl_temp r) (testsize_scl r) \<or> testsize_scl r = 1)
     \<and> scl_temp r \<in> {1, 2, 4, 8, 16, 32, 64, 128, 256, 512, 1024}
     \<and> 0 \<le> test_size_sel r \<and> test_size_sel r < 8 \<and> fast r \<in> {0, 1} \<and> fix_center r \<in> {0, 1}
     \<and> printerr r \<in> {0, 1} \<and> remote_mode r \<in> {0, 1} \<and> cache_enable r \<in> {0, 1}
     \<and> loop_cnt_ok (test_loop_cnt r)"

lemma settings_ok_mts [simp]:
  "settings_ok (r\<lparr>mts := s\<rparr>) = settings_ok r" "settings_ok (on_mt f r) = settings_ok r"
  "settings_ok (r\<lparr>cum_errcnt := c\<rparr>) = settings_ok r" "settings_ok (r\<lparr>pll_div := d\<rparr>) = settings_ok r"
  "settings_ok (r\<lparr>go := g\<rparr>) = settings_ok r" "settings_ok (r\<lparr>mts := s, go := g\<rparr>) = settings_ok r"
  by (simp_all add: settings_ok_def on_mt_def)

lemma on_mt_opt_ok: "on_mt_opt f r = Some r' \<Longrightarrow> settings_ok r' = settings_ok r"
  by (auto simp: on_mt_opt_def)

lemma flip_bit: "x \<in> {0, 1} \<Longrightarrow> flip x \<in> {0, 1}"
  by (auto simp: flip_def)

lemma half_step: "x \<in> {1, 2, 4} \<Longrightarrow> (if half x < 1 then 4 else half x) \<in> {1, 2, 4}"
  by (auto simp: half_def)

lemma loop_cnt_double: "loop_cnt_ok c \<Longrightarrow> loop_cnt_ok (c * 2)"
proof (unfold loop_cnt_ok_def, elim disjE exE conjE)
  fix n :: nat assume n: "n < 32" "c = 2 ^ n"
  then have "c * 2 = 2 ^ Suc n" by simp
  then show "c * 2 = 0 \<or> (\<exists>n<32. c * 2 = 2 ^ n)"
    using n(1) by (cases "n = 31") (auto intro: exI [of _ "Suc n"])
qed simp

lemma loop_cnt_halve:
  assumes "loop_cnt_ok c" shows "loop_cnt_ok (of_int (max 1 (half (sint c))))"
proof -
  have one: "loop_cnt_ok 1" unfolding loop_cnt_ok_def by (rule disjI2, rule exI [of _ 0]) simp
  consider "c = 0" | n where "n < 32" "c = 2 ^ n" using assms by (auto simp: loop_cnt_ok_def)
  then show ?thesis
  proof cases
    case 1
    then show ?thesis using one by (simp add: half_def)
  next
    case 2
    consider "n = 0" | "n = 31" | m where "n = Suc m" "m < 30" using 2(1) by (cases n) force+
    then show ?thesis
    proof cases
      case 3
      have "uint (of_int (2 ^ n) :: word32) = 2 ^ n"
        using 2(1) power_strict_increasing [of n 32 "2 :: int"]
        by (simp only: uint_word_of_int_eq take_bit_int_eq_self) (simp add: take_bit_int_eq_self)
      then have "uint (2 ^ n :: word32) = 2 ^ n" by simp
      then have "sint c = 2 * 2 ^ m"
        using 3 power_strict_increasing [of n 31 "2 :: int"] by (simp add: sint_uint_small 2(2))
      then have "of_int (max 1 (half (sint c))) = (2 ^ m :: word32)"
        by (simp add: half_def max_def)
      then show ?thesis using 3 unfolding loop_cnt_ok_def by (intro disjI2 exI [of _ m]) simp
    qed (use one 2(2) in \<open>simp_all add: half_def\<close>)
  qed
qed

lemma next_scl_ok:
  assumes "settings_ok r" shows "settings_ok (next_scl r)"
proof -
  have "scl_temp r \<in> {1, 2, 4, 8, 16, 32, 64, 128, 256, 512, 1024}" using assms by (simp add: settings_ok_def)
  then show ?thesis
    by (elim insertE emptyE; use assms in \<open>simp add: settings_ok_def scl_ok_def next_scl_def\<close>)
qed

lemma settings_ok_if: "settings_ok a \<Longrightarrow> settings_ok b \<Longrightarrow> settings_ok (if c then a else b)"
  by simp

lemma settings_ok_updates:
  assumes "settings_ok r"
  shows "settings_ok (r\<lparr>istep := 4, testsize_scl := 1, fast := 1\<rparr>)"
    "settings_ok (r\<lparr>test_loop_cnt := test_loop_cnt r * 2\<rparr>)"
    "settings_ok (r\<lparr>test_loop_cnt := of_int (max 1 (half (sint (test_loop_cnt r))))\<rparr>)"
    "settings_ok (r\<lparr>test_size_sel := (test_size_sel r + 1) mod 8\<rparr>)"
    "settings_ok (r\<lparr>imin := max (imin r - 4) 0, imax := min (imax r + 4) 128\<rparr>)"
    "settings_ok (r\<lparr>imin := min (imin r + 4) 60, imax := max (imax r - 4) 68\<rparr>)"
    "settings_ok (r\<lparr>fast := flip (fast r)\<rparr>)" "settings_ok (r\<lparr>fix_center := flip (fix_center r)\<rparr>)"
    "settings_ok (r\<lparr>printerr := flip (printerr r)\<rparr>)"
    "settings_ok (r\<lparr>istep := (if half (istep r) < 1 then 4 else half (istep r))\<rparr>)"
    "settings_ok (r\<lparr>remote_mode := flip (remote_mode r)\<rparr>)"
    "settings_ok (r\<lparr>cache_enable := 0\<rparr>)" "settings_ok (r\<lparr>cache_enable := 1\<rparr>)"
  using assms flip_bit [of "fast r"] flip_bit [of "fix_center r"] flip_bit [of "printerr r"]
    flip_bit [of "remote_mode r"] half_step [of "istep r"] loop_cnt_double [of "test_loop_cnt r"]
    loop_cnt_halve [of "test_loop_cnt r"]
  by (simp_all add: settings_ok_def)

lemma set_command_ok:
  assumes "settings_ok r" shows "settings_ok (set_command c r)"
  unfolding set_command_def Let_def
  by (intro settings_ok_if settings_ok_updates next_scl_ok assms)

lemma toggle_ok:
  assumes "settings_ok r"
  shows "settings_ok (toggle_cache dc r)" "settings_ok (toggle_remote P r)"
  using assms flip_bit [of "remote_mode r"]
  by (simp_all add: toggle_cache_def toggle_remote_def Let_def on_mt_def settings_ok_def)

definition all_ok :: "('b \<times> 'h run) option \<Rightarrow> bool" where
  "all_ok x \<longleftrightarrow> (\<forall>f r'. x = Some (f, r') \<longrightarrow> settings_ok r')"

lemma all_ok_if: "all_ok a \<Longrightarrow> all_ok b \<Longrightarrow> all_ok (if c then a else b)"
  by simp

lemma all_ok_pair:
  "(\<And>r'. x = Some r' \<Longrightarrow> settings_ok r') \<Longrightarrow> all_ok (map_option (Pair f) x)"
  "settings_ok r \<Longrightarrow> all_ok (map_option (Pair f) (Some r))"
  by (auto simp: all_ok_def)

lemma loop_test_ok: "settings_ok r \<Longrightarrow> loop_test P r = Some r' \<Longrightarrow> settings_ok r'"
proof -
  assume r: "settings_ok r" and run: "loop_test P r = Some r'"
  have body: "settings_ok t \<Longrightarrow> loop_test_body P lp t = Some t' \<Longrightarrow> settings_ok t'" for t t' lp
    using on_mt_opt_ok by (fastforce simp: loop_test_body_def bind_eq_Some_conv)
  show ?thesis
    by (rule cfor_opt_partial [where P = "\<lambda>_. settings_ok", OF run [unfolded loop_test_def Let_def]])
      (simp add: test_verbose_def r, simp, blast intro: body, blast)
qed

lemma exec_command_ok:
  assumes "settings_ok r" shows "all_ok (exec_command P dc c r)"
proof -
  have opt: "settings_ok r'" if "on_mt_opt f t = Some r'" "settings_ok t" for f t r'
    using that on_mt_opt_ok by blast
  have a: "all_ok (map_option (Pair f) (run_test P n r))" for f n
    unfolding run_test_def by (rule all_ok_pair(1), erule opt) (simp add: test_verbose_def assms)
  have b: "all_ok (map_option (Pair f) (run_write_eye P r))" for f
    unfolding run_write_eye_def Let_def by (rule all_ok_pair(1), erule opt) (simp add: eye_verbose_def assms)
  have c: "all_ok (map_option (Pair f) (run_read_eye P r))" for f
    unfolding run_read_eye_def Let_def by (rule all_ok_pair(1), erule opt) (simp add: eye_verbose_def assms)
  have d: "all_ok (map_option (Pair f) (step_pll P r))" for f
    unfolding step_pll_def Let_def by (rule all_ok_pair(1), erule opt) (simp add: assms)
  have e: "all_ok (map_option (Pair f) (on_mt_opt g (on_mt g' r)))" for f g g'
    by (rule all_ok_pair(1), erule opt) (simp add: assms)
  have f: "all_ok (map_option (Pair f) (on_mt_opt g r))" for f g
    by (rule all_ok_pair(1), erule opt) (rule assms)
  have g: "all_ok (map_option (Pair f) (loop_test P r))" for f
    by (rule all_ok_pair(1), erule loop_test_ok [OF assms])
  have h: "all_ok (map_option (Pair f) (Some (on_mt g r)))" for f g
    by (rule all_ok_pair(2)) (simp add: assms)
  show ?thesis
    unfolding exec_command_def Let_def
    by (intro all_ok_if a b c d e f g h all_ok_pair(2) set_command_ok [OF assms] toggle_ok [OF assms])
qed

lemma get_command_ok: "get_command P r = Some (cmd, r') \<Longrightarrow> settings_ok r \<Longrightarrow> settings_ok r'"
  by (auto simp: get_command_def bind_eq_Some_conv Let_def case_prod_beta split: if_splits)

lemma run_step_ok:
  assumes "settings_ok r" "run_step P dc r = Some (ret, r')"
  shows "settings_ok r'"
proof -
  obtain cmd t where g: "get_command P r = Some (cmd, t)"
    using assms(2) by (auto simp: run_step_def bind_eq_Some_conv)
  have t: "settings_ok (on_mt (check_bus_width P) t)"
    using get_command_ok [OF g assms(1)] by simp
  let ?X = "case cmd of
        StartSize \<Rightarrow> map_option (Pair (True, False)) (start_size_test P (on_mt (check_bus_width P) t))
      | Menu c \<Rightarrow> exec_command P dc c (on_mt (check_bus_width P) t)"
  have "Option.bind ?X (\<lambda>((m, rt), u). Some (if rt then (True, u) else (False, report_done P m u))) = Some (ret, r')"
    using assms(2) g by (simp add: run_step_def Let_def)
  then obtain m rt u where u: "?X = Some ((m, rt), u)"
    "(if rt then (True, u) else (False, report_done P m u)) = (ret, r')"
    by (auto simp: bind_eq_Some_conv simp del: if_split_asm)
  have "settings_ok u"
  proof (cases cmd)
    case StartSize
    then show ?thesis using u(1) t on_mt_opt_ok by (fastforce simp: start_size_test_def)
  next
    case (Menu c)
    then show ?thesis using u(1) exec_command_ok [OF t, of P dc c] by (simp add: all_ok_def)
  qed
  then show ?thesis using u(2) by (auto simp: report_done_def split: if_splits)
qed

lemma settings_ok_scl: "settings_ok r \<Longrightarrow> 1 \<le> testsize_scl r \<and> testsize_scl r \<le> 1023"
proof -
  assume "settings_ok r"
  then have "scl_ok (scl_temp r) (testsize_scl r) \<or> testsize_scl r = 1" by (simp only: settings_ok_def)
  moreover have "1 \<le> scl \<and> scl \<le> 1023" if "scl_ok temp scl" for temp scl
    using that unfolding scl_ok_def by (elim conjE insertE emptyE) simp_all
  ultimately show ?thesis by fastforce
qed

text \<open>The states of \<open>memtest_run\<close>, over any number of calls that follow one another.\<close>

inductive run_reach :: "'h platform \<Rightarrow> (bool \<Rightarrow> 'h \<Rightarrow> 'h) \<Rightarrow> 'h run \<Rightarrow> 'h run \<Rightarrow> bool" for P dc r0 where
  reach_start: "run_reach P dc r0 r0"
| reach_step: "run_reach P dc r0 r \<Longrightarrow> run_step P dc r = Some (ret, r') \<Longrightarrow> run_reach P dc r0 r'"
| reach_again: "run_reach P dc r0 r \<Longrightarrow> run_step P dc r = Some (True, r') \<Longrightarrow> run_reach P dc r0 (run_setup P (run_enter d r'))"

lemma run_setup_ok: "settings_ok (run_setup P (run_init s pdiv))"
proof -
  have "loop_cnt_ok 1" unfolding loop_cnt_ok_def by (rule disjI2, rule exI [of _ 0]) simp
  then show ?thesis
    by (simp add: run_setup_def run_init_def on_mt_def settings_ok_def Let_def case_prod_beta)
qed

lemma run_again_ok: "settings_ok r \<Longrightarrow> settings_ok (run_setup P (run_enter d r))"
  by (simp add: run_setup_def run_enter_def on_mt_def settings_ok_def Let_def case_prod_beta)

lemma run_reach_ok:
  assumes "run_reach P dc (run_setup P (run_init s pdiv)) r"
  shows "settings_ok r"
  using assms
proof induction
  case reach_start
  show ?case by (rule run_setup_ok)
next
  case (reach_step r ret r')
  then show ?case using run_step_ok by blast
next
  case (reach_again r r' d)
  then show ?case using run_step_ok run_again_ok by blast
qed

text \<open>C34. Whatever commands arrive, from the keyboard or from a remote host, every reachable state
  of \<open>memtest_run\<close>, in the first call and in any number of later ones, has its settings in range: the eye step is 1, 2 or 4, the eye limits satisfy
  \<open>0 \<le> imin \<le> 60\<close> and \<open>68 \<le> imax \<le> 128\<close>, the eye test size is 1 to 1023 MB, the size
  selection indexes the table of eight sizes, and the toggles for fast eyes, centring, error printing,
  remote mode and cache are 0 or 1. The loop count is a power
  of two, or 0 once doubling has overflowed. Nothing is claimed of the toggles \<open>csv_mode\<close> and
  \<open>fast_is_bc\<close>.\<close>

theorem run_settings_invariant:
  assumes "run_reach P dc (run_setup P (run_init s pdiv)) r"
  shows "istep r \<in> {1, 2, 4} \<and> 0 \<le> imin r \<and> imin r \<le> 60 \<and> 68 \<le> imax r \<and> imax r \<le> 128
    \<and> 1 \<le> testsize_scl r \<and> testsize_scl r \<le> 1023
    \<and> 0 \<le> test_size_sel r \<and> test_size_sel r < int (List.length test_sizes)
    \<and> fast r \<in> {0, 1} \<and> fix_center r \<in> {0, 1} \<and> printerr r \<in> {0, 1} \<and> remote_mode r \<in> {0, 1}
    \<and> cache_enable r \<in> {0, 1} \<and> (test_loop_cnt r = 0 \<or> (\<exists>n<32. test_loop_cnt r = 2 ^ n))"
proof -
  have ok: "settings_ok r" by (rule run_reach_ok [OF assms])
  have "1 \<le> testsize_scl r \<and> testsize_scl r \<le> 1023" by (rule settings_ok_scl [OF ok])
  with ok show ?thesis
    by (simp add: settings_ok_def test_sizes_def loop_cnt_ok_def)
qed

text \<open>A host that sends the command \<open>q\<close>.\<close>

definition host_platform :: "word32 \<Rightarrow> word32 platform" where
  "host_platform cmd = \<lparr>
     rd32 = (\<lambda>a h. (if a = MAILBOX_GO then 1 else if a = MAILBOX_START then cmd
        else if a = MAILBOX_XREGV then 0x55 else 0, h)),
     wr32 = (\<lambda>a v h. h), cp15_wr = (\<lambda>r v h. h), cp15_rd = (\<lambda>r h. 0),
     gpio_base = 0, l2cc_invld_way = 0xF8F0277C, l2cc_inv_cln_way = 0xF8F027FC, l2cc_sync = 0xF8F02730\<rparr>"

lemma host_sends_q:
  fixes s0 :: "'h mt"
  assumes rd: "\<And>a s. REG_READ P a s = (if a = MAILBOX_GO then 1 else if a = MAILBOX_START then 0x8071
        else if a = MAILBOX_XREGV then 0x55 else 0, s :: 'h mt)"
  shows "\<exists>r. run_reach P dc (run_setup P (run_init s0 d)) r \<and> istep r = 2"
proof -
  let ?r = "run_setup P (run_init s0 d)"
  have x: "MAILBOX_XREGV \<noteq> MAILBOX_GO" "MAILBOX_XREGV \<noteq> MAILBOX_START" "MAILBOX_START \<noteq> MAILBOX_GO"
    by (simp_all add: MAILBOX_XREGV_def MAILBOX_GO_def MAILBOX_START_def)
  have r: "remote_mode ?r = 1" "go ?r = 0" "istep ?r = 4"
    by (simp_all add: run_setup_def run_init_def on_mt_def Let_def case_prod_beta rd x)
  have w: "go_wait P 0 s = Some (1, s)" for s :: "'h mt"
    by (subst go_wait.simps) (simp add: rd)
  have q: "char_of (unat (0x8071 AND 0x0ff :: word32)) = CHR ''q''"
  proof -
    have "unat (0x8071 AND 0x0ff :: word32) = of_char (CHR ''q'')" by simp
    then show ?thesis by (simp only: char_of_char)
  qed
  have "\<exists>t. get_command P ?r = Some (Menu (CHR ''q''), t) \<and> istep t = 4"
    using r q by (simp add: get_command_def w rd x Let_def)
  then obtain t where t: "get_command P ?r = Some (Menu (CHR ''q''), t)" "istep t = 4" by blast
  have "\<exists>u. run_step P dc ?r = Some (False, u) \<and> istep u = 2"
    by (simp add: run_step_def t exec_command_def is_key_def set_command_def Let_def report_done_def on_mt_def half_def)
  then obtain u where u: "run_step P dc ?r = Some (False, u)" "istep u = 2" by blast
  have "run_reach P dc ?r u" by (rule reach_step [OF reach_start u(1)])
  with u(2) show ?thesis by blast
qed

lemma run_settings_invariant_witness:
  "\<exists>r. run_reach (host_platform 0x8071) (\<lambda>_ h. h)
      (run_setup (host_platform 0x8071) (run_init (mt_init [] [] 0 0) 0)) r \<and> istep r = 2 \<and> imin r \<le> 60"
proof -
  have rd: "REG_READ (host_platform 0x8071) a s = (if a = MAILBOX_GO then 1 else if a = MAILBOX_START then 0x8071
        else if a = MAILBOX_XREGV then 0x55 else 0, s)" for a and s :: "word32 mt"
    by (simp add: REG_READ_def host_platform_def)
  obtain r where r: "run_reach (host_platform 0x8071) (\<lambda>_ h. h)
      (run_setup (host_platform 0x8071) (run_init (mt_init [] [] 0 0) 0)) r" "istep r = 2"
    using host_sends_q [OF rd] by blast
  with run_settings_invariant [OF r(1)] show ?thesis by blast
qed

section \<open>Posting the results\<close>

text \<open>\<open>upload_memtest_results\<close> posts the four lane counts and the total, in this order, in
  five consecutive mailbox registers. Each value is saturated: counts above 0xffff are posted as
  0xffff, so a non-negative count always fits the 16-bit register and 0 is posted exactly when no
  error was counted.\<close>

theorem upload_posts_saturated:
  assumes "hw s = (h, t)"
  shows "snd (hw (upload_memtest_results (traced P) s))
      = t @ map (\<lambda>i. (MAILBOX_RESULT + 4 * of_nat i, of_int (min (sint (errcnt s ! i)) 0xffff))) [0, 1, 2, 3]
          @ [(MAILBOX_RESULT + 16, of_int (min (sint (werr s)) 0xffff))]
    \<and> (\<forall>c. 0 \<le> c \<longrightarrow> uint (of_int (min c 0xffff) :: word32) = min c 0xffff)"
proof -
  have "clamp16 c = min c 0xffff" for c by (simp add: clamp16_def)
  moreover have "uint (of_int (min c 0xffff) :: word32) = min c 0xffff" if "0 \<le> c" for c
    using that by (simp add: uint_word_of_int_eq take_bit_int_eq_self del: of_int_min)
  ultimately show ?thesis
    using assms by (simp add: upload_memtest_results_def REG_WRITE_def Let_def)
qed

lemma upload_posts_saturated_witness:
  "snd (hw (upload_memtest_results (traced ram_platform)
     ((mt_init [] [] 0 (\<lambda>_. 0, []))\<lparr>werr := 70000, errcnt := [70000, 0, 0, 0]\<rparr>))) ! 0 = (MAILBOX_RESULT, 0xffff)"
  by (subst upload_posts_saturated [THEN conjunct1]) (auto simp: mt_init_def)

text \<open>\<open>memtest_all\<close> prepares its error record by calling \<open>error_info\<close> while the error
  count is 0, so the index into \<open>err_buf\<close> is -3: whatever the memory held, the three words in
  front of the array are overwritten with 0 along with its first 250 entries, and nothing else is.\<close>

theorem memtest_all_init_underrun:
  "err_buf (memtest_all_init P s) = (\<lambda>j. if - 3 \<le> j \<and> j < 250 then 0 else err_buf s j)"
  by (rule ext) (auto simp: memtest_all_init_def error_info_def REG_WRITE_def Let_def)

section \<open>Runs on a good memory\<close>

text \<open>
  A memory together with the registers of the processor: writes above the DDR, and the system
  control register, keep the memory in the same state of affairs.
\<close>

definition diag_device ::
    "'h platform \<Rightarrow> ('h \<Rightarrow> bool) \<Rightarrow> ('h \<Rightarrow> word32 \<Rightarrow> word32) \<Rightarrow> ('h \<Rightarrow> (nat \<times> nat) set)
      \<Rightarrow> ('h \<Rightarrow> bool) \<Rightarrow> (word32 \<Rightarrow> word32 \<Rightarrow> word32) \<Rightarrow> bool"
where
  "diag_device P stays cell dirty clean flt \<longleftrightarrow>
     dram P stays cell dirty clean flt
     \<and> (\<forall>a v h. stays h \<longrightarrow> ddr_top \<le> a \<longrightarrow> stays (wr32 P a v h))
     \<and> (\<forall>v h. stays h \<longrightarrow> stays (cp15_wr P CP15_SYS_CONTROL v h))"

lemma diag_stays:
  assumes "diag_device P stays cell dirty clean flt" and "stays (hw s)"
  shows "ddr_top \<le> a \<Longrightarrow> stays (hw (REG_WRITE P a v s))" "stays (hw (snd (REG_READ P a s)))"
    "stays (cp15_wr P CP15_SYS_CONTROL v (hw s))"
  using assms dram_inv(3) [of P stays cell dirty clean flt "hw s"]
  by (simp_all add: diag_device_def REG_WRITE_def REG_READ_sel)

lemma io_above [simp]:
  "ddr_top \<le> MAILBOX_GO" "ddr_top \<le> MAILBOX_DONE" "ddr_top \<le> MAILBOX_START" "ddr_top \<le> MAILBOX_SIZE"
  "ddr_top \<le> MAILBOX_MODE" "ddr_top \<le> MAILBOX_LAST" "ddr_top \<le> MAILBOX_RESULT"
  "ddr_top \<le> MAILBOX_RESULT + 4" "ddr_top \<le> MAILBOX_RESULT + 8" "ddr_top \<le> MAILBOX_RESULT + 12"
  "ddr_top \<le> MAILBOX_RESULT + 16"
  by (simp_all add: ddr_top_def MAILBOX_GO_def MAILBOX_DONE_def MAILBOX_START_def MAILBOX_SIZE_def
      MAILBOX_MODE_def MAILBOX_LAST_def MAILBOX_RESULT_def)

lemma setup_regs_stays:
  assumes dev: "diag_device P stays cell dirty clean flt" and h: "stays (hw s)"
  shows "stays (hw (setup_regs P s))"
proof -
  note w = diag_stays(1) [OF dev] and r = diag_stays(2) [OF dev]
  have "stays (hw (ddr_nonsecure P (unlock_slcr P s)))"
    unfolding ddr_nonsecure_def unlock_slcr_def by (intro w h) (simp_all add: ddr_top_def)
  then have "stays (hw (clear_tdm_idm P (ddr_nonsecure P (unlock_slcr P s))))"
    by (simp add: clear_tdm_idm_def case_prod_beta w r ddr_top_def)
  then show ?thesis
    by (simp add: setup_regs_def Let_def w)
qed

lemma check_bus_width_stays:
  assumes "diag_device P stays cell dirty clean flt" "stays (hw s)"
  shows "stays (hw (check_bus_width P s))"
  using diag_stays(2) [OF assms, of R00]
  by (simp add: check_bus_width_def update_patterns_def case_prod_beta Let_def)

lemma region_mbyte: "region mbyte (4 * n_iter (1024 * 1024) 16)"
  by (simp add: region_def n_iter_def mbyte_def)

text \<open>Started standalone (the register \<open>MAILBOX_XREGV\<close> does not read 0x55) on a good memory,
  \<open>memtest_run\<close> performs the 1 MB test of command \<open>s\<close> and returns, with no errors counted.\<close>

theorem memtest_run_standalone:
  assumes dev: "diag_device P stays cell dirty clean flt" and h: "stays (hw (mts r0))"
    and local_mode: "\<And>h. stays h \<Longrightarrow> fst (rd32 P MAILBOX_XREGV h) \<noteq> 0x55"
    and good: "\<And>j v. j < 4 * n_iter (1024 * 1024) 16 \<Longrightarrow> flt (word_at mbyte j) v = v"
  shows "\<exists>r. memtest_run P dc pdiv r0 = Some r \<and> werr (mts r) = 0 \<and> errcnt (mts r) = [0, 0, 0, 0]
    \<and> epp (mts r) = 0"
proof -
  let ?r = "run_setup P (run_enter pdiv r0)"
  have set: "stays (hw (setup_regs P (mts r0)))" by (rule setup_regs_stays [OF dev h])
  have stays: "stays (hw (mts ?r))" and rem: "remote_mode ?r = 0"
    using diag_stays(2) [OF dev set] local_mode [OF set]
    by (simp_all add: run_setup_def run_enter_def Let_def case_prod_beta REG_READ_sel)
  let ?t = "on_mt (check_bus_width P) ?r"
  let ?s = "mts (test_verbose ?t)"
  have "stays (hw ?s)"
    using check_bus_width_stays [OF dev stays] by (simp add: on_mt_def test_verbose_def)
  then have ready: "memory_ready P stays cell dirty clean flt mbyte (1024 * 1024) ?s"
    using dev region_mbyte by (simp add: memory_ready_def diag_device_def)
  obtain s' where s': "memtest_all P mbyte (1024 * 1024) 0x7fff 0 ?s = Some s'"
    "werr s' = 0" "errcnt s' = [0, 0, 0, 0]" "epp s' = 0"
    using memtest_all_unharmed [where flt = flt, OF ready _ good, of 0 "0x7fff"] by auto
  have "run_step P dc ?r = Some (True, (test_verbose ?t)\<lparr>mts := s'\<rparr>)"
    using s'(1) by (simp add: run_step_def get_command_def rem exec_command_def is_key_def run_test_def on_mt_opt_def)
  then have "memtest_run P dc pdiv r0 = Some ((test_verbose ?t)\<lparr>mts := s'\<rparr>)"
    by (simp add: memtest_run_def run_loop.simps)
  with s'(2-4) show ?thesis by simp
qed

lemma sim_diag_device:
  "diag_device (ddr_platform (\<lambda>_. F)) (\<lambda>s. True) ddr_cell sim_dirty sim_clean F"
  using ddr_platform_dram [of "\<lambda>_. F" F] by (simp add: diag_device_def)

lemma memtest_run_standalone_witness:
  "\<exists>r. memtest_run (ddr_platform (\<lambda>_ a v. v)) (\<lambda>_ h. h) 0
      (run_init (mt_init ddrc_table0 [] 0x20000 (sim_reset\<lparr>ddr_cfg := \<lambda>a. 7\<rparr>)) 0) = Some r \<and> werr (mts r) = 0"
proof -
  have "fst (rd32 (ddr_platform (\<lambda>_ a v. v)) MAILBOX_XREGV h) \<noteq> 0x55" for h
    by (simp add: sim_rd_def MAILBOX_XREGV_def ddr_top_def ddrc_block_def)
  from memtest_run_standalone [OF sim_diag_device _ this, where pdiv = 0 and dc = "\<lambda>_ h. h"
      and ?r0.0 = "run_init (mt_init ddrc_table0 [] 0x20000 (sim_reset\<lparr>ddr_cfg := \<lambda>a. 7\<rparr>)) 0"]
  show ?thesis by auto
qed

section \<open>One request of the test server\<close>

text \<open>
  What the server relies on: a memory, mailbox registers that hold a request (\<open>mbox\<close>) which
  the accesses of the test do not change, and result registers and cache controls that leave the
  rest alone.
\<close>

definition served_io :: "word32 \<Rightarrow> bool" where
  "served_io a \<longleftrightarrow> a \<in> {0xF8F02000 + 0x0100, MAILBOX_RESULT, MAILBOX_RESULT + 4, MAILBOX_RESULT + 8,
     MAILBOX_RESULT + 12, MAILBOX_RESULT + 16}"

definition server_device ::
    "'h platform \<Rightarrow> ('h \<Rightarrow> bool) \<Rightarrow> ('h \<Rightarrow> word32 \<Rightarrow> word32) \<Rightarrow> ('h \<Rightarrow> (nat \<times> nat) set)
      \<Rightarrow> ('h \<Rightarrow> bool) \<Rightarrow> (word32 \<Rightarrow> word32 \<Rightarrow> word32) \<Rightarrow> (word32 \<Rightarrow> word32) \<Rightarrow> bool"
where
  "server_device P stays cell dirty clean flt mbox \<longleftrightarrow>
     dram P stays cell dirty clean flt
     \<and> (\<forall>a v h. stays h \<longrightarrow> served_io a \<longrightarrow> stays (wr32 P a v h))
     \<and> (\<forall>v h. stays h \<longrightarrow> stays (cp15_wr P CP15_SYS_CONTROL v h))
     \<and> (\<forall>h. stays h \<longrightarrow> (\<forall>a \<in> {MAILBOX_GO, MAILBOX_DONE, MAILBOX_START, MAILBOX_SIZE, MAILBOX_MODE, MAILBOX_LAST}.
          fst (rd32 P a h) = mbox a))"

lemma server_stays:
  assumes "server_device P stays cell dirty clean flt mbox" and "stays h"
  shows "served_io a \<Longrightarrow> stays (wr32 P a v h)" "stays (snd (rd32 P a h))" "stays (cp15_wr P CP15_SYS_CONTROL v h)"
    "a \<in> {MAILBOX_GO, MAILBOX_DONE, MAILBOX_START, MAILBOX_SIZE, MAILBOX_MODE, MAILBOX_LAST}
      \<Longrightarrow> fst (rd32 P a h) = mbox a"
  using assms dram_inv(3) [of P stays cell dirty clean flt h]
  unfolding server_device_def by blast+

lemma served_io_simps [simp]:
  "served_io 0xF8F02100" "served_io MAILBOX_RESULT" "served_io (MAILBOX_RESULT + 4)"
  "served_io (MAILBOX_RESULT + 8)" "served_io (MAILBOX_RESULT + 12)" "served_io (MAILBOX_RESULT + 16)"
  by (simp_all add: served_io_def)

lemma xregv_table_unharmed:
  assumes good: "\<And>j v. j < 4 * n_iter sz 16 \<Longrightarrow> flt (word_at start j) v = v"
  shows "\<forall>bt \<in> set (xregv_table P start sz lp).
    keeps (simple_ready P stays cell dirty clean flt start (4 * n_iter sz 16) lp) unharmed (snd bt)"
proof -
  note t = tests_unharmed [where flt = flt and start = start and sz = sz, OF good]
  show ?thesis
    unfolding xregv_table_def
    by (auto intro!: t(2) keeps_narrow [OF t(1)] keeps_narrow [OF t(3)] keeps_narrow [OF t(4)])
qed

lemma xregv_loops_unharmed:
  assumes dev: "dram P stays cell dirty clean flt" and h: "stays (hw s)"
    and reg: "region start (4 * n_iter (sint sz) 16)"
    and good: "\<And>j v. j < 4 * n_iter (sint sz) 16 \<Longrightarrow> flt (word_at start j) v = v"
  shows "\<exists>s'. xregv_loops P start sz sel n s = Some s'
    \<and> stays (hw s') \<and> werr s' = 0 \<and> errcnt s' = [0, 0, 0, 0]"
  unfolding xregv_loops_def
proof (rule cfor_opt_inv [where P = "\<lambda>lp t. 0 \<le> lp \<and> stays (hw t) \<and> werr t = 0 \<and> errcnt t = [0, 0, 0, 0]"])
  fix lp :: int and t :: "'a mt"
  assume "0 \<le> lp \<and> stays (hw t) \<and> werr t = 0 \<and> errcnt t = [0, 0, 0, 0]"
  moreover from this
  have "simple_ready P stays cell dirty clean flt start (4 * n_iter (sint sz) 16) lp t"
    using dev reg by (simp add: simple_ready_def test_ready_def)
  moreover have "keeps (simple_ready P stays cell dirty clean flt start (4 * n_iter (sint sz) 16) lp) unharmed
      (run_tests sel (xregv_table P start (sint sz) lp))"
    using xregv_table_unharmed [where flt = flt and start = start and sz = "sint sz", OF good]
    by (intro run_tests_keeps unharmed_preorder) blast+
  ultimately show "\<exists>t'. run_tests sel (xregv_table P start (sint sz) lp) t = Some t'
      \<and> 0 \<le> lp + 1 \<and> stays (hw t') \<and> werr t' = 0 \<and> errcnt t' = [0, 0, 0, 0]"
    using keepsD by (fastforce simp: simple_ready_def test_ready_def unharmed_def)
qed (use h in auto)

text \<open>Whatever the memory does, the loops return; a bit stuck at \<open>c\<close> adds an error in every loop.\<close>

lemma xregv_table_grows:
  "\<forall>bt \<in> set (xregv_table P start sz lp).
    keeps (simple_ready P stays cell dirty clean flt start (4 * n_iter sz 16) lp) (grown {} (4 * n_iter sz 16)) (snd bt)"
  unfolding xregv_table_def
  by (auto intro!: tests_grow(2) keeps_narrow [OF tests_grow(1)] keeps_narrow [OF tests_grow(3)]
      keeps_narrow [OF tests_grow(4)])

lemma xregv_loops_return:
  assumes dev: "dram P stays cell dirty clean flt" and h: "stays (hw s)"
    and reg: "region start (4 * n_iter (sint sz) 16)"
  shows "\<exists>s'. xregv_loops P start sz sel n s = Some s' \<and> stays (hw s')"
  unfolding xregv_loops_def
proof (rule cfor_opt_inv [where P = "\<lambda>lp t. 0 \<le> lp \<and> stays (hw t) \<and> length (errcnt t) = 4"])
  fix lp :: int and t :: "'a mt"
  assume "0 \<le> lp \<and> stays (hw t) \<and> length (errcnt t) = 4"
  moreover from this
  have "simple_ready P stays cell dirty clean flt start (4 * n_iter (sint sz) 16) lp t"
    using dev reg by (simp add: simple_ready_def test_ready_def)
  moreover have "keeps (simple_ready P stays cell dirty clean flt start (4 * n_iter (sint sz) 16) lp)
      (grown {} (length (xregv_table P start (sint sz) lp) * (4 * n_iter (sint sz) 16)))
      (run_tests sel (xregv_table P start (sint sz) lp))"
    using xregv_table_grows [of P start "sint sz" lp] by (intro run_tests_grown) blast
  ultimately obtain t' where "run_tests sel (xregv_table P start (sint sz) lp) t = Some t'"
      "simple_ready P stays cell dirty clean flt start (4 * n_iter (sint sz) 16) lp t'" "0 \<le> lp"
    using keepsD by blast
  then show "\<exists>t'. run_tests sel (xregv_table P start (sint sz) lp) t = Some t'
      \<and> 0 \<le> lp + 1 \<and> stays (hw t') \<and> length (errcnt t') = 4"
    by (simp add: simple_ready_def test_ready_def)
qed (use h in auto)

lemma xregv_round_finds:
  assumes ready: "simple_ready P stays cell dirty clean flt start (4 * n_iter sz 16) lp t"
    and sel: "sel AND 0x0002 \<noteq> 0" "sel AND 0x0004 \<noteq> 0"
    and j: "j < 4 * n_iter sz 16" and b: "b < 32" and qm: "bit (qmask t) b"
    and stuck: "\<And>v. bit (flt (word_at start j) v) b = c"
  shows "\<exists>t'. run_tests sel (xregv_table P start sz lp) t = Some t'
    \<and> simple_ready P stays cell dirty clean flt start (4 * n_iter sz 16) lp t'
    \<and> grown {b div 8} (15 * (4 * n_iter sz 16)) t t'"
proof -
  let ?N = "4 * n_iter sz 16"
  let ?t0 = "(0x0001 :: word32, memtest P start sz 0 lp)"
    and ?t1 = "(0x0002 :: word32, memtest_simple P start sz 1 lp 0 0 0 0)"
    and ?t2 = "(0x0004 :: word32,
      memtest_simple P start sz 2 lp 0xFFFFFFFF 0xFFFFFFFF 0xFFFFFFFF 0xFFFFFFFF)"
  define pre where "pre = (if c then [?t0] else [?t0, ?t1])"
  define bt where "bt = (if c then ?t1 else ?t2)"
  obtain post where table: "xregv_table P start sz lp = pre @ bt # post"
    by (cases c) (simp_all add: xregv_table_def pre_def bt_def)
  have ones: "(0xFFFFFFFF :: word32) = - 1" by simp
  have "\<exists>s'. run_tests sel (pre @ bt # post) t = Some s'
      \<and> simple_ready P stays cell dirty clean flt start ?N lp s'
      \<and> grown {b div 8} (length (pre @ bt # post) * ?N) t s'"
  proof (rule run_tests_hit [where ready = "simple_ready P stays cell dirty clean flt start ?N lp", OF _ _ ready])
    show "\<forall>bt \<in> set (pre @ bt # post).
        keeps (simple_ready P stays cell dirty clean flt start ?N lp) (grown {} ?N) (snd bt)"
      using xregv_table_grows [of P start sz lp] unfolding table by blast
    show "sel AND fst bt \<noteq> 0" using sel by (simp add: bt_def)
    fix s1
    assume r: "simple_ready P stays cell dirty clean flt start ?N lp s1" and sc: "same_config t s1"
    have q: "bit (qmask s1) b" using qm sc by (simp add: same_config_def)
    show "\<exists>s'. snd bt s1 = Some s' \<and> simple_ready P stays cell dirty clean flt start ?N lp s'
      \<and> grown {b div 8} ?N s1 s'"
      using solid_hit [OF r j b q stuck, of 0] solid_hit [OF r j b q stuck, of "- 1"] b
      by (cases c) (simp_all add: bt_def ones)
  qed
  moreover have "length (pre @ bt # post) = 15" unfolding table [symmetric] by (simp add: xregv_table_def)
  ultimately show ?thesis unfolding table by simp
qed

text \<open>The numbers of errors behind the wrapped counters after \<open>lp\<close> loops of at most \<open>m\<close> errors.\<close>

definition counted :: "int \<Rightarrow> nat \<Rightarrow> nat \<Rightarrow> 'h mt \<Rightarrow> bool" where
  "counted lp m k t \<longleftrightarrow> (\<exists>w x. werr t = of_int w \<and> errcnt t ! k = of_int x \<and> lp \<le> x \<and> x \<le> w \<and> w \<le> lp * int m)"

lemma counted_step:
  assumes "counted lp m k t" "grown {k} m t t'" "k < 4"
  shows "counted (lp + 1) m k t'"
proof -
  from assms(1) obtain w x where w: "werr t = of_int w" "errcnt t ! k = of_int x" "lp \<le> x" "x \<le> w" "w \<le> lp * int m"
    unfolding counted_def by blast
  from assms(2,3) obtain w' e where e: "w' \<le> int m" "werr t' = werr t + of_int w'" "e k \<le> w'" "0 < e k"
      "errcnt t' ! k = errcnt t ! k + of_int (e k)"
    unfolding grown_def by blast
  have "werr t' = of_int (w + w')" "errcnt t' ! k = of_int (x + e k)" using w(1,2) e(2,5) by simp_all
  moreover have "lp + 1 \<le> x + e k" "x + e k \<le> w + w'" using w(3,4) e(3,4) by linarith+
  moreover have "w + w' \<le> (lp + 1) * int m" using w(5) e(1) by (simp add: distrib_right)
  ultimately show ?thesis unfolding counted_def by blast
qed

lemma counted_sint:
  assumes "counted n m k t" "0 \<le> n" "n * int m < 2 ^ 31"
  shows "n \<le> sint (werr t)" "n \<le> sint (errcnt t ! k)"
proof -
  from assms(1) obtain w x where w: "werr t = of_int w" "errcnt t ! k = of_int x" "n \<le> x" "x \<le> w" "w \<le> n * int m"
    unfolding counted_def by blast
  have "w < 2 ^ 31" "x < 2 ^ 31" "0 \<le> x" "0 \<le> w" using w(3-5) assms(2,3) by linarith+
  then have "sint (werr t) = w" "sint (errcnt t ! k) = x"
    using w(1,2) by (simp_all add: sint_sbintrunc' signed_take_bit_int_eq_self)
  with w(3,4) show "n \<le> sint (werr t)" "n \<le> sint (errcnt t ! k)" by simp_all
qed

lemma xregv_loops_find:
  assumes dev: "dram P stays cell dirty clean flt" and h: "stays (hw s)"
    and reg: "region start (4 * n_iter (sint sz) 16)" and n: "0 \<le> n"
    and room: "n * int (15 * (4 * n_iter (sint sz) 16)) < 2 ^ 31"
    and sel: "sel AND 0x0002 \<noteq> 0" "sel AND 0x0004 \<noteq> 0"
    and j: "j < 4 * n_iter (sint sz) 16" and b: "b < 32" and qm: "bit (qmask s) b"
    and stuck: "\<And>v. bit (flt (word_at start j) v) b = c"
  shows "\<exists>s'. xregv_loops P start sz sel n s = Some s'
    \<and> n \<le> sint (werr s') \<and> n \<le> sint (errcnt s' ! (b div 8))"
proof -
  let ?N = "4 * n_iter (sint sz) 16"
  have k: "b div 8 < 4" using b by simp
  have zero: "[0, 0, 0, 0 :: word32] ! (b div 8) = 0" using k by (rule zero_lanes)
  show ?thesis
    unfolding xregv_loops_def
  proof (rule cfor_opt_inv [where P = "\<lambda>lp t. 0 \<le> lp \<and> lp \<le> n \<and> stays (hw t) \<and> length (errcnt t) = 4
      \<and> bit (qmask t) b \<and> counted lp (15 * ?N) (b div 8) t"])
    fix lp :: int and t :: "'a mt"
    assume lp: "lp < n" and t: "0 \<le> lp \<and> lp \<le> n \<and> stays (hw t) \<and> length (errcnt t) = 4
        \<and> bit (qmask t) b \<and> counted lp (15 * ?N) (b div 8) t"
    then have ready: "simple_ready P stays cell dirty clean flt start ?N lp t"
      using dev reg by (simp add: simple_ready_def test_ready_def)
    obtain t' where t': "run_tests sel (xregv_table P start (sint sz) lp) t = Some t'"
        "simple_ready P stays cell dirty clean flt start ?N lp t'" "grown {b div 8} (15 * ?N) t t'"
      using xregv_round_finds [OF ready sel j b _ stuck] t by blast
    have "bit (qmask t') b" using t grown_config [OF t'(3)] by (simp add: same_config_def)
    moreover have "counted (lp + 1) (15 * ?N) (b div 8) t'" using counted_step [OF _ t'(3) k] t by blast
    ultimately show "\<exists>t'. run_tests sel (xregv_table P start (sint sz) lp) t = Some t'
        \<and> 0 \<le> lp + 1 \<and> lp + 1 \<le> n \<and> stays (hw t') \<and> length (errcnt t') = 4
        \<and> bit (qmask t') b \<and> counted (lp + 1) (15 * ?N) (b div 8) t'"
      using t' t lp by (auto simp: simple_ready_def test_ready_def)
  next
    fix lp t assume "n \<le> lp" and t: "0 \<le> lp \<and> lp \<le> n \<and> stays (hw t) \<and> length (errcnt t) = 4
        \<and> bit (qmask t) b \<and> counted lp (15 * ?N) (b div 8) t"
    then have "lp = n" by simp
    with t have "counted n (15 * ?N) (b div 8) t" by blast
    then show "n \<le> sint (werr t) \<and> n \<le> sint (errcnt t ! (b div 8))"
      using counted_sint [OF _ n room] by blast
  qed (use h n qm zero in \<open>auto simp: counted_def intro!: exI [of _ 0]\<close>)
qed

text \<open>Registers with constant contents added to a memory do not disturb it.\<close>

definition with_regs :: "(word32 \<Rightarrow> word32 option) \<Rightarrow> 'h platform \<Rightarrow> 'h platform" where
  "with_regs m P = P\<lparr>rd32 := (\<lambda>a h. case m a of Some v \<Rightarrow> (v, h) | None \<Rightarrow> rd32 P a h)\<rparr>"

lemma with_regs_sel [simp]:
  "rd32 (with_regs m P) a h = (case m a of Some v \<Rightarrow> (v, h) | None \<Rightarrow> rd32 P a h)"
  "wr32 (with_regs m P) = wr32 P" "cp15_wr (with_regs m P) = cp15_wr P" "cp15_rd (with_regs m P) = cp15_rd P"
  "l2cc_inv_cln_way (with_regs m P) = l2cc_inv_cln_way P" "l2cc_sync (with_regs m P) = l2cc_sync P"
  "csid (with_regs m P) = csid P" "test_io (with_regs m P) = test_io P"
  by (simp_all add: with_regs_def csid_def fun_eq_iff test_io_def)

lemma with_regs_dram:
  assumes "dram P stays cell dirty clean flt" and m: "\<And>a. a < ddr_top \<Longrightarrow> m a = None" "m (l2cc_sync P) = None"
  shows "dram (with_regs m P) stays cell dirty clean flt"
proof -
  have "sync_polls (with_regs m P) k h = sync_polls P k h" for k h
    by (induction k arbitrary: h) (simp_all add: m(2))
  then have "sync_at (with_regs m P) = sync_at P"
    by (simp add: fun_eq_iff sync_at_def m(2))
  then show ?thesis
    using assms(1) m(1) by (simp add: dram_def split: option.split)
qed

text \<open>The number of loops asked for in the size register, and the five values posted.\<close>

definition requested_loops :: "word32 \<Rightarrow> int" where
  "requested_loops a = max 1 (uint (signed_drop_bit 10 a AND 0x3f))"

definition posted :: "'h mt \<Rightarrow> nat \<Rightarrow> word32" where
  "posted s i = of_int (min (sint (if i < 4 then errcnt s ! i else werr s)) 0xffff)"

lemma posted_at_least: "0 \<le> n \<Longrightarrow> n \<le> 0xffff \<Longrightarrow> n \<le> c \<Longrightarrow> n \<le> uint (of_int (min c 0xffff) :: word32)"
  by (simp add: uint_word_of_int_eq take_bit_int_eq_self min_def del: of_int_min)

lemma requested_loops_range: "1 \<le> requested_loops a" "requested_loops a \<le> 63"
proof -
  have "x AND 0x3f \<le> 0x3f" for x :: word32 by (rule word_and_le1)
  then have "uint (signed_drop_bit 10 a AND 0x3f) \<le> 63" by (simp add: word_le_def)
  then show "1 \<le> requested_loops a" "requested_loops a \<le> 63" by (simp_all add: requested_loops_def)
qed

lemma xregv_answers:
  assumes dev: "server_device P stays cell dirty clean flt mbox" and h: "stays (hw s)"
    and request: "mbox MAILBOX_GO \<noteq> g" "mbox MAILBOX_MODE AND 0x8000 = 0"
    and range: "mailbox_range (mbox MAILBOX_START) (mbox MAILBOX_SIZE) = (start, sz)"
  shows "\<exists>s' s3 s4. xregv_step P (g, s) = Some (mbox MAILBOX_GO, s')
    \<and> stays (hw s3) \<and> qmask s3 = qmask s
    \<and> xregv_loops P start sz (mbox MAILBOX_MODE) (requested_loops (mbox MAILBOX_SIZE)) s3 = Some s4 \<and> stays (hw s4)
    \<and> (let h2 = fold (\<lambda>i. wr32 P (MAILBOX_RESULT + 4 * of_nat i) (posted s4 i)) [0..<5] (hw s4)
       in hw s' = wr32 P MAILBOX_DONE (mbox MAILBOX_DONE + 1) (snd (rd32 P MAILBOX_DONE h2)))"
proof -
  note st = server_stays [OF dev]
  have dram: "dram P stays cell dirty clean flt" using dev by (simp add: server_device_def)
  have rd: "REG_READ P a t = (mbox a, t\<lparr>hw := snd (rd32 P a (hw t))\<rparr>)"
    if "a \<in> {MAILBOX_GO, MAILBOX_DONE, MAILBOX_START, MAILBOX_SIZE, MAILBOX_MODE, MAILBOX_LAST}" "stays (hw t)" for a t
    using st(4) [OF that(2,1)] by (simp add: REG_READ_sel prod_eq_iff)
  define s0 where "s0 = snd (REG_READ P (0xF8F02000 + 0x0100) s)"
  have s0: "stays (hw s0)" "qmask s0 = qmask s" by (simp_all add: s0_def REG_READ_sel st h)
  obtain s1 where s1: "go_wait P g s0 = Some (mbox MAILBOX_GO, s1)" "stays (hw s1)" "qmask s1 = qmask s"
  proof
    show "go_wait P g s0 = Some (mbox MAILBOX_GO, s0\<lparr>hw := snd (rd32 P MAILBOX_GO (hw s0))\<rparr>)"
      using request(1) by (subst go_wait.simps) (simp add: rd s0)
  qed (simp_all add: st s0)
  let ?n = "requested_loops (mbox MAILBOX_SIZE)"
  obtain s2 where s2: "xregv_request P s1 = ((start, sz, ?n, mbox MAILBOX_MODE), s2)" "stays (hw s2)" "qmask s2 = qmask s"
    using range s1(3) by (simp add: xregv_request_def requested_loops_def max_def rd s1 st Let_def)
  have sp: "xregv_special P (mbox MAILBOX_MODE) ?n s2 = Some (?n, s2)"
    using request(2) by (simp add: xregv_special_def)
  have s3: "stays (hw (xregv_caches P s2))" "qmask (xregv_caches P s2) = qmask s"
    using s2(3) by (simp_all add: xregv_caches_def rd s2 Let_def cache_ctrl_def l2_ctrl_def st)
  obtain s4 where s4: "xregv_loops P start sz (mbox MAILBOX_MODE) ?n (xregv_caches P s2) = Some s4" "stays (hw s4)"
    using xregv_loops_return [OF dram s3(1) mailbox_range_region [OF range]] by blast
  let ?u = "upload_memtest_results P s4"
  have up: "hw ?u = fold (\<lambda>i. wr32 P (MAILBOX_RESULT + 4 * of_nat i) (posted s4 i)) [0..<5] (hw s4)"
  proof -
    have "[0..<5] = [0, 1, 2, 3, 4]" by (simp add: upt_rec)
    moreover have "clamp16 c = min c 0xffff" for c by (simp add: clamp16_def)
    ultimately show ?thesis by (simp add: upload_memtest_results_def REG_WRITE_def posted_def Let_def)
  qed
  then have "stays (hw ?u)"
    using s4(2) by (simp add: st upt_rec)
  then have "hw (post_done P ?u) = wr32 P MAILBOX_DONE (mbox MAILBOX_DONE + 1) (snd (rd32 P MAILBOX_DONE (hw ?u)))"
    by (simp add: post_done_def rd REG_WRITE_def)
  moreover have "xregv_step P (g, s) = Some (mbox MAILBOX_GO, post_done P ?u)"
    using s1(1) s2(1) sp s4(1) by (simp add: xregv_step_def s0_def case_prod_beta Let_def)
  ultimately show ?thesis using s3 s4 by (auto simp: up Let_def)
qed

lemma mailbox_range_words:
  assumes "mailbox_range start a = (test_start, test_size)"
  shows "4 * int (4 * n_iter (sint test_size) 16) = sint test_size"
proof -
  obtain m n where eq: "mailbox_range start a = (megabytes m, megabytes n)"
    and b: "1 \<le> m" "1 \<le> n" "m + n \<le> 1024" by (rule mailbox_range_megabytes)
  have "sint test_size = 2 ^ 20 * n"
    using eq assms b by (simp_all add: megabytes_sint)
  moreover have "n_iter (2 ^ 20 * n) 16 = nat (2 ^ 16 * n)"
    using b by (simp add: n_iter_def)
  ultimately show ?thesis using b by simp
qed

text \<open>C2. A request to the test server: when the host has changed \<open>MAILBOX_GO\<close> and left a selection
  without the special bit 0x8000, then, whatever the memory does and whatever size, start, loop count,
  selection and cache mode were requested, the server returns, having written five values to the
  result registers and, last of all, incremented \<open>MAILBOX_DONE\<close>. The values are 0 if every word of the
  clamped range reads back what was written. If a bit of some word of that range, not masked out by
  \<open>qmask\<close>, is stuck, and the all-zeros and all-ones tests are selected, then the values posted for its byte
  lane and for the words in error are at least the number of loops requested, as every loop finds the bit; this
  needs loops times size to be at most 512 MB, for else the 32-bit counters may overflow.\<close>

theorem xregv_serves_request:
  assumes dev: "server_device P stays cell dirty clean flt mbox" and h: "stays (hw s)"
    and request: "mbox MAILBOX_GO \<noteq> g" "mbox MAILBOX_MODE AND 0x8000 = 0"
    and range: "mailbox_range (mbox MAILBOX_START) (mbox MAILBOX_SIZE) = (start, sz)"
  shows "\<exists>s' h1 v. xregv_step P (g, s) = Some (mbox MAILBOX_GO, s') \<and> stays h1
    \<and> (let h2 = fold (\<lambda>i. wr32 P (MAILBOX_RESULT + 4 * of_nat i) (v i)) [0..<5] h1
       in hw s' = wr32 P MAILBOX_DONE (mbox MAILBOX_DONE + 1) (snd (rd32 P MAILBOX_DONE h2)))
    \<and> ((\<forall>j x. j < 4 * n_iter (sint sz) 16 \<longrightarrow> flt (word_at start j) x = x) \<longrightarrow> (\<forall>i<5. v i = 0))
    \<and> (\<forall>j b c. j < 4 * n_iter (sint sz) 16 \<and> b < 32 \<and> bit (qmask s) b
        \<and> mbox MAILBOX_MODE AND 0x0002 \<noteq> 0 \<and> mbox MAILBOX_MODE AND 0x0004 \<noteq> 0
        \<and> requested_loops (mbox MAILBOX_SIZE) * sint sz \<le> 512 * 1024 * 1024
        \<and> (\<forall>x. bit (flt (word_at start j) x) b = c)
        \<longrightarrow> requested_loops (mbox MAILBOX_SIZE) \<le> uint (v (b div 8)) \<and> requested_loops (mbox MAILBOX_SIZE) \<le> uint (v 4))"
proof -
  let ?n = "requested_loops (mbox MAILBOX_SIZE)" and ?N = "4 * n_iter (sint sz) 16"
  have dram: "dram P stays cell dirty clean flt" using dev by (simp add: server_device_def)
  obtain s' s3 s4 where step: "xregv_step P (g, s) = Some (mbox MAILBOX_GO, s')"
    and s3: "stays (hw s3)" "qmask s3 = qmask s" and s4: "stays (hw s4)"
    and loops: "xregv_loops P start sz (mbox MAILBOX_MODE) ?n s3 = Some s4"
    and h': "let h2 = fold (\<lambda>i. wr32 P (MAILBOX_RESULT + 4 * of_nat i) (posted s4 i)) [0..<5] (hw s4)
       in hw s' = wr32 P MAILBOX_DONE (mbox MAILBOX_DONE + 1) (snd (rd32 P MAILBOX_DONE h2))"
    using xregv_answers [OF assms] by blast
  note reg = mailbox_range_region [OF range]
  have good: "posted s4 i = 0" if "\<forall>j x. j < ?N \<longrightarrow> flt (word_at start j) x = x" "i < 5" for i
  proof -
    have "werr s4 = 0 \<and> errcnt s4 = [0, 0, 0, 0]"
      using xregv_loops_unharmed [OF dram s3(1) reg, of "mbox MAILBOX_MODE" ?n] that(1) loops by auto
    then show ?thesis using that(2) by (auto simp: posted_def numeral_eq_Suc less_Suc_eq)
  qed
  have bad: "?n \<le> uint (posted s4 (b div 8)) \<and> ?n \<le> uint (posted s4 4)"
    if b: "j < ?N" "b < 32" "bit (qmask s) b" and sel: "mbox MAILBOX_MODE AND 0x0002 \<noteq> 0" "mbox MAILBOX_MODE AND 0x0004 \<noteq> 0"
      and room: "?n * sint sz \<le> 512 * 1024 * 1024" and stuck: "\<forall>x. bit (flt (word_at start j) x) b = c" for j b c
  proof -
    have n: "0 \<le> ?n" "?n \<le> 0xffff" using requested_loops_range [of "mbox MAILBOX_SIZE"] by linarith+
    have "4 * (?n * int (15 * ?N)) = 15 * (?n * sint sz)"
      using mailbox_range_words [OF range] by (simp add: algebra_simps)
    moreover have "4 * X = 15 * Y \<Longrightarrow> Y \<le> 512 * 1024 * 1024 \<Longrightarrow> X < 2 ^ 31" for X Y :: int by simp
    ultimately have "?n * int (15 * ?N) < 2 ^ 31" using room by blast
    from xregv_loops_find [OF dram s3(1) reg n(1) this sel b(1,2) _ stuck [rule_format]] b(3) s3(2) loops
    have "?n \<le> sint (werr s4)" "?n \<le> sint (errcnt s4 ! (b div 8))" by auto
    then show ?thesis using posted_at_least [OF n] b(2) by (simp add: posted_def)
  qed
  show ?thesis using step s4 h' good bad by blast
qed

text \<open>A request for 4 MB from address 2 MB, twice, all tests.\<close>

definition example_mailbox :: "word32 \<Rightarrow> word32 option" where
  "example_mailbox = [MAILBOX_GO \<mapsto> 1, MAILBOX_DONE \<mapsto> 6, MAILBOX_START \<mapsto> 2, MAILBOX_SIZE \<mapsto> 0x804,
     MAILBOX_MODE \<mapsto> 0x7fff, MAILBOX_LAST \<mapsto> 0]"

lemma example_mailbox_below: "a < ddr_top \<Longrightarrow> example_mailbox a = None"
  by (auto simp: example_mailbox_def ddr_top_def MAILBOX_GO_def MAILBOX_DONE_def MAILBOX_START_def
      MAILBOX_SIZE_def MAILBOX_MODE_def MAILBOX_LAST_def)

lemma example_mailbox_regs:
  "example_mailbox MAILBOX_GO = Some 1" "example_mailbox MAILBOX_DONE = Some 6"
  "example_mailbox MAILBOX_START = Some 2" "example_mailbox MAILBOX_SIZE = Some 0x804"
  "example_mailbox MAILBOX_MODE = Some 0x7fff" "example_mailbox MAILBOX_LAST = Some 0"
  by (simp_all add: example_mailbox_def MAILBOX_GO_def MAILBOX_DONE_def MAILBOX_START_def
      MAILBOX_SIZE_def MAILBOX_MODE_def MAILBOX_LAST_def)

lemma example_server:
  "server_device (with_regs example_mailbox (ddr_platform (\<lambda>_. F))) (\<lambda>s. True) ddr_cell sim_dirty sim_clean F
    (the \<circ> example_mailbox)"
proof -
  have "dram (with_regs example_mailbox (ddr_platform (\<lambda>_. F))) (\<lambda>s. True) ddr_cell sim_dirty sim_clean F"
  proof (rule with_regs_dram [OF _ example_mailbox_below])
    show "dram (ddr_platform (\<lambda>_. F)) (\<lambda>s. True) ddr_cell sim_dirty sim_clean F"
      using ddr_platform_dram [of "\<lambda>_. F" F] by simp
  qed (simp_all add: example_mailbox_def MAILBOX_GO_def MAILBOX_DONE_def MAILBOX_START_def
      MAILBOX_SIZE_def MAILBOX_MODE_def MAILBOX_LAST_def)
  then show ?thesis by (simp add: server_device_def example_mailbox_regs)
qed

lemma xregv_serves_request_witness:
  "\<exists>s' h1 v. xregv_step (with_regs example_mailbox (ddr_platform (\<lambda>_ a v. if a = 0x200040 then v AND 0xFFFFF7FF else v)))
      (0, mt_init [] [] 0x20000 sim_reset) = Some (1, s')
    \<and> hw s' = wr32 (ddr_platform (\<lambda>_ a v. if a = 0x200040 then v AND 0xFFFFF7FF else v)) MAILBOX_DONE 7
        (fold (\<lambda>i. wr32 (ddr_platform (\<lambda>_ a v. if a = 0x200040 then v AND 0xFFFFF7FF else v)) (MAILBOX_RESULT + 4 * of_nat i) (v i)) [0..<5] h1)
    \<and> 2 \<le> uint (v 1)"
proof -
  let ?F = "\<lambda>a v. if a = 0x200040 then v AND 0xFFFFF7FF else v :: word32"
  have r: "mailbox_range 2 0x804 = (0x200000, 0x400000)"
    by (simp add: mailbox_range_def mbyte_def Let_def)
  have l: "requested_loops 0x804 = 2" by (simp add: requested_loops_def)
  have n: "n_iter 0x400000 16 = 0x40000" by (simp add: n_iter_def)
  have bits: "bit (0xFFFFF7FF :: word32) 11 = False" "bit (0xFFFFFFFF :: word32) 11" by simp_all
  have stuck: "\<forall>x. bit (?F (word_at 0x200000 16) x) 11 = False"
    using bits(1) by (simp add: word_at_def bit_and_iff)
  let ?P = "with_regs example_mailbox (ddr_platform (\<lambda>_. ?F))" and ?m = "the \<circ> example_mailbox"
  have m: "?m MAILBOX_GO \<noteq> 0" "?m MAILBOX_MODE AND 0x8000 = 0"
    "mailbox_range (?m MAILBOX_START) (?m MAILBOX_SIZE) = (0x200000, 0x400000)"
    by (simp_all add: example_mailbox_regs r)
  obtain s' h1 v where s': "xregv_step ?P (0, mt_init [] [] 0x20000 sim_reset) = Some (?m MAILBOX_GO, s')"
      "let h2 = fold (\<lambda>i. wr32 ?P (MAILBOX_RESULT + 4 * of_nat i) (v i)) [0..<5] h1
       in hw s' = wr32 ?P MAILBOX_DONE (?m MAILBOX_DONE + 1) (snd (rd32 ?P MAILBOX_DONE h2))"
      "\<forall>j b c. j < 4 * n_iter (sint (0x400000 :: word32)) 16 \<and> b < 32 \<and> bit (qmask (mt_init [] [] 0x20000 sim_reset)) b
        \<and> ?m MAILBOX_MODE AND 0x0002 \<noteq> 0 \<and> ?m MAILBOX_MODE AND 0x0004 \<noteq> 0
        \<and> requested_loops (?m MAILBOX_SIZE) * sint (0x400000 :: word32) \<le> 512 * 1024 * 1024
        \<and> (\<forall>x. bit (?F (word_at 0x200000 j) x) b = c)
        \<longrightarrow> requested_loops (?m MAILBOX_SIZE) \<le> uint (v (b div 8)) \<and> requested_loops (?m MAILBOX_SIZE) \<le> uint (v 4)"
    using xregv_serves_request [OF example_server [where F = ?F] TrueI m, of "mt_init [] [] 0x20000 sim_reset"] by blast
  have "requested_loops (?m MAILBOX_SIZE) \<le> uint (v (11 div 8))"
    using s'(3) [rule_format, of 16 11 False] bits(2) stuck
    by (simp add: n example_mailbox_regs l del: split_paired_All)
  then have "2 \<le> uint (v 1)" by (simp add: example_mailbox_regs l)
  with s'(1,2) show ?thesis by (auto simp: example_mailbox_regs Let_def)
qed

end
