(* ===== verification/Patterns.thy ===== *)
theory Patterns
  imports MemState MemtestAll
begin

text \<open>
  The data patterns of the memory test: the 128-word patterns of \<open>update_patterns\<close> and the
  pseudo-random sequence of \<open>YLFSR\<close> and \<open>calc_value\<close>, a 31-bit Fibonacci LFSR with
  XNOR feedback shifted through a 32-bit word.
\<close>

section \<open>The 128-word patterns\<close>

text \<open>The pattern of test 10 as the header comment of memtest.c lists it, read back from DDR.\<close>

definition documented_pattern :: "word32 list" where
  "documented_pattern = [
     0x01010101, 0x01010101, 0xFEFEFEFE, 0x01010101, 0x01010101, 0xFEFEFEFE, 0x01010101, 0xFEFEFEFE,
     0xFEFEFEFE, 0xFEFEFEFE, 0x01010101, 0xFEFEFEFE, 0xFEFEFEFE, 0x01010101, 0xFEFEFEFE, 0x01010101,
     0x02020202, 0x02020202, 0xFDFDFDFD, 0x02020202, 0x02020202, 0xFDFDFDFD, 0x02020202, 0xFDFDFDFD,
     0xFDFDFDFD, 0xFDFDFDFD, 0x02020202, 0xFDFDFDFD, 0xFDFDFDFD, 0x02020202, 0xFDFDFDFD, 0x02020202,
     0x04040404, 0x04040404, 0xFBFBFBFB, 0x04040404, 0x04040404, 0xFBFBFBFB, 0x04040404, 0xFBFBFBFB,
     0xFBFBFBFB, 0xFBFBFBFB, 0x04040404, 0xFBFBFBFB, 0xFBFBFBFB, 0x04040404, 0xFBFBFBFB, 0x04040404,
     0x08080808, 0x08080808, 0xF7F7F7F7, 0x08080808, 0x08080808, 0xF7F7F7F7, 0x08080808, 0xF7F7F7F7,
     0xF7F7F7F7, 0xF7F7F7F7, 0x08080808, 0xF7F7F7F7, 0xF7F7F7F7, 0x08080808, 0xF7F7F7F7, 0x08080808,
     0x10101010, 0x10101010, 0xEFEFEFEF, 0x10101010, 0x10101010, 0xEFEFEFEF, 0x10101010, 0xEFEFEFEF,
     0xEFEFEFEF, 0xEFEFEFEF, 0x10101010, 0xEFEFEFEF, 0xEFEFEFEF, 0x10101010, 0xEFEFEFEF, 0x10101010,
     0x20202020, 0x20202020, 0xDFDFDFDF, 0x20202020, 0x20202020, 0xDFDFDFDF, 0x20202020, 0xDFDFDFDF,
     0xDFDFDFDF, 0xDFDFDFDF, 0x20202020, 0xDFDFDFDF, 0xDFDFDFDF, 0x20202020, 0xDFDFDFDF, 0x20202020,
     0x40404040, 0x40404040, 0xBFBFBFBF, 0x40404040, 0x40404040, 0xBFBFBFBF, 0x40404040, 0xBFBFBFBF,
     0xBFBFBFBF, 0xBFBFBFBF, 0x40404040, 0xBFBFBFBF, 0xBFBFBFBF, 0x40404040, 0xBFBFBFBF, 0x40404040,
     0x80808080, 0x80808080, 0x7F7F7F7F, 0x80808080, 0x80808080, 0x7F7F7F7F, 0x80808080, 0x7F7F7F7F,
     0x7F7F7F7F, 0x7F7F7F7F, 0x80808080, 0x7F7F7F7F, 0x7F7F7F7F, 0x80808080, 0x7F7F7F7F, 0x80808080]"

lemma pat2_32_eq:
  "map (\<lambda>i. let imaski = drop_bit 4 i AND 0x07
        in pattern1 ! (i AND 15) XOR invertmask ! imaski) [0..<128] = documented_pattern"
  by code_simp

lemma pat_updates:
  "pat1 (s\<lparr>pat1 := x, pat2 := y\<rparr>) = x" "pat2 (s\<lparr>pat1 := x, pat2 := y\<rparr>) = y"
  by simp_all

text \<open>\<open>update_patterns\<close> builds the documented patterns. For a 32-bit bus \<open>pat2\<close> is the
  128-word list of the header comment and \<open>pat1\<close> eight copies of the basic 16-word pattern;
  for any other width \<open>pat1\<close> is eight copies of the 16-bit pattern; in both cases \<open>pat2\<close>
  is \<open>pat1\<close> with one bit of every byte inverted, a different one in each group of 16 words.\<close>

theorem update_patterns_documented:
  "(if bus_width s = 32
    then pat2 (update_patterns s) = documented_pattern
      \<and> pat1 (update_patterns s) = concat (replicate 8 pattern1)
    else pat1 (update_patterns s) = concat (replicate 8 pattern1_16bit))
   \<and> pat2 (update_patterns s)
      = map2 (XOR) (pat1 (update_patterns s)) (concat (map (replicate 16) invertmask))"
proof -
  let ?p1 = "\<lambda>base. map (\<lambda>i. base ! (i AND 15)) [0..<128] :: word32 list"
    and ?p2 = "\<lambda>base. map (\<lambda>i. let imaski = drop_bit 4 i AND 0x07
        in base ! (i AND 15) XOR invertmask ! imaski) [0..<128]"
  have w: "?p1 pattern1 = concat (replicate 8 pattern1)" by code_simp
  have n: "?p1 pattern1_16bit = concat (replicate 8 pattern1_16bit)" by code_simp
  have "?p2 pattern1 = map2 (XOR) (?p1 pattern1) (concat (map (replicate 16) invertmask))" by code_simp
  moreover have "?p2 pattern1_16bit
    = map2 (XOR) (?p1 pattern1_16bit) (concat (map (replicate 16) invertmask))" by code_simp
  moreover have "?p2 pattern1 = documented_pattern" by (rule pat2_32_eq)
  moreover have "pat1 (update_patterns s)
      = ?p1 (if bus_width s = 32 then pattern1 else pattern1_16bit)"
    "pat2 (update_patterns s)
      = ?p2 (if bus_width s = 32 then pattern1 else pattern1_16bit)"
    unfolding update_patterns_def Let_def by (rule pat_updates)+
  ultimately show ?thesis using w n
    by (cases "bus_width s = 32") (simp_all only: if_True if_False simp_thms)
qed

section \<open>The pseudo-random sequence\<close>

lemma signed_bit_1: "signed_drop_bit n (a::word32) AND 1 = of_bool (bit a n)" if "n < 31"
  by (rule bit_word_eqI) (use that in \<open>auto simp: bit_simps\<close>)

lemma bit_times_2: "bit (a * 2 :: word32) n \<longleftrightarrow> 0 < n \<and> n < 32 \<and> bit a (n - 1)"
proof -
  have eq: "a * 2 = push_bit (Suc 0) a" by (simp add: push_bit_eq_mult)
  show ?thesis unfolding eq bit_push_bit_iff by (auto dest: bit_imp_le_length)
qed

lemma shift_in_bit: "(a::word32) * 2 + of_bool b = a * 2 OR of_bool b"
  by (rule disjunctive_add) (auto simp: bit_times_2 bit_simps)

lemma of_bool_xnor: "(of_bool p XOR of_bool q) XOR 1 = (of_bool (p = q) :: word32)"
  by (cases p; cases q) simp_all

lemma YLFSR_eq: "YLFSR a = a * 2 OR of_bool (bit a 30 = bit a 27)"
  unfolding YLFSR_def signed_bit_1 [of 30, simplified] signed_bit_1 [of 27, simplified] of_bool_xnor
  using shift_in_bit [of a "bit a 30 = bit a 27"] by (simp add: push_bit_eq_mult)

lemma bit_YLFSR:
  "bit (YLFSR a) n = (if n = 0 then bit a 30 = bit a 27 else n < 32 \<and> bit a (n - 1))"
  by (auto simp: YLFSR_eq bit_or_iff bit_times_2 bit_simps)

lemma calc_value_YLFSR: "calc_value a = YLFSR a"
  by (simp add: calc_value_def YLFSR_def Let_def)

text \<open>The macro \<open>YLFSR\<close> and the function \<open>calc_value\<close> are the same generator: a
  left shift by one that feeds the XNOR of bits 30 and 27 into bit 0, as the Verilog line in the
  comment describes.\<close>

theorem lfsr_is_xnor_shift:
  "calc_value a = YLFSR a
    \<and> bit (calc_value a) n = (if n = 0 then bit a 30 = bit a 27 else n < 32 \<and> bit a (n - 1))"
  by (simp add: calc_value_YLFSR bit_YLFSR)

lemma take_bit_31_eq_iff:
  "take_bit 31 (a::word32) = take_bit 31 b \<longleftrightarrow> (\<forall>n<31. bit a n = bit b n)"
proof
  assume eq: "take_bit 31 a = take_bit 31 b"
  show "\<forall>n<31. bit a n = bit b n"
  proof (intro allI impI)
    fix n :: nat assume "n < 31"
    moreover have "bit (take_bit 31 a) n = bit (take_bit 31 b) n" unfolding eq ..
    ultimately show "bit a n = bit b n" by (simp add: bit_take_bit_iff)
  qed
next
  assume "\<forall>n<31. bit a n = bit b n"
  then show "take_bit 31 a = take_bit 31 b"
    by (intro bit_word_eqI) (auto simp: bit_take_bit_iff)
qed

lemma YLFSR_low_inj:
  "take_bit 31 (YLFSR a) = take_bit 31 (YLFSR b) \<longleftrightarrow> take_bit 31 a = take_bit 31 b"
proof
  assume "take_bit 31 (YLFSR a) = take_bit 31 (YLFSR b)"
  then have eq: "bit (YLFSR a) n = bit (YLFSR b) n" if "n < 31" for n
    using that by (simp add: take_bit_31_eq_iff)
  have low: "bit a n = bit b n" if "n < 30" for n
    using eq [of "Suc n"] that by (simp add: bit_YLFSR)
  have "bit a 30 = bit b 30"
    using eq [of 0] low [of 27] by (auto simp: bit_YLFSR)
  with low have "bit a n = bit b n" if "n < 31" for n
    using that by (cases "n = 30") simp_all
  then show "take_bit 31 a = take_bit 31 b" unfolding take_bit_31_eq_iff by blast
next
  assume "take_bit 31 a = take_bit 31 b"
  then show "take_bit 31 (YLFSR a) = take_bit 31 (YLFSR b)"
    by (auto simp: take_bit_31_eq_iff bit_YLFSR)
qed

lemma YLFSR_fix_iff:
  "take_bit 31 (YLFSR a) = take_bit 31 a \<longleftrightarrow> take_bit 31 a = mask 31"
proof
  assume "take_bit 31 (YLFSR a) = take_bit 31 a"
  then have eq: "bit (YLFSR a) n = bit a n" if "n < 31" for n
    using that by (simp add: take_bit_31_eq_iff)
  have same: "bit a n = bit a 0" if "n < 31" for n
    using that
  proof (induction n)
    case (Suc n)
    then show ?case using eq [of "Suc n"] by (simp add: bit_YLFSR)
  qed simp
  have "bit a 0" using eq [of 0] same [of 30] same [of 27] by (simp add: bit_YLFSR)
  with same have "bit a n" if "n < 31" for n using that by blast
  then show "take_bit 31 a = mask 31"
    by (intro bit_word_eqI) (auto simp: bit_simps)
next
  assume all: "take_bit 31 a = mask 31"
  have "bit a n" if "n < 31" for n
  proof -
    have "bit (take_bit 31 a) n" unfolding all using that by (simp add: bit_simps)
    then show ?thesis by (simp add: bit_simps)
  qed
  then show "take_bit 31 (YLFSR a) = take_bit 31 a"
    by (auto simp: take_bit_31_eq_iff bit_YLFSR)
qed

text \<open>The generator permutes its 31-bit state and locks up only in the all-ones state: two
  states with the same successor are equal in their low 31 bits, and after any number of steps the
  low 31 bits stand still exactly if they were all ones to begin with.\<close>

theorem lfsr_permutes_and_lockup:
  "(take_bit 31 (YLFSR a) = take_bit 31 (YLFSR b) \<longleftrightarrow> take_bit 31 a = take_bit 31 b)
   \<and> (take_bit 31 ((YLFSR ^^ Suc k) a) = take_bit 31 ((YLFSR ^^ k) a) \<longleftrightarrow> take_bit 31 a = mask 31)"
proof -
  have ones: "take_bit 31 (mask 31 :: word32) = mask 31"
    by (rule bit_word_eqI) (auto simp: bit_simps)
  have fix_ones: "take_bit 31 (YLFSR c) = mask 31 \<longleftrightarrow> take_bit 31 c = mask 31" for c
  proof -
    have "take_bit 31 (YLFSR (mask 31)) = take_bit 31 (mask 31 :: word32)"
      unfolding YLFSR_fix_iff by (rule ones)
    then have "take_bit 31 (YLFSR (mask 31)) = mask 31" by (simp only: ones)
    then show ?thesis using YLFSR_low_inj [of c "mask 31"] by (simp only: ones)
  qed
  have "take_bit 31 ((YLFSR ^^ k) a) = mask 31 \<longleftrightarrow> take_bit 31 a = mask 31"
    by (induction k) (simp_all add: fix_ones)
  then show ?thesis by (simp add: YLFSR_low_inj YLFSR_fix_iff)
qed

end
