(* ===== verification/PllProps.thy ===== *)
theory PllProps
  imports Pll
begin

text \<open>
  What the clock and monitor routines promise: the order of the PLL protocol on every path, the
  DCI divisors, and the XADC read-out through the one-command-deep pipeline of its interface.
\<close>

section \<open>DCI divisors\<close>

definition dci_div0 :: "word32 \<Rightarrow> nat" where "dci_div0 v = unat (drop_bit 8 v AND 0x3f)"
definition dci_div1 :: "word32 \<Rightarrow> nat" where "dci_div1 v = unat (drop_bit 20 v AND 0x3f)"

text \<open>The DCI table holds a usable divisor pair for every index the code computes. For each
  total divisor \<open>k\<close> from 70 to 250 (the range \<open>lim\<close> leaves), entry \<open>k - 70\<close> exists, enables
  the clock, has two divisors between 2 and 63, and their product is \<open>k\<close>, \<open>k + 1\<close> or
  \<open>k + 2\<close>, so the DCI clock never exceeds its 10 MHz target by rounding.\<close>

theorem dci_table_divisors:
  "list_all (\<lambda>k. case table_at dci_ctrl_table (k - 70) of
       None \<Rightarrow> False
     | Some v \<Rightarrow> v AND 1 = 1 \<and> 2 \<le> dci_div0 v \<and> 2 \<le> dci_div1 v
         \<and> k \<le> int (dci_div0 v * dci_div1 v) \<and> int (dci_div0 v * dci_div1 v) \<le> k + 2) [70..250]"
  by code_simp

section \<open>The PLL protocol\<close>

definition pll_val2 :: "word32 \<Rightarrow> word32" where
  "pll_val2 v = v OR 0x11"

definition pll_val3 :: "int \<Rightarrow> word32 \<Rightarrow> word32" where
  "pll_val3 fbdiv v = (pll_val2 v AND NOT 0x7f000) OR push_bit 12 (of_int fbdiv AND 0x7f)"

definition pll_prefix :: "nat \<Rightarrow> int \<Rightarrow> word32 \<Rightarrow> wlog" where
  "pll_prefix pll fbdiv v =
     [(0xF8000008, 0xDF0D), (pll_ctrl pll, v OR 0x10), (pll_ctrl pll, pll_val2 v),
      (pll_ctrl pll, pll_val3 fbdiv v), (pll_cfg pll, pll_config_table ! nat (min 99 fbdiv)),
      (pll_ctrl pll, pll_val3 fbdiv v XOR 1)]"

lemma REG_traced:
  "hw s = (h, t) \<Longrightarrow> hw (REG_WRITE (traced P) a v s) = (wr32 P a v h, t @ [(a, v)])"
  "hw s = (h, t) \<Longrightarrow> REG_READ (traced P) a s = (fst (rd32 P a h), s\<lparr>hw := (snd (rd32 P a h), t)\<rparr>)"
  by (simp_all add: REG_WRITE_def REG_READ_def)

text \<open>The hardware after \<open>k\<close> reads of the status register; whether the read after those shows the lock.\<close>

fun status_after :: "'h platform \<Rightarrow> nat \<Rightarrow> 'h \<Rightarrow> 'h" where
  "status_after P 0 h = h"
| "status_after P (Suc k) h = status_after P k (snd (rd32 P PLL_STATUS h))"

definition locks_at :: "'h platform \<Rightarrow> nat \<Rightarrow> nat \<Rightarrow> 'h \<Rightarrow> bool" where
  "locks_at P pll k h \<longleftrightarrow> bit (fst (rd32 P PLL_STATUS (status_after P k h))) (min pll 31)"

lemma lock_bit: "(signed_drop_bit pll (w :: word32) AND 1 = 0) = (\<not> bit w (min pll 31))"
proof -
  have "(signed_drop_bit pll w AND 1 = 0) = (\<not> bit (signed_drop_bit pll w) 0)"
    by (simp add: and_one_eq bit_0 even_iff_mod_2_eq_zero)
  also have "bit (signed_drop_bit pll w) 0 = bit w (min pll 31)"
    by (auto simp: bit_signed_drop_bit_iff min_def)
  finally show ?thesis .
qed

lemma pll_poll_outcome:
  assumes "hw s = (h, t)" "k \<le> 2000"
  shows "(\<forall>j. k + j \<le> 2000 \<longrightarrow> \<not> locks_at P pll j h) \<and> fst (pll_poll (traced P) pll k s) = None
      \<and> snd (hw (snd (pll_poll (traced P) pll k s))) = t
    \<or> (\<exists>n. k + n \<le> 2000 \<and> locks_at P pll n h \<and> (\<forall>j<n. \<not> locks_at P pll j h)
      \<and> fst (pll_poll (traced P) pll k s) = Some (Suc (k + n))
      \<and> hw (snd (pll_poll (traced P) pll k s)) = (status_after P (Suc n) h, t))"
  using assms
proof (induction "2001 - k" arbitrary: k s h rule: less_induct)
  case less
  let ?h = "snd (rd32 P PLL_STATUS h)"
  let ?s = "s\<lparr>hw := (?h, t)\<rparr>"
  have rd: "REG_READ (traced P) PLL_STATUS s = (fst (rd32 P PLL_STATUS h), ?s)"
    by (rule REG_traced(2) [OF less.prems(1)])
  have at: "locks_at P pll 0 h = bit (fst (rd32 P PLL_STATUS h)) (min pll 31)"
    "locks_at P pll (Suc j) h = locks_at P pll j ?h" for j by (simp_all add: locks_at_def)
  show ?case
  proof (cases "locks_at P pll 0 h")
    case True
    then have "pll_poll (traced P) pll k s = (Some (k + 1), ?s)"
      unfolding at by (subst pll_poll.simps) (simp add: rd lock_bit)
    then show ?thesis using True less.prems(2) by (intro disjI2 exI [of _ 0]) simp
  next
    case False
    then have b: "\<not> bit (fst (rd32 P PLL_STATUS h)) (min pll 31)" by (simp add: at)
    show ?thesis
    proof (cases "k = 2000")
      case True
      then have "pll_poll (traced P) pll k s = (None, ?s)"
        using b by (subst pll_poll.simps) (simp add: rd lock_bit)
      then show ?thesis using True False by (intro disjI1) simp
    next
      case k: False
      then have step: "pll_poll (traced P) pll k s = pll_poll (traced P) pll (k + 1) ?s"
        using b less.prems(2) by (subst pll_poll.simps) (simp add: rd lock_bit)
      have "2001 - (k + 1) < 2001 - k" "hw ?s = (?h, t)" "k + 1 \<le> 2000" using k less.prems(2) by simp_all
      then have "(\<forall>j. k + 1 + j \<le> 2000 \<longrightarrow> \<not> locks_at P pll j ?h) \<and> fst (pll_poll (traced P) pll (k + 1) ?s) = None
          \<and> snd (hw (snd (pll_poll (traced P) pll (k + 1) ?s))) = t
        \<or> (\<exists>n. k + 1 + n \<le> 2000 \<and> locks_at P pll n ?h \<and> (\<forall>j<n. \<not> locks_at P pll j ?h)
          \<and> fst (pll_poll (traced P) pll (k + 1) ?s) = Some (Suc (k + 1 + n))
          \<and> hw (snd (pll_poll (traced P) pll (k + 1) ?s)) = (status_after P (Suc n) ?h, t))"
        by (rule less.hyps)
      then show ?thesis
      proof (elim disjE exE conjE)
        assume 1: "\<forall>j. k + 1 + j \<le> 2000 \<longrightarrow> \<not> locks_at P pll j ?h" "fst (pll_poll (traced P) pll (k + 1) ?s) = None"
          "snd (hw (snd (pll_poll (traced P) pll (k + 1) ?s))) = t"
        have "\<not> locks_at P pll j h" if "k + j \<le> 2000" for j
          using 1(1) False that by (cases j) (simp_all add: at(2))
        with 1(2,3) show ?thesis unfolding step by simp
      next
        fix n
        assume 2: "k + 1 + n \<le> 2000" "locks_at P pll n ?h" "\<forall>j<n. \<not> locks_at P pll j ?h"
          "fst (pll_poll (traced P) pll (k + 1) ?s) = Some (Suc (k + 1 + n))"
          "hw (snd (pll_poll (traced P) pll (k + 1) ?s)) = (status_after P (Suc n) ?h, t)"
        have "\<not> locks_at P pll j h" if "j < Suc n" for j
          using 2(3) False that by (cases j) (simp_all add: at(2))
        with 2 show ?thesis unfolding step by (intro disjI2 exI [of _ "Suc n"]) (simp add: at(2))
      qed
    qed
  qed
qed

lemma pll_val3_add:
  "(v AND NOT (0x7f000 :: word32)) + push_bit 12 (x AND 0x7f)
     = (v AND NOT 0x7f000) OR push_bit 12 (x AND 0x7f)"
proof (rule disjunctive_add)
  have m: "(0x7f000 :: word32) = push_bit 12 (mask 7)" "(0x7f :: word32) = mask 7"
    by (simp_all add: mask_eq_exp_minus_1 push_bit_eq_mult)
  show "\<not> bit (v AND NOT (0x7f000 :: word32)) n \<or> \<not> bit (push_bit 12 (x AND 0x7f)) n" for n
    unfolding m by (auto simp: bit_simps)
qed

lemma bit_0x11: "bit (0x11 :: word32) n = (n = 0 \<or> n = 4)"
proof -
  have eq: "(0x11 :: word32) = push_bit 0 1 OR push_bit 4 1" by (simp add: push_bit_eq_mult)
  show ?thesis unfolding eq bit_or_iff bit_single by auto
qed

lemma pll_val3_bits:
  "bit (pll_val3 fbdiv v) 0" "bit (pll_val3 fbdiv v) 4"
  "drop_bit 12 (pll_val3 fbdiv v) AND 0x7f = of_int fbdiv AND 0x7f"
proof -
  have m: "(0x7f000 :: word32) = push_bit 12 (mask 7)" "(0x7f :: word32) = mask 7"
    by (simp_all add: mask_eq_exp_minus_1 push_bit_eq_mult)
  show "bit (pll_val3 fbdiv v) 0" "bit (pll_val3 fbdiv v) 4"
    unfolding pll_val3_def pll_val2_def m by (simp_all add: bit_simps bit_0x11)
  show "drop_bit 12 (pll_val3 fbdiv v) AND 0x7f = of_int fbdiv AND 0x7f"
    unfolding pll_val3_def m by (rule bit_word_eqI) (auto simp: bit_simps)
qed

lemma pll_release_bits:
  "\<not> bit (pll_val3 fbdiv v XOR 1) 0" "bit (pll_val3 fbdiv v XOR 1) 4"
  "\<not> bit ((pll_val3 fbdiv v XOR 1) XOR 0x10) 0" "\<not> bit ((pll_val3 fbdiv v XOR 1) XOR 0x10) 4"
proof -
  have m: "bit (0x10 :: word32) n = (n = 4)" "bit (1 :: word32) n = (n = 0)" for n
    using bit_single [of 4 n] by (simp_all add: push_bit_eq_mult bit_1_iff)
  show "\<not> bit (pll_val3 fbdiv v XOR 1) 0" "bit (pll_val3 fbdiv v XOR 1) 4"
    "\<not> bit ((pll_val3 fbdiv v XOR 1) XOR 0x10) 0" "\<not> bit ((pll_val3 fbdiv v XOR 1) XOR 0x10) 4"
    using pll_val3_bits(1,2) [of fbdiv v] by (simp_all only: bit_xor_iff m) simp_all
qed

lemma pll_config_at: "0 \<le> fbdiv \<Longrightarrow> table_at pll_config_table (min 99 fbdiv)
    = Some (pll_config_table ! nat (min 99 fbdiv))"
proof -
  have "length pll_config_table = 100" by (simp add: pll_config_table_def)
  then show "0 \<le> fbdiv \<Longrightarrow> ?thesis" by (simp add: table_at_def)
qed

lemma dci_at: "table_at dci_ctrl_table (lim x 70 250 - 70)
    = Some (dci_ctrl_table ! nat (lim x 70 250 - 70))"
proof -
  have "length dci_ctrl_table = 181" by (simp add: dci_ctrl_table_def)
  then show ?thesis by (simp add: table_at_def lim_def)
qed

text \<open>Step 7, given the value \<open>c\<close> read from the register of the output divider, and the DCI divisor.\<close>

definition outdiv_reg :: "nat \<Rightarrow> word32" where
  "outdiv_reg pll = (if pll = 1 then DDR_CLK_CTRL else CPU_CLK_CTRL)"

definition outdiv_log :: "nat \<Rightarrow> int \<Rightarrow> word32 \<Rightarrow> wlog" where
  "outdiv_log pll outdiv c =
     (if pll = 1 then [(DDR_CLK_CTRL, (c AND NOT 0x3f00000) OR push_bit 20 (of_int outdiv AND 0x3f))]
      else if pll = 0 then [(CPU_CLK_CTRL, (c AND NOT 0x3f00) OR push_bit 8 (of_int outdiv AND 0x3f))]
      else [])"

definition dci_log :: "nat \<Rightarrow> int \<Rightarrow> rat \<Rightarrow> wlog" where
  "dci_log pll fbdiv fref =
     (if pll = 1 then [(DCI_CLK_CTRL, dci_ctrl_table ! nat (lim (trunc_rat (fref * of_int fbdiv / 10)) 70 250 - 70))] else [])"

lemma pll_locked_tail:
  assumes "hw s = (h, t)"
  shows "\<exists>s'. pll_after (traced P) pll fbdiv fref fout
      (REG_WRITE (traced P) (pll_ctrl pll) w (pll_set_outdiv (traced P) pll outdiv s)) = Some s'
    \<and> snd (hw s') = t @ outdiv_log pll outdiv (fst (rd32 P (outdiv_reg pll) h)) @ (pll_ctrl pll, w) # dci_log pll fbdiv fref"
proof -
  have m: "push_bit 20 (0x3f :: word32) = 0x3f00000" "push_bit 8 (0x3f :: word32) = 0x3f00" by (simp_all add: push_bit_eq_mult)
  have "snd (hw (pll_set_outdiv (traced P) pll outdiv s)) = t @ outdiv_log pll outdiv (fst (rd32 P (outdiv_reg pll) h))"
    using assms by (simp add: pll_set_outdiv_def outdiv_log_def outdiv_reg_def REG_READ_def REG_WRITE_def m Let_def)
  then obtain h1 where d: "hw (pll_set_outdiv (traced P) pll outdiv s) = (h1, t @ outdiv_log pll outdiv (fst (rd32 P (outdiv_reg pll) h)))"
    by (metis prod.collapse)
  let ?s1 = "REG_WRITE (traced P) (pll_ctrl pll) w (pll_set_outdiv (traced P) pll outdiv s)"
  have w: "hw ?s1 = (wr32 P (pll_ctrl pll) w h1, (t @ outdiv_log pll outdiv (fst (rd32 P (outdiv_reg pll) h))) @ [(pll_ctrl pll, w)])"
    by (rule REG_traced(1) [OF d])
  show ?thesis
    using REG_traced(1) [OF w] w
    by (cases "pll = 1"; cases "pll = 0") (auto simp: pll_after_def dci_at dci_log_def)
qed

text \<open>The value read from the control register, and the hardware after the writes of the prefix.\<close>

definition pll_start :: "'h platform \<Rightarrow> nat \<Rightarrow> int \<Rightarrow> 'h \<Rightarrow> word32 \<times> 'h" where
  "pll_start P pll fbdiv h =
     (let (v, h) = rd32 P (pll_ctrl pll) (wr32 P 0xF8000008 0xDF0D h)
      in (v, fold (\<lambda>(a, w) h. wr32 P a w h) (tl (pll_prefix pll fbdiv v)) h))"

text \<open>C39. \<open>my_set_pll\<close> follows the PLL programming protocol on every hardware and every
  non-negative feedback divider: it returns, after writing exactly: unlock; bypass; bypass with
  reset; the divider in field \<open>[18:12]\<close> with bypass and reset still set; the loop configuration
  for the divider; reset released with bypass still set. Then the lock decides. If none of the first 2001
  reads of the status register shows the lock bit of this PLL, nothing more is written, so the PLL is left in
  bypass. Otherwise, after the first such read, the output divider is put into its field of the
  clock register, whose other bits keep the values just read (DDR and CPU PLL only), the
  bypass is released, and for the DDR PLL the entry of the DCI table for a tenth of the VCO frequency,
  limited to 70 to 250, is written.\<close>

theorem my_set_pll_protocol:
  assumes fb: "0 \<le> fbdiv" and hw: "hw s = (h, t)" and start: "pll_start P pll fbdiv h = (v, h5)"
  shows "\<exists>s'. my_set_pll (traced P) pll fbdiv outdiv fref s = Some s'
    \<and> (if \<exists>n \<le> 2000. locks_at P pll n h5
       then \<exists>n \<le> 2000. locks_at P pll n h5 \<and> (\<forall>j<n. \<not> locks_at P pll j h5)
         \<and> snd (hw s') = t @ pll_prefix pll fbdiv v
             @ outdiv_log pll outdiv (fst (rd32 P (outdiv_reg pll) (status_after P (Suc n) h5)))
             @ [(pll_ctrl pll, (pll_val3 fbdiv v XOR 1) XOR 0x10)] @ dci_log pll fbdiv fref
       else snd (hw s') = t @ pll_prefix pll fbdiv v)
    \<and> bit (pll_val3 fbdiv v) 0 \<and> bit (pll_val3 fbdiv v) 4
    \<and> drop_bit 12 (pll_val3 fbdiv v) AND 0x7f = of_int fbdiv AND 0x7f
    \<and> \<not> bit (pll_val3 fbdiv v XOR 1) 0 \<and> bit (pll_val3 fbdiv v XOR 1) 4
    \<and> \<not> bit ((pll_val3 fbdiv v XOR 1) XOR 0x10) 4"
proof -
  let ?c = "pll_ctrl pll"
  define s1 where "s1 = unlock_slcr (traced P) s"
  have s1: "hw s1 = (wr32 P 0xF8000008 0xDF0D h, t @ [(0xF8000008, 0xDF0D)])"
    using REG_traced(1) [OF hw] by (simp add: s1_def unlock_slcr_def)
  have v: "v = fst (rd32 P ?c (wr32 P 0xF8000008 0xDF0D h))" using start by (auto simp: pll_start_def case_prod_beta Let_def)
  define s2 where "s2 = snd (REG_READ (traced P) ?c s1)"
  have r: "REG_READ (traced P) ?c s1 = (v, s2)" by (simp add: s2_def v REG_traced(2) [OF s1])
  have s2: "hw s2 = (snd (rd32 P ?c (wr32 P 0xF8000008 0xDF0D h)), t @ [(0xF8000008, 0xDF0D)])"
    by (simp add: s2_def REG_traced(2) [OF s1])
  define s5 where "s5 = REG_WRITE (traced P) ?c (pll_val3 fbdiv v XOR 1)
    (REG_WRITE (traced P) (pll_cfg pll) (pll_config_table ! nat (min 99 fbdiv))
      (REG_WRITE (traced P) ?c (pll_val3 fbdiv v)
        (REG_WRITE (traced P) ?c (pll_val2 v) (REG_WRITE (traced P) ?c (v OR 0x10) s2))))"
  have s5: "hw s5 = (h5, t @ pll_prefix pll fbdiv v)"
    using start by (auto simp: s5_def REG_WRITE_def s2 pll_prefix_def pll_start_def case_prod_beta Let_def)
  have c: "push_bit 4 (1::word32) = 0x10" "push_bit 0 (1::word32) = 1"
      "push_bit 12 (0x7f::word32) = 0x7f000" by (simp_all add: push_bit_eq_mult)
  have v2: "(v OR 0x10) OR 1 = pll_val2 v" by (simp add: pll_val2_def or.assoc)
  have v3: "(pll_val2 v AND NOT 0x7f000) + push_bit 12 (of_int fbdiv AND 0x7f) = pll_val3 fbdiv v"
    unfolding pll_val3_def by (rule pll_val3_add)
  let ?poll = "pll_poll (traced P) pll 0 s5"
  have run: "my_set_pll (traced P) pll fbdiv outdiv fref s
    = (case ?poll of (locked, s) \<Rightarrow>
        (case locked of None \<Rightarrow> Some s
         | Some k \<Rightarrow> pll_after (traced P) pll fbdiv fref (fref * of_int fbdiv / of_int outdiv)
            (REG_WRITE (traced P) ?c ((pll_val3 fbdiv v XOR 1) XOR 0x10)
              (pll_set_outdiv (traced P) pll outdiv s))))"
    by (simp only: my_set_pll_def Let_def s1_def [symmetric] r prod.case c v2 v3 pll_config_at [OF fb]
        Option.bind.simps s5_def)
  note bits = pll_val3_bits [of fbdiv v] pll_release_bits [of fbdiv v]
  from pll_poll_outcome [OF s5, of 0 P pll] consider
    "\<forall>n. n \<le> 2000 \<longrightarrow> \<not> locks_at P pll n h5" "fst ?poll = None" "snd (hw (snd ?poll)) = t @ pll_prefix pll fbdiv v"
    | n where "n \<le> 2000" "locks_at P pll n h5" "\<forall>j<n. \<not> locks_at P pll j h5" "fst ?poll = Some (Suc n)"
      "hw (snd ?poll) = (status_after P (Suc n) h5, t @ pll_prefix pll fbdiv v)" by auto
  then show ?thesis
  proof cases
    case 1
    then have "my_set_pll (traced P) pll fbdiv outdiv fref s = Some (snd ?poll)"
      unfolding run by (simp add: case_prod_beta)
    with 1 bits show ?thesis by auto
  next
    case 2
    from pll_locked_tail [OF 2(5), of P pll fbdiv fref "fref * of_int fbdiv / of_int outdiv" "(pll_val3 fbdiv v XOR 1) XOR 0x10" outdiv]
    obtain s' where "my_set_pll (traced P) pll fbdiv outdiv fref s = Some s'"
      "snd (hw s') = t @ pll_prefix pll fbdiv v
             @ outdiv_log pll outdiv (fst (rd32 P (outdiv_reg pll) (status_after P (Suc n) h5)))
             @ [(pll_ctrl pll, (pll_val3 fbdiv v XOR 1) XOR 0x10)] @ dci_log pll fbdiv fref"
      unfolding run using 2(4) by (auto simp: case_prod_beta)
    with 2(1-3) bits show ?thesis by (metis (no_types, lifting))
  qed
qed

text \<open>Hardware that never locks, and hardware that locks at once.\<close>

lemma ram_start:
  "fst (pll_start ram_platform 1 32 (\<lambda>_. x)) = x"
  "snd (pll_start ram_platform 1 32 (\<lambda>_. x)) PLL_STATUS = x" "snd (pll_start ram_platform 1 32 (\<lambda>_. x)) DDR_CLK_CTRL = x"
  by (simp_all add: pll_start_def ram_platform_def pll_prefix_def pll_ctrl_def pll_cfg_def PLL_STATUS_def DDR_CLK_CTRL_def)

lemma ram_status: "status_after ram_platform n h = h"
  by (induction n) (simp_all add: ram_platform_def)

lemma ram_locks: "locks_at ram_platform 1 n h = bit (h PLL_STATUS) 1"
  unfolding locks_at_def ram_status by (simp add: ram_platform_def)

lemma my_set_pll_protocol_witness:
  "(\<exists>s'. my_set_pll (traced ram_platform) 1 32 2 (3333333 / 100000) (mt_init [] [] 0 (((\<lambda>_. 0), []))) = Some s'
      \<and> snd (hw s') = pll_prefix 1 32 0)
    \<and> (\<exists>s'. my_set_pll (traced ram_platform) 1 32 2 (3333333 / 100000) (mt_init [] [] 0 (((\<lambda>_. 7), []))) = Some s'
      \<and> snd (hw s') = pll_prefix 1 32 7 @ [(DDR_CLK_CTRL, 0x200007), (pll_ctrl 1, 0x20006), (DCI_CLK_CTRL, 0x03500201)])"
proof -
  let ?st = "\<lambda>x. pll_start ram_platform 1 32 (\<lambda>_. x :: word32)"
  have start: "?st x = (x, snd (?st x))" for x using ram_start(1) [of x] by (metis prod.collapse)
  have hw: "hw (mt_init [] [] 0 (((\<lambda>_. x), []))) = ((\<lambda>_. x), [])" for x :: word32 by (simp add: mt_init_def)
  have rd: "fst (rd32 ram_platform a h) = h a" for a h by (simp add: ram_platform_def)
  have bits: "\<not> bit (0 :: word32) 1" "bit (7 :: word32) 1" by simp_all
  have o: "outdiv_log 1 2 7 = [(DDR_CLK_CTRL, 0x200007)]" "outdiv_reg 1 = DDR_CLK_CTRL"
    by (simp_all add: outdiv_log_def outdiv_reg_def push_bit_eq_mult)
  have "\<lfloor>3333333 / 31250 :: rat\<rfloor> = 106" by (rule floor_unique) simp_all
  then have d: "dci_log 1 32 (3333333 / 100000) = [(DCI_CLK_CTRL, 0x03500201)]"
    by (simp add: dci_log_def lim_def trunc_rat_def dci_ctrl_table_def)
  have w: "(pll_val3 32 7 XOR 1) XOR 0x10 = 0x20006" by (simp add: pll_val3_def pll_val2_def push_bit_eq_mult)
  have no: "\<not> (\<exists>n \<le> 2000. locks_at ram_platform 1 n (snd (?st 0)))" and yes: "\<exists>n \<le> (2000 :: nat). locks_at ram_platform 1 n (snd (?st 7))"
    unfolding ram_locks ram_start using bits by auto
  obtain s0 s7 where "my_set_pll (traced ram_platform) 1 32 2 (3333333 / 100000) (mt_init [] [] 0 (((\<lambda>_. 0), []))) = Some s0"
    "snd (hw s0) = [] @ pll_prefix 1 32 0"
    "my_set_pll (traced ram_platform) 1 32 2 (3333333 / 100000) (mt_init [] [] 0 (((\<lambda>_. 7), []))) = Some s7"
    "snd (hw s7) = [] @ pll_prefix 1 32 7 @ outdiv_log 1 2 7 @ [(pll_ctrl 1, (pll_val3 32 7 XOR 1) XOR 0x10)] @ dci_log 1 32 (3333333 / 100000)"
    using my_set_pll_protocol [OF _ hw [of 0] start [of 0], of 2 "3333333 / 100000"]
      my_set_pll_protocol [OF _ hw [of 7] start [of 7], of 2 "3333333 / 100000"]
    unfolding if_not_P [OF no] if_P [OF yes] unfolding o(2) rd ram_status ram_start by auto
  then show ?thesis unfolding o(1) w d by simp
qed

section \<open>XADC read-out\<close>

text \<open>
  The serial XADC interface answers a command with the data of the previous one: \<open>pend\<close> is the
  answer still in the pipeline, \<open>fifo\<close> the data FIFO, whose level is in bits \<open>[15:12]\<close> of the
  status register. \<open>xval a\<close> is the value of XADC register \<open>a\<close>.
\<close>

definition xadc_device ::
    "'h platform \<Rightarrow> ('h \<Rightarrow> word32 list) \<Rightarrow> ('h \<Rightarrow> word32) \<Rightarrow> (word32 \<Rightarrow> word32) \<Rightarrow> bool"
where
  "xadc_device P fifo pend xval \<longleftrightarrow>
     (\<forall>c h. length (fifo h) < 15 \<longrightarrow> fifo (wr32 P 0xf8007110 c h) = fifo h @ [pend h]
        \<and> pend (wr32 P 0xf8007110 c h) = xval (drop_bit 16 c AND 0x3ff)) \<and>
     (\<forall>h x r. fifo h = x # r \<longrightarrow> fst (rd32 P 0xf8007114 h) = x
        \<and> fifo (snd (rd32 P 0xf8007114 h)) = r \<and> pend (snd (rd32 P 0xf8007114 h)) = pend h) \<and>
     (\<forall>h. length (fifo h) \<le> 15 \<longrightarrow>
        signed_drop_bit 12 (fst (rd32 P 0xf800710c h)) AND 0x0f = of_nat (length (fifo h))
        \<and> fifo (snd (rd32 P 0xf800710c h)) = fifo h) \<and>
     (\<forall>v h. fifo (wr32 P 0xf8007100 v h) = fifo h \<and> fifo (wr32 P 0xf8007118 v h) = fifo h)"

lemma xadcD:
  assumes "xadc_device P fifo pend xval"
  shows "length (fifo h) < 15 \<Longrightarrow> fifo (wr32 P 0xf8007110 c h) = fifo h @ [pend h]"
    "length (fifo h) < 15 \<Longrightarrow> pend (wr32 P 0xf8007110 c h) = xval (drop_bit 16 c AND 0x3ff)"
    "fifo h = x # r \<Longrightarrow> fst (rd32 P 0xf8007114 h) = x"
    "fifo h = x # r \<Longrightarrow> fifo (snd (rd32 P 0xf8007114 h)) = r"
    "length (fifo h) \<le> 15 \<Longrightarrow>
      signed_drop_bit 12 (fst (rd32 P 0xf800710c h)) AND 0x0f = of_nat (length (fifo h))"
    "length (fifo h) \<le> 15 \<Longrightarrow> fifo (snd (rd32 P 0xf800710c h)) = fifo h"
    "fifo (wr32 P 0xf8007100 v h) = fifo h" "fifo (wr32 P 0xf8007118 v h) = fifo h"
  using assms unfolding xadc_device_def by blast+

lemma init_xadc_flushes:
  fixes s :: "'h mt"
  assumes dev: "xadc_device P fifo pend xval" and lvl: "length (fifo (hw s)) \<le> 15"
  shows "fifo (hw (init_xadc P s)) = [] \<and> dlist (init_xadc P s) = dlist s"
proof -
  let ?s = "snd (REG_READ P 0xf800710c (REG_WRITE P 0xf8007118 0 (REG_WRITE P 0xf8007100 0x80001114 s)))"
  let ?n = "length (fifo (hw s))"
  have f: "fifo (hw ?s) = fifo (hw s)" "dlist ?s = dlist s"
    by (use lvl in \<open>simp_all add: REG_READ_def REG_WRITE_def case_prod_beta xadcD [OF dev]\<close>)
  have cnt: "uint (signed_drop_bit 12 (fst (REG_READ P 0xf800710c
      (REG_WRITE P 0xf8007118 0 (REG_WRITE P 0xf8007100 0x80001114 s)))) AND 0x0f) = int ?n"
  proof -
    have "signed_drop_bit 12 (fst (REG_READ P 0xf800710c
      (REG_WRITE P 0xf8007118 0 (REG_WRITE P 0xf8007100 0x80001114 s)))) AND 0x0f = (of_nat ?n :: word32)"
      unfolding REG_READ_sel using lvl
      by (subst xadcD(5) [OF dev]) (simp_all add: REG_WRITE_def xadcD [OF dev])
    moreover have "uint (of_nat ?n :: word32) = int ?n"
    proof -
      have "?n < 2 ^ LENGTH(32)" using lvl by simp
      then have "unat (of_nat ?n :: word32) = ?n" by (rule unat_of_nat_less)
      then show ?thesis by (simp only: uint_nat)
    qed
    ultimately show ?thesis by simp
  qed
  have "fifo (hw (cfor 0 (int ?n) 1 (\<lambda>j s. snd (REG_READ P 0xf8007114 s)) ?s)) = []
      \<and> dlist (cfor 0 (int ?n) 1 (\<lambda>j s. snd (REG_READ P 0xf8007114 s)) ?s) = dlist s"
  proof (rule cfor_inv [where P = "\<lambda>j t. 0 \<le> j \<and> j \<le> int ?n \<and> fifo (hw t) = drop (nat j) (fifo (hw s))
      \<and> dlist t = dlist s"])
    fix j and t :: "'h mt"
    assume j: "0 \<le> j" "j < int ?n" and t: "0 \<le> j \<and> j \<le> int ?n \<and> fifo (hw t) = drop (nat j) (fifo (hw s))
      \<and> dlist t = dlist s"
    have "nat j < ?n" using j by simp
    then have "fifo (hw t) = fifo (hw s) ! nat j # drop (Suc (nat j)) (fifo (hw s))"
      using t by (simp add: Cons_nth_drop_Suc)
    then show "0 \<le> j + 1 \<and> j + 1 \<le> int ?n
        \<and> fifo (hw (snd (REG_READ P 0xf8007114 t))) = drop (nat (j + 1)) (fifo (hw s))
        \<and> dlist (snd (REG_READ P 0xf8007114 t)) = dlist s"
      using j t xadcD(4) [OF dev] by (simp add: REG_READ_sel nat_add_distrib)
  qed (use f in auto)
  then show ?thesis
    by (simp add: init_xadc_def Let_def case_prod_beta cnt)
qed

lemma xadc_commands:
  fixes s :: "'h mt"
  assumes dev: "xadc_device P fifo pend xval" and empty: "fifo (hw s) = []" and n: "n \<le> 15"
  shows "fifo (hw (cfor 0 (int n) 1 (\<lambda>i s. REG_WRITE P 0xf8007110 (rd_cmd (list ! nat i)) s) s))
      = (if n = 0 then [] else pend (hw s)
          # map (\<lambda>i. xval (drop_bit 16 (rd_cmd (list ! i)) AND 0x3ff)) [0..<n - 1])
    \<and> pend (hw (cfor 0 (int n) 1 (\<lambda>i s. REG_WRITE P 0xf8007110 (rd_cmd (list ! nat i)) s) s))
      = (if n = 0 then pend (hw s) else xval (drop_bit 16 (rd_cmd (list ! (n - 1))) AND 0x3ff))
    \<and> dlist (cfor 0 (int n) 1 (\<lambda>i s. REG_WRITE P 0xf8007110 (rd_cmd (list ! nat i)) s) s) = dlist s"
proof (rule cfor_inv [where P = "\<lambda>j t. 0 \<le> j \<and> j \<le> int n
    \<and> fifo (hw t) = (if nat j = 0 then [] else pend (hw s)
        # map (\<lambda>i. xval (drop_bit 16 (rd_cmd (list ! i)) AND 0x3ff)) [0..<nat j - 1])
    \<and> pend (hw t) = (if nat j = 0 then pend (hw s)
        else xval (drop_bit 16 (rd_cmd (list ! (nat j - 1))) AND 0x3ff))
    \<and> dlist t = dlist s"])
  fix j and t :: "'h mt"
  let ?x = "\<lambda>i. xval (drop_bit 16 (rd_cmd (list ! i)) AND 0x3ff)"
  assume j: "0 \<le> j" "j < int n" and t: "0 \<le> j \<and> j \<le> int n
    \<and> fifo (hw t) = (if nat j = 0 then [] else pend (hw s) # map ?x [0..<nat j - 1])
    \<and> pend (hw t) = (if nat j = 0 then pend (hw s) else ?x (nat j - 1)) \<and> dlist t = dlist s"
  define m where "m = nat j"
  have jm: "j = int m" using j by (simp add: m_def)
  have "[0..<m] = [0..<m - 1] @ [m - 1]" if "m \<noteq> 0"
    using that upt_Suc_append [of 0 "m - 1"] by simp
  then show "0 \<le> j + 1 \<and> j + 1 \<le> int n
    \<and> fifo (hw (REG_WRITE P 0xf8007110 (rd_cmd (list ! nat j)) t))
      = (if nat (j + 1) = 0 then [] else pend (hw s) # map ?x [0..<nat (j + 1) - 1])
    \<and> pend (hw (REG_WRITE P 0xf8007110 (rd_cmd (list ! nat j)) t))
      = (if nat (j + 1) = 0 then pend (hw s) else ?x (nat (j + 1) - 1))
    \<and> dlist (REG_WRITE P 0xf8007110 (rd_cmd (list ! nat j)) t) = dlist s"
    using j t n by (cases m) (simp_all add: REG_WRITE_def xadcD(1,2) [OF dev] jm nat_add_distrib)
qed (use empty in auto)

lemma xadc_reads:
  fixes s :: "'h mt"
  assumes dev: "xadc_device P fifo pend xval" and vs: "fifo (hw s) = vs" and n: "length vs = n"
    and len: "n \<le> length (dlist s)"
  shows "dlist (cfor 0 (int n) 1 (xadc_read_body P) s) = vs @ drop n (dlist s)"
proof (rule cfor_inv [where P = "\<lambda>j t. 0 \<le> j \<and> j \<le> int n \<and> fifo (hw t) = drop (nat j) vs
    \<and> dlist t = take (nat j) vs @ drop (nat j) (dlist s)"])
  fix j and t :: "'h mt"
  assume j: "0 \<le> j" "j < int n" and t: "0 \<le> j \<and> j \<le> int n \<and> fifo (hw t) = drop (nat j) vs
    \<and> dlist t = take (nat j) vs @ drop (nat j) (dlist s)"
  obtain m where m: "j = int m" "m < n" using j by (metis nonneg_int_cases of_nat_less_iff)
  have f: "fifo (hw t) = vs ! m # drop (Suc m) vs"
    using t m n by (simp add: Cons_nth_drop_Suc)
  have "drop m (dlist s) = dlist s ! m # drop (Suc m) (dlist s)"
    using m len by (simp add: Cons_nth_drop_Suc)
  then have "dlist (xadc_read_body P j t) = take (Suc m) vs @ drop (Suc m) (dlist s)"
    using t m n by (simp add: xadc_read_body_def REG_READ_def case_prod_beta xadcD(3) [OF dev f]
        list_update_append take_Suc_conv_app_nth)
  moreover have "fifo (hw (xadc_read_body P j t)) = drop (Suc m) vs"
    by (simp add: xadc_read_body_def REG_READ_def case_prod_beta xadcD(4) [OF dev f])
  ultimately show "0 \<le> j + 1 \<and> j + 1 \<le> int n
    \<and> fifo (hw (xadc_read_body P j t)) = drop (nat (j + 1)) vs
    \<and> dlist (xadc_read_body P j t) = take (nat (j + 1)) vs @ drop (nat (j + 1)) (dlist s)"
    using m by (simp add: nat_add_distrib)
qed (use vs n in auto)

lemma get_xadc_regs_values:
  assumes dev: "xadc_device P fifo pend xval" and empty: "fifo (hw s) = []"
    and cnt: "0 < cnt" "cnt \<le> length (dlist s)" "cnt \<le> 14"
  shows "dlist (get_xadc_regs P list cnt s)
    = map (\<lambda>i. xval (drop_bit 16 (rd_cmd (list ! i)) AND 0x3ff)) [0..<cnt] @ drop cnt (dlist s)"
proof -
  let ?x = "\<lambda>i. xval (drop_bit 16 (rd_cmd (list ! i)) AND 0x3ff)"
  define s1 where "s1 = cfor 0 (int cnt) 1 (\<lambda>i s. REG_WRITE P 0xf8007110 (rd_cmd (list ! nat i)) s) s"
  have s1: "fifo (hw s1) = pend (hw s) # map ?x [0..<cnt - 1]" "pend (hw s1) = ?x (cnt - 1)"
      "dlist s1 = dlist s"
    using xadc_commands [OF dev empty, of cnt list] cnt by (simp_all add: s1_def)
  define s2 where "s2 = REG_WRITE P 0xf8007110 (rd_cmd (list ! (cnt - 1))) s1"
  have upt: "[0..<cnt] = [0..<cnt - 1] @ [cnt - 1]"
    using cnt upt_Suc_append [of 0 "cnt - 1"] by simp
  have s2: "fifo (hw s2) = pend (hw s) # map ?x [0..<cnt]" "dlist s2 = dlist s"
    by (use cnt in \<open>simp_all add: s2_def REG_WRITE_def xadcD(1) [OF dev] s1 upt [simplified]\<close>)
  define s3 where "s3 = snd (REG_READ P 0xf8007114 s2)"
  have s3: "fifo (hw s3) = map ?x [0..<cnt]" "dlist s3 = dlist s"
    by (simp_all add: s3_def REG_READ_def case_prod_beta xadcD(4) [OF dev s2(1)] s2(2))
  have "dlist (cfor 0 (int cnt) 1 (xadc_read_body P) s3) = map ?x [0..<cnt] @ drop cnt (dlist s3)"
    using cnt by (intro xadc_reads [OF dev s3(1)]) (simp_all add: s3)
  then show ?thesis
    unfolding get_xadc_regs_def Let_def case_prod_beta s1_def [symmetric] s2_def [symmetric]
      s3_def [symmetric] s3(2) .
qed

text \<open>\<open>read_xadc\<close> reports the registers it names. On an XADC interface that answers each
  command with the data of the one before, with any leftover answers in its FIFO, the function
  flushes the FIFO, and after it \<open>dlist[0..6]\<close> holds the values of temperature, VCCINT, VCCAUX,
  VCCBRAM, VCCPINT, VCCPAUX and VCCPDRO in that order; the figures returned are those values scaled.\<close>

theorem read_xadc_values:
  assumes dev: "xadc_device P fifo pend xval" and lvl: "length (fifo (hw s)) \<le> 15"
    and len: "length (dlist s) = 8"
  shows "take 7 (dlist (snd (read_xadc P s))) = map xval [0, 1, 2, 6, 13, 14, 15]
    \<and> fst (read_xadc P s) = temperature (sint (xval 0))
        # map (\<lambda>a. voltage (sint (xval a))) [1, 2, 6, 13, 14, 15]"
proof -
  have addr: "map (\<lambda>i. xval (drop_bit 16 (rd_cmd (alist ! i)) AND 0x3ff)) [0..<7]
      = map xval [0, 1, 2, 6, 13, 14, 15]"
    by (simp add: upt_rec alist_def rd_cmd_def push_bit_eq_mult)
  let ?s = "init_xadc P s"
  have "fifo (hw ?s) = []" "dlist ?s = dlist s" using init_xadc_flushes [OF dev lvl] by auto
  with len have "dlist (get_xadc_regs P alist 7 ?s) = map xval [0, 1, 2, 6, 13, 14, 15] @ drop 7 (dlist s)"
    unfolding addr [symmetric] by (subst get_xadc_regs_values [OF dev]) simp_all
  then show ?thesis by (simp add: read_xadc_def Let_def)
qed

text \<open>An XADC with a FIFO of 15 words in which register \<open>a\<close> holds \<open>0x9000 + a\<close>.\<close>

record xadc_sim =
  xfifo :: "word32 list"
  xpend :: word32

definition xadc_platform :: "xadc_sim platform" where
  "xadc_platform = \<lparr>
     rd32 = (\<lambda>a s. if a = 0xf8007114 then (case xfifo s of [] \<Rightarrow> (0, s) | x # r \<Rightarrow> (x, s\<lparr>xfifo := r\<rparr>))
        else (push_bit 12 (of_nat (length (xfifo s))), s)),
     wr32 = (\<lambda>a v s. if a = 0xf8007110
        then s\<lparr>xfifo := take 15 (xfifo s @ [xpend s]), xpend := 0x9000 + (drop_bit 16 v AND 0x3ff)\<rparr>
        else s),
     cp15_wr = (\<lambda>r v s. s), cp15_rd = (\<lambda>r s. 0), gpio_base = 0, l2cc_invld_way = 0,
     l2cc_inv_cln_way = 0, l2cc_sync = 0\<rparr>"

lemma xadc_level: "n \<le> 15 \<Longrightarrow> signed_drop_bit 12 (push_bit 12 (of_nat n) :: word32) AND 0x0f = of_nat n"
proof -
  assume n: "n \<le> 15"
  have f: "bit n k \<Longrightarrow> k < 4" for k
  proof (rule ccontr)
    assume "bit n k" "\<not> k < 4"
    then have "(2::nat) ^ 4 \<le> 2 ^ k" by (intro power_increasing) simp_all
    with n have "n < 2 ^ k" by simp
    with \<open>bit n k\<close> show False by (simp add: bit_iff_odd)
  qed
  have m: "(0x0f :: word32) = mask 4" by (simp add: mask_eq_exp_minus_1)
  show ?thesis unfolding m by (rule bit_word_eqI) (auto simp: bit_simps dest: f)
qed

lemma xadc_platform_device:
  "xadc_device xadc_platform xfifo xpend (\<lambda>a. 0x9000 + a)"
  by (simp add: xadc_device_def xadc_platform_def xadc_level del: push_bit_of_nat)

lemma read_xadc_values_witness:
  "take 7 (dlist (snd (read_xadc xadc_platform
      (mt_init [] [] 0 (\<lparr>xfifo = [5, 6], xpend = 7\<rparr>)))))
    = [0x9000, 0x9001, 0x9002, 0x9006, 0x900d, 0x900e, 0x900f]"
  by (subst read_xadc_values [OF xadc_platform_device, THEN conjunct1]) simp_all

end
