(* ===== verification/EyeSpec.thy ===== *)
theory EyeSpec
  imports Eye MemtestProps
begin

text \<open>
  The eye sweep against its specification. The locale \<open>sweep_point\<close> is the interface between
  the sweep and the operation that tests one offset: every lane passes exactly inside its window.
  Within it the sweep finds, for each lane, the smallest and the largest offset of the grid that
  passes, although it stops at the first offset where all lanes fail.
\<close>

section \<open>The grid\<close>

definition grid_part :: "nat \<Rightarrow> int \<Rightarrow> nat \<Rightarrow> nat \<Rightarrow> int set" where
  "grid_part k d m n = eye_offset k d ` {m..<m + n} \<inter> {0..128}"

definition eye_grid :: "int \<Rightarrow> int set" where
  "eye_grid step = {i. 0 \<le> i \<and> i \<le> 128 \<and> (\<exists>m\<le>eye_mmax step.
     i = 64 + eye_mstep step * int m \<or> i = 60 - eye_mstep step * int m)}"

lemma grid_part_finite [simp]: "finite (grid_part k d m n)"
  by (simp add: grid_part_def)

lemma grid_part_0 [simp]: "grid_part k d m 0 = {}"
  by (simp add: grid_part_def)

lemma grid_part_Suc: "grid_part k d m (Suc n)
    = (if 0 \<le> eye_offset k d m \<and> eye_offset k d m \<le> 128
       then insert (eye_offset k d m) (grid_part k d (Suc m) n) else grid_part k d (Suc m) n)"
proof -
  have "{m..<m + Suc n} = insert m {Suc m..<Suc m + n}" by auto
  then show ?thesis by (auto simp: grid_part_def)
qed

lemma grid_part_later:
  assumes "0 < d" "i \<in> grid_part k d (Suc m) n"
  shows "if k = 0 then eye_offset k d m \<le> i else i \<le> eye_offset k d m"
proof -
  obtain m' where "m < m'" "i = eye_offset k d m'"
    using assms(2) by (auto simp: grid_part_def Suc_le_eq)
  moreover have "d * int m \<le> d * int m'" using \<open>m < m'\<close> assms(1) by simp
  ultimately show ?thesis by (simp add: eye_offset_def)
qed

lemma grid_part_outside:
  assumes "0 < d" "eye_offset k d m < 0 \<or> 128 < eye_offset k d m"
  shows "grid_part k d m n = {}"
proof (cases n)
  case (Suc n')
  have "0 \<le> d * int m" using assms(1) by simp
  then have side: "if k = 0 then 128 < eye_offset k d m else eye_offset k d m < 0"
    using assms(2) by (auto simp: eye_offset_def)
  have "i \<notin> grid_part k d (Suc m) n'" for i
  proof
    assume i: "i \<in> grid_part k d (Suc m) n'"
    then have "0 \<le> i" "i \<le> 128" by (auto simp: grid_part_def)
    with grid_part_later [OF assms(1) i] side show False by (simp split: if_splits)
  qed
  then have "grid_part k d (Suc m) n' = {}" by blast
  with assms(2) show ?thesis unfolding Suc grid_part_Suc by auto
qed simp

lemma eye_mstep_pos: "0 < eye_mstep step"
  by (simp add: eye_mstep_def)

lemma eye_grid_parts:
  "eye_grid step = grid_part 0 (eye_mstep step) 0 (eye_mmax step + 1)
     \<union> grid_part 1 (eye_mstep step) 0 (eye_mmax step + 1)"
  by (auto simp: eye_grid_def grid_part_def eye_offset_def image_iff less_Suc_eq_le Bex_def)

lemma eye_grid_64: "64 \<in> eye_grid step"
  by (auto simp: eye_grid_def intro!: exI [of _ 0])

lemma eye_grid_finite: "finite (eye_grid step)"
  by (rule finite_subset [of _ "{0..128}"]) (auto simp: eye_grid_def)

section \<open>The sweep finds the edges\<close>

definition low_edge :: "(nat \<Rightarrow> int \<Rightarrow> bool) \<Rightarrow> int set \<Rightarrow> nat \<Rightarrow> int" where
  "low_edge pass V j = Min (insert 9999 {i \<in> V. pass j i})"

definition high_edge :: "(nat \<Rightarrow> int \<Rightarrow> bool) \<Rightarrow> int set \<Rightarrow> nat \<Rightarrow> int" where
  "high_edge pass V j = Max (insert (- 9999) {i \<in> V. pass j i})"

definition eyes_of :: "(nat \<Rightarrow> int \<Rightarrow> bool) \<Rightarrow> int set \<Rightarrow> int list \<times> int list" where
  "eyes_of pass V = (map (low_edge pass V) [0, 1, 2, 3], map (high_edge pass V) [0, 1, 2, 3])"

lemma edges_empty: "low_edge pass {} k = 9999" "high_edge pass {} k = - 9999"
  by (simp_all add: low_edge_def high_edge_def)

lemma eyes_of_empty: "eyes_of pass {} = no_eyes"
  by (simp add: eyes_of_def no_eyes_def edges_empty)

lemma edges_insert:
  assumes "finite V"
  shows "low_edge pass (insert i V) k = (if pass k i then min (low_edge pass V k) i else low_edge pass V k)"
    "high_edge pass (insert i V) k = (if pass k i then max (high_edge pass V k) i else high_edge pass V k)"
proof -
  have fin: "finite (insert a {i \<in> V. pass k i})" for a using assms by simp
  have ins: "insert a {j \<in> insert i V. pass k j}
      = (if pass k i then insert i (insert a {i \<in> V. pass k i}) else insert a {i \<in> V. pass k i})" for a
    by auto
  show "low_edge pass (insert i V) k = (if pass k i then min (low_edge pass V k) i else low_edge pass V k)"
    unfolding low_edge_def ins using Min_insert [OF fin [of 9999], of i] by (simp add: min.commute del: Min_insert)
  show "high_edge pass (insert i V) k = (if pass k i then max (high_edge pass V k) i else high_edge pass V k)"
    unfolding high_edge_def ins using Max_insert [OF fin [of "- 9999"], of i]
    by (simp add: max.commute del: Max_insert)
qed

lemma edges_cong:
  "{i \<in> V. pass k i} = {i \<in> W. pass k i} \<Longrightarrow> low_edge pass V k = low_edge pass W k"
  "{i \<in> V. pass k i} = {i \<in> W. pass k i} \<Longrightarrow> high_edge pass V k = high_edge pass W k"
  by (simp_all add: low_edge_def high_edge_def)

lemma eyes_of_cong:
  assumes "\<And>k i. k < 4 \<Longrightarrow> pass k i \<Longrightarrow> i \<in> V \<longleftrightarrow> i \<in> W"
  shows "eyes_of pass V = eyes_of pass W"
proof -
  have "{i \<in> V. pass k i} = {i \<in> W. pass k i}" if "k < 4" for k using assms [OF that] by auto
  then show ?thesis
    using edges_cong [of V pass _ W] by (simp add: eyes_of_def)
qed

lemma eye_check_eyes:
  assumes "finite V" and "\<And>k. k < 4 \<Longrightarrow> errs ! k = 0 \<longleftrightarrow> pass k i"
  shows "eye_check i errs (eyes_of pass V) = eyes_of pass (insert i V)"
proof -
  have "errs ! 0 = 0 \<longleftrightarrow> pass 0 i" "errs ! 1 = 0 \<longleftrightarrow> pass 1 i" "errs ! 2 = 0 \<longleftrightarrow> pass 2 i"
    "errs ! 3 = 0 \<longleftrightarrow> pass 3 i"
    using assms(2) by simp_all
  then show ?thesis
    by (simp add: eye_check_def eyes_of_def edges_insert [OF assms(1)])
qed

locale sweep_point =
  fixes point :: "int \<Rightarrow> 'h mt \<Rightarrow> 'h mt option"
    and ready :: "'h mt \<Rightarrow> bool"
    and lo hi :: "nat \<Rightarrow> int"
  assumes point_ok: "ready s \<Longrightarrow> 0 \<le> i \<Longrightarrow> i \<le> 128 \<Longrightarrow> \<exists>s'. point i s = Some s' \<and> ready s'
      \<and> (\<forall>k<4. errcnt s' ! k = 0 \<longleftrightarrow> lo k \<le> i \<and> i \<le> hi k)"
    and middle: "ready s \<Longrightarrow> k < 4 \<Longrightarrow> lo k \<le> 64 \<and> 60 \<le> hi k"
begin

abbreviation pass :: "nat \<Rightarrow> int \<Rightarrow> bool" where
  "pass k i \<equiv> lo k \<le> i \<and> i \<le> hi k"

lemma loop_edges:
  assumes d: "0 < d"
  shows "ready s \<Longrightarrow> finite V \<Longrightarrow> \<exists>s'. eye_m_loop point k d n m (eyes_of pass V, s)
    = Some (eyes_of pass (V \<union> grid_part k d m n), s') \<and> ready s'"
proof (induction n arbitrary: m V s)
  case (Suc n)
  let ?i = "eye_offset k d m"
  show ?case
  proof (cases "?i < 0 \<or> 128 < ?i")
    case True
    then show ?thesis using Suc.prems(1) by (simp add: grid_part_outside [OF d])
  next
    case False
    then have i: "0 \<le> ?i" "?i \<le> 128" by simp_all
    obtain s1 where s1: "point ?i s = Some s1" "ready s1"
      and e: "\<And>k. k < 4 \<Longrightarrow> errcnt s1 ! k = 0 \<longleftrightarrow> pass k ?i"
      using point_ok [OF Suc.prems(1) i] by blast
    have chk: "eye_check ?i (errcnt s1) (eyes_of pass V) = eyes_of pass (insert ?i V)"
      using e by (intro eye_check_eyes Suc.prems(2)) blast
    have part: "V \<union> grid_part k d m (Suc n) = insert ?i V \<union> grid_part k d (Suc m) n"
      using i by (simp add: grid_part_Suc)
    show ?thesis
    proof (cases "all_lanes_fail (errcnt s1)")
      case True
      have fails: "\<not> pass j ?i" if "j < 4" for j
      proof -
        consider "j = 0" | "j = 1" | "j = 2" | "j = 3" using \<open>j < 4\<close> by linarith
        then have "0 < sint (errcnt s1 ! j)"
          using True by cases (simp_all add: all_lanes_fail_def)
        then show ?thesis using e [OF that] by auto
      qed
      have "\<not> pass j x" if j: "j < 4" and x: "x \<in> grid_part k d (Suc m) n" for j x
      proof -
        have side: "if k = 0 then 64 \<le> ?i else ?i \<le> 60"
          using d by (simp add: eye_offset_def)
        show ?thesis
          using grid_part_later [OF d x] fails [OF j] middle [OF Suc.prems(1) j] side
          by (auto split: if_splits)
      qed
      then have "eyes_of pass (insert ?i V) = eyes_of pass (insert ?i V \<union> grid_part k d (Suc m) n)"
        by (intro eyes_of_cong) auto
      then show ?thesis
        using False True s1 chk unfolding part by (simp add: Let_def)
    next
      case ok: False
      obtain s' where "eye_m_loop point k d n (m + 1) (eyes_of pass (insert ?i V), s1)
          = Some (eyes_of pass (insert ?i V \<union> grid_part k d (Suc m) n), s')" "ready s'"
        using Suc.IH [OF s1(2), of "insert ?i V" "m + 1"] Suc.prems(2) by auto
      then show ?thesis
        using False ok s1 chk unfolding part by (simp add: Let_def)
    qed
  qed
qed simp

lemma sweep_edges:
  assumes "ready s"
  shows "\<exists>s'. eye_sweep point step s = Some (eyes_of pass (eye_grid step), s') \<and> ready s'"
proof -
  let ?n = "eye_mmax step + 1" and ?d = "eye_mstep step"
  obtain s1 where s1: "eye_m_loop point 0 ?d ?n 0 (eyes_of pass {}, s)
      = Some (eyes_of pass ({} \<union> grid_part 0 ?d 0 ?n), s1)" "ready s1"
    using loop_edges [OF eye_mstep_pos assms finite.emptyI] by blast
  obtain s2 where s2: "eye_m_loop point 1 ?d ?n 0 (eyes_of pass (grid_part 0 ?d 0 ?n), s1)
      = Some (eyes_of pass (grid_part 0 ?d 0 ?n \<union> grid_part 1 ?d 0 ?n), s2)" "ready s2"
    using loop_edges [OF eye_mstep_pos s1(2) grid_part_finite] by blast
  show ?thesis
    using s1 s2 unfolding eye_sweep_def eyes_of_empty [of pass, symmetric] eye_grid_parts
    by (simp add: Let_def)
qed

end

end
