(* ===== verification/EyeMem.thy ===== *)
theory EyeMem
  imports EyeSpec
begin

text \<open>
  The eye measurement on DDR hardware. \<open>eye_device\<close> extends the memory contract by the register
  file \<open>cfg\<close> of the DDR controller, on which the faults depend; \<open>lane_window\<close> says that a byte
  lane works exactly while its delay is inside a window. Under that contract both point operations
  provide the interface \<open>sweep_point\<close>, so the measurements return the windows' edges on the grid.
\<close>

section \<open>Register addresses\<close>

lemma eye_addrs_in_table:
  "list_all (\<lambda>j. R46 + 4 * of_nat j \<in> set ddrc_addrs \<and> R55 + 4 * of_nat j \<in> set ddrc_addrs
    \<and> R5F + 4 * of_nat j \<in> set ddrc_addrs) [0, 1, 2, 3]"
  by (simp add: R46_def R55_def R5F_def ddrc_addrs_def)

lemma eye_addr_facts:
  assumes "j < 4" "k < 4"
  shows "R46 + 4 * of_nat j \<noteq> R55 + 4 * of_nat k" "R46 + 4 * of_nat j \<noteq> R5F + 4 * of_nat k"
    "R5F + 4 * of_nat j \<noteq> R55 + 4 * of_nat k" "(R5F + 4 * of_nat j = R5F + 4 * of_nat k) = (j = k)"
    "(R50 + 4 * of_nat j = R50 + 4 * of_nat k) = (j = k)" "R5A + 4 * of_nat j \<noteq> R50 + 4 * of_nat k"
    "(R5A + 4 * of_nat j = R5A + 4 * of_nat k) = (j = k)"
    "R00 \<noteq> R50 + 4 * of_nat j" "R00 \<noteq> R5F + 4 * of_nat j" "R00 \<noteq> R55 + 4 * of_nat j"
    "ddrc_block (R50 + 4 * of_nat j)" "ddrc_block (R5A + 4 * of_nat j)"
    "R46 + 4 * of_nat j \<in> set ddrc_addrs" "R55 + 4 * of_nat j \<in> set ddrc_addrs"
    "R5F + 4 * of_nat j \<in> set ddrc_addrs"
proof -
  have j: "j = 0 \<or> j = 1 \<or> j = 2 \<or> j = 3" and k: "k = 0 \<or> k = 1 \<or> k = 2 \<or> k = 3"
    using assms by linarith+
  note defs = R46_def R55_def R5F_def R50_def R5A_def R00_def ddrc_block_def
  show "R46 + 4 * of_nat j \<noteq> R55 + 4 * of_nat k" "R46 + 4 * of_nat j \<noteq> R5F + 4 * of_nat k"
    "R5F + 4 * of_nat j \<noteq> R55 + 4 * of_nat k" "(R5F + 4 * of_nat j = R5F + 4 * of_nat k) = (j = k)"
    "(R50 + 4 * of_nat j = R50 + 4 * of_nat k) = (j = k)" "R5A + 4 * of_nat j \<noteq> R50 + 4 * of_nat k"
    "(R5A + 4 * of_nat j = R5A + 4 * of_nat k) = (j = k)"
    using j k by (elim disjE; simp add: defs)+
  show "R00 \<noteq> R50 + 4 * of_nat j" "R00 \<noteq> R5F + 4 * of_nat j" "R00 \<noteq> R55 + 4 * of_nat j"
    "ddrc_block (R50 + 4 * of_nat j)" "ddrc_block (R5A + 4 * of_nat j)"
    using j by (elim disjE; simp add: defs)+
  have "j \<in> set [0, 1, 2, 3]" using j by auto
  with eye_addrs_in_table show "R46 + 4 * of_nat j \<in> set ddrc_addrs"
    "R55 + 4 * of_nat j \<in> set ddrc_addrs" "R5F + 4 * of_nat j \<in> set ddrc_addrs"
    unfolding list_all_iff by blast+
qed

lemma ddrc_addrs_facts:
  "distinct (butlast ddrc_addrs)" "last ddrc_addrs = R00" "list_all ddrc_block ddrc_addrs" "ddrc_block R00"
  "ddrc_addrs \<noteq> []"
proof -
  have "sorted_wrt (<) (butlast ddrc_addrs)"
    by (simp add: ddrc_addrs_def sorted_wrt2_simps del: sorted_wrt.simps)
  then show "distinct (butlast ddrc_addrs)" using strict_sorted_iff by blast
qed (simp_all add: ddrc_addrs_def R00_def ddrc_block_def)

section \<open>The register list\<close>

lemma glv_same:
  assumes "lsb + width \<le> 32" "a \<in> fst ` set l"
  shows "get_reglist_value (update_reglist l a lsb width v) a lsb width = take_bit width v"
  by (simp add: get_reglist_value_def reglist_scan_update [OF assms])

lemma glv_other:
  assumes "lsb + width \<le> 32" "lsb' + width' \<le> 32" "a' \<in> fst ` set l" "a' \<noteq> a"
  shows "get_reglist_value (update_reglist l a lsb width v) a' lsb' width' = get_reglist_value l a' lsb' width'"
  using reglist_scan_other [of lsb width lsb' width' a' l a] assms by (simp add: get_reglist_value_def)

lemma set_wr_offset_addrs [simp]: "map fst (set_wr_offset j i l) = map fst l"
  by (simp add: set_wr_offset_def Let_def)

lemma set_wr_offset_fields:
  assumes l: "map fst l = ddrc_addrs" and j: "j < 4" and k: "k < 4"
  shows "get_reglist_value (set_wr_offset j i l) (R55 + 4 * of_nat k) 0 10
      = get_reglist_value l (R55 + 4 * of_nat k) 0 10"
    "get_reglist_value (set_wr_offset j i l) (R5F + 4 * of_nat k) 0 10
      = (if k = j then take_bit 10 (get_reglist_value l (R55 + 4 * of_nat j) 0 10 + of_int i)
         else get_reglist_value l (R5F + 4 * of_nat k) 0 10)"
proof -
  let ?l = "update_reglist l (R46 + 4 * of_nat j) 24 7 (of_int i)"
  let ?v = "get_reglist_value ?l (R55 + 4 * of_nat j) 0 10 + of_int i"
  have eq: "set_wr_offset j i l = update_reglist ?l (R5F + 4 * of_nat j) 0 10 ?v"
    by (simp add: set_wr_offset_def Let_def)
  have mem: "a \<in> fst ` set l' \<longleftrightarrow> a \<in> set ddrc_addrs" if "map fst l' = ddrc_addrs" for a and l' :: reglist
    by (metis list.set_map that)
  have l1: "map fst ?l = ddrc_addrs" using l by simp
  note f = eye_addr_facts [OF j k] and g = eye_addr_facts [OF k j]
  have a55: "R55 + 4 * of_nat x \<in> fst ` set ?l" "R55 + 4 * of_nat x \<in> fst ` set l"
    "R5F + 4 * of_nat x \<in> fst ` set ?l" "R5F + 4 * of_nat x \<in> fst ` set l" if "x < 4" for x
    unfolding mem [OF l1] mem [OF l] using eye_addr_facts(14,15) [OF that that] by blast+
  have o1: "get_reglist_value ?l (R55 + 4 * of_nat x) 0 10 = get_reglist_value l (R55 + 4 * of_nat x) 0 10"
    if "x < 4" for x
    by (rule glv_other) (use a55(2) [OF that] eye_addr_facts(1) [OF j that] in auto)
  show "get_reglist_value (set_wr_offset j i l) (R55 + 4 * of_nat k) 0 10
      = get_reglist_value l (R55 + 4 * of_nat k) 0 10"
    unfolding eq o1 [OF k, symmetric] by (rule glv_other) (use a55(1) [OF k] f(3) in auto)
  show "get_reglist_value (set_wr_offset j i l) (R5F + 4 * of_nat k) 0 10
      = (if k = j then take_bit 10 (get_reglist_value l (R55 + 4 * of_nat j) 0 10 + of_int i)
         else get_reglist_value l (R5F + 4 * of_nat k) 0 10)"
  proof (cases "k = j")
    case True
    have "get_reglist_value (update_reglist ?l (R5F + 4 * of_nat j) 0 10 ?v) (R5F + 4 * of_nat j) 0 10
        = take_bit 10 ?v"
      by (rule glv_same) (use a55(3) [OF j] in auto)
    then show ?thesis unfolding eq o1 [OF j] by (simp add: True)
  next
    case False
    have "get_reglist_value (update_reglist ?l (R5F + 4 * of_nat j) 0 10 ?v) (R5F + 4 * of_nat k) 0 10
        = get_reglist_value ?l (R5F + 4 * of_nat k) 0 10"
      by (rule glv_other) (use a55(3) [OF k] f(4) False in auto)
    also have "\<dots> = get_reglist_value l (R5F + 4 * of_nat k) 0 10"
      by (rule glv_other) (use a55(4) [OF k] f(2) in auto)
    finally show ?thesis unfolding eq by (simp only: False if_False)
  qed
qed

lemma set_wr_offsets_fields:
  assumes "map fst l = ddrc_addrs" "set js \<subseteq> {..<4}" "k < 4"
  shows "map fst (fold (\<lambda>j. set_wr_offset j i) js l) = ddrc_addrs"
    "get_reglist_value (fold (\<lambda>j. set_wr_offset j i) js l) (R55 + 4 * of_nat k) 0 10
      = get_reglist_value l (R55 + 4 * of_nat k) 0 10"
    "get_reglist_value (fold (\<lambda>j. set_wr_offset j i) js l) (R5F + 4 * of_nat k) 0 10
      = (if k \<in> set js then take_bit 10 (get_reglist_value l (R55 + 4 * of_nat k) 0 10 + of_int i)
         else get_reglist_value l (R5F + 4 * of_nat k) 0 10)"
proof -
  have "map fst (fold (\<lambda>j. set_wr_offset j i) js l) = ddrc_addrs
    \<and> get_reglist_value (fold (\<lambda>j. set_wr_offset j i) js l) (R55 + 4 * of_nat k) 0 10
      = get_reglist_value l (R55 + 4 * of_nat k) 0 10
    \<and> get_reglist_value (fold (\<lambda>j. set_wr_offset j i) js l) (R5F + 4 * of_nat k) 0 10
      = (if k \<in> set js then take_bit 10 (get_reglist_value l (R55 + 4 * of_nat k) 0 10 + of_int i)
         else get_reglist_value l (R5F + 4 * of_nat k) 0 10)"
    using assms(1,2)
  proof (induction js arbitrary: l)
    case (Cons j js)
    have j: "j < 4" and js: "set js \<subseteq> {..<4}" using Cons.prems(2) by auto
    have l: "map fst (set_wr_offset j i l) = ddrc_addrs" using Cons.prems(1) by simp
    note IH = Cons.IH [OF l js, unfolded set_wr_offset_fields [OF Cons.prems(1) j assms(3)]]
    show ?case using IH by auto
  qed simp
  then show "map fst (fold (\<lambda>j. set_wr_offset j i) js l) = ddrc_addrs"
    "get_reglist_value (fold (\<lambda>j. set_wr_offset j i) js l) (R55 + 4 * of_nat k) 0 10
      = get_reglist_value l (R55 + 4 * of_nat k) 0 10"
    "get_reglist_value (fold (\<lambda>j. set_wr_offset j i) js l) (R5F + 4 * of_nat k) 0 10
      = (if k \<in> set js then take_bit 10 (get_reglist_value l (R55 + 4 * of_nat k) 0 10 + of_int i)
         else get_reglist_value l (R5F + 4 * of_nat k) 0 10)"
    by blast+
qed

text \<open>The last write of the table to an address that occurs once is that entry's data.\<close>

lemma fold_upd_other:
  "a \<notin> fst ` set l \<Longrightarrow> fold (\<lambda>(a, d) c. c(a := d)) l c a = c a"
  by (induction l arbitrary: c) auto

lemma fold_upd_field:
  assumes "a \<in> fst ` set l" "distinct (filter (\<lambda>x. x = a) (map fst l))"
  shows "get_bit_field (fold (\<lambda>(a, d) c. c(a := d)) l c a) lsb width = reglist_scan x l a lsb width"
  using assms
proof (induction l arbitrary: c x)
  case (Cons e l)
  obtain b d where e: "e = (b, d)" by (cases e)
  show ?case
  proof (cases "b = a")
    case True
    then have "a \<notin> fst ` set l" using Cons.prems(2) by (auto simp: e)
    have "fold (\<lambda>(a, d) c. c(a := d)) l (c(a := d)) a = d"
      using fold_upd_other [OF \<open>a \<notin> fst ` set l\<close>, of "c(a := d)"] by (simp only: fun_upd_same)
    with True show ?thesis by (simp add: e del: fun_upd_apply)
  next
    case False
    with Cons.prems Cons.IH show ?thesis by (simp add: e)
  qed
qed simp

lemma ddrc_addrs_once:
  assumes "a \<noteq> R00"
  shows "distinct (filter (\<lambda>x. x = a) ddrc_addrs)"
proof -
  have "filter (\<lambda>x. x = a) ddrc_addrs = filter (\<lambda>x. x = a) (butlast ddrc_addrs @ [R00])"
    using append_butlast_last_id [OF ddrc_addrs_facts(5)] unfolding ddrc_addrs_facts(2) by simp
  with assms show ?thesis using ddrc_addrs_facts(1) by simp
qed

section \<open>The device\<close>

text \<open>
  A memory whose faults depend on the registers of the DDR controller: at every fixed setting
  \<open>c\<close> it is a memory in the sense of \<open>dram\<close> with the faults \<open>flt c\<close>, the registers hold what
  was written to them, and writes elsewhere leave them alone.
\<close>

definition eye_device ::
    "'h platform \<Rightarrow> ('h \<Rightarrow> word32 \<Rightarrow> word32) \<Rightarrow> ('h \<Rightarrow> word32 \<Rightarrow> word32) \<Rightarrow> ('h \<Rightarrow> (nat \<times> nat) set)
      \<Rightarrow> ('h \<Rightarrow> bool) \<Rightarrow> ddr_fault \<Rightarrow> bool"
where
  "eye_device P cfg cell dirty clean flt \<longleftrightarrow>
     (\<forall>c. dram P (\<lambda>h. cfg h = c) cell dirty clean (flt c)) \<and>
     (\<forall>a v h. cfg (wr32 P a v h) = (if ddrc_block a then (cfg h)(a := v) else cfg h)) \<and>
     (\<forall>a h. ddrc_block a \<longrightarrow> fst (rd32 P a h) = cfg h a)"

lemma eye_deviceD:
  assumes "eye_device P cfg cell dirty clean flt"
  shows "dram P (\<lambda>h. cfg h = c) cell dirty clean (flt c)"
    "cfg (wr32 P a v h) = (if ddrc_block a then (cfg h)(a := v) else cfg h)"
    "ddrc_block a \<Longrightarrow> fst (rd32 P a h) = cfg h a"
    "cfg (snd (rd32 P a h)) = cfg h"
proof -
  show d: "dram P (\<lambda>h. cfg h = c) cell dirty clean (flt c)" for c
    using assms by (simp add: eye_device_def)
  show "cfg (snd (rd32 P a h)) = cfg h"
    using dram_inv(3) [OF d [of "cfg h"]] by simp
qed (use assms in \<open>simp_all add: eye_device_def\<close>)

lemma ddrc_block_not_ddr: "\<not> (a < ddr_top \<and> ddrc_block a)"
  using order.strict_trans1 [of "0xF8006000" a "0x40000000"] by (auto simp: ddrc_block_def ddr_top_def)

lemma ddr_platform_eye_device: "eye_device (ddr_platform flt) ddr_cfg ddr_cell sim_dirty sim_clean flt"
proof -
  have "dram (ddr_platform flt) (\<lambda>h. ddr_cfg h = c) ddr_cell sim_dirty sim_clean (flt c)" for c
  proof -
    have m: "dram (ddr_platform flt) (\<lambda>h. flt (ddr_cfg h) = flt c) ddr_cell sim_dirty sim_clean (flt c)"
      by (rule ddr_platform_dram)
    have io: "ddr_cfg (sim_wr a v h) = ddr_cfg h" if "test_io (ddr_platform flt) a" for a v h
      using sim_io_wr(1) [OF that, of v h] by (auto simp: sim_io_wr(2))
    have mem: "ddr_cfg (sim_wr a v h) = ddr_cfg h" if "a < ddr_top" for a v h
      using that by (simp add: sim_wr_def)
    show ?thesis
      using m io mem unfolding dram_def ddr_platform_sel by (simp add: ddr_platform_def)
  qed
  moreover have "ddr_cfg (sim_wr a v h) = (if ddrc_block a then (ddr_cfg h)(a := v) else ddr_cfg h)"
    for a v h
    using ddrc_block_not_ddr [of a] by (auto simp: sim_wr_def)
  moreover have "ddrc_block a \<Longrightarrow> sim_rd flt a h = ddr_cfg h a" for a h
    using ddrc_block_not_ddr [of a] by (auto simp: sim_rd_def)
  ultimately show ?thesis
    by (simp add: eye_device_def)
qed

definition lane_windows ::
    "((word32 \<Rightarrow> word32) \<Rightarrow> nat \<Rightarrow> int) \<Rightarrow> ddr_fault \<Rightarrow> (nat \<Rightarrow> int) \<Rightarrow> (nat \<Rightarrow> int) \<Rightarrow> bool"
where
  "lane_windows delay flt lo hi \<longleftrightarrow>
     (\<forall>c k a v. k < 4 \<longrightarrow> (if lo k \<le> delay c k \<and> delay c k \<le> hi k
        then flt c a v AND lane k = v AND lane k else flt c a v AND lane k \<noteq> v AND lane k))"

definition write_delay :: "(word32 \<Rightarrow> word32) \<Rightarrow> nat \<Rightarrow> int" where
  "write_delay c k = uint (get_bit_field (c (R5F + 4 * of_nat k)) 0 10)
     - uint (get_bit_field (c (R55 + 4 * of_nat k)) 0 10)"

definition read_delay :: "(word32 \<Rightarrow> word32) \<Rightarrow> nat \<Rightarrow> int" where
  "read_delay c k = uint (get_bit_field (c (R50 + 4 * of_nat k)) 0 10)"

lemma cfg_ddrc_init:
  assumes dev: "eye_device P cfg cell dirty clean flt" and l: "map fst (reg_values s) = ddrc_addrs"
  shows "cfg (hw (ddrc_init P s)) = fold (\<lambda>(a, d) c. c(a := d)) (reg_values s) (cfg (hw s))"
proof -
  have "cfg (fold (\<lambda>(a, d). wr32 P a d) l h) = fold (\<lambda>(a, d) c. c(a := d)) l (cfg h)"
    if "list_all ddrc_block (map fst l)" for l h
    using that by (induction l arbitrary: h) (auto simp: eye_deviceD(2) [OF dev])
  then show ?thesis using ddrc_addrs_facts(3) by (simp add: ddrc_init_hw l)
qed

lemma ddrc_init_field:
  assumes dev: "eye_device P cfg cell dirty clean flt" and l: "map fst (reg_values s) = ddrc_addrs"
    and a: "a \<noteq> R00" "a \<in> set ddrc_addrs"
  shows "get_bit_field (cfg (hw (ddrc_init P s)) a) lsb width = get_reglist_value (reg_values s) a lsb width"
  unfolding cfg_ddrc_init [OF dev l] get_reglist_value_def
  by (rule fold_upd_field) (use a l ddrc_addrs_once [OF a(1)] in \<open>simp_all add: image_set [symmetric] del: set_map\<close>, metis image_set)

section \<open>One point of a sweep\<close>

lemma eye_sel_200: "fast_bc = 0 \<or> fast = 0 \<Longrightarrow> eye_sel fast_bc fast AND 0x200 \<noteq> 0"
  by (auto simp: eye_sel_def)

lemma memtest_all_at:
  assumes dev: "eye_device P cfg cell dirty clean flt" and win: "lane_windows delay flt lo hi"
    and reg: "region start (4 * n_iter sz 16)" and sz: "0 < sz" and fast: "fast_bc = 0 \<or> fast = 0"
    and d: "\<And>k. k < 4 \<Longrightarrow> delay (cfg (hw s)) k = i"
  shows "\<exists>s'. memtest_all P start sz (eye_sel fast_bc fast) 0 s = Some s' \<and> cfg (hw s') = cfg (hw s)
    \<and> same_config s s' \<and> (\<forall>k<4. errcnt s' ! k = 0 \<longleftrightarrow> lo k \<le> i \<and> i \<le> hi k)"
proof -
  have ready: "memory_ready P (\<lambda>h. cfg h = cfg (hw s)) cell dirty clean (flt (cfg (hw s))) start sz s"
    using eye_deviceD(1) [OF dev] reg by (simp add: memory_ready_def)
  show ?thesis
  proof (rule memtest_all_lanes [OF ready _ eye_sel_200 [OF fast] sz])
    show "flt (cfg (hw s)) a v AND lane k = v AND lane k"
      if "k < 4" "lo k \<le> i \<and> i \<le> hi k" for k a v
      using win that d [OF that(1)] by (simp add: lane_windows_def)
    show "flt (cfg (hw s)) a v AND lane k \<noteq> v AND lane k"
      if "k < 4" "\<not> (lo k \<le> i \<and> i \<le> hi k)" for k a v
      using win that d [OF that(1)] unfolding lane_windows_def by metis
  qed simp
qed

text \<open>What both sweeps rely on: the device, the windows around the middle, the tested region.\<close>

definition eye_setup ::
    "((word32 \<Rightarrow> word32) \<Rightarrow> nat \<Rightarrow> int) \<Rightarrow> 'h platform \<Rightarrow> ('h \<Rightarrow> word32 \<Rightarrow> word32) \<Rightarrow> ('h \<Rightarrow> word32 \<Rightarrow> word32)
      \<Rightarrow> ('h \<Rightarrow> (nat \<times> nat) set) \<Rightarrow> ('h \<Rightarrow> bool) \<Rightarrow> ddr_fault \<Rightarrow> (nat \<Rightarrow> int) \<Rightarrow> (nat \<Rightarrow> int)
      \<Rightarrow> word32 \<Rightarrow> int \<Rightarrow> bool"
where
  "eye_setup delay P cfg cell dirty clean flt lo hi start sz \<longleftrightarrow>
     eye_device P cfg cell dirty clean flt \<and> lane_windows delay flt lo hi
     \<and> (\<forall>k<4. lo k \<le> 64 \<and> 60 \<le> hi k) \<and> region start (4 * n_iter sz 16) \<and> 0 < sz"

definition write_eye_ready where
  "write_eye_ready P cfg cell dirty clean flt lo hi start sz fast dqs s \<longleftrightarrow>
     eye_setup write_delay P cfg cell dirty clean flt lo hi start sz
     \<and> map fst (reg_values s) = ddrc_addrs
     \<and> (\<forall>k<4. get_reglist_value (reg_values s) (R55 + 4 * of_nat k) 0 10 = dqs k
          \<and> uint (dqs k :: word32) + 128 < 1024)
     \<and> (fast_is_bc s = 0 \<or> fast = 0)"

lemma write_eye_delay:
  assumes "uint (dqs :: word32) + 128 < 1024" "0 \<le> i" "i \<le> 128"
  shows "uint (take_bit 10 (dqs + of_int i)) - uint dqs = i"
proof -
  have i: "uint (of_int i :: word32) = i" using assms(2,3) by (simp add: uint_word_of_int_eq take_bit_int_eq_self)
  have "uint (dqs + of_int i) = uint dqs + i"
    using assms by (subst uint_add_lem [THEN iffD1]) (simp_all add: i)
  then show ?thesis
    using assms by (simp add: unsigned_take_bit_eq take_bit_int_eq_self)
qed

lemma write_eye_point_ok:
  assumes s: "write_eye_ready P cfg cell dirty clean flt lo hi start sz fast dqs s"
    and i: "0 \<le> i" "i \<le> 128"
  shows "\<exists>s'. write_eye_point P start sz fast i s = Some s'
    \<and> write_eye_ready P cfg cell dirty clean flt lo hi start sz fast dqs s'
    \<and> (\<forall>k<4. errcnt s' ! k = 0 \<longleftrightarrow> lo k \<le> i \<and> i \<le> hi k)"
proof -
  have dev: "eye_device P cfg cell dirty clean flt" and win: "lane_windows write_delay flt lo hi"
    and reg: "region start (4 * n_iter sz 16)" and sz: "0 < sz"
    using s by (simp_all add: write_eye_ready_def eye_setup_def)
  have dqs: "uint (dqs k) + 128 < 1024" if "k < 4" for k using s that by (simp add: write_eye_ready_def)
  let ?l = "fold (\<lambda>j. set_wr_offset j i) [0, 1, 2, 3] (reg_values s)"
  let ?s1 = "(REG_WRITE P MAILBOX_STAT (of_int i) s)\<lparr>reg_values := ?l\<rparr>"
  let ?s = "ddrc_init P ?s1"
  have l0: "map fst (reg_values s) = ddrc_addrs" using s by (simp add: write_eye_ready_def)
  have js: "set [0, 1, 2, 3] \<subseteq> {..<4::nat}" by simp
  note f = set_wr_offsets_fields [OF l0 js]
  have l: "map fst ?l = ddrc_addrs" using f(1) [of 0] by simp
  have rv: "reg_values ?s1 = ?l" by simp
  have l1: "map fst (reg_values ?s1) = ddrc_addrs" using l by simp
  have d: "write_delay (cfg (hw ?s)) k = i" if k: "k < 4" for k
  proof -
    have in4: "k \<in> set [0, 1, 2, 3]" using k by auto
    have r55: "get_reglist_value (reg_values s) (R55 + 4 * of_nat k) 0 10 = dqs k"
      using s k by (simp add: write_eye_ready_def)
    note e = eye_addr_facts [OF k k]
    show ?thesis
      unfolding write_delay_def
      using ddrc_init_field [OF dev l1 e(9) [symmetric] e(15), of 0 10]
        ddrc_init_field [OF dev l1 e(10) [symmetric] e(14), of 0 10]
        f(2,3) [OF k, of i] in4 write_eye_delay [OF dqs [OF k] i]
      by (simp only: r55 rv if_True)
  qed
  have keep: "reg_values ?s = ?l" "fast_is_bc ?s = fast_is_bc s"
    by (simp_all add: ddrc_init_hw REG_WRITE_def)
  have fast: "fast_is_bc ?s = 0 \<or> fast = 0" using s unfolding keep(2) by (simp only: write_eye_ready_def)
  obtain s' where s': "memtest_all P start sz (eye_sel (fast_is_bc ?s) fast) 0 ?s = Some s'"
    "same_config ?s s'"
    "\<forall>k<4. errcnt s' ! k = 0 \<longleftrightarrow> lo k \<le> i \<and> i \<le> hi k"
    using memtest_all_at [where cfg = cfg and delay = write_delay and i = i and fast_bc = "fast_is_bc ?s"
      and s = ?s, OF dev win reg sz fast d] by blast
  have "reg_values s' = ?l" "fast_is_bc s' = fast_is_bc s"
    using s'(2) keep by (simp_all only: same_config_def)
  then have "write_eye_ready P cfg cell dirty clean flt lo hi start sz fast dqs s'"
    using s f(2) l by (simp add: write_eye_ready_def)
  moreover have "write_eye_point P start sz fast i s = Some s'"
    using s'(1) unfolding write_eye_point_def Let_def by (simp add: REG_WRITE_def)
  ultimately show ?thesis using s'(3) by blast
qed

interpretation write_eye: sweep_point "write_eye_point P start sz fast"
    "write_eye_ready P cfg cell dirty clean flt lo hi start sz fast dqs" lo hi
  for P cfg cell dirty clean flt lo hi start sz fast dqs
  by unfold_locales (rule write_eye_point_ok, auto simp: write_eye_ready_def eye_setup_def)

section \<open>The write eye\<close>

lemma set_wr_offset_4: "map fst l = ddrc_addrs \<Longrightarrow> set_wr_offset 4 i l = l"
proof -
  assume l: "map fst l = ddrc_addrs"
  have "R46 + 4 * of_nat 4 \<notin> set ddrc_addrs" "R5F + 4 * of_nat 4 \<notin> set ddrc_addrs"
    by (simp_all add: R46_def R5F_def ddrc_addrs_def)
  then have "R46 + 4 * of_nat 4 \<notin> fst ` set l" "R5F + 4 * of_nat 4 \<notin> fst ` set l"
    using l by (metis list.set_map)+
  then show ?thesis
    by (simp add: set_wr_offset_def update_reglist_absent)
qed

lemma eye_save_keeps: "reg_values (eye_save P eyes s) = reg_values s" "verbose (eye_save P eyes s) = verbose s"
  by (simp_all add: eye_save_def case_prod_beta REG_WRITE_def)

text \<open>C35. \<open>measure_write_eye\<close> measures the write eye. Each byte lane is assumed to work exactly
  while its write data delay (data ratio minus strobe ratio, in the controller's registers) lies in
  a window around the middle. Then the function returns for each lane the smallest and the largest
  offset of the sweep's grid inside that lane's window, although it stops sweeping in a direction
  at the first offset where all four lanes fail, and it leaves the register list as it was, the
  centring requested by \<open>fix_ctr\<close> included. Two cases are excluded: a strobe ratio of 896 or more in one of the
  registers, for which the 10-bit data ratio of the larger offsets wraps round, and the setting in which a fast
  sweep measures the best case (\<open>fast_is_bc\<close>, toggled by command j, and \<open>fast\<close> both set).\<close>

theorem measure_write_eye_edges:
  assumes env: "eye_setup write_delay P cfg cell dirty clean flt lo hi 0x100000 (1024 * 1024 * sz_scl)"
    and regs: "map fst (reg_values s) = ddrc_addrs"
    and dqs: "\<And>k. k < 4 \<Longrightarrow> uint (get_reglist_value (reg_values s) (R55 + 4 * of_nat k) 0 10) + 128 < 1024"
    and fast: "fast_is_bc s = 0 \<or> fast = 0"
  shows "\<exists>s'. measure_write_eye P step sz_scl fast fix_ctr save s
      = Some (eye_result (eyes_of (\<lambda>k i. lo k \<le> i \<and> i \<le> hi k) (eye_grid step)), s')
    \<and> reg_values s' = reg_values s"
proof -
  let ?dqs = "\<lambda>k. get_reglist_value (reg_values s) (R55 + 4 * of_nat k) 0 10"
  let ?s = "s\<lparr>memtest_stat := 0\<rparr>"
  have "write_eye_ready P cfg cell dirty clean flt lo hi 0x100000 (1024 * 1024 * sz_scl) fast ?dqs ?s"
    using env regs fast dqs by (simp add: write_eye_ready_def)
  from write_eye.sweep_edges [OF this, of step]
  obtain s1 where s1: "eye_sweep (write_eye_point P 0x100000 (1024 * 1024 * sz_scl) fast) step ?s
      = Some (eyes_of (\<lambda>k i. lo k \<le> i \<and> i \<le> hi k) (eye_grid step), s1)"
    by blast
  show ?thesis
    using s1 regs
    by (simp add: measure_write_eye_def write_eye_fix_def Let_def case_prod_beta eye_save_keeps REG_WRITE_def
        set_wr_offset_4)
qed

section \<open>The read eye\<close>

text \<open>The effect of writing both registers of some lanes.\<close>

definition lanes_write ::
    "'h platform \<Rightarrow> (nat \<Rightarrow> word32) \<Rightarrow> (nat \<Rightarrow> word32) \<Rightarrow> nat list \<Rightarrow> 'h mt \<Rightarrow> 'h mt" where
  "lanes_write P f g js s = fold (\<lambda>j s. REG_WRITE P (R5A + 4 * of_nat j) (g j)
     (REG_WRITE P (R50 + 4 * of_nat j) (f j) s)) js s"

definition lane_regs :: "word32 set" where
  "lane_regs = (\<lambda>j. R50 + 4 * of_nat j) ` {..<4} \<union> (\<lambda>j. R5A + 4 * of_nat j) ` {..<4}"

lemma lane_regs_write:
  assumes dev: "eye_device P cfg cell dirty clean flt" and js: "set js \<subseteq> {..<4}"
  shows "(k < 4 \<longrightarrow> cfg (hw (lanes_write P f g js s)) (R50 + 4 * of_nat k)
        = (if k \<in> set js then f k else cfg (hw s) (R50 + 4 * of_nat k)))
    \<and> (k < 4 \<longrightarrow> cfg (hw (lanes_write P f g js s)) (R5A + 4 * of_nat k)
        = (if k \<in> set js then g k else cfg (hw s) (R5A + 4 * of_nat k)))
    \<and> (a \<notin> lane_regs \<longrightarrow> cfg (hw (lanes_write P f g js s)) a = cfg (hw s) a)
    \<and> fast_is_bc (lanes_write P f g js s) = fast_is_bc s"
  using js
proof (induction js arbitrary: s)
  case Nil
  show ?case by (simp add: lanes_write_def)
next
  case (Cons j js)
  then have j: "j < 4" and js: "set js \<subseteq> {..<4}" by auto
  let ?s = "lanes_write P f g [j] s"
  have hd: "cfg (hw ?s) = (cfg (hw s))(R50 + 4 * of_nat j := f j, R5A + 4 * of_nat j := g j)"
    using eye_addr_facts(11,12) [OF j j] by (simp add: lanes_write_def REG_WRITE_def eye_deviceD(2) [OF dev])
  have step: "lanes_write P f g (j # js) s = lanes_write P f g js ?s" by (simp add: lanes_write_def)
  have out: "a \<noteq> R50 + 4 * of_nat j" "a \<noteq> R5A + 4 * of_nat j" if "a \<notin> lane_regs"
    using that j by (auto simp: lane_regs_def)
  have fb: "fast_is_bc ?s = fast_is_bc s" by (simp add: lanes_write_def REG_WRITE_def)
  note IH = Cons.IH [OF js, of ?s, unfolded hd fb]
  have k: "cfg (hw ?s) (R50 + 4 * of_nat k) = (if k = j then f k else cfg (hw s) (R50 + 4 * of_nat k))"
    "cfg (hw ?s) (R5A + 4 * of_nat k) = (if k = j then g k else cfg (hw s) (R5A + 4 * of_nat k))"
    if "k < 4"
    using eye_addr_facts(5,6,7) [OF j that] eye_addr_facts(5,6,7) [OF that j] unfolding hd by auto
  show ?case
    unfolding step using Cons.IH [OF js, of ?s] k out fb hd by auto
qed

definition read_eye_ready where
  "read_eye_ready P cfg cell dirty clean flt lo hi start sz fast c0 s \<longleftrightarrow>
     eye_setup read_delay P cfg cell dirty clean flt lo hi start sz
     \<and> (fast_is_bc s = 0 \<or> fast = 0) \<and> (\<forall>a. a \<notin> {R00, R2C, R65} \<union> lane_regs \<longrightarrow> cfg (hw s) a = c0 a)"

lemma control_regs:
  "R00 \<notin> lane_regs" "R2C \<notin> lane_regs" "R65 \<notin> lane_regs" "R00 \<noteq> R2C" "R00 \<noteq> R65" "R2C \<noteq> R65"
  "ddrc_block R00" "ddrc_block R2C" "ddrc_block R65"
  by (auto simp: lane_regs_def lessThan_nat_numeral lessThan_Suc R00_def R2C_def R65_def R50_def R5A_def
      ddrc_block_def)

lemma read_eye_delay:
  assumes "0 \<le> i" "i \<le> 128"
  shows "uint (get_bit_field (of_int i) 0 10) = i"
proof -
  have "get_bit_field (of_int i) 0 10 = take_bit 10 (of_int i)"
    by (rule bit_word_eqI) (auto simp: bit_get_bit_field bit_simps)
  then show ?thesis using assms
    by (simp add: unsigned_take_bit_eq uint_word_of_int_eq take_bit_int_eq_self)
qed

lemma read_eye_point_ok:
  assumes s: "read_eye_ready P cfg cell dirty clean flt lo hi start sz fast c0 s"
    and i: "0 \<le> i" "i \<le> 128"
  shows "\<exists>s'. read_eye_point P ctrl regs start sz fast i s = Some s'
    \<and> read_eye_ready P cfg cell dirty clean flt lo hi start sz fast c0 s'
    \<and> (\<forall>k<4. errcnt s' ! k = 0 \<longleftrightarrow> lo k \<le> i \<and> i \<le> hi k)"
proof -
  have dev: "eye_device P cfg cell dirty clean flt" and win: "lane_windows read_delay flt lo hi"
    and reg: "region start (4 * n_iter sz 16)" and sz: "0 < sz"
    using s by (simp_all add: read_eye_ready_def eye_setup_def)
  let ?dis = "REG_WRITE P R00 (ctrl AND 0xfffffffe) (REG_WRITE P MAILBOX_STAT (of_int i) s)"
  let ?s1 = "lanes_write P (\<lambda>_. of_int i) (\<lambda>j. of_int i + snd (snd (regs ! j))) [0, 1, 2, 3] ?dis"
  let ?s = "REG_WRITE P R00 ctrl ?s1"
  have js: "set [0, 1, 2, 3] \<subseteq> {..<4::nat}" by simp
  note w = lane_regs_write [OF dev js, where f = "\<lambda>_. of_int i" and g = "\<lambda>j. of_int i + snd (snd (regs ! j))" and s = ?dis]
  have stat: "\<not> ddrc_block MAILBOX_STAT" by (simp add: ddrc_block_def MAILBOX_STAT_def)
  have c0: "cfg (hw ?dis) = (cfg (hw s))(R00 := ctrl AND 0xfffffffe)"
    using stat control_regs(7) by (simp add: REG_WRITE_def eye_deviceD(2) [OF dev])
  have c: "cfg (hw ?s) = (cfg (hw ?s1))(R00 := ctrl)"
    using control_regs(7) by (simp add: REG_WRITE_def eye_deviceD(2) [OF dev])
  have d: "read_delay (cfg (hw ?s)) k = i" if k: "k < 4" for k
  proof -
    have "k \<in> set [0, 1, 2, 3]" using k by auto
    then have "cfg (hw ?s1) (R50 + 4 * of_nat k) = of_int i" using w k by meson
    then have "cfg (hw ?s) (R50 + 4 * of_nat k) = of_int i"
      unfolding c using eye_addr_facts(8) [OF k k] by simp
    then show ?thesis unfolding read_delay_def using read_eye_delay [OF i] by simp
  qed
  have fb: "fast_is_bc ?s = fast_is_bc s"
    using w by (simp add: REG_WRITE_def)
  have fast: "fast_is_bc ?s = 0 \<or> fast = 0" using s unfolding fb by (simp only: read_eye_ready_def)
  obtain s' where s': "memtest_all P start sz (eye_sel (fast_is_bc ?s) fast) 0 ?s = Some s'"
    "cfg (hw s') = cfg (hw ?s)" "same_config ?s s'"
    "\<forall>k<4. errcnt s' ! k = 0 \<longleftrightarrow> lo k \<le> i \<and> i \<le> hi k"
    using memtest_all_at [where cfg = cfg and delay = read_delay and i = i and fast_bc = "fast_is_bc ?s"
      and s = ?s, OF dev win reg sz fast d] by blast
  have "cfg (hw s') a = c0 a" if "a \<notin> {R00, R2C, R65} \<union> lane_regs" for a
  proof -
    have "cfg (hw ?s1) a = cfg (hw ?dis) a"
      using lane_regs_write [OF dev js, where a = a] that by blast
    then show ?thesis using s that unfolding s'(2) c by (simp add: c0 read_eye_ready_def)
  qed
  moreover have "fast_is_bc s' = fast_is_bc s" using s'(3) fb by (simp only: same_config_def)
  ultimately have "read_eye_ready P cfg cell dirty clean flt lo hi start sz fast c0 s'"
    using s by (simp add: read_eye_ready_def)
  moreover have "read_eye_point P ctrl regs start sz fast i s = Some s'"
    using s'(1) unfolding read_eye_point_def lanes_write_def Let_def by simp
  ultimately show ?thesis using s'(4) by blast
qed

interpretation read_eye: sweep_point "read_eye_point P ctrl regs start sz fast"
    "read_eye_ready P cfg cell dirty clean flt lo hi start sz fast c0" lo hi
  for P ctrl regs cfg cell dirty clean flt lo hi start sz fast c0
  by unfold_locales (rule read_eye_point_ok, auto simp: read_eye_ready_def eye_setup_def)

lemma read_eye_regs_values:
  assumes dev: "eye_device P cfg cell dirty clean flt" and js: "set js \<subseteq> {..<4}"
  shows "\<exists>s'. read_eye_regs P js s = (map (\<lambda>j. (cfg (hw s) (R50 + 4 * of_nat j), cfg (hw s) (R5A + 4 * of_nat j),
      cfg (hw s) (R5A + 4 * of_nat j) - cfg (hw s) (R50 + 4 * of_nat j))) js, s')
    \<and> cfg (hw s') = cfg (hw s) \<and> fast_is_bc s' = fast_is_bc s"
  using js
proof (induction js arbitrary: s)
  case (Cons j js)
  then have j: "j < 4" and js: "set js \<subseteq> {..<4}" by auto
  define s2 where "s2 = snd (REG_READ P (R5A + 4 * of_nat j) (snd (REG_READ P (R50 + 4 * of_nat j) s)))"
  have s2: "cfg (hw s2) = cfg (hw s)" "fast_is_bc s2 = fast_is_bc s"
    by (simp_all add: s2_def REG_READ_sel eye_deviceD(4) [OF dev])
  obtain s3 where "read_eye_regs P js s2 = (map (\<lambda>j. (cfg (hw s) (R50 + 4 * of_nat j), cfg (hw s) (R5A + 4 * of_nat j),
      cfg (hw s) (R5A + 4 * of_nat j) - cfg (hw s) (R50 + 4 * of_nat j))) js, s3)"
    "cfg (hw s3) = cfg (hw s)" "fast_is_bc s3 = fast_is_bc s"
    using Cons.IH [OF js, of s2] unfolding s2 by blast
  then show ?case
    using eye_deviceD(3,4) [OF dev] eye_addr_facts(11,12) [OF j j]
    by (simp add: case_prod_beta Let_def s2_def REG_READ_sel)
qed simp

lemma eye_save_cfg:
  assumes dev: "eye_device P cfg cell dirty clean flt"
  shows "cfg (hw (REG_WRITE P (MAILBOX_RESULT + 16) v (eye_save P eyes s))) = cfg (hw s)"
proof -
  have "\<not> ddrc_block MAILBOX_RESULT" "\<not> ddrc_block (MAILBOX_RESULT + 4)" "\<not> ddrc_block (MAILBOX_RESULT + 8)"
    "\<not> ddrc_block (MAILBOX_RESULT + 12)" "\<not> ddrc_block (MAILBOX_RESULT + 16)"
    by (simp_all add: ddrc_block_def MAILBOX_RESULT_def)
  then show ?thesis
    by (simp add: eye_save_def case_prod_beta REG_WRITE_def eye_deviceD(2) [OF dev])
qed

lemma read_eye_restore_cfg:
  assumes dev: "eye_device P cfg cell dirty clean flt"
    and other: "\<And>a. a \<notin> {R00, R2C, R65} \<union> lane_regs \<Longrightarrow> cfg (hw s) a = c a"
  shows "cfg (hw (read_eye_restore P (c R00) (c R2C) (c R65)
    (map (\<lambda>j. (c (R50 + 4 * of_nat j), c (R5A + 4 * of_nat j), v j)) [0, 1, 2, 3]) s)) = c"
proof -
  let ?regs = "map (\<lambda>j. (c (R50 + 4 * of_nat j), c (R5A + 4 * of_nat j), v j)) [0, 1, 2, 3]"
  let ?a = "REG_WRITE P R65 (c R65) (REG_WRITE P R2C (c R2C) (REG_WRITE P R00 (c R00 AND 0xfffffffe) s))"
  let ?b = "lanes_write P (\<lambda>j. fst (?regs ! j)) (\<lambda>j. fst (snd (?regs ! j))) [0, 1, 2, 3] ?a"
  have js: "set [0, 1, 2, 3] \<subseteq> {..<4::nat}" by simp
  note w = lane_regs_write [OF dev js, where f = "\<lambda>j. fst (?regs ! j)" and g = "\<lambda>j. fst (snd (?regs ! j))" and s = ?a]
  have a: "cfg (hw ?a) = (cfg (hw s))(R00 := c R00 AND 0xfffffffe, R2C := c R2C, R65 := c R65)"
    using control_regs(7,8,9) by (simp add: REG_WRITE_def eye_deviceD(2) [OF dev])
  have "((cfg (hw ?b))(R00 := c R00)) x = c x" for x
  proof (cases "x \<in> lane_regs")
    case True
    then obtain k where k: "k < 4" "x = R50 + 4 * of_nat k \<or> x = R5A + 4 * of_nat k"
      by (auto simp: lane_regs_def)
    have x0: "x \<noteq> R00" using True control_regs(1) by blast
    have k4: "k \<in> set [0, 1, 2, 3]" and nth: "?regs ! k = (c (R50 + 4 * of_nat k), c (R5A + 4 * of_nat k), v k)"
      using k(1) by (auto simp: less_Suc_eq numeral_eq_Suc)
    show ?thesis using k(2)
    proof
      assume x: "x = R50 + 4 * of_nat k"
      then have "cfg (hw ?b) x = fst (?regs ! k)" using w [where k = k] k(1) k4 by meson
      then show ?thesis unfolding nth using x x0 by simp
    next
      assume x: "x = R5A + 4 * of_nat k"
      then have "cfg (hw ?b) x = fst (snd (?regs ! k))" using w [where k = k] k(1) k4 by meson
      then show ?thesis unfolding nth using x x0 by simp
    qed
  next
    case False
    then have "cfg (hw ?b) x = cfg (hw ?a) x" using w [where a = x] by blast
    then show ?thesis
      unfolding fun_upd_apply a using other [of x] False by auto
  qed
  moreover have "cfg (hw (REG_WRITE P R00 (c R00) ?b)) = (cfg (hw ?b))(R00 := c R00)"
    using control_regs(7) by (simp add: REG_WRITE_def eye_deviceD(2) [OF dev])
  ultimately show ?thesis
    unfolding read_eye_restore_def lanes_write_def Let_def by presburger
qed

text \<open>C36. \<open>measure_read_eye\<close> measures the read eye and puts the controller back. Each byte lane
  is assumed to work exactly while its read strobe ratio lies in a window around the middle. Then
  the function returns for each lane the smallest and the largest ratio of the sweep's grid inside
  that lane's window, and at the end every register of the DDR controller, the ones the sweep
  overwrote included, holds what it held before. The setting in which a fast sweep measures the best case
  (\<open>fast_is_bc\<close>, toggled by command j, and \<open>fast\<close> both set) is excluded.\<close>

theorem measure_read_eye_edges:
  assumes env: "eye_setup read_delay P cfg cell dirty clean flt lo hi start sz"
    and fast: "fast_is_bc s = 0 \<or> fast = 0"
  shows "\<exists>s'. measure_read_eye P start sz fast istep s
      = Some (eye_result (eyes_of (\<lambda>k i. lo k \<le> i \<and> i \<le> hi k) (eye_grid istep)), s')
    \<and> cfg (hw s') = cfg (hw s)"
proof -
  have dev: "eye_device P cfg cell dirty clean flt" using env by (simp add: eye_setup_def)
  let ?c = "cfg (hw s)"
  let ?v = "\<lambda>j. ?c (R5A + 4 * of_nat j) - ?c (R50 + 4 * of_nat j)"
  let ?regs = "map (\<lambda>j. (?c (R50 + 4 * of_nat j), ?c (R5A + 4 * of_nat j), ?v j)) [0, 1, 2, 3]"
  have rd: "\<exists>h. REG_READ P a t = (cfg (hw t) a, t\<lparr>hw := h\<rparr>) \<and> cfg h = cfg (hw t)"
    if "ddrc_block a" for a and t :: "'a mt"
    using eye_deviceD(3,4) [OF dev] that
    by (intro exI [of _ "snd (rd32 P a (hw t))"]) (simp add: REG_READ_def case_prod_beta)
  obtain h1 where h1: "REG_READ P R00 s = (?c R00, s\<lparr>hw := h1\<rparr>)" "cfg h1 = ?c"
    using rd [OF control_regs(7), of s] by blast
  obtain h2 where h2: "REG_READ P R2C (s\<lparr>hw := h1\<rparr>) = (?c R2C, s\<lparr>hw := h2\<rparr>)" "cfg h2 = ?c"
    using rd [OF control_regs(8), of "s\<lparr>hw := h1\<rparr>"] h1(2) by auto
  obtain h3 where h3: "REG_READ P R65 (s\<lparr>hw := h2\<rparr>) = (?c R65, s\<lparr>hw := h3\<rparr>)" "cfg h3 = ?c"
    using rd [OF control_regs(9), of "s\<lparr>hw := h2\<rparr>"] h2(2) by auto
  have js: "set [0, 1, 2, 3] \<subseteq> {..<4::nat}" by simp
  obtain t where t: "read_eye_regs P [0, 1, 2, 3] (s\<lparr>hw := h3, memtest_stat := 0\<rparr>) = (?regs, t)"
    "cfg (hw t) = ?c" "fast_is_bc t = fast_is_bc s"
    using read_eye_regs_values [OF dev js, of "s\<lparr>hw := h3, memtest_stat := 0\<rparr>"] h3(2)
    by (auto simp del: list.map)
  let ?t = "REG_WRITE P R65 (?c R65 AND NOT (push_bit 16 1))
    (REG_WRITE P R2C (?c R2C AND NOT (push_bit 28 1)) (REG_WRITE P R00 (?c R00 AND 0xfffffffe) t))"
  have "read_eye_ready P cfg cell dirty clean flt lo hi start sz fast ?c ?t"
    using env fast t(2,3) control_regs
    by (simp add: read_eye_ready_def REG_WRITE_def eye_deviceD(2) [OF dev])
  from read_eye.sweep_edges [OF this, of _ ?regs istep]
  obtain t' where t': "eye_sweep (read_eye_point P (?c R00) ?regs start sz fast) istep ?t
      = Some (eyes_of (\<lambda>k i. lo k \<le> i \<and> i \<le> hi k) (eye_grid istep), t')"
    "read_eye_ready P cfg cell dirty clean flt lo hi start sz fast ?c t'"
    by blast
  have "cfg (hw (read_eye_restore P (?c R00) (?c R2C) (?c R65) ?regs t')) = ?c"
    using t'(2) by (intro read_eye_restore_cfg [OF dev]) (simp add: read_eye_ready_def)
  moreover have "measure_read_eye P start sz fast istep s
    = Some (eye_result (eyes_of (\<lambda>k i. lo k \<le> i \<and> i \<le> hi k) (eye_grid istep)),
        (REG_WRITE P (MAILBOX_RESULT + 4 * 4) 1 (eye_save P (eyes_of (\<lambda>k i. lo k \<le> i \<and> i \<le> hi k) (eye_grid istep))
          (read_eye_restore P (?c R00) (?c R2C) (?c R65) ?regs t')))\<lparr>memtest_stat := 1\<rparr>)"
    unfolding measure_read_eye_def h1 h2 h3 Let_def case_prod_conv t t'(1) mt.update_convs
    using t(1) t'(1) by (simp del: list.map)
  ultimately show ?thesis
    by (simp add: eye_save_cfg [OF dev] del: list.map)
qed

section \<open>A concrete device\<close>

text \<open>Lanes outside their window return complemented data.\<close>

definition window_fault ::
    "((word32 \<Rightarrow> word32) \<Rightarrow> nat \<Rightarrow> int) \<Rightarrow> (nat \<Rightarrow> int) \<Rightarrow> (nat \<Rightarrow> int) \<Rightarrow> ddr_fault" where
  "window_fault delay lo hi c a v =
     v XOR fold (\<lambda>k m. if lo k \<le> delay c k \<and> delay c k \<le> hi k then m else m OR lane k) [0, 1, 2, 3] 0"

lemma lane_windows_window_fault: "lane_windows delay (window_fault delay lo hi) lo hi"
proof -
  have lanes: "lane 0 = 0xff" "lane 1 = 0xff00" "lane 2 = 0xff0000" "lane 3 = 0xff000000"
    by (simp_all add: lane_def)
  have "(v XOR m) AND l = (v AND l) XOR (m AND l)" for v m l :: word32
    by (rule bit_word_eqI) (auto simp: bit_simps)
  moreover have "x XOR y = x \<longleftrightarrow> y = 0" for x y :: word32
  proof
    assume "x XOR y = x"
    then have "x XOR (x XOR y) = 0" by simp
    then show "y = 0" by (simp add: xor.assoc [symmetric])
  qed simp
  ultimately have m: "(v XOR m) AND l = v AND l \<longleftrightarrow> m AND l = 0" for v m l :: word32 by simp
  have bits: "if ok k then fold (\<lambda>k m. if ok k then m else m OR lane k) [0, 1, 2, 3] 0 AND lane k = 0
      else fold (\<lambda>k m. if ok k then m else m OR lane k) [0, 1, 2, 3] 0 AND lane k \<noteq> 0"
    if "k < 4" for ok :: "nat \<Rightarrow> bool" and k
  proof -
    from that consider "k = 0" | "k = 1" | "k = 2" | "k = 3" by linarith
    then show ?thesis
      by cases (cases "ok 0"; cases "ok 1"; cases "ok 2"; cases "ok 3"; simp add: lanes lanes(2) [simplified])+
  qed
  show ?thesis
    unfolding lane_windows_def window_fault_def m
    using bits [of _ "\<lambda>k. lo k \<le> delay c k \<and> delay c k \<le> hi k" for c] by blast
qed

lemma sim_eye_setup:
  "\<lbrakk>\<forall>k<4. lo k \<le> 64 \<and> 60 \<le> hi k; region start (4 * n_iter sz 16); 0 < sz\<rbrakk>
    \<Longrightarrow> eye_setup delay (ddr_platform (window_fault delay lo hi)) ddr_cfg ddr_cell sim_dirty sim_clean
      (window_fault delay lo hi) lo hi start sz"
  by (simp add: eye_setup_def ddr_platform_eye_device lane_windows_window_fault)

text \<open>The edges on the grid, as they are computed.\<close>

lemma eye_grid_list:
  "eye_grid step = set (filter (\<lambda>i. 0 \<le> i \<and> i \<le> 128)
     (map (eye_offset 0 (eye_mstep step)) [0..<eye_mmax step + 1]
      @ map (eye_offset 1 (eye_mstep step)) [0..<eye_mmax step + 1]))"
proof -
  have "A \<inter> {0..128} \<union> B \<inter> {0..128} = {x \<in> A \<union> B. 0 \<le> x \<and> x \<le> 128}" for A B :: "int set"
    by auto
  then show ?thesis
    unfolding eye_grid_parts grid_part_def set_filter set_append set_map set_upt add_0_left by blast
qed

lemma edges_list:
  "low_edge pass (set xs) k = fold min (filter (pass k) xs) 9999"
  "high_edge pass (set xs) k = fold max (filter (pass k) xs) (- 9999)"
proof -
  have s: "{i \<in> set xs. pass k i} = set (filter (pass k) xs)" by auto
  show "low_edge pass (set xs) k = fold min (filter (pass k) xs) 9999"
    unfolding low_edge_def s by (simp add: Min.set_eq_fold [symmetric])
  show "high_edge pass (set xs) k = fold max (filter (pass k) xs) (- 9999)"
    unfolding high_edge_def s by (simp add: Max.set_eq_fold [symmetric])
qed

lemma example_eyes:
  "eye_result (eyes_of (\<lambda>k i. 10 + 4 * int k \<le> i \<and> i \<le> 100 - 4 * int k) (eye_grid 4))
    = [12, 100, 16, 96, 20, 92, 24, 88]"
  unfolding eyes_of_def eye_grid_list edges_list by code_simp

lemma measure_write_eye_edges_witness:
  "\<exists>s'. measure_write_eye
      (ddr_platform (window_fault write_delay (\<lambda>k. 10 + 4 * int k) (\<lambda>k. 100 - 4 * int k))) 4 1 0 1 True
      (mt_init ddrc_table0 [] 0x20000 sim_reset) = Some ([12, 100, 16, 96, 20, 92, 24, 88], s')"
proof -
  let ?s = "mt_init ddrc_table0 [] 0x20000 sim_reset"
  have regs: "map fst (reg_values ?s) = ddrc_addrs" by (simp add: ddrc_table0_def comp_def)
  have zero: "get_reglist_value ddrc_table0 a lsb width = 0" if "a \<in> set ddrc_addrs" for a lsb width
  proof -
    have "get_bit_field 0 lsb width = 0" by (simp add: get_bit_field_def Let_def)
    then have "reglist_scan x (map (\<lambda>a. (a, 0)) l) a lsb width = 0" if "a \<in> set l" for x l
      using that by (induction l arbitrary: x) auto
    with that show ?thesis by (simp add: get_reglist_value_def ddrc_table0_def)
  qed
  have n: "region 0x100000 (4 * n_iter (1024 * 1024 * 1) 16)" by (simp add: region_def n_iter_def)
  have "uint (get_reglist_value (reg_values ?s) (R55 + 4 * of_nat k) 0 10) + 128 < 1024" if "k < 4" for k
    using zero [OF eye_addr_facts(14) [OF that that]] by simp
  from measure_write_eye_edges [OF sim_eye_setup [OF _ n, where delay = write_delay
        and lo = "\<lambda>k. 10 + 4 * int k" and hi = "\<lambda>k. 100 - 4 * int k"] regs this,
      where fast = 0 and step = 4 and fix_ctr = 1 and save = True]
  show ?thesis by (auto simp: example_eyes)
qed

lemma measure_read_eye_edges_witness:
  "\<exists>s'. measure_read_eye
      (ddr_platform (window_fault read_delay (\<lambda>k. 10 + 4 * int k) (\<lambda>k. 100 - 4 * int k))) 0x100000 0x100000 0 4
      (mt_init ddrc_table0 [] 0x20000 sim_reset) = Some ([12, 100, 16, 96, 20, 92, 24, 88], s')
    \<and> ddr_cfg (hw s') = (\<lambda>_. 0)"
proof -
  have n: "region 0x100000 (4 * n_iter 0x100000 16)" by (simp add: region_def n_iter_def)
  from measure_read_eye_edges [OF sim_eye_setup [OF _ n, where delay = read_delay
        and lo = "\<lambda>k. 10 + 4 * int k" and hi = "\<lambda>k. 100 - 4 * int k"],
      of "mt_init ddrc_table0 [] 0x20000 sim_reset" 0 4]
  show ?thesis by (auto simp: example_eyes mt_init_def sim_reset_def)
qed

end
