(* ===== verification/Fpgav3Block.thy ===== *)
theory Fpgav3Block
  imports EmioGpiod Versions "HOL-Library.Sublist"
begin

text \<open>
  petalinux/fpgav3block/files/fpgav3block.cpp: the command line tool for FPGA registers, run as
  \<open>fpgav3block\<close> or \<open>fpgav3quad\<close>. \<open>strtoul\<close> of the C library, with its base, is a parameter
  (\<open>unsigned long\<close> has 32 bits here). The object behind the base class pointer is the record \<open>vtable\<close> of its
  methods. The output are the lines that \<open>-v\<close> adds, the values read, the failure message of a write and
  the usage line; the warning for words beyond the count is left out. Variables that are not initialised are parameters.
  A run that allocates a negative number of quadlets throws an exception: \<open>Inl Bad_alloc\<close>; otherwise
  memory is assumed to suffice.
\<close>

datatype abort = Bad_alloc | Stuck

section \<open>The arguments\<close>

record block_args =
  isVerbose_arg :: bool
  useGpiod :: bool
  eventMode :: word32
  timingMode :: word32
  args_found :: nat
  addr_arg :: word16
  data1 :: word32
  num :: int
  data :: "word32 list"
  j :: nat

definition block_args0 :: "word16 \<Rightarrow> word32 \<Rightarrow> block_args" where
  "block_args0 a d = \<lparr>isVerbose_arg = False, useGpiod = False, eventMode = 2, timingMode = 0, args_found = 0,
     addr_arg = a, data1 = d, num = 1, data = [], j = 0\<rparr>"

text \<open>The character after the option letter, minus the digit 0.\<close>

definition digit_of :: "char \<Rightarrow> word32" where
  "digit_of c = of_char c - 48"

definition option_arg :: "string \<Rightarrow> block_args \<Rightarrow> block_args" where
  "option_arg a st =
     (case a of
        _ # c # rest \<Rightarrow>
          if c = CHR ''v'' then st\<lparr>isVerbose_arg := True\<rparr>
          else if c = CHR ''g'' then st\<lparr>useGpiod := True\<rparr>
          else if c = CHR ''t'' then (case rest of [] \<Rightarrow> st | d # _ \<Rightarrow> st\<lparr>timingMode := digit_of d\<rparr>)
          else if c = CHR ''e'' then (case rest of [] \<Rightarrow> st | d # _ \<Rightarrow> st\<lparr>eventMode := digit_of d\<rparr>)
          else st
      | _ \<Rightarrow> st)"

definition positional ::
    "(string \<Rightarrow> nat \<Rightarrow> word32) \<Rightarrow> bool \<Rightarrow> string \<Rightarrow> block_args \<Rightarrow> abort + block_args"
where
  "positional strtoul isQuad a st =
     (let found = st\<lparr>args_found := args_found st + 1\<rparr> in
      if args_found st = 0 then Inr (found\<lparr>addr_arg := ucast (strtoul a 16)\<rparr>)
      else if args_found st = 1 \<and> isQuad then Inr (found\<lparr>data1 := strtoul a 16\<rparr>)
      else if args_found st = 1
      then let n = sint (strtoul a 10)
           in if n < 0 then Inl Bad_alloc else Inr (found\<lparr>num := n, data := replicate (nat n) 0\<rparr>)
      else if \<not> isQuad \<and> int (j st) < num st
      then Inr (found\<lparr>data := (data st)[j st := bswap_32 (strtoul a 16)], j := j st + 1\<rparr>)
      else Inr found)"

fun parse_args ::
    "(string \<Rightarrow> nat \<Rightarrow> word32) \<Rightarrow> bool \<Rightarrow> string list \<Rightarrow> block_args \<Rightarrow> abort + block_args"
where
  "parse_args strtoul isQuad [] st = Inr st"
| "parse_args strtoul isQuad (a # as) st =
     (if a \<noteq> [] \<and> hd a = CHR ''-'' then parse_args strtoul isQuad as (option_arg a st)
      else (case positional strtoul isQuad a st of
              Inl e \<Rightarrow> Inl e | Inr st \<Rightarrow> parse_args strtoul isQuad as st))"

section \<open>The access\<close>

record 'e vtable =
  vIsOK :: "'e \<Rightarrow> bool"
  vSetVerbose :: "bool \<Rightarrow> 'e \<Rightarrow> 'e"
  vSetEventMode :: "bool \<Rightarrow> 'e \<Rightarrow> 'e"
  vSetTimingMode :: "nat \<Rightarrow> 'e \<Rightarrow> 'e"
  vGetVersion :: "'e \<Rightarrow> word32"
  vGetEventMode :: "'e \<Rightarrow> bool"
  vGetTimeout_us :: "'e \<Rightarrow> rat"
  vReadQuadlet :: "word16 \<Rightarrow> 'e \<Rightarrow> (word32 option \<times> 'e) option"
  vWriteQuadlet :: "word16 \<Rightarrow> word32 \<Rightarrow> 'e \<Rightarrow> (bool \<times> 'e) option"
  vReadBlock :: "word16 \<Rightarrow> word32 \<Rightarrow> 'e \<Rightarrow> (word32 list option \<times> 'e) option"
  vWriteBlock :: "word16 \<Rightarrow> (nat \<Rightarrow> word32) \<Rightarrow> word32 \<Rightarrow> 'e \<Rightarrow> (bool \<times> 'e) option"

definition show_quad :: "word32 \<Rightarrow> console" where
  "show_quad v = Printf ''0x%08x'' [Num (uint v)]"

definition configure :: "'e vtable \<Rightarrow> block_args \<Rightarrow> 'e \<Rightarrow> 'e" where
  "configure V st e =
     (let e = vSetVerbose V (isVerbose_arg st) e;
          e = (if eventMode st = 0 then vSetEventMode V False e
               else if eventMode st = 1 then vSetEventMode V True e else e)
      in vSetTimingMode V (unat (timingMode st)) e)"

definition read_access :: "'e vtable \<Rightarrow> block_args \<Rightarrow> 'e \<Rightarrow> (console list \<times> 'e) option" where
  "read_access V st e =
     (if num st = 1
      then do {
        (v, e) \<leftarrow> vReadQuadlet V (addr_arg st) e;
        Some (case v of None \<Rightarrow> [] | Some v \<Rightarrow> [show_quad v], e)
      }
      else if num st > 1
      then do {
        (ds, e) \<leftarrow> vReadBlock V (addr_arg st) (of_int (4 * num st)) e;
        Some (case ds of
                None \<Rightarrow> []
              | Some ds \<Rightarrow> map (\<lambda>d. show_quad (bswap_32 d)) (ds @ drop (List.length ds) (data st)), e)
      }
      else Some ([], e))"

definition write_access :: "'e vtable \<Rightarrow> bool \<Rightarrow> block_args \<Rightarrow> 'e \<Rightarrow> (console list \<times> 'e) option" where
  "write_access V isQuad st e = do {
     (ret, e) \<leftarrow> (if num st = 1
                 then vWriteQuadlet V (addr_arg st) (if isQuad then data1 st else data st ! 0) e
                 else if num st > 1
                 then vWriteBlock V (addr_arg st) (\<lambda>i. data st ! i) (of_int (4 * num st)) e
                 else Some (False, e));
     Some (if ret then [] else [Printf ''Write failed'' []], e)
   }"

definition verbose_lines :: "program_build \<Rightarrow> 'e vtable \<Rightarrow> block_args \<Rightarrow> 'e \<Rightarrow> console list" where
  "verbose_lines B V st e =
     (if isVerbose_arg st
      then [Printf ''%s'' [Str (print_fpgav3_versions (libfpgav3 B) (VERSION B) (GIT_VERSION B))]]
        @ (if useGpiod st then [Printf ''GPIOD library version %s'' [Str (EMIO_gpiod_version_string B)]] else [])
        @ [Printf ''EMIO bus interface version %u'' [Num (uint (vGetVersion V e))],
           Printf (if vGetEventMode V e then ''Configured to use events'' else ''Configured to use polling'') []]
        @ (if eventMode st \<noteq> 0 \<and> eventMode st \<noteq> 1 then [Printf '' (default)'' []] else [])
        @ [Printf ''EMIO timeout is %g us'' [Frac (vGetTimeout_us V e)]]
      else [])"

definition block_access ::
    "program_build \<Rightarrow> 'e vtable \<Rightarrow> bool \<Rightarrow> block_args \<Rightarrow> 'e \<Rightarrow> (console list \<times> 'e) option"
where
  "block_access B V isQuad st e =
     (let e = configure V st e;
          lines = verbose_lines B V st e
      in map_option (\<lambda>(out, e). (lines @ out, e))
           (if isQuad \<and> args_found st = 1 \<or> \<not> isQuad \<and> args_found st \<le> 2 then read_access V st e
            else write_access V isQuad st e))"

section \<open>The main function\<close>

definition gpiod_vtable :: "'w gpiolib \<Rightarrow> 'w gemio vtable" where
  "gpiod_vtable G = \<lparr>vIsOK = info, vSetVerbose = SetVerbose, vSetEventMode = SetEventMode_gpiod G,
     vSetTimingMode = SetTimingMode (gclock G), vGetVersion = version, vGetEventMode = useEvents,
     vGetTimeout_us = timeout_us, vReadQuadlet = ReadQuadlet_gpiod G,
     vWriteQuadlet = WriteQuadlet_gpiod G, vReadBlock = ReadBlock_gpiod G, vWriteBlock = WriteBlock_gpiod G\<rparr>"

definition mmap_vtable :: "'w linux \<Rightarrow> 'w emio vtable" where
  "mmap_vtable L = \<lparr>vIsOK = IsOK, vSetVerbose = SetVerbose, vSetEventMode = SetEventMode,
     vSetTimingMode = SetTimingMode (clock_gettime L), vGetVersion = version, vGetEventMode = useEvents,
     vGetTimeout_us = timeout_us, vReadQuadlet = ReadQuadlet L,
     vWriteQuadlet = WriteQuadlet L, vReadBlock = ReadBlock L, vWriteBlock = WriteBlock L\<rparr>"

text \<open>With an object that could not be initialised the program returns -1.\<close>

definition with_object :: "program_build \<Rightarrow> 'e vtable \<Rightarrow> bool \<Rightarrow> block_args \<Rightarrow> 'e \<Rightarrow> (int \<times> console list \<times> 'e) option" where
  "with_object B V isQuad st e =
     (if \<not> vIsOK V e then Some (- 1, [Printf ''Error initializing EMIO bus interface'' []], e)
      else map_option (\<lambda>(out, e). (0, out, e)) (block_access B V isQuad st e))"

definition lift_stuck :: "'a option \<Rightarrow> abort + 'a" where
  "lift_stuck r = (case r of None \<Rightarrow> Inl Stuck | Some x \<Rightarrow> Inr x)"

text \<open>\<open>argv\<close> is the program's name and its arguments.\<close>

definition block_main ::
    "program_build \<Rightarrow> (string \<Rightarrow> nat \<Rightarrow> word32) \<Rightarrow> 'w gpiolib \<Rightarrow> 'w linux \<Rightarrow> word16 \<Rightarrow> word32 \<Rightarrow> string list \<Rightarrow> 'w
      \<Rightarrow> abort + int \<times> console list \<times> 'w"
where
  "block_main B strtoul G L a0 d0 argv w =
     (let isQuad = sublist ''fpgav3quad'' (hd argv)
      in (case parse_args strtoul isQuad (tl argv) (block_args0 a0 d0) of
            Inl e \<Rightarrow> Inl e
          | Inr st \<Rightarrow>
              if args_found st < 1 then Inr (0, [Printf ''Usage'' []], w)
              else if useGpiod st
              then lift_stuck (map_option (\<lambda>(r, out, e). (r, out, if r = 0 then destroy G e else dev e))
                     (with_object B (gpiod_vtable G) isQuad st (EMIO_Interface_Gpiod G w)))
              else lift_stuck (do {
                     e \<leftarrow> EMIO_Interface_Mmap L w;
                     map_option (\<lambda>(r, out, e). (r, out, dev e)) (with_object B (mmap_vtable L) isQuad st e)
                   })))"

end
