(* ===== verification/Fpgav3BlockProps.thy ===== *)
theory Fpgav3BlockProps
  imports Fpgav3Block EmioGpiodDevice EmioMmapDevice
begin

text \<open>
  The register tool: the words of a block on the command line reach the bus as they were typed, but
  a block of one word is stored with its bytes exchanged.
\<close>

section \<open>Byte order\<close>

lemma bit_bswap_32:
  assumes "n < 32"
  shows "bit (bswap_32 w) n = bit w (if n < 8 then n + 24 else if n < 16 then n + 8 else if n < 24 then n - 8 else n - 24)"
proof -
  have m: "(0xff :: word32) = mask 8" "(0xff00 :: word32) = push_bit 8 (mask 8)"
    "(0xff0000 :: word32) = push_bit 16 (mask 8)"
    by (simp_all add: mask_eq_exp_minus_1 push_bit_eq_mult)
  have big: "\<not> bit w i" if "32 \<le> i" for i using that bit_imp_le_length [of w i] by auto
  consider "n < 8" | "8 \<le> n" "n < 16" | "16 \<le> n" "n < 24" | "24 \<le> n" "n < 32" using assms by fastforce
  then show ?thesis
    unfolding bswap_32_def m by cases (simp_all add: bit_simps big add.commute [of _ n], auto simp: big)
qed

lemma bswap_32_twice [simp]: "bswap_32 (bswap_32 w) = w"
proof (rule bit_word_eqI)
  fix n assume "n < LENGTH(32)"
  then consider "n < 8" | "8 \<le> n" "n < 16" | "16 \<le> n" "n < 24" | "24 \<le> n" "n < 32" by fastforce
  then show "bit (bswap_32 (bswap_32 w)) n = bit w n" by cases (simp_all add: bit_bswap_32 less_diff_conv2)
qed

section \<open>Plain arguments\<close>

definition plain :: "string \<Rightarrow> bool" where
  "plain a \<longleftrightarrow> a = [] \<or> hd a \<noteq> CHR ''-''"

text \<open>The quadlets after the count.\<close>

lemma parse_quads:
  assumes "\<forall>a \<in> set as. plain a" "2 \<le> args_found st" "j st + length as \<le> nat (num st)" "length (data st) = nat (num st)"
  shows "parse_args strtoul False as st = Inr (st\<lparr>args_found := args_found st + length as, j := j st + length as,
    data := take (j st) (data st) @ map (\<lambda>a. bswap_32 (strtoul a 16)) as @ drop (j st + length as) (data st)\<rparr>)"
  using assms
proof (induction as arbitrary: st)
  case (Cons a as)
  let ?st = "st\<lparr>args_found := args_found st + 1, data := (data st)[j st := bswap_32 (strtoul a 16)], j := j st + 1\<rparr>"
  have "j st < length (data st)" using Cons.prems(3,4) by simp
  then have d: "take (j st + 1) (data ?st) = take (j st) (data st) @ [bswap_32 (strtoul a 16)]"
    "drop (j st + 1 + k) (data ?st) = drop (Suc (j st + k)) (data st)" for k
    by (simp_all add: take_Suc_conv_app_nth)
  have "parse_args strtoul False (a # as) st = parse_args strtoul False as ?st"
    using Cons.prems by (auto simp: plain_def positional_def Let_def)
  also have "\<dots> = Inr (?st\<lparr>args_found := args_found ?st + length as, j := j ?st + length as,
    data := take (j ?st) (data ?st) @ map (\<lambda>a. bswap_32 (strtoul a 16)) as @ drop (j ?st + length as) (data ?st)\<rparr>)"
    by (rule Cons.IH) (use Cons.prems in auto)
  finally show ?case using d by simp
qed simp

lemma parse_block:
  assumes "\<forall>a \<in> set (a # n # vs). plain a" "sint (strtoul n 10) = int (length vs)"
  shows "parse_args strtoul False (a # n # vs) (block_args0 a0 d0) = Inr ((block_args0 (ucast (strtoul a 16)) d0)\<lparr>
    args_found := 2 + length vs, num := int (length vs), j := length vs, data := map (\<lambda>a. bswap_32 (strtoul a 16)) vs\<rparr>)"
proof -
  let ?st = "(block_args0 (ucast (strtoul a 16)) d0)\<lparr>args_found := 2, num := int (length vs), data := replicate (length vs) 0\<rparr>"
  have "parse_args strtoul False (a # n # vs) (block_args0 a0 d0) = parse_args strtoul False vs ?st"
    using assms by (auto simp: plain_def positional_def block_args0_def numeral_2_eq_2 Let_def)
  also have "\<dots> = Inr (?st\<lparr>args_found := args_found ?st + length vs, j := j ?st + length vs,
    data := take (j ?st) (data ?st) @ map (\<lambda>a. bswap_32 (strtoul a 16)) vs @ drop (j ?st + length vs) (data ?st)\<rparr>)"
    by (rule parse_quads) (use assms in \<open>simp_all add: block_args0_def\<close>)
  finally show ?thesis by (simp add: block_args0_def)
qed

lemma parse_quad:
  assumes "plain a" "plain v"
  shows "parse_args strtoul True [a, v] (block_args0 a0 d0)
    = Inr ((block_args0 (ucast (strtoul a 16)) (strtoul v 16))\<lparr>args_found := 2\<rparr>)"
  using assms by (auto simp: plain_def positional_def block_args0_def numeral_2_eq_2 Let_def)


section \<open>What is stored\<close>

lemma configure_default:
  "configure V ((block_args0 A d)\<lparr>args_found := f, num := n, j := k, data := ds\<rparr>) e = vSetTimingMode V 0 (vSetVerbose V False e)"
  "configure V ((block_args0 A d)\<lparr>args_found := f\<rparr>) e = vSetTimingMode V 0 (vSetVerbose V False e)"
  by (simp_all add: configure_def block_args0_def)

lemma default_ready:
  assumes "mmap_ready L pins rg e"
  shows "mmap_ready L pins rg (vSetTimingMode (mmap_vtable L) 0 (vSetVerbose (mmap_vtable L) False e))"
    "dev (vSetTimingMode (mmap_vtable L) 0 (vSetVerbose (mmap_vtable L) False e)) = dev e"
  using assms by (simp_all add: mmap_ready_def mmap_vtable_def mapped_def SetTimingMode_def SetVerbose_def)

lemma with_mmap_object:
  assumes "EMIO_Interface_Mmap L w = Some e0" "IsOK e0" "parse_args strtoul (sublist ''fpgav3quad'' p) as (block_args0 a0 d0) = Inr st"
    "0 < args_found st" "\<not> useGpiod st" "block_access B (mmap_vtable L) (sublist ''fpgav3quad'' p) st e0 = Some (out, e1)"
  shows "block_main B strtoul G L a0 d0 (p # as) w = Inr (0, out, dev e1)"
  using assms by (simp add: block_main_def with_object_def lift_stuck_def mmap_vtable_def Let_def)

text \<open>C22. The two names of the tool store different values. Run under a name that contains \<open>fpgav3quad\<close>, with the
  arguments \<open>a v\<close>, it stores \<open>v\<close> in register \<open>a\<close>; run under any other name, with \<open>a 1 v\<close>, it stores \<open>v\<close> with its
  bytes reversed, since the word was exchanged for the block routines but is written by the quadlet
  routine. Both runs use the /dev/mem driver (no \<open>-g\<close>); provided that its constructor succeeds and that the firmware
  answers within the timeout, both return 0 and print nothing.\<close>

theorem one_quadlet_block_is_swapped:
  assumes new: "EMIO_Interface_Mmap L w = Some e0" and ready: "mmap_ready L pins rg e0"
    and name: "sublist ''fpgav3quad'' p" "\<not> sublist ''fpgav3quad'' q"
    and args: "plain a" "plain n" "plain v" "sint (strtoul n 10) = 1"
  shows "(\<exists>w'. block_main B strtoul G L a0 d0 [p, a, v] w = Inr (0, [], w')
      \<and> rg w' = (rg (dev e0))(ucast (strtoul a 16) := strtoul v 16))
    \<and> (\<exists>w'. block_main B strtoul G L a0 d0 [q, a, n, v] w = Inr (0, [], w')
      \<and> rg w' = (rg (dev e0))(ucast (strtoul a 16) := bswap_32 (strtoul v 16)))"
proof -
  let ?A = "ucast (strtoul a 16) :: word16" and ?V = "mmap_vtable L"
  let ?e = "vSetTimingMode ?V 0 (vSetVerbose ?V False e0)"
  let ?q = "(block_args0 ?A (strtoul v 16))\<lparr>args_found := 2\<rparr>"
  let ?b = "(block_args0 ?A d0)\<lparr>args_found := 3, num := 1, j := 1, data := [bswap_32 (strtoul v 16)]\<rparr>"
  note r = default_ready [OF ready]
  have ok: "IsOK e0" using ready by (simp add: mmap_ready_def mapped_def IsOK_def)
  have w: "\<exists>e'. vWriteQuadlet ?V A d ?e = Some (True, e') \<and> rg (dev e') = (rg (dev e0))(A := d)" for A d
    using mmap_write_ok [OF r(1), of A d] r(2) by (auto simp: mmap_vtable_def)
  obtain e1 where e1: "vWriteQuadlet ?V ?A (strtoul v 16) ?e = Some (True, e1)"
    "rg (dev e1) = (rg (dev e0))(?A := strtoul v 16)" using w by blast
  then have a1: "block_access B ?V True ?q e0 = Some ([], e1)"
    by (simp add: block_access_def verbose_lines_def write_access_def configure_default Let_def) (simp add: block_args0_def)
  obtain e2 where e2: "vWriteQuadlet ?V ?A (bswap_32 (strtoul v 16)) ?e = Some (True, e2)"
    "rg (dev e2) = (rg (dev e0))(?A := bswap_32 (strtoul v 16))" using w by blast
  then have a2: "block_access B ?V False ?b e0 = Some ([], e2)"
    by (simp add: block_access_def verbose_lines_def write_access_def configure_default Let_def) (simp add: block_args0_def)
  have "parse_args strtoul (sublist ''fpgav3quad'' p) [a, v] (block_args0 a0 d0) = Inr ?q"
    using parse_quad [OF args(1,3), of strtoul a0 d0] name(1) by simp
  moreover have "parse_args strtoul (sublist ''fpgav3quad'' q) [a, n, v] (block_args0 a0 d0) = Inr ?b"
    using parse_block [of a n "[v]" strtoul a0 d0] args name(2) by simp
  moreover have "0 < args_found ?q" "\<not> useGpiod ?q" "0 < args_found ?b" "\<not> useGpiod ?b" by (simp_all add: block_args0_def)
  ultimately show ?thesis
    using with_mmap_object [OF new ok, of strtoul p "[a, v]" a0 d0 ?q B "[]" e1 G]
      with_mmap_object [OF new ok, of strtoul q "[a, n, v]" a0 d0 ?b B "[]" e2 G] a1 a2 name e1(2) e2(2) by simp
qed

text \<open>A \<open>strtoul\<close> that reads hexadecimal digits and small decimal numbers, enough for the arguments here.\<close>

definition hex_sim :: "string \<Rightarrow> nat \<Rightarrow> word32" where
  "hex_sim s b = foldl (\<lambda>x c. x * of_nat b + (if 96 < (of_char c :: nat) then of_char c - 87 else of_char c - 48)) 0 s"

definition release_build :: program_build where
  "release_build = \<lparr>libfpgav3 = \<lparr>FPGAV3_VERSION = ''1.0.0'', FPGAV3_GIT_VERSION = ''1.0.0'', FPGAV3_GIT_SHA = 0\<rparr>,
     VERSION = ''1.0.0'', GIT_VERSION = ''1.0.0'', gpiod_version_string = ''1.6.3''\<rparr>"

lemma tool_names: "sublist ''fpgav3quad'' ''/usr/bin/fpgav3quad''" "\<not> sublist ''fpgav3quad'' ''/usr/bin/fpgav3block''"
  by (simp_all add: sublist_Cons_right)

lemma sim_access:
  "rd32 (bus (sim_linux 7 500)) (SLCR_BASE_ADDR + 4 * (APER_CLK_CTRL div 4)) (h, t) = (0, (h, t))"
  "wr32 (bus (sim_linux 7 500)) (SLCR_BASE_ADDR + 4 * (APER_CLK_CTRL div 4)) v (h, t) = (h, t)"
  "rd32 (bus (sim_linux 7 500)) (GPIO_BASE_ADDR + 4 * (Reg_InputUpper div 4)) (h, t) = (fpga_upper h,
     (h\<lparr>fpins := (fpins h)\<lparr>done_pin := requested (fpins h) \<and> fwait h = 0\<rparr>, fwait := fwait h - 1\<rparr>, t))"
  "wr32 (bus (sim_linux 7 500)) (GPIO_BASE_ADDR + 4 * (Reg_DirUpper div 4)) v (h, t) = (h, t)"
  "wr32 (bus (sim_linux 7 500)) (GPIO_BASE_ADDR + 4 * (Reg_OutEnUpper div 4)) v (h, t) = (h, t)"
  "wr32 (bus (sim_linux 7 500)) (GPIO_BASE_ADDR + 4 * (Reg_DirLower div 4)) v (h, t)
     = (h\<lparr>fpins := (fpins h)\<lparr>dir_lower := v\<rparr>\<rparr>, t)"
  "wr32 (bus (sim_linux 7 500)) (GPIO_BASE_ADDR + 4 * (Reg_OutputUpper div 4)) 0 (h, t)
     = (h\<lparr>fpins := (fpins h)\<lparr>out_upper := 0, done_pin := False\<rparr>, fwait := 7\<rparr>, t)"
  by (simp_all add: timed_def emio_sim_def fpga_in_def fpga_out_def reg_defs SLCR_BASE_ADDR_def GPIO_BASE_ADDR_def APER_CLK_CTRL_def)

lemmas sim_access_simped = sim_access [simplified]

lemma sim_init_gpio:
  assumes "mmap_region e = Some GPIO_BASE_ADDR" "dev e = (fpga_reset r, t)"
  shows "\<exists>e'. init_gpio (sim_linux 7 500) e = Some (True, e') \<and> mmap_region e' = Some GPIO_BASE_ADDR \<and> isInput e'
    \<and> timeout_us e' = timeout_us e \<and> fregs (fst (dev e')) = r \<and> fpins (fst (dev e')) = fpins (fpga_reset r)"
proof -
  have "drop_bit 28 (fpga_upper (fpga_reset r) AND Bits_Version) = (1 :: word32)"
    by (simp add: fpga_upper_def fpga_reset_def requested_def version_1_def bits_defs)
  then show ?thesis
    using assms by (simp add: init_gpio_def region_access sim_access_simped Let_def) (simp add: fpga_reset_def requested_def)
qed

lemma sim_constructor:
  obtains e0 where "EMIO_Interface_Mmap (sim_linux 7 500) (fpga_reset r, 0) = Some e0"
    "mmap_ready (sim_linux 7 500) (fpins \<circ> fst) (fregs \<circ> fst) e0" "fregs (fst (dev e0)) = r"
proof -
  let ?L = "sim_linux 7 500"
  let ?e = "(emio_base (fpga_reset r, 0))\<lparr>fd := 3, mmap_region := Some GPIO_BASE_ADDR\<rparr>"
  obtain e0 where e0: "init_gpio ?L ?e = Some (True, e0)" "mmap_region e0 = Some GPIO_BASE_ADDR" "isInput e0"
    "timeout_us e0 = 250" "fregs (fst (dev e0)) = r" "fpins (fst (dev e0)) = fpins (fpga_reset r)"
    using sim_init_gpio [of ?e r 0] by (auto simp: emio_base_defs)
  have "gpio_clock ?L ((emio_base (fpga_reset r, 0))\<lparr>fd := 3, mmap_region := Some SLCR_BASE_ADDR\<rparr>)
      = Some ((emio_base (fpga_reset r, 0))\<lparr>fd := 3, mmap_region := Some SLCR_BASE_ADDR\<rparr>)"
    by (simp add: gpio_clock_def region_access sim_access_simped emio_base_defs)
  moreover have "open_mem ?L h = (3, h)" "mmap_phys ?L b n h = (True, h)" for h b n by (simp_all add: sim_linux_def)
  ultimately have "EMIO_Interface_Mmap ?L (fpga_reset r, 0) = Some e0"
    using e0(1) by (simp add: EMIO_Interface_Mmap_def Init_def mmap_init_def Let_def emio_base_defs)
  with e0 sim_linux_device [of 500 7 250] show thesis
    by (intro that [of e0]) (simp_all add: mmap_ready_def mapped_def fpga_reset_def requested_def GPIO_BASE_ADDR_def emio_sim_def)
qed

lemma one_quadlet_block_is_swapped_witness:
  "\<forall>G. \<exists>w1 w2. block_main release_build hex_sim G (sim_linux 7 500) 0 0 [''/usr/bin/fpgav3quad'', ''0c'', ''0201a0ff''] (fpga_reset (\<lambda>a. 0), 0)
      = Inr (0, [], w1) \<and> fregs (fst w1) 12 = 0x0201a0ff
    \<and> block_main release_build hex_sim G (sim_linux 7 500) 0 0 [''/usr/bin/fpgav3block'', ''0c'', ''1'', ''0201a0ff''] (fpga_reset (\<lambda>a. 0), 0)
      = Inr (0, [], w2) \<and> fregs (fst w2) 12 = 0xffa00102"
proof
  fix G :: "(emio_fpga \<times> int) gpiolib"
  obtain e0 where e0: "EMIO_Interface_Mmap (sim_linux 7 500) (fpga_reset (\<lambda>a. 0), 0) = Some e0"
    "mmap_ready (sim_linux 7 500) (fpins \<circ> fst) (fregs \<circ> fst) e0" "fregs (fst (dev e0)) = (\<lambda>a. 0)"
    by (rule sim_constructor)
  have "plain ''0c''" "plain ''1''" "plain ''0201a0ff''" "sint (hex_sim ''1'' 10) = 1"
    by (simp_all add: plain_def hex_sim_def)
  note both = one_quadlet_block_is_swapped [where strtoul = hex_sim and B = release_build and G = G and ?a0.0 = 0 and ?d0.0 = 0,
    OF e0(1,2) tool_names this]
  have "hex_sim ''0c'' 16 = 12" "hex_sim ''0201a0ff'' 16 = 0x0201a0ff" "bswap_32 0x0201a0ff = 0xffa00102"
    by (simp_all add: hex_sim_def bswap_32_def)
  then show "\<exists>w1 w2. block_main release_build hex_sim G (sim_linux 7 500) 0 0 [''/usr/bin/fpgav3quad'', ''0c'', ''0201a0ff''] (fpga_reset (\<lambda>a. 0), 0)
      = Inr (0, [], w1) \<and> fregs (fst w1) 12 = 0x0201a0ff
    \<and> block_main release_build hex_sim G (sim_linux 7 500) 0 0 [''/usr/bin/fpgav3block'', ''0c'', ''1'', ''0201a0ff''] (fpga_reset (\<lambda>a. 0), 0)
      = Inr (0, [], w2) \<and> fregs (fst w2) 12 = 0xffa00102"
    using both e0(3) by auto
qed

text \<open>C23. The words of a longer block (two or more, fewer than 2 to the 14), given on the command line, are the words
  \<open>WriteBlock\<close> puts on the bus: the exchange of the tool and that of the Linux driver cancel. The tool reports no
  failure, whatever the firmware does, provided that the object has an interface version of at least 1 (with 0
  the write fails) and that the clock advances.\<close>

theorem block_words_reach_bus:
  assumes adv: "advancing L tm" and m: "mapped (traced_linux L) e" and ver: "1 \<le> version e"
    and args: "\<forall>x \<in> set (a # n # vs). plain x" "sint (strtoul n 10) = int (length vs)" "2 \<le> length vs" "length vs < 2 ^ 14"
  shows "\<exists>st e'. parse_args strtoul False (a # n # vs) (block_args0 a0 d0) = Inr st
    \<and> block_access B (mmap_vtable (traced_linux L)) False st e = Some ([], e')
    \<and> logged e' = logged e @ (if isInput e then turn_log (bus L) True else [])
      @ block_write_log (bus L) (ucast (strtoul a 16)) (\<lambda>i. strtoul (vs ! i) 16) (length vs) (length vs)
      @ [(gpio_base (bus L) + Reg_OutputUpper, 0)]"
proof -
  let ?V = "mmap_vtable (traced_linux L)" and ?A = "ucast (strtoul a 16) :: word16"
  let ?ds = "map (\<lambda>v. bswap_32 (strtoul v 16)) vs" and ?nB = "of_int (4 * int (length vs)) :: word32"
  let ?st = "(block_args0 ?A d0)\<lparr>args_found := 2 + length vs, num := int (length vs), j := length vs, data := ?ds\<rparr>"
  let ?e = "vSetTimingMode ?V 0 (vSetVerbose ?V False e)"
  have e: "mapped (traced_linux L) ?e" "1 \<le> version ?e" "isInput ?e = isInput e" "logged ?e = logged e"
    using m ver by (simp_all add: mapped_def mmap_vtable_def SetTimingMode_def SetVerbose_def)
  have n: "unat (blk_nQuads ?nB) = length vs"
    using args(4) by (simp add: blk_nQuads_def unat_div unat_word_ariths unat_of_nat)
  obtain e' where e': "WriteBlock (traced_linux L) ?A ((!) ?ds) ?nB ?e = Some (True, e')"
    "logged e' = logged e @ (if isInput e then turn_log (bus L) True else [])
      @ block_write_log (bus L) ?A (bswap_32 \<circ> (!) ?ds) (length vs) (length vs) @ [(gpio_base (bus L) + Reg_OutputUpper, 0)]"
    using write_block_log [OF adv e(1,2), of ?A "(!) ?ds" ?nB] unfolding e(3,4) n by blast
  have len: "int (length vs) \<noteq> 1" "1 < int (length vs)" "length vs \<noteq> Suc 0" "Suc 0 < length vs" "vs \<noteq> []"
    "\<not> Suc (Suc (length vs)) \<le> 2" using args(3) by auto
  have "block_access B ?V False ?st e = Some ([], e')"
    using e'(1) len by (simp add: block_access_def verbose_lines_def write_access_def configure_def block_args0_def mmap_vtable_def Let_def)
  moreover have "block_write_log (bus L) ?A (bswap_32 \<circ> (!) ?ds) (length vs) (length vs)
      = block_write_log (bus L) ?A (\<lambda>i. strtoul (vs ! i) 16) (length vs) (length vs)"
    by (auto simp: block_write_log_def intro!: arg_cong [of _ _ concat])
  ultimately show ?thesis using parse_block [of a n vs strtoul a0 d0] args(1,2) e'(2) by (auto simp del: parse_args.simps)
qed

lemma block_words_reach_bus_witness:
  "\<exists>st e'. parse_args hex_sim False [''1000'', ''2'', ''a0'', ''a1''] (block_args0 0 0) = Inr st
     \<and> block_access release_build (mmap_vtable (traced_linux dead_linux)) False st (dead_object False) = Some ([], e')
     \<and> logged e' = [(0xE000A048, 0xA0), (0xE000A04C, 0x00091000), (0xE000A048, 0xA1), (0xE000A04C, 0x00911000), (0xE000A04C, 0)]"
proof -
  have "1 \<le> version (dead_object False)" by (simp add: dead_object_def)
  moreover have "\<forall>x \<in> set [''1000'', ''2'', ''a0'', ''a1'']. plain x" by (simp add: plain_def)
  moreover have "sint (hex_sim ''2'' 10) = int (length [''a0'', ''a1''])" by (simp add: hex_sim_def)
  ultimately obtain st e' where st: "parse_args hex_sim False [''1000'', ''2'', ''a0'', ''a1''] (block_args0 0 0) = Inr st"
    "block_access release_build (mmap_vtable (traced_linux dead_linux)) False st (dead_object False) = Some ([], e')"
    "logged e' = logged (dead_object False) @ (if isInput (dead_object False) then turn_log (bus dead_linux) True else [])
      @ block_write_log (bus dead_linux) (ucast (hex_sim ''1000'' 16)) (\<lambda>i. hex_sim ([''a0'', ''a1''] ! i) 16)
          (length [''a0'', ''a1'']) (length [''a0'', ''a1'']) @ [(gpio_base (bus dead_linux) + Reg_OutputUpper, 0)]"
    using block_words_reach_bus [OF dead_advancing dead_object_mapped [of False],
      where B = release_build and a = "''1000''" and n = "''2''" and vs = "[''a0'', ''a1'']" and strtoul = hex_sim
      and ?a0.0 = 0 and ?d0.0 = 0] by auto
  from st(3) have "logged e' = [(0xE000A048, 0xA0), (0xE000A04C, 0x00091000), (0xE000A048, 0xA1), (0xE000A04C, 0x00911000), (0xE000A04C, 0)]"
    by (simp add: hex_sim_def block_write_log_def blk_word_def bits_defs reg_defs
      dead_object_def emio_base_defs dead_linux_def upt_rec)
  with st(1,2) show ?thesis by blast
qed

end
