(* ===== verification/Echo.thy ===== *)
theory Echo
  imports Emio Console
begin

text \<open>
  platform_standalone/echo_test_src/main.c, the network test: it enables the Ethernet of the processing
  system through the FPGA, derives its addresses from the board id and hands over to the lwIP echo
  server. The BSP and lwIP are the record \<open>netstack\<close> of their functions; addresses are the four bytes of
  an IPv4 address. The source is compiled for IPv4 here; \<open>dhcp\<close> is the switch \<open>LWIP_DHCP\<close>.
  \<open>None\<close> is a wait that never ends. A variable that is not initialised is a parameter.
\<close>

type_synonym ip = "word8 list"

record 'h netstack =
  board_bus :: "'h platform"
  init_platform :: "'h \<Rightarrow> 'h"
  lwip_init :: "'h \<Rightarrow> 'h"
  xemac_add :: "ip \<Rightarrow> ip \<Rightarrow> ip \<Rightarrow> word8 list \<Rightarrow> 'h \<Rightarrow> bool \<times> 'h"
  netif_set_default :: "'h \<Rightarrow> 'h"
  platform_enable_interrupts :: "'h \<Rightarrow> 'h"
  netif_set_up :: "'h \<Rightarrow> 'h"
  dhcp_start :: "'h \<Rightarrow> 'h"
  set_dhcp_timoutcntr :: "int \<Rightarrow> 'h \<Rightarrow> 'h"
  dhcp_timoutcntr :: "'h \<Rightarrow> int \<times> 'h"
  netif_addrs :: "'h \<Rightarrow> ip \<times> ip \<times> ip"
  set_netif_addrs :: "ip \<Rightarrow> ip \<Rightarrow> ip \<Rightarrow> 'h \<Rightarrow> 'h"
  xemacif_input :: "'h \<Rightarrow> 'h"
  start_application :: "'h \<Rightarrow> 'h"
  transfer_data :: "'h \<Rightarrow> 'h"
  TcpFastTmrFlag :: "'h \<Rightarrow> bool \<times> 'h"
  clear_TcpFastTmrFlag :: "'h \<Rightarrow> 'h"
  TcpSlowTmrFlag :: "'h \<Rightarrow> bool \<times> 'h"
  clear_TcpSlowTmrFlag :: "'h \<Rightarrow> 'h"
  tcp_fasttmr :: "'h \<Rightarrow> 'h"
  tcp_slowtmr :: "'h \<Rightarrow> 'h"

definition IP4_ADDR :: "word32 \<Rightarrow> word32 \<Rightarrow> word32 \<Rightarrow> word32 \<Rightarrow> ip" where
  "IP4_ADDR a b c d = [ucast a, ucast b, ucast c, ucast d]"

definition print_ip :: "string \<Rightarrow> ip \<Rightarrow> console list" where
  "print_ip msg ip = [Printf msg [], Printf ''%d.%d.%d.%d'' (map (\<lambda>b. Num (uint b)) ip)]"

definition print_ip_settings :: "ip \<Rightarrow> ip \<Rightarrow> ip \<Rightarrow> console list" where
  "print_ip_settings ip nm gw = print_ip ''Board IP: '' ip @ print_ip ''Netmask : '' nm @ print_ip ''Gateway : '' gw"

text \<open>The initial \<open>mac_ethernet_address\<close>; \<open>main\<close> replaces its last byte.\<close>

definition mac0 :: "word8 list" where "mac0 = [0xfa, 0x61, 0x0e, 0x03, 0x00, 0x00]"

definition board_id_bits :: "word32 \<Rightarrow> word32" where
  "board_id_bits board_status = drop_bit 24 (board_status AND 0x0f000000)"

text \<open>Waiting for an address: until there is one or the counter, which the interrupts of the platform
  decrement, is 0.\<close>

partial_function (option) dhcp_wait :: "'h netstack \<Rightarrow> 'h \<Rightarrow> 'h option" where
  "dhcp_wait N h =
     (if fst (netif_addrs N h) = [0, 0, 0, 0]
      then let (c, h) = dhcp_timoutcntr N h
           in if 0 < c then dhcp_wait N (xemacif_input N h) else Some h
      else Some h)"

definition dhcp_lease :: "'h netstack \<Rightarrow> 'h \<Rightarrow> ((ip \<times> ip \<times> ip) \<times> console list \<times> 'h) option" where
  "dhcp_lease N h = do {
     h \<leftarrow> dhcp_wait N (set_dhcp_timoutcntr N 24 (dhcp_start N h));
     let (c, h) = dhcp_timoutcntr N h;
     let (out, h) =
       (if c \<le> 0 \<and> fst (netif_addrs N h) = [0, 0, 0, 0]
        then ([Printf ''DHCP Timeout'' [], Printf ''Configuring default IP of 192.168.1.10'' []],
              set_netif_addrs N (IP4_ADDR 192 168 1 10) (IP4_ADDR 255 255 255 0) (IP4_ADDR 192 168 1 1) h)
        else ([], h));
     Some (netif_addrs N h, out, h)
   }"

text \<open>\<open>main\<close> up to the endless loop: \<open>False\<close> if it returns -1 instead. \<open>u\<close> is \<open>board_status\<close> before the
  read.\<close>

definition echo_start :: "bool \<Rightarrow> 'h netstack \<Rightarrow> word32 \<Rightarrow> 'h \<Rightarrow> (bool \<times> console list \<times> 'h) option" where
  "echo_start dhcp N u h = do {
     let P = board_bus N;
     let h = EMIO_Init P (init_platform N h);
     (_, h) \<leftarrow> EMIO_WriteQuadlet P 12 0x02010000 h;
     (v, h) \<leftarrow> EMIO_ReadQuadlet P 0 h;
     let board_id = board_id_bits (case v of None \<Rightarrow> u | Some v \<Rightarrow> v);
     let mac = mac0[5 := ucast board_id];
     let (ipaddr, netmask, gw) =
       (if dhcp then ([0, 0, 0, 0], [0, 0, 0, 0], [0, 0, 0, 0])
        else (IP4_ADDR 169 254 10 board_id, IP4_ADDR 255 255 0 0, IP4_ADDR 169 254 1 1));
     let out = [Printf ''Board id: %d'' [Num (uint board_id)]];
     let (added, h) = xemac_add N ipaddr netmask gw mac (lwip_init N h);
     if \<not> added then Some (False, out @ [Printf ''Error adding N/W interface'' []], h)
     else do {
       let h = netif_set_up N (platform_enable_interrupts N (netif_set_default N h));
       ((ipaddr, netmask, gw), out', h) \<leftarrow> (if dhcp then dhcp_lease N h else Some ((ipaddr, netmask, gw), [], h));
       Some (True, out @ out' @ print_ip_settings ipaddr netmask gw, start_application N h)
     }
   }"

text \<open>One iteration of the endless loop.\<close>

definition echo_poll :: "'h netstack \<Rightarrow> 'h \<Rightarrow> 'h" where
  "echo_poll N h =
     (let (fast, h) = TcpFastTmrFlag N h;
          h = (if fast then clear_TcpFastTmrFlag N (tcp_fasttmr N h) else h);
          (slow, h) = TcpSlowTmrFlag N h;
          h = (if slow then clear_TcpSlowTmrFlag N (tcp_slowtmr N h) else h)
      in transfer_data N (xemacif_input N h))"

end
