(* ===== verification/EchoProps.thy ===== *)
theory EchoProps
  imports Echo EmioDevice
begin

text \<open>
  The network test announces the board under its own id: the addresses it registers carry the position of
  the board switch. Waiting for a DHCP address ends as soon as the timeout counter has run down.
\<close>

lemma board_id_byte:
  "ucast (board_id_bits v) = (ucast (drop_bit 24 v) AND 0x0f :: word8)"
  "board_id_bits v = ucast (ucast (board_id_bits v) :: word8)"
proof -
  have m: "(0x0f000000 :: word32) = push_bit 24 (mask 4)" "(0x0f :: word8) = mask 4"
    by (simp_all add: mask_eq_exp_minus_1 push_bit_eq_mult)
  show "ucast (board_id_bits v) = (ucast (drop_bit 24 v) AND 0x0f :: word8)"
    unfolding board_id_bits_def m by (rule bit_word_eqI) (auto simp: bit_simps)
  show "board_id_bits v = ucast (ucast (board_id_bits v) :: word8)"
    unfolding board_id_bits_def m by (rule bit_word_eqI) (auto simp: bit_simps)
qed

lemma uint_of_byte: "uint (ucast x :: word32) = uint (x :: word8)"
  by transfer (simp add: take_bit_take_bit)

text \<open>C21. On a board whose firmware honours the EMIO interface the network test enables the Ethernet of
  the processing system (register 12) and registers its interface with the MAC address
  fa:61:0e:03:00:id and the IP address 169.254.10.id, where id is the 4-bit board id in register 0;
  it then starts the echo server, or reports that the interface was refused.\<close>

theorem echo_board_address:
  assumes "emio_device (board_bus N) pins rg" and "init_inert (board_bus N) pins rg"
  shows "\<exists>h1. rg h1 = (rg (init_platform N h))(12 := 0x02010000) \<and> emio_ready (board_bus N) pins rg h1
    \<and> echo_start False N u h =
      (let b = ucast (drop_bit 24 (rg (init_platform N h) 0)) AND 0x0f;
           (added, h2) = xemac_add N [169, 254, 10, b] [255, 255, 0, 0] [169, 254, 1, 1] [0xfa, 0x61, 0x0e, 0x03, 0, b] (lwip_init N h1);
           banner = [Printf ''Board id: %d'' [Num (uint b)]]
       in Some (if added
                then (True, banner @ print_ip_settings [169, 254, 10, b] [255, 255, 0, 0] [169, 254, 1, 1],
                      start_application N (netif_set_up N (platform_enable_interrupts N (netif_set_default N h2))))
                else (False, banner @ [Printf ''Error adding N/W interface'' []], h2)))"
proof -
  let ?h = "init_platform N h" and ?v = "rg (init_platform N h) 0"
  note i = emio_init_ready [OF assms, of ?h]
  obtain ha where a: "EMIO_WriteQuadlet (board_bus N) 12 0x02010000 (EMIO_Init (board_bus N) ?h) = Some (True, ha)"
    "emio_ready (board_bus N) pins rg ha" "rg ha = (rg ?h)(12 := 0x02010000)"
    using emio.write_ok [OF i(1)] i(2) by metis
  obtain h1 where h1: "EMIO_ReadQuadlet (board_bus N) 0 ha = Some (Some ?v, h1)"
    "emio_ready (board_bus N) pins rg h1" "rg h1 = (rg ?h)(12 := 0x02010000)"
    using emio.read_ok [OF a(2), of 0] a(3) by auto
  have b: "uint (board_id_bits ?v) = uint (ucast (drop_bit 24 ?v) AND 0x0f :: word8)"
    using uint_of_byte [of "ucast (board_id_bits ?v)"] board_id_byte [of ?v] by simp
  have "echo_start False N u h = (let (added, h2) = xemac_add N [169, 254, 10, ucast (board_id_bits ?v)] [255, 255, 0, 0]
          [169, 254, 1, 1] [0xfa, 0x61, 0x0e, 0x03, 0, ucast (board_id_bits ?v)] (lwip_init N h1);
        banner = [Printf ''Board id: %d'' [Num (uint (board_id_bits ?v))]]
       in Some (if added
                then (True, banner @ print_ip_settings [169, 254, 10, ucast (board_id_bits ?v)] [255, 255, 0, 0] [169, 254, 1, 1],
                      start_application N (netif_set_up N (platform_enable_interrupts N (netif_set_default N h2))))
                else (False, banner @ [Printf ''Error adding N/W interface'' []], h2)))"
    using a(1) h1(1) by (simp add: echo_start_def IP4_ADDR_def mac0_def Let_def case_prod_beta)
  with b h1(2,3) show ?thesis unfolding board_id_byte(1) by (intro exI [of _ h1]) (simp add: Let_def)
qed

definition net_sim :: "emio_fpga netstack" where
  "net_sim = \<lparr>board_bus = emio_sim 3, init_platform = id, lwip_init = id, xemac_add = (\<lambda>a m g mac. Pair True),
     netif_set_default = id, platform_enable_interrupts = id, netif_set_up = id, dhcp_start = id,
     set_dhcp_timoutcntr = (\<lambda>c. id), dhcp_timoutcntr = Pair 0, netif_addrs = (\<lambda>h. ([], [], [])),
     set_netif_addrs = (\<lambda>a m g. id), xemacif_input = id, start_application = id, transfer_data = id,
     TcpFastTmrFlag = Pair False, clear_TcpFastTmrFlag = id, TcpSlowTmrFlag = Pair False, clear_TcpSlowTmrFlag = id,
     tcp_fasttmr = id, tcp_slowtmr = id\<rparr>"

lemma echo_board_address_witness:
  "\<exists>out h'. echo_start False net_sim 0 (fpga_reset (\<lambda>a. 0x4B4F3579)) = Some (True, out, h') \<and> fregs h' 12 = 0x02010000
     \<and> out = [Printf ''Board id: %d'' [Num 11]] @ print_ip_settings [169, 254, 10, 11] [255, 255, 0, 0] [169, 254, 1, 1]"
proof -
  have "emio_device (board_bus net_sim) fpins fregs" "init_inert (board_bus net_sim) fpins fregs"
    by (simp_all add: net_sim_def emio_sim_device emio_sim_inert)
  from echo_board_address [OF this, of "fpga_reset (\<lambda>a. 0x4B4F3579)" 0] show ?thesis
    by (auto simp: net_sim_def fpga_reset_def)
qed

section \<open>The wait for an address\<close>

text \<open>The states in which the wait tests its condition.\<close>

fun dhcp_round :: "'h netstack \<Rightarrow> nat \<Rightarrow> 'h \<Rightarrow> 'h" where
  "dhcp_round N 0 h = h"
| "dhcp_round N (Suc n) h = dhcp_round N n (xemacif_input N (snd (dhcp_timoutcntr N h)))"

lemma dhcp_wait_ends:
  "fst (dhcp_timoutcntr N (dhcp_round N n h)) \<le> 0 \<or> fst (netif_addrs N (dhcp_round N n h)) \<noteq> [0, 0, 0, 0]
    \<Longrightarrow> \<exists>h'. dhcp_wait N h = Some h'"
proof (induction n arbitrary: h)
  case 0
  then show ?case by (subst dhcp_wait.simps) (auto simp: case_prod_beta Let_def)
next
  case (Suc n)
  then show ?case by (subst dhcp_wait.simps) (auto simp: case_prod_beta Let_def)
qed

end
