(* ===== verification/MemSafe.thy ===== *)
theory MemSafe
  imports MemtestRunProps
begin

text \<open>
  Where the diagnostics write. The program itself lies in the first megabyte of the DDR memory it
  tests, so a stray write is fatal. A \<open>write_policy\<close> is a set of addresses that contains all
  memory-mapped registers; \<open>spares P W s\<close> says that every logged write of the state \<open>s\<close> of
  the traced hardware is in \<open>W\<close>, and that the two register tables only hold addresses of
  registers. Every operation of memtest.c preserves it as long as the ranges handed to the memory
  tests are inside \<open>W\<close>; nothing is assumed of what the hardware answers. Two policies are
  used: everything from 1 MB on, for all commands, and the registers with the requested range, for
  the test server.
\<close>

section \<open>Policies\<close>

definition spares :: "(word32 \<Rightarrow> bool) \<Rightarrow> ('h \<times> wlog) mt \<Rightarrow> bool" where
  "spares W s \<longleftrightarrow> list_all (\<lambda>(a, v). W a) (snd (hw s))
     \<and> list_all (\<lambda>(a, v). ddr_top \<le> a) (reg_values s)
     \<and> list_all (\<lambda>(a, v). ddr_top \<le> a) (iob_values s)"

definition sparing :: "(word32 \<Rightarrow> bool) \<Rightarrow> ('h \<times> wlog) mt option \<Rightarrow> bool" where
  "sparing W x \<longleftrightarrow> (\<forall>s. x = Some s \<longrightarrow> spares W s)"

text \<open>The range \<open>start \<dots> start + sz\<close> of a memory test is inside the policy.\<close>

definition test_range :: "(word32 \<Rightarrow> bool) \<Rightarrow> word32 \<Rightarrow> int \<Rightarrow> bool" where
  "test_range W start sz \<longleftrightarrow> 16 dvd sz \<and> (\<forall>i. 0 \<le> i \<and> i < sz \<longrightarrow> W (start + of_int i))"

lemma spares_updates [simp]:
  "spares W (s\<lparr>werr := x1\<rparr>) = spares W s" "spares W (s\<lparr>epp := x2\<rparr>) = spares W s"
  "spares W (s\<lparr>errcnt := x3\<rparr>) = spares W s" "spares W (s\<lparr>err_buf := x4\<rparr>) = spares W s"
  "spares W (s\<lparr>bus_width := x5\<rparr>) = spares W s" "spares W (s\<lparr>verbose := x6\<rparr>) = spares W s"
  "spares W (s\<lparr>rseed := x7\<rparr>) = spares W s" "spares W (s\<lparr>memtest_stat := x8\<rparr>) = spares W s"
  "spares W (s\<lparr>fast_is_bc := x9\<rparr>) = spares W s" "spares W (s\<lparr>csv_mode := x9\<rparr>) = spares W s"
  "spares W (s\<lparr>pclk := x10\<rparr>) = spares W s" "spares W (s\<lparr>test_time := x10\<rparr>) = spares W s"
  "spares W (s\<lparr>total_test_time := x10\<rparr>) = spares W s" "spares W (s\<lparr>dlist := x11\<rparr>) = spares W s"
  "spares W (s\<lparr>gresult := x12\<rparr>) = spares W s" "spares W (s\<lparr>q1 := x12\<rparr>) = spares W s"
  "spares W (s\<lparr>q2 := x12\<rparr>) = spares W s" "spares W (s\<lparr>q3 := x12\<rparr>) = spares W s"
  "spares W (s\<lparr>q4 := x12\<rparr>) = spares W s" "spares W (s\<lparr>pat1 := x13\<rparr>) = spares W s"
  "spares W (s\<lparr>pat2 := x13\<rparr>) = spares W s"
  by (simp_all add: spares_def)

lemma spares_if: "(c \<Longrightarrow> spares W a) \<Longrightarrow> (\<not> c \<Longrightarrow> spares W b) \<Longrightarrow> spares W (if c then a else b)"
  by simp

lemma sparing_if: "(c \<Longrightarrow> sparing W a) \<Longrightarrow> (\<not> c \<Longrightarrow> sparing W b) \<Longrightarrow> sparing W (if c then a else b)"
  by simp

lemma sparing_Some: "spares W s \<Longrightarrow> sparing W (Some s)"
  by (simp add: sparing_def)

lemma sparing_bind: "sparing W x \<Longrightarrow> (\<And>s. spares W s \<Longrightarrow> sparing W (f s)) \<Longrightarrow> sparing W (Option.bind x f)"
  by (auto simp: sparing_def bind_eq_Some_conv)

lemma sparing_mono: "sparing V x \<Longrightarrow> (\<And>a. V a \<Longrightarrow> W a) \<Longrightarrow> sparing W x"
  unfolding sparing_def spares_def list_all_iff by fast

definition sparing_snd :: "(word32 \<Rightarrow> bool) \<Rightarrow> ('b \<times> ('h \<times> wlog) mt) option \<Rightarrow> bool" where
  "sparing_snd W x \<longleftrightarrow> sparing W (map_option snd x)"

lemma sparing_cases [simp]:
  "sparing W None" "sparing W (Some s) = spares W s" "sparing_snd W None" "sparing_snd W (Some st) = spares W (snd st)"
  by (simp_all add: sparing_def sparing_snd_def)

lemma sparing_snd_rules:
  "spares W (snd st) \<Longrightarrow> sparing_snd W (Some st)"
  "(c \<Longrightarrow> sparing_snd W a) \<Longrightarrow> (\<not> c \<Longrightarrow> sparing_snd W b) \<Longrightarrow> sparing_snd W (if c then a else b)"
  "sparing_snd W y \<Longrightarrow> (\<And>u. spares W (snd u) \<Longrightarrow> sparing_snd W (f u)) \<Longrightarrow> sparing_snd W (Option.bind y f)"
  "sparing W x \<Longrightarrow> (\<And>s. spares W s \<Longrightarrow> sparing_snd W (g s)) \<Longrightarrow> sparing_snd W (Option.bind x g)"
  by (simp, simp, cases y, simp, simp, cases x, simp, simp)

lemma sparing_snd_bind:
  "sparing_snd W y \<Longrightarrow> (\<And>u. spares W (snd u) \<Longrightarrow> sparing W (f u)) \<Longrightarrow> sparing W (Option.bind y f)"
  by (cases y) simp_all

lemma spares_cfor:
  assumes "0 < d" "spares W (g s)" "\<And>i t. spares W (g t) \<Longrightarrow> spares W (g (f i t))"
  shows "spares W (g (cfor lo n d f s))"
  by (rule cfor_inv [where P = "\<lambda>i t. spares W (g t)"]) (use assms in auto)

lemma spares_cfor_brk:
  assumes "0 < d" "spares W (g s)" "\<And>i t. spares W (g t) \<Longrightarrow> spares W (g (snd (f i t)))"
  shows "spares W (g (cfor_brk lo n d f s))"
  by (rule cfor_brk_inv [where P = "\<lambda>i t. spares W (g t)"]) (use assms in auto)

lemma spares_fold:
  assumes "spares W (g s)" "\<And>x t. x \<in> set xs \<Longrightarrow> spares W (g t) \<Longrightarrow> spares W (g (f x t))"
  shows "spares W (g (fold f xs s))"
  using assms by (induction xs arbitrary: s) auto

lemma sparing_cfor_opt:
  assumes "0 < d" "spares W s" "\<And>i t. spares W t \<Longrightarrow> sparing W (f i t)"
  shows "sparing W (cfor_opt lo n d f s)"
proof -
  have "spares W t" if "cfor_opt lo n d f s = Some t" for t
    by (rule cfor_opt_partial [where P = "\<lambda>_. spares W", OF that assms(2,1)])
      (use assms(3) in \<open>auto simp: sparing_def\<close>)
  then show ?thesis by (simp add: sparing_def)
qed

text \<open>A loop over the words of the tested range.\<close>

lemma spares_range_loop:
  assumes r: "test_range W start sz" and d: "d = 4 \<or> d = 16" and s: "spares W (g s)"
    and body: "\<And>i t. spares W (g t) \<Longrightarrow> (\<And>k. 0 \<le> k \<Longrightarrow> k < d \<Longrightarrow> W (start + of_int i + of_int k)) \<Longrightarrow> spares W (g (f i t))"
  shows "spares W (g (cfor 0 sz d f s))"
proof (rule cfor_count [where I = "\<lambda>k t. spares W (g t)"])
  fix k t assume k: "k < n_iter sz d" and t: "spares W (g t)"
  show "spares W (g (f (d * int k) t))"
  proof (rule body [OF t])
    fix k' assume k': "(0 :: int) \<le> k'" "k' < d"
    have "d dvd sz" using r d by (auto simp: test_range_def intro: dvd_trans [of _ 16])
    then obtain q where q: "sz = d * q" by blast
    then have "int k < q" using k d by (auto simp: n_iter_iff)
    then have "int k + 1 \<le> q" by simp
    then have "d * (int k + 1) \<le> d * q" using d by auto
    then have "d * int k + k' < sz" using q k' by (simp add: algebra_simps)
    moreover have "0 \<le> d * int k + k'" using k' d by auto
    ultimately have "W (start + of_int (d * int k + k'))"
      using r unfolding test_range_def by blast
    then show "W (start + of_int (d * int k) + of_int k')" by (simp add: add.assoc)
  qed
qed (use d s in auto)

text \<open>The cache maintenance through CP15 and the wait for the L2 controller write no memory.\<close>

lemma L1_trace: "snd (L1_setway (traced P) reg h) = snd h"
proof -
  have set: "snd (snd (L1_set_body (traced P) reg ls way i t)) = snd (snd t)" for ls way i t
    by (cases "snd t") (simp add: L1_set_body_def case_prod_beta Let_def)
  have sets: "snd (snd (cfor 0 n 1 (L1_set_body (traced P) reg ls way) t)) = snd (snd t)" for n ls way t
    by (rule cfor_inv [where P = "\<lambda>_ u. snd (snd u) = snd (snd t)"]) (simp_all add: set)
  have way: "snd (snd (snd (L1_way_body (traced P) reg ls n i t))) = snd (snd (snd t))" for ls n i t
    by (simp add: L1_way_body_def case_prod_beta Let_def sets)
  have ways: "snd (snd (snd (cfor 0 m 1 (L1_way_body (traced P) reg ls n) t))) = snd (snd (snd t))" for m ls n t
    by (rule cfor_inv [where P = "\<lambda>_ u. snd (snd (snd u)) = snd (snd (snd t))"]) (simp_all add: way)
  show ?thesis by (cases h) (simp add: L1_setway_def Let_def case_prod_beta ways)
qed

lemma L2_wait_trace:
  assumes "L2_sync_wait (traced P) h = Some h'" shows "snd h' = snd h"
proof -
  have "case (traced P, h) of (Q, u) \<Rightarrow> Q = traced P \<longrightarrow> snd h' = snd u"
    using assms
    by (rule L2_sync_wait.raw_induct [rotated])
      (fastforce simp: case_prod_beta split: if_splits)
  then show ?thesis by simp
qed

section \<open>The contract of a policy\<close>

text \<open>
  A policy admits every register. The lemmas of the locale are one per operation, in the order of
  the source; \<open>spare\<close> collects them.
\<close>

named_theorems spare "operations that respect the policy"

locale write_policy =
  fixes W :: "word32 \<Rightarrow> bool"
  assumes registers: "ddr_top \<le> a \<Longrightarrow> W a"
begin

lemma REG_WRITE_spares: "W a \<Longrightarrow> spares W s \<Longrightarrow> spares W (REG_WRITE (traced P) a v s)"
  by (cases "hw s") (simp add: REG_WRITE_def spares_def)

lemma REG_WRITE_io [spare]: "ddr_top \<le> a \<Longrightarrow> spares W s \<Longrightarrow> spares W (REG_WRITE (traced P) a v s)"
  by (rule REG_WRITE_spares [OF registers])

lemma REG_READ_spares [simp]: "spares W (snd (REG_READ (traced P) a s)) = spares W s"
  by (cases "hw s") (simp add: REG_READ_def spares_def)

lemma timer_spares [spare]:
  "spares W s \<Longrightarrow> spares W (timer_init (traced P) s)" "spares W s \<Longrightarrow> spares W (snd (timer_read (traced P) s))"
  unfolding timer_init_def timer_read_def Let_def
  by (intro REG_WRITE_io; simp add: ddr_top_def) simp

lemma error_info_spares [spare]: "spares W s \<Longrightarrow> spares W (error_info (traced P) a w r s)"
  unfolding error_info_def Let_def
  by (auto intro!: REG_WRITE_io simp: ddr_top_def ERR_INFO_def)

lemma compare_word_spares [spare]:
  "spares W (snd (snd st)) \<Longrightarrow> spares W (snd (snd (compare_word (traced P) a ref data st)))"
  by (auto simp: compare_word_def case_prod_beta intro: error_info_spares)

lemma test_begin_spares [spare]: "spares W s \<Longrightarrow> spares W (test_begin (traced P) mode s)"
  unfolding test_begin_def
  by (intro timer_spares spares_if REG_WRITE_io) (simp_all add: ddr_top_def MAILBOX_STAT_def)

lemma test_end_spares [spare]: "spares W (snd (snd st)) \<Longrightarrow> spares W (test_end (traced P) mode st)"
  using timer_spares(2) [of "snd (snd st)" P]
  by (auto simp: test_end_def case_prod_beta Let_def)

lemma mt_flush_sparing [spare]:
  assumes "W (l2cc_inv_cln_way P)" "spares W s"
  shows "sparing W (mt_flush (traced P) s)"
proof -
  obtain h t where h: "L1DCacheFlush (traced P) (hw s) = (h, t)" by fastforce
  then have "t = snd (hw s)" using L1_trace by (metis L1DCacheFlush_def snd_conv)
  then show ?thesis
    using assms h
    by (auto simp: mt_flush_def DCacheInvalidate_def L2CacheFlush_def sparing_def spares_def
        dest!: L2_wait_trace)
qed

text \<open>The write passes.\<close>

lemma simple_write_sparing:
  assumes "test_range W start sz" "spares W s"
  shows "spares W (cfor 0 sz 16 (simple_write_body (traced P) start dat) s)"
proof (rule spares_range_loop [OF assms(1), where g = id, simplified])
  fix i and t :: "('a \<times> wlog) mt" assume t: "spares W t" and k: "\<And>k. 0 \<le> k \<Longrightarrow> k < 16 \<Longrightarrow> W (start + of_int i + of_int k)"
  show "spares W (simple_write_body (traced P) start dat i t)"
    unfolding simple_write_body_def Let_def
    using k [of 0] k [of 4] k [of 8] k [of 12] t by (intro REG_WRITE_spares) simp_all
qed (use assms(2) in auto)

lemma lfsr_write_sparing:
  assumes "test_range W start sz" "spares W s"
  shows "spares W (snd (cfor 0 sz 4 (lfsr_write_body (traced P) start) (v, s)))"
proof (rule spares_range_loop [OF assms(1), where g = snd])
  fix i and t :: "word32 \<times> ('a \<times> wlog) mt"
  assume t: "spares W (snd t)" and k: "\<And>k. 0 \<le> k \<Longrightarrow> k < 4 \<Longrightarrow> W (start + of_int i + of_int k)"
  show "spares W (snd (lfsr_write_body (traced P) start i t))"
    using k [of 0] t by (simp add: lfsr_write_body_def Let_def case_prod_beta REG_WRITE_spares)
qed (use assms in simp_all)

lemma pat_write_sparing:
  assumes "test_range W start sz" "spares W s"
  shows "spares W (cfor 0 sz 4 (pat_write_body (traced P) start pat) s)"
proof (rule spares_range_loop [OF assms(1), where g = id, simplified])
  fix i and t :: "('a \<times> wlog) mt" assume t: "spares W t" and k: "\<And>k. 0 \<le> k \<Longrightarrow> k < 4 \<Longrightarrow> W (start + of_int i + of_int k)"
  show "spares W (pat_write_body (traced P) start pat i t)"
    using k [of 0] t by (simp add: pat_write_body_def Let_def REG_WRITE_spares)
qed (use assms(2) in auto)

lemma memtest_write_sparing:
  assumes "test_range W start sz" "spares W s"
  shows "spares W (snd (cfor 0 sz 4 (memtest_write_body (traced P) start mode) (v, s)))"
proof (rule spares_range_loop [OF assms(1), where g = snd])
  fix i and t :: "word32 \<times> ('a \<times> wlog) mt"
  assume t: "spares W (snd t)" and k: "\<And>k. 0 \<le> k \<Longrightarrow> k < 4 \<Longrightarrow> W (start + of_int i + of_int k)"
  show "spares W (snd (memtest_write_body (traced P) start mode i t))"
    using k [of 0] t by (simp add: memtest_write_body_def Let_def case_prod_beta REG_WRITE_spares)
qed (use assms in simp_all)

text \<open>The read passes.\<close>

lemma simple_read_spares:
  assumes "spares W s"
  shows "spares W (snd (snd (cfor_brk 0 sz 16 (simple_read_body (traced P) start dat) (m, l, s))))"
proof (rule spares_cfor_brk [where g = "\<lambda>st. snd (snd st)"])
  fix i and t :: "int \<times> int list \<times> ('a \<times> wlog) mt" assume t: "spares W (snd (snd t))"
  have "spares W (snd (snd (fold (simple_read_word (traced P) (start + of_int i) dat) [0, 1, 2, 3] t)))"
    by (rule spares_fold [where g = "\<lambda>st. snd (snd st)", OF t])
      (auto simp: simple_read_word_def case_prod_beta Let_def intro: compare_word_spares)
  then show "spares W (snd (snd (snd (simple_read_body (traced P) start dat i t))))"
    by (simp add: simple_read_body_def Let_def case_prod_beta)
qed (use assms in simp_all)

lemma read_passes_spare:
  assumes "spares W s"
  shows "spares W (snd (snd (snd (cfor_brk 0 sz 4 (lfsr_read_body (traced P) start) (v, m, l, s)))))"
    and "spares W (snd (snd (cfor_brk 0 sz 4 (pat_read_body (traced P) start pat) (m, l, s))))"
    and "spares W (snd (snd (snd (cfor_brk 0 sz 4 (memtest_read_body (traced P) start mode) (v, m, l, s)))))"
proof -
  show "spares W (snd (snd (snd (cfor_brk 0 sz 4 (lfsr_read_body (traced P) start) (v, m, l, s)))))"
    by (rule spares_cfor_brk [where g = "\<lambda>st. snd (snd (snd st))"])
      (auto simp: lfsr_read_body_def case_prod_beta Let_def assms intro!: compare_word_spares)
  show "spares W (snd (snd (cfor_brk 0 sz 4 (pat_read_body (traced P) start pat) (m, l, s))))"
    by (rule spares_cfor_brk [where g = "\<lambda>st. snd (snd st)"])
      (auto simp: pat_read_body_def case_prod_beta Let_def assms intro!: compare_word_spares)
  show "spares W (snd (snd (snd (cfor_brk 0 sz 4 (memtest_read_body (traced P) start mode) (v, m, l, s)))))"
    by (rule spares_cfor_brk [where g = "\<lambda>st. snd (snd (snd st))"])
      (auto simp: memtest_read_body_def case_prod_beta Let_def assms intro!: compare_word_spares)
qed

text \<open>The four tests. The policy has to admit the L2 maintenance register of the flush.\<close>

lemma memtest_simple_sparing:
  assumes "test_range W start sz" "W (l2cc_inv_cln_way P)" "spares W s"
  shows "sparing W (memtest_simple (traced P) start sz mode lp d0 d1 d2 d3 s)"
  unfolding memtest_simple_def Let_def
  by (intro sparing_bind mt_flush_sparing sparing_if sparing_Some test_end_spares simple_read_spares
      simple_write_sparing test_begin_spares assms)

lemma memtest_lfsr_sparing:
  assumes "test_range W start sz" "W (l2cc_inv_cln_way P)" "spares W s"
  shows "sparing W (memtest_lfsr (traced P) start sz mode lp s)"
  unfolding memtest_lfsr_def Let_def case_prod_beta
  by (intro sparing_bind mt_flush_sparing sparing_Some test_end_spares read_passes_spare
      lfsr_write_sparing test_begin_spares assms) (simp add: assms)

lemma memtest_pat128_sparing:
  assumes "test_range W start sz" "W (l2cc_inv_cln_way P)" "spares W s"
  shows "sparing W (memtest_pat128 (traced P) start sz mode pat s)"
  unfolding memtest_pat128_def Let_def
  by (intro sparing_bind mt_flush_sparing sparing_Some test_end_spares read_passes_spare
      pat_write_sparing test_begin_spares assms)

lemma memtest_sparing:
  assumes "test_range W start sz" "W (l2cc_inv_cln_way P)" "spares W s"
  shows "sparing W (memtest (traced P) start sz mode lp s)"
  unfolding memtest_def Let_def case_prod_beta
  by (intro sparing_bind mt_flush_sparing sparing_Some test_end_spares memtest_write_sparing
      test_begin_spares assms) (auto intro: read_passes_spare)

lemma run_tests_sparing:
  assumes "\<And>b f u. (b, f) \<in> set ts \<Longrightarrow> spares W u \<Longrightarrow> sparing W (f u)" "spares W s"
  shows "sparing W (run_tests sel ts s)"
  using assms
proof (induction ts arbitrary: s)
  case (Cons bf ts)
  obtain b f where bf: "bf = (b, f)" by fastforce
  have "sparing W (f s)" using Cons.prems(1) [of b f s] Cons.prems(2) by (simp add: bf)
  moreover have "sparing W (run_tests sel ts u)" if "spares W u" for u
    using that by (intro Cons.IH Cons.prems(1)) auto
  ultimately show ?case using Cons.prems(2) by (auto simp: bf sparing_def split: option.split)
qed (simp add: sparing_Some)

lemma test_table_sparing:
  assumes "test_range W start sz" "W (l2cc_inv_cln_way P)" "spares W s"
    and "(b, f) \<in> set (test_table (traced P) start sz lp) \<or> (b, f) \<in> set (xregv_table (traced P) start sz lp)"
  shows "sparing W (f s)"
  using assms(4) unfolding test_table_def xregv_table_def
  by (auto simp: wide_or_narrow_def memtest_sparing [OF assms(1-3)] memtest_simple_sparing [OF assms(1-3)]
      memtest_pat128_sparing [OF assms(1-3)] memtest_lfsr_sparing [OF assms(1-3)])

lemma memtest_all_init_spares: "spares W s \<Longrightarrow> spares W (memtest_all_init (traced P) s)"
  unfolding memtest_all_init_def Let_def
  by (simp add: error_info_spares REG_WRITE_io ddr_top_def ERR_INFO_def)

lemma memtest_all_sparing:
  assumes "test_range W start sz" "W (l2cc_inv_cln_way P)" "spares W s"
  shows "sparing W (memtest_all (traced P) start sz sel lp s)"
proof -
  have "sparing W (run_tests sel (test_table (traced P) start sz lp) (memtest_all_init (traced P) s))"
    by (rule run_tests_sparing, rule test_table_sparing [OF assms(1,2)])
      (auto intro: memtest_all_init_spares assms(3))
  then show ?thesis
    unfolding memtest_all_def
    by (rule sparing_bind) (simp add: sparing_Some REG_WRITE_io ddr_top_def ERR_INFO_def)
qed

text \<open>The routines around the tests: results, register lists, drive strength, PLL and XADC.\<close>

lemma upload_spares: "spares W s \<Longrightarrow> spares W (upload_memtest_results (traced P) s)"
  unfolding upload_memtest_results_def Let_def
  by (intro REG_WRITE_io spares_fold [where g = id, simplified])
    (auto simp: MAILBOX_RESULT_def ddr_top_def)

lemma clear_tdm_idm_spares: "spares W s \<Longrightarrow> spares W (clear_tdm_idm (traced P) s)"
  unfolding clear_tdm_idm_def case_prod_beta Let_def
  by (intro REG_WRITE_io spares_fold [where g = id, simplified])
    (auto simp: ddr_top_def)

lemma update_patterns_spares [simp]: "spares W (update_patterns s) = spares W s"
  by (simp add: update_patterns_def Let_def)

lemma check_bus_width_spares [simp]: "spares W (check_bus_width (traced P) s) = spares W s"
  by (simp add: check_bus_width_def case_prod_beta Let_def)

lemma ddrc_init_spares:
  assumes "spares W s" shows "spares W (ddrc_init (traced P) s)"
  unfolding ddrc_init_def case_prod_beta
proof (rule spares_fold [where g = id, simplified])
  fix x and t :: "('a \<times> wlog) mt" assume x: "x \<in> set (reg_values s)" and t: "spares W t"
  have "ddr_top \<le> fst x" using assms x by (auto simp: spares_def list_all_iff)
  then show "spares W (REG_WRITE (traced P) (fst x) (snd x) t)" using t by (rule REG_WRITE_io)
qed (rule assms)

lemma update_reglist_registers:
  "list_all (\<lambda>(a, v). Q a) (update_reglist l a b w v) = list_all (\<lambda>(a, v). Q a) l"
  by (induction l) (auto simp: Let_def case_prod_beta)

lemma set_wr_offset_registers:
  "list_all (\<lambda>(a, v). Q a) (set_wr_offset j i l) = list_all (\<lambda>(a, v). Q a) l"
  by (simp add: set_wr_offset_def Let_def update_reglist_registers)

lemma spares_set_regs:
  "list_all (\<lambda>(a, v). ddr_top \<le> a) l = list_all (\<lambda>(a, v). ddr_top \<le> a) (reg_values s)
    \<Longrightarrow> spares W (s\<lparr>reg_values := l\<rparr>) = spares W s"
  by (simp add: spares_def)

lemma ddriob_get_loop_spares:
  "spares W s \<Longrightarrow> list_all (\<lambda>(a, v). ddr_top \<le> a) l \<Longrightarrow> spares W (snd (ddriob_get_loop (traced P) l s))
     \<and> list_all (\<lambda>(a, v). ddr_top \<le> a) (fst (ddriob_get_loop (traced P) l s))"
  by (induction l arbitrary: s) (auto simp: case_prod_beta Let_def REG_WRITE_io)

lemma ddriob_get_spares: "spares W s \<Longrightarrow> spares W (ddriob_get (traced P) s)"
  using ddriob_get_loop_spares [of s "iob_values s" P]
  by (simp add: ddriob_get_def spares_def case_prod_beta Let_def update_reglist_registers)

lemma ddrc_get_loop_spares:
  "spares W s \<Longrightarrow> list_all (\<lambda>(a, v). ddr_top \<le> a) l \<Longrightarrow> spares W (snd (ddrc_get_loop (traced P) l s))
     \<and> list_all (\<lambda>(a, v). ddr_top \<le> a) (fst (ddrc_get_loop (traced P) l s))"
  by (induction l arbitrary: s) (auto simp: case_prod_beta Let_def REG_WRITE_io)

lemma ddrc_get_spares: "spares W s \<Longrightarrow> spares W (ddrc_get (traced P) s)"
  using ddrc_get_loop_spares [of s "reg_values s" P]
  by (simp add: ddrc_get_def spares_def case_prod_beta Let_def update_reglist_registers)

lemma apply_drive_spares: "spares W s \<Longrightarrow> spares W (apply_drive (traced P) do_all scl s)"
  unfolding apply_drive_def set_drive_strength_def Let_def case_prod_beta
  by (intro spares_if REG_WRITE_io)
    (simp_all add: REG_WRITE_io ddr_top_def reg_drive_addr_def reg_drive_data_def reg_drive_diff_def
      reg_drive_clock_def)

text \<open>The eye measurements: every point of the sweep is a memory test.\<close>

lemma eye_m_loop_sparing:
  assumes point: "\<And>i t. spares W t \<Longrightarrow> sparing W (point i t)" and s: "spares W (snd st)"
  shows "sparing_snd W (eye_m_loop point k mstep n m st)"
  using s
proof (induction n arbitrary: m st)
  case (Suc n)
  show ?case
    unfolding eye_m_loop.simps Let_def case_prod_beta
    by (intro sparing_snd_rules(1,2,4) point Suc.IH) (simp_all add: Suc.prems)
qed (simp add: sparing_snd_rules)

lemma eye_sweep_sparing:
  assumes "\<And>i t. spares W t \<Longrightarrow> sparing W (point i t)" "spares W s"
  shows "sparing_snd W (eye_sweep point step s)"
  unfolding eye_sweep_def Let_def
  by (intro sparing_snd_rules(3) eye_m_loop_sparing assms) (simp_all add: assms)

lemma eye_save_spares: "spares W s \<Longrightarrow> spares W (eye_save (traced P) eyes s)"
  unfolding eye_save_def case_prod_beta
  by (intro spares_fold [where g = id, simplified] REG_WRITE_io) (auto simp: MAILBOX_RESULT_def ddr_top_def)

lemma write_eye_point_sparing:
  assumes "test_range W start sz" "W (l2cc_inv_cln_way P)" "spares W s"
  shows "sparing W (write_eye_point (traced P) start sz quick i s)"
  unfolding write_eye_point_def Let_def
proof (intro memtest_all_sparing assms ddrc_init_spares)
  let ?t = "REG_WRITE (traced P) MAILBOX_STAT (of_int i) s"
  have "spares W ?t" by (rule REG_WRITE_io) (simp_all add: ddr_top_def MAILBOX_STAT_def assms)
  then show "spares W (?t\<lparr>reg_values := fold (\<lambda>j. set_wr_offset j i) [0, 1, 2, 3] (reg_values ?t)\<rparr>)"
    by (subst spares_set_regs) (simp_all add: set_wr_offset_registers)
qed

lemma measure_write_eye_sparing:
  assumes "test_range W (1024 * 1024) (1024 * 1024 * scl)" "W (l2cc_inv_cln_way P)" "spares W s"
  shows "sparing_snd W (measure_write_eye (traced P) step scl quick fix_ctr save s)"
proof -
  have sweep: "sparing_snd W (eye_sweep (write_eye_point (traced P) (1024 * 1024) (1024 * 1024 * scl) quick) step
      (s\<lparr>memtest_stat := 0\<rparr>))"
    by (rule eye_sweep_sparing, rule write_eye_point_sparing) (simp_all only: assms spares_updates)
  have regs: "spares W (t\<lparr>reg_values := reg_values s\<rparr>)" if "spares W t" for t :: "('a \<times> wlog) mt"
    using that assms(3) by (simp add: spares_def)
  have fix_ok: "spares W (write_eye_fix fix_ctr eyes t)" if "spares W t" for eyes and t :: "('a \<times> wlog) mt"
    using that by (simp add: write_eye_fix_def Let_def spares_set_regs set_wr_offset_registers)
  show ?thesis
    unfolding measure_write_eye_def Let_def case_prod_beta
    by (intro sparing_snd_rules(1,3) sweep; simp add: ddr_top_def MAILBOX_RESULT_def fix_ok regs eye_save_spares REG_WRITE_io)
qed

lemma read_eye_regs_spares: "spares W s \<Longrightarrow> spares W (snd (read_eye_regs (traced P) js s))"
  by (induction js arbitrary: s) (auto simp: case_prod_beta Let_def)

lemma eye_registers:
  "ddr_top \<le> R00" "ddr_top \<le> R2C" "ddr_top \<le> R65" "ddr_top \<le> MAILBOX_STAT"
  "j \<in> set [0, 1, 2, 3] \<Longrightarrow> ddr_top \<le> R5A + 4 * of_nat j"
  "j \<in> set [0, 1, 2, 3] \<Longrightarrow> ddr_top \<le> R50 + 4 * of_nat j"
  "ddr_top \<le> MAILBOX_RESULT + 4 * 4"
  by (auto simp: R00_def R2C_def R65_def MAILBOX_STAT_def MAILBOX_RESULT_def R5A_def R50_def ddr_top_def)

lemma read_eye_point_sparing:
  assumes "test_range W start sz" "W (l2cc_inv_cln_way P)" "spares W s"
  shows "sparing W (read_eye_point (traced P) ctrl regs start sz quick i s)"
  unfolding read_eye_point_def Let_def
  by (intro memtest_all_sparing assms REG_WRITE_io spares_fold [where g = id, simplified] eye_registers)
    simp_all

lemma read_eye_restore_spares: "spares W s \<Longrightarrow> spares W (read_eye_restore (traced P) ctrl r2c r65 regs s)"
  unfolding read_eye_restore_def Let_def
  by (intro REG_WRITE_io spares_fold [where g = id, simplified] eye_registers) simp_all

lemma measure_read_eye_sparing:
  assumes "test_range W start sz" "W (l2cc_inv_cln_way P)" "spares W s"
  shows "sparing_snd W (measure_read_eye (traced P) start sz quick step s)"
  unfolding measure_read_eye_def Let_def case_prod_beta
  by (intro sparing_snd_rules(1,3) eye_sweep_sparing read_eye_point_sparing assms)
    (simp_all del: read_eye_regs.simps add: read_eye_regs_spares assms eye_registers REG_WRITE_io eye_save_spares read_eye_restore_spares)

lemma weye_loop_sparing:
  assumes r: "test_range W (1024 * 1024) (1024 * 1024)" "W (l2cc_inv_cln_way P)" and s: "spares W s"
  shows "sparing_snd W (weye_loop (traced P) do_all scl cnt rslti s)"
  using s
proof (induction "traced P" do_all scl cnt rslti s rule: weye_loop.induct)
  case (1 do_all scl cnt rslti s)
  let ?m = "measure_write_eye (traced P) 4 1 0 0 False (apply_drive (traced P) do_all scl s)"
  have "sparing_snd W ?m"
    by (rule measure_write_eye_sparing) (use r 1 in \<open>simp_all add: apply_drive_spares\<close>)
  then show ?case
    using 1 by (subst weye_loop.simps) (auto split: option.split)
qed

lemma weye_offsets_spares: "spares W s \<Longrightarrow> spares W (weye_offsets choice s)"
  unfolding weye_offsets_def Let_def
  by (rule spares_fold [where g = id, simplified]) (simp_all add: spares_set_regs set_wr_offset_registers)

lemma weye_test1_sparing:
  assumes "test_range W (1024 * 1024) (1024 * 1024)" "W (l2cc_inv_cln_way P)" "spares W s"
  shows "sparing W (weye_test1 (traced P) do_all s)"
proof -
  have loop: "sparing_snd W (weye_loop (traced P) do_all (6 / 10) 0 0 (ddriob_get (traced P) (ddrc_get (traced P) s)))"
    by (intro weye_loop_sparing ddriob_get_spares ddrc_get_spares assms)
  have fin: "sparing W (memtest_all (traced P) (1024 * 1024) (1024 * 1024) 0x7fff 0
      (ddrc_init (traced P) (apply_drive (traced P) do_all x (weye_offsets choice t))))"
    if "spares W t" for x choice t
    by (intro memtest_all_sparing ddrc_init_spares apply_drive_spares weye_offsets_spares that assms)
  show ?thesis
    unfolding weye_test1_def Let_def
    using loop by (rule sparing_snd_bind) (auto intro!: fin [simplified] split: bind_splits)
qed

lemma pll_registers:
  "ddr_top \<le> pll_ctrl pll" "ddr_top \<le> pll_cfg pll" "ddr_top \<le> DDR_CLK_CTRL" "ddr_top \<le> CPU_CLK_CTRL"
  "ddr_top \<le> DCI_CLK_CTRL"
  by (simp_all add: pll_ctrl_def pll_cfg_def DDR_CLK_CTRL_def CPU_CLK_CTRL_def DCI_CLK_CTRL_def ddr_top_def)

lemma unlock_spares: "spares W s \<Longrightarrow> spares W (unlock_slcr (traced P) s)"
  by (simp add: unlock_slcr_def REG_WRITE_io ddr_top_def)

lemma pll_poll_spares: "spares W s \<Longrightarrow> spares W (snd (pll_poll (traced P) pll k s))"
proof (induction "traced P" pll k s rule: pll_poll.induct)
  case (1 pll k s)
  obtain v t where rd: "REG_READ (traced P) PLL_STATUS s = (v, t)" by fastforce
  then have "spares W t" using 1(2) REG_READ_spares [of P PLL_STATUS s] by simp
  then show ?case
    using 1(1) [OF rd [symmetric] refl refl] by (subst pll_poll.simps) (simp add: rd Let_def)
qed

lemma my_set_pll_sparing:
  assumes "spares W s" shows "sparing W (my_set_pll (traced P) pll fbdiv outdiv fref s)"
proof -
  have out: "spares W (pll_set_outdiv (traced P) pll outdiv t)" if "spares W t" for t :: "('a \<times> wlog) mt"
    using that by (simp add: pll_set_outdiv_def Let_def case_prod_beta REG_WRITE_io pll_registers)
  have after: "sparing W (pll_after (traced P) pll fbdiv fref fout t)" if "spares W t" for fout and t :: "('a \<times> wlog) mt"
    using that by (simp add: pll_after_def Let_def REG_WRITE_io pll_registers split: bind_splits)
  show ?thesis
    unfolding my_set_pll_def Let_def case_prod_beta
    by (auto simp: assms pll_registers split: bind_splits option.splits
        intro!: after REG_WRITE_io out unlock_spares pll_poll_spares)
qed

lemma read_xadc_spares:
  assumes "spares W s" shows "spares W (snd (read_xadc (traced P) s))"
proof -
  have init: "spares W (init_xadc (traced P) s)"
    unfolding init_xadc_def Let_def case_prod_beta
    by (rule spares_cfor [where g = id, simplified]) (simp_all add: assms REG_WRITE_io ddr_top_def)
  have "spares W (get_xadc_regs (traced P) l n t)" if "spares W t" for l n and t :: "('a \<times> wlog) mt"
  proof -
    have a: "spares W (cfor 0 (int n) 1 (\<lambda>i s. REG_WRITE (traced P) 0xf8007110 (rd_cmd (l ! nat i)) s) t)"
      by (rule spares_cfor [where g = id, simplified]) (simp_all add: that REG_WRITE_io ddr_top_def)
    show ?thesis
      unfolding get_xadc_regs_def Let_def case_prod_beta
      by (rule spares_cfor [where g = id, simplified])
        (simp_all add: a REG_WRITE_io ddr_top_def xadc_read_body_def case_prod_beta Let_def)
  qed
  from this [OF init] show ?thesis by (simp add: read_xadc_def Let_def)
qed

lemma readonly_spares: "spares W s \<Longrightarrow> spares W (memtest_readonly (traced P) start sz s)"
  unfolding memtest_readonly_def Let_def
  by (rule spares_cfor [where g = id, simplified]) simp_all

lemma setup_regs_spares: "spares W s \<Longrightarrow> spares W (setup_regs (traced P) s)"
  unfolding setup_regs_def Let_def ddr_nonsecure_def
  by (intro REG_WRITE_io clear_tdm_idm_spares unlock_spares)
    (simp_all add: MAILBOX_GO_def MAILBOX_DONE_def MAILBOX_START_def MAILBOX_SIZE_def MAILBOX_MODE_def
      MAILBOX_LAST_def ddr_top_def)

lemma post_done_spares: "spares W s \<Longrightarrow> spares W (post_done (traced P) s)"
  by (simp add: post_done_def case_prod_beta Let_def REG_WRITE_io MAILBOX_DONE_def ddr_top_def)

text \<open>The commands and one iteration of the command loop.\<close>

lemma on_mt_opt_spares:
  assumes "\<And>s. spares W s \<Longrightarrow> sparing W (f s)" "spares W (mts r)" "on_mt_opt f r = Some r'"
  shows "spares W (mts r')"
  using assms by (auto simp: on_mt_opt_def sparing_def)

lemma verbose_spares [simp]:
  "spares W (mts (test_verbose r)) = spares W (mts r)" "spares W (mts (eye_verbose r)) = spares W (mts r)"
  by (simp_all add: test_verbose_def eye_verbose_def on_mt_def)

lemma store_result_spares [simp]: "spares W (store_result l s) = spares W s"
  by (simp add: store_result_def)

lemma set_command_mts [simp]: "mts (set_command c r) = mts r"
  by (simp add: set_command_def next_scl_def Let_def)

lemma toggle_cache_spares:
  assumes dc: "\<And>b h. list_all (\<lambda>(a, v). W a) (snd h) \<Longrightarrow> list_all (\<lambda>(a, v). W a) (snd (dc b h))"
    and r: "spares W (mts r)"
  shows "spares W (mts (toggle_cache dc r))"
  using r by (simp add: toggle_cache_def on_mt_def) (simp add: spares_def dc)

lemma toggle_remote_spares: "spares W (mts r) \<Longrightarrow> spares W (mts (toggle_remote (traced P) r))"
  by (simp add: toggle_remote_def on_mt_def Let_def REG_WRITE_io MAILBOX_GO_def MAILBOX_DONE_def
      MAILBOX_START_def ddr_top_def)

lemma loop_test_spares:
  assumes size: "\<And>n. n \<in> set test_sizes \<Longrightarrow> test_range W mbyte (1024 * 1024 * n)" "W (l2cc_inv_cln_way P)"
    and r: "spares W (mts r)" "0 \<le> test_size_sel r" "test_size_sel r < 8"
    and run: "loop_test (traced P) r = Some r'"
  shows "spares W (mts r')"
proof -
  define k where "k = test_size_sel r"
  have body: "spares W (mts u') \<and> test_size_sel u' = k"
    if "spares W (mts u) \<and> test_size_sel u = k" "loop_test_body (traced P) lp u = Some u'" for u u' lp
  proof -
    have "test_sizes ! nat k \<in> set test_sizes" using r by (intro nth_mem) (simp add: test_sizes_def k_def)
    then have "test_range W mbyte (1024 * 1024 * test_sizes ! nat k)" by (rule size)
    then have "sparing W (memtest_all (traced P) mbyte (1024 * 1024 * test_sizes ! nat k) 0x7fff lp (mts u))"
      using that(1) by (intro memtest_all_sparing size(2)) simp_all
    then show ?thesis
      using that by (auto simp: loop_test_body_def bind_eq_Some_conv on_mt_opt_def sparing_def)
  qed
  let ?r = "(test_verbose r)\<lparr>cum_errcnt := [0, 0, 0, 0]\<rparr>"
  have "spares W (mts ?r) \<and> test_size_sel ?r = k"
    using r(1) by (simp add: k_def) (simp add: test_verbose_def on_mt_def)
  then have "spares W (mts r') \<and> test_size_sel r' = k"
    by (rule cfor_opt_partial [where P = "\<lambda>_ u. spares W (mts u) \<and> test_size_sel u = k",
          OF run [unfolded loop_test_def Let_def]]) (simp, rule body, assumption+)
  then show ?thesis by simp
qed

text \<open>What the command loop needs of a policy: it admits 1 to 1023 MB from address 1 MB, the L2
  maintenance register, and whatever the two cache routines of the BSP write.\<close>

definition policy_for_commands :: "'h platform \<Rightarrow> (bool \<Rightarrow> 'h \<times> wlog \<Rightarrow> 'h \<times> wlog) \<Rightarrow> bool" where
  "policy_for_commands P dc \<longleftrightarrow>
     (\<forall>n. 1 \<le> n \<and> n \<le> 1023 \<longrightarrow> test_range W mbyte (1024 * 1024 * n))
     \<and> W (l2cc_inv_cln_way P)
     \<and> (\<forall>b h. list_all (\<lambda>(a, v). W a) (snd h) \<longrightarrow> list_all (\<lambda>(a, v). W a) (snd (dc b h)))"

definition run_sparing :: "('b \<times> ('h \<times> wlog) run) option \<Rightarrow> bool" where
  "run_sparing x \<longleftrightarrow> (\<forall>f r. x = Some (f, r) \<longrightarrow> spares W (mts r))"

lemma run_sparing_rules:
  "run_sparing a \<Longrightarrow> run_sparing b \<Longrightarrow> run_sparing (if c then a else b)"
  "spares W (mts r) \<Longrightarrow> run_sparing (map_option (Pair f) (Some r))"
  "sparing W (g (mts r)) \<Longrightarrow> run_sparing (map_option (Pair f) (on_mt_opt g r))"
  "spares W (h (mts r)) \<Longrightarrow> run_sparing (map_option (Pair f) (Some (on_mt h r)))"
  by (auto simp: run_sparing_def on_mt_opt_def sparing_def on_mt_def)

lemma exec_command_sparing:
  assumes pol: "policy_for_commands P dc" and r: "spares W (mts r)" and ok: "settings_ok r"
  shows "run_sparing (exec_command (traced P) dc c r)"
proof -
  have l2: "W (l2cc_inv_cln_way P)" using pol by (simp add: policy_for_commands_def)
  have rng: "test_range W mbyte (1024 * 1024 * n)" if "1 \<le> n" "n \<le> 1023" for n
    using pol that by (simp add: policy_for_commands_def)
  have scl: "1 \<le> testsize_scl r \<and> testsize_scl r \<le> 1023" by (rule settings_ok_scl [OF ok])
  have sel: "0 \<le> test_size_sel r" "test_size_sel r < 8" using ok by (simp_all add: settings_ok_def)
  have dc: "list_all (\<lambda>(a, v). W a) (snd h) \<Longrightarrow> list_all (\<lambda>(a, v). W a) (snd (dc b h))" for b h
    using pol unfolding policy_for_commands_def by blast
  have mb: "mbyte = 1024 * 1024" by (simp add: mbyte_def)
  have a: "run_sparing (map_option (Pair f) (run_test (traced P) n r))" if "1 \<le> n" "n \<le> 1023" for f n
    unfolding run_test_def using rng [OF that] l2 r
    by (intro run_sparing_rules memtest_all_sparing) (simp_all add: mult.commute)
  have b: "run_sparing (map_option (Pair f) (run_write_eye (traced P) r))" for f
    unfolding run_write_eye_def Let_def
    by (intro run_sparing_rules sparing_snd_bind measure_write_eye_sparing ddriob_get_spares ddrc_get_spares)
      (use rng [OF conjunct1 [OF scl] conjunct2 [OF scl]] l2 r in
        \<open>simp_all add: mb eye_verbose_def on_mt_def case_prod_beta ddrc_init_spares\<close>)
  have c: "run_sparing (map_option (Pair f) (run_read_eye (traced P) r))" for f
    unfolding run_read_eye_def Let_def
    by (intro run_sparing_rules sparing_snd_bind measure_read_eye_sparing)
      (use rng [OF conjunct1 [OF scl] conjunct2 [OF scl]] l2 r in
        \<open>simp_all add: eye_verbose_def on_mt_def case_prod_beta\<close>)
  have d: "run_sparing (map_option (Pair f) (step_pll (traced P) r))" for f
    unfolding step_pll_def Let_def by (intro run_sparing_rules my_set_pll_sparing) (simp add: r)
  have e: "run_sparing (map_option (Pair f) (on_mt_opt (weye_test1 (traced P) all) (on_mt (\<lambda>s. s\<lparr>verbose := v\<rparr>) r)))"
    for f all v
    by (intro run_sparing_rules weye_test1_sparing)
      (use rng [of 1] l2 r in \<open>simp_all add: mb on_mt_def\<close>)
  have sz: "test_range W mbyte (1024 * 1024 * n)" if "n \<in> set test_sizes" for n
    using that by (intro rng) (auto simp: test_sizes_def)
  have f: "run_sparing (map_option (Pair f) (loop_test (traced P) r))" for f
    using loop_test_spares [OF sz l2 r sel] by (auto simp: run_sparing_def)
  have g: "run_sparing (map_option (Pair f) (on_mt_opt (memtest_simple (traced P) mbyte (64 * (1024 * 1024)) 0 lp d0 d1 d2 d3) r))"
    for f lp d0 d1 d2 d3
    using rng [of 64] l2 r by (intro run_sparing_rules memtest_simple_sparing) simp_all
  show ?thesis
    unfolding exec_command_def Let_def
    by (intro run_sparing_rules(1) a b c d e f g run_sparing_rules(2,4) r toggle_cache_spares
        toggle_remote_spares read_xadc_spares readonly_spares dc) (simp_all add: r)
qed

lemma go_wait_spares:
  assumes "go_wait (traced P) g s = Some (k, s')" "spares W s" shows "spares W s'"
proof -
  have "case ((traced P, g), s) of ((Q, _), u) \<Rightarrow> Q = traced P \<longrightarrow> spares W u \<longrightarrow> spares W (snd (k, s'))"
    using assms(1)
  proof (rule go_wait.raw_induct [rotated], unfold prod.case, intro impI)
    fix self :: "('a \<times> wlog) platform \<Rightarrow> word32 \<Rightarrow> ('a \<times> wlog) mt \<Rightarrow> (word32 \<times> ('a \<times> wlog) mt) option"
    fix Q g u y
    assume IH: "\<And>Q g u y. self Q g u = Some y \<Longrightarrow> Q = traced P \<longrightarrow> spares W u \<longrightarrow> spares W (snd y)"
      and st: "(if fst (REG_READ Q MAILBOX_GO u) \<noteq> g then Some (REG_READ Q MAILBOX_GO u)
         else self Q g (snd (REG_READ Q MAILBOX_GO u))) = Some y"
      and Q: "Q = traced P" and u: "spares W u"
    show "spares W (snd y)"
      using st IH [of Q g "snd (REG_READ Q MAILBOX_GO u)" y] u by (auto simp: Q split: if_splits)
  qed
  then show ?thesis using assms(2) by simp
qed

lemma get_command_spares:
  assumes "get_command (traced P) r = Some (cmd, r')" "spares W (mts r)" shows "spares W (mts r')"
  using assms by (auto simp: get_command_def bind_eq_Some_conv Let_def case_prod_beta dest: go_wait_spares split: if_splits)

lemma start_size_spares:
  assumes rng: "\<And>st a test_start test_size. mailbox_range st a = (test_start, test_size)
      \<Longrightarrow> test_range W test_start (sint test_size)"
    and l2: "W (l2cc_inv_cln_way P)" and r: "spares W (mts r)"
  shows "run_sparing (map_option (Pair f) (start_size_test (traced P) r))"
  unfolding start_size_test_def Let_def case_prod_beta
  by (intro run_sparing_rules memtest_all_sparing l2, rule rng) (simp_all add: r prod_eq_iff)

lemma run_step_spares:
  assumes pol: "policy_for_commands P dc"
    and rng: "\<And>st a test_start test_size. mailbox_range st a = (test_start, test_size)
      \<Longrightarrow> test_range W test_start (sint test_size)"
    and ok: "settings_ok r" and r: "spares W (mts r)" and run: "run_step (traced P) dc r = Some (ret, r')"
  shows "spares W (mts r')"
proof -
  obtain cmd t where g: "get_command (traced P) r = Some (cmd, t)"
    using run by (auto simp: run_step_def bind_eq_Some_conv)
  let ?t = "on_mt (check_bus_width (traced P)) t"
  have t: "spares W (mts ?t)" using get_command_spares [OF g r] by (simp add: on_mt_def)
  have t_ok: "settings_ok ?t" using get_command_ok [OF g ok] by simp
  have l2: "W (l2cc_inv_cln_way P)" using pol by (simp add: policy_for_commands_def)
  let ?X = "case cmd of StartSize \<Rightarrow> map_option (Pair (True, False)) (start_size_test (traced P) ?t)
      | Menu c \<Rightarrow> exec_command (traced P) dc c ?t"
  have X: "run_sparing ?X"
  proof (cases cmd)
    case StartSize
    then show ?thesis by simp (rule start_size_spares [OF _ l2 t], rule rng)
  qed (simp add: exec_command_sparing [OF pol t t_ok])
  have "Option.bind ?X (\<lambda>((m, rt), u). Some (if rt then (True, u) else (False, report_done (traced P) m u))) = Some (ret, r')"
    using run g by (simp add: run_step_def Let_def)
  then obtain m rt u where u: "?X = Some ((m, rt), u)"
    "(if rt then (True, u) else (False, report_done (traced P) m u)) = (ret, r')"
    by (auto simp: bind_eq_Some_conv simp del: if_split_asm)
  have "spares W (mts u)" using X u(1) by (simp add: run_sparing_def)
  then show ?thesis
    using u(2) by (auto simp: report_done_def on_mt_def intro!: post_done_spares upload_spares split: if_splits)
qed

lemma run_setup_spares: "spares W (mts r) \<Longrightarrow> spares W (mts (run_setup (traced P) r))"
  by (simp add: run_setup_def Let_def case_prod_beta setup_regs_spares)

lemma run_reach_spares:
  assumes pol: "policy_for_commands P dc"
    and rng: "\<And>st a test_start test_size. mailbox_range st a = (test_start, test_size)
      \<Longrightarrow> test_range W test_start (sint test_size)"
    and s: "spares W s" and reach: "run_reach (traced P) dc (run_setup (traced P) (run_init s d)) r"
  shows "spares W (mts r)"
  using reach
proof induction
  case reach_start
  show ?case by (rule run_setup_spares) (simp add: run_init_def s)
next
  case (reach_step r ret r')
  show ?case
    by (rule run_step_spares [OF pol rng run_reach_ok [OF reach_step.hyps(1)] reach_step.IH reach_step.hyps(2)])
next
  case (reach_again r r' d)
  have "spares W (mts r')"
    by (rule run_step_spares [OF pol rng run_reach_ok [OF reach_again.hyps(1)] reach_again.IH reach_again.hyps(2)])
  then show ?case by (intro run_setup_spares) (simp add: run_enter_def)
qed

text \<open>One request of the test server.\<close>

lemma xregv_caches_spares: "spares W s \<Longrightarrow> spares W (xregv_caches (traced P) s)"
proof -
  assume s: "spares W s"
  have "list_all (\<lambda>(a, v). W a) (snd (l2_ctrl (traced P) v (cache_ctrl (traced P) on on h)))"
    if "list_all (\<lambda>(a, v). W a) (snd h)" for v on h
    using that registers [of "0xF8F02100"] by (cases h) (simp add: l2_ctrl_def cache_ctrl_def Let_def ddr_top_def)
  moreover obtain last u where rd: "REG_READ (traced P) MAILBOX_LAST s = (last, u)" by fastforce
  moreover from this have "spares W u" using s REG_READ_spares [of P MAILBOX_LAST s] by simp
  ultimately show ?thesis by (simp add: xregv_caches_def Let_def) (simp add: spares_def)
qed

lemma xregv_loops_sparing:
  assumes "test_range W start (sint sz)" "W (l2cc_inv_cln_way P)" "spares W s"
  shows "sparing W (xregv_loops (traced P) start sz sel n s)"
  unfolding xregv_loops_def
  by (rule sparing_cfor_opt, simp_all add: assms(3), rule run_tests_sparing)
    (blast intro: test_table_sparing [OF assms(1,2)])

lemma xregv_request_spares: "spares W s \<Longrightarrow> spares W (snd (xregv_request (traced P) s))"
  by (simp add: xregv_request_def Let_def case_prod_beta)

lemma xregv_step_spares:
  assumes wait: "go_wait (traced P) g (snd (REG_READ (traced P) (0xF8F02000 + 0x0100) s)) = Some (k, s1)"
    and req: "xregv_request (traced P) s1 = ((test_start, test_size, n, sel), s2)"
    and rng: "test_range W test_start (sint test_size)"
    and special: "sel = 0x8001 \<Longrightarrow> test_range W (1024 * 1024) (1024 * 1024)"
    and l2: "W (l2cc_inv_cln_way P)" and s: "spares W s"
    and run: "xregv_step (traced P) (g, s) = Some (k', s')"
  shows "spares W s'"
proof -
  have s1: "spares W s1" by (rule go_wait_spares [OF wait]) (simp add: s)
  have s2: "spares W s2" using xregv_request_spares [OF s1, of P] req by simp
  obtain n' s3 s4 where spec: "xregv_special (traced P) sel n s2 = Some (n', s3)"
    and loops: "xregv_loops (traced P) test_start test_size sel n' (xregv_caches (traced P) s3) = Some s4"
    and s': "s' = post_done (traced P) (upload_memtest_results (traced P) s4)"
    using run wait req by (auto simp: xregv_step_def Let_def case_prod_beta bind_eq_Some_conv)
  have "spares W s3"
    using spec s2 weye_test1_sparing [OF special l2 s2, of False]
    by (auto simp: xregv_special_def sparing_def split: if_splits)
  then have "spares W s4"
    using loops xregv_loops_sparing [OF rng l2 xregv_caches_spares] by (auto simp: sparing_def)
  then show ?thesis unfolding s' by (intro post_done_spares upload_spares)
qed

end

end
