(* ===== verification/MemSafeProps.thy ===== *)
theory MemSafeProps
  imports MemSafe
begin

text \<open>
  The two policies the diagnostics keep, as interpretations of \<open>write_policy\<close>: everything from
  1 MB on, for all commands, and the registers with the requested range, for the test server.
\<close>

section \<open>The two policies\<close>

definition above_program :: "word32 \<Rightarrow> bool" where
  "above_program a \<longleftrightarrow> 0x00100000 \<le> a"

text \<open>The registers, the requested range, and the first megabyte above the program for the request
  0x8001, which measures the drive strength instead of testing the range.\<close>

definition requested :: "word32 \<Rightarrow> word32 \<Rightarrow> word32 \<Rightarrow> word32 \<Rightarrow> bool" where
  "requested test_start test_size sel a \<longleftrightarrow> ddr_top \<le> a \<or> (test_start \<le> a \<and> a < test_start + test_size)
     \<or> (sel = 0x8001 \<and> 0x00100000 \<le> a \<and> a < 0x00200000)"

interpretation above: write_policy above_program
  by unfold_locales (simp add: above_program_def ddr_top_def word_le_nat_alt)

interpretation requested: write_policy "requested test_start test_size sel" for test_start test_size sel
  by unfold_locales (simp add: requested_def)

lemma uint_offset:
  "0 \<le> i \<Longrightarrow> uint a + i < 2 ^ 32 \<Longrightarrow> uint ((a :: word32) + of_int i) = uint a + i"
proof -
  assume i: "0 \<le> i" "uint a + i < 2 ^ 32"
  have "a + of_int i = of_int (uint a + i)" by simp
  then have "uint (a + of_int i) = (uint a + i) mod 2 ^ 32"
    by (simp only: uint_word_of_int_eq take_bit_eq_mod) simp
  then show ?thesis using i by simp
qed

lemma megabyte_test_range:
  assumes W: "\<And>a. 2 ^ 20 * m \<le> uint a \<Longrightarrow> uint a < 2 ^ 20 * (m + n) \<Longrightarrow> W a"
    and m: "0 \<le> m" "m + n \<le> 1024"
  shows "test_range W (megabytes m) (2 ^ 20 * n)"
proof -
  have "W (megabytes m + of_int i)" if "0 \<le> i" "i < 2 ^ 20 * n" for i
    using m that by (intro W) (subst uint_offset; simp add: megabytes_sint)+
  then show ?thesis by (simp add: test_range_def)
qed

lemma mailbox_test_range:
  assumes "mailbox_range st a = (test_start, test_size)"
  shows "test_range (requested test_start test_size sel) test_start (sint test_size)"
    and "test_range above_program test_start (sint test_size)"
proof -
  obtain m n where eq: "mailbox_range st a = (megabytes m, megabytes n)"
    and b: "1 \<le> m" "1 \<le> n" "m + n \<le> 1024" by (rule mailbox_range_megabytes)
  then have e: "test_start = megabytes m" "test_size = megabytes n" "sint test_size = 2 ^ 20 * n"
    using assms by (simp_all add: megabytes_sint)
  show "test_range (requested test_start test_size sel) test_start (sint test_size)"
    unfolding e(3) unfolding e using b
    by (intro megabyte_test_range)
      (simp_all add: requested_def megabytes_simps(6) word_le_def word_less_def megabytes_sint)
  show "test_range above_program test_start (sint test_size)"
    unfolding e(3) unfolding e using b
    by (intro megabyte_test_range) (simp_all add: above_program_def word_le_def)
qed

lemma xregv_request_range:
  assumes "xregv_request P s = ((test_start, test_size, n, sel), s')"
  shows "\<exists>st a. mailbox_range st a = (test_start, test_size)"
proof -
  obtain st t1 where 1: "REG_READ P MAILBOX_START s = (st, t1)" by fastforce
  obtain a t2 where 2: "REG_READ P MAILBOX_SIZE t1 = (a, t2)" by fastforce
  obtain b z where "mailbox_range st a = (b, z)" by fastforce
  with assms 1 2 have "mailbox_range st a = (test_start, test_size)"
    by (simp add: xregv_request_def Let_def case_prod_beta)
  then show ?thesis by blast
qed

lemma command_test_range:
  assumes "1 \<le> n" "n \<le> 1023" shows "test_range above_program mbyte (1024 * 1024 * n)"
proof -
  have "test_range above_program (megabytes 1) (2 ^ 20 * n)"
    by (rule megabyte_test_range) (use assms in \<open>simp_all add: above_program_def word_le_def\<close>)
  then show ?thesis by (simp add: megabytes_simps(1))
qed

section \<open>What the diagnostics write\<close>

text \<open>C3. No command of the diagnostics, whether from the keyboard or from a remote host, ever writes
  the first megabyte of the memory, where the program itself is loaded: in every state reachable
  from the start of \<open>memtest_run\<close>, on any hardware and whatever the host leaves in the mailbox, all
  writes made so far are at 0x00100000 or above. This covers every memory test, both eye
  measurements, the drive strength optimisation and the register routines. The cache routines
  of the BSP and its L2 register are assumed to stay out of that megabyte. The writes are those through
  addresses the commands compute; the program's own variables, among them \<open>err_buf\<close>, are not in the model's
  memory. States are those before and after commands: inside a command that never returns nothing is claimed.\<close>

theorem diagnostics_spare_program:
  assumes "0x00100000 \<le> l2cc_inv_cln_way P"
    and "\<And>b h. list_all (\<lambda>(a, v). 0x00100000 \<le> a) (snd h) \<Longrightarrow> list_all (\<lambda>(a, v). 0x00100000 \<le> a) (snd (dc b h))"
    and reach: "run_reach (traced P) dc
      (run_setup (traced P) (run_init (mt_init ddrc_table0 ddriob_table0 buf (h, [])) d)) r"
  shows "list_all (\<lambda>(a, v). 0x00100000 \<le> a) (snd (hw (mts r)))"
proof -
  have pol: "above.policy_for_commands P dc"
    using assms(1,2) command_test_range by (auto simp: above.policy_for_commands_def above_program_def)
  have init: "spares above_program (mt_init ddrc_table0 ddriob_table0 buf (h, []))"
    by (simp add: spares_def ddrc_table0_def ddriob_table0_def ddrc_addrs_def ddriob_addrs_def ddr_top_def)
  have "spares above_program (mts r)"
    by (rule above.run_reach_spares [OF pol mailbox_test_range(2) init reach])
  then show ?thesis by (simp add: spares_def above_program_def)
qed

lemma diagnostics_spare_program_witness:
  "\<exists>r. run_reach (traced (host_platform 0x8071)) (\<lambda>_ h. h)
      (run_setup (traced (host_platform 0x8071)) (run_init (mt_init ddrc_table0 ddriob_table0 0 (0, [])) 0)) r
    \<and> istep r = 2 \<and> list_all (\<lambda>(a, v). 0x00100000 \<le> a) (snd (hw (mts r)))"
proof -
  have rd: "REG_READ (traced (host_platform 0x8071)) a s = (if a = MAILBOX_GO then 1 else if a = MAILBOX_START then 0x8071
        else if a = MAILBOX_XREGV then 0x55 else 0, s)" for a and s :: "(word32 \<times> wlog) mt"
    by (cases "hw s") (simp add: REG_READ_def, simp add: host_platform_def)
  obtain r where r: "run_reach (traced (host_platform 0x8071)) (\<lambda>_ h. h)
      (run_setup (traced (host_platform 0x8071)) (run_init (mt_init ddrc_table0 ddriob_table0 0 (0, [])) 0)) r"
    "istep r = 2"
    using host_sends_q [OF rd] by blast
  have "0x00100000 \<le> l2cc_inv_cln_way (host_platform 0x8071)" by (simp add: host_platform_def)
  from diagnostics_spare_program [OF this _ r(1)] r show ?thesis by blast
qed

text \<open>C4. One request of the test server writes the memory only in the range it was asked to test,
  after clamping: every write is to a register (an address above the 1 GB of DDR memory), or
  inside \<open>test_start \<dots> test_start + test_size\<close>, or, for the request 0x8001, which optimises the
  drive strength first, in the first megabyte above the program. This holds on any hardware, however many
  loops are requested and whatever the memory answers.\<close>

theorem request_writes_only_its_range:
  assumes "go_wait (traced P) g (snd (REG_READ (traced P) (0xF8F02000 + 0x0100) s)) = Some (k, s1)"
    and "xregv_request (traced P) s1 = ((test_start, test_size, n, sel), s2)"
    and "ddr_top \<le> l2cc_inv_cln_way P"
    and "list_all (\<lambda>(a, v). ddr_top \<le> a) (reg_values s)" "list_all (\<lambda>(a, v). ddr_top \<le> a) (iob_values s)"
    and "snd (hw s) = []"
    and "xregv_step (traced P) (g, s) = Some (k', s')"
  shows "list_all (\<lambda>(a, v). ddr_top \<le> a \<or> (test_start \<le> a \<and> a < test_start + test_size)
      \<or> (sel = 0x8001 \<and> 0x00100000 \<le> a \<and> a < 0x00200000)) (snd (hw s'))"
proof -
  have range: "\<exists>st a. mailbox_range st a = (test_start, test_size)"
    by (rule xregv_request_range [OF assms(2)])
  have special: "test_range (requested test_start test_size sel) (1024 * 1024) (1024 * 1024)" if "sel = 0x8001"
    using megabyte_test_range [of 1 1 "requested test_start test_size sel"] that
    by (simp add: requested_def word_le_def word_less_def megabytes_def)
  have "spares (requested test_start test_size sel) s'"
    using assms range special
    by (intro requested.xregv_step_spares [OF assms(1,2) _ _ _ _ assms(7)])
      (auto simp: spares_def intro: mailbox_test_range(1) requested.registers)
  then show ?thesis by (simp add: spares_def requested_def)
qed

text \<open>A memory stays a memory when its writes are logged, so the request of the example server can be
  replayed with its log.\<close>

lemma logged_polls: "sync_polls (traced P) k (h, t) = (sync_polls P k h, t)"
  by (induction k arbitrary: h) simp_all

lemma traced_sync: "sync_at (traced P) k (h, t) = sync_at P k h"
  by (simp add: sync_at_def logged_polls)

lemma traced_dram:
  assumes "dram P stays cell dirty clean flt"
  shows "dram (traced P) (stays \<circ> fst) (cell \<circ> fst) (dirty \<circ> fst) (clean \<circ> fst) flt"
proof -
  have "test_io (traced P) a = test_io P a" for a by (simp add: test_io_def)
  moreover have "csid (traced P) (h, t) = csid P h" for h t by (simp add: csid_def)
  ultimately show ?thesis
    using assms by (simp add: dram_def traced_sync)
qed

lemma traced_server:
  assumes "server_device P stays cell dirty clean flt mbox"
  shows "server_device (traced P) (stays \<circ> fst) (cell \<circ> fst) (dirty \<circ> fst) (clean \<circ> fst) flt mbox"
  using assms traced_dram [of P stays cell dirty clean flt] by (simp add: server_device_def)

lemma request_writes_only_its_range_witness:
  "\<exists>k s'. xregv_step (traced (with_regs example_mailbox (ddr_platform (\<lambda>_ a v. v))))
      (0, mt_init ddrc_table0 ddriob_table0 0x20000 (sim_reset, [])) = Some (k, s')
    \<and> list_all (\<lambda>(a, v). 0x40000000 \<le> a \<or> (0x00200000 \<le> a \<and> a < 0x00600000)) (snd (hw s'))"
proof -
  let ?P = "with_regs example_mailbox (ddr_platform (\<lambda>_ a v. v))" and ?s = "mt_init ddrc_table0 ddriob_table0 0x20000 (sim_reset, [])"
  have r: "mailbox_range 2 0x804 = (0x00200000, 0x00400000)"
    by (simp add: mailbox_range_def mbyte_def Let_def)
  obtain k s' where run: "xregv_step (traced ?P) (0, ?s) = Some (k, s')"
    using xregv_answers [OF traced_server [OF example_server [where F = "\<lambda>a v. v"]], where g = 0
      and s = ?s and start = "0x00200000" and sz = "0x00400000"]
    by (auto simp: example_mailbox_regs r)
  have rd: "example_mailbox a = Some v \<Longrightarrow> REG_READ (traced ?P) a u = (v, u)" for a v u
    by (cases "hw u") (simp add: REG_READ_def)
  note rds = rd [OF example_mailbox_regs(1)] rd [OF example_mailbox_regs(3)] rd [OF example_mailbox_regs(4)]
    rd [OF example_mailbox_regs(5)]
  let ?s0 = "snd (REG_READ (traced ?P) (0xF8F02000 + 0x0100) ?s)"
  have wait: "go_wait (traced ?P) 0 ?s0 = Some (1, ?s0)"
    by (subst go_wait.simps) (simp only: rds, simp)
  obtain n s2 where req: "xregv_request (traced ?P) ?s0 = ((0x00200000, 0x00400000, n, 0x7fff), s2)"
    unfolding xregv_request_def rds Let_def prod.case r by blast
  from request_writes_only_its_range [OF wait req _ _ _ _ run] run show ?thesis
    by (simp add: ddrc_table0_def ddriob_table0_def ddrc_addrs_def ddriob_addrs_def ddr_top_def
        ddr_platform_def)
qed

end
