(* ===== verification/EmioMmapCalls.thy ===== *)
theory EmioMmapCalls
  imports EmioMmapDevice
begin

text \<open>
  An object of the Linux driver over its whole life: the constructor and then any sequence of calls
  of its methods. The invariant \<open>lines_ok\<close> reads the state of the GPIO block off the log of
  writes: the word last written to each register is what the members of the object say. It holds
  on any firmware, answering or not.
\<close>

section \<open>Calls\<close>

datatype mmap_call =
    CallReadQuadlet word16
  | CallWriteQuadlet word16 word32
  | CallReadBlock word16 word32
  | CallWriteBlock word16 "nat \<Rightarrow> word32" word32
  | CallWritePromData "nat \<Rightarrow> word8" word32
  | CallSetTimingMode nat
  | CallSetTimeout rat
  | CallSetVerbose bool
  | CallSetEventMode bool

definition mmap_call :: "'h linux \<Rightarrow> mmap_call \<Rightarrow> 'h emio \<Rightarrow> 'h emio option" where
  "mmap_call L c e =
     (case c of
        CallReadQuadlet a \<Rightarrow> map_option snd (ReadQuadlet L a e)
      | CallWriteQuadlet a w \<Rightarrow> map_option snd (WriteQuadlet L a w e)
      | CallReadBlock a n \<Rightarrow> map_option snd (ReadBlock L a n e)
      | CallWriteBlock a ws n \<Rightarrow> map_option snd (WriteBlock L a ws n e)
      | CallWritePromData bs n \<Rightarrow> map_option snd (WritePromData (WriteQuadlet L) bs n e)
      | CallSetTimingMode k \<Rightarrow> Some (SetTimingMode (clock_gettime L) k e)
      | CallSetTimeout us \<Rightarrow> Some (SetTimeout_us us e)
      | CallSetVerbose b \<Rightarrow> Some (SetVerbose b e)
      | CallSetEventMode b \<Rightarrow> Some (SetEventMode b e))"

primrec mmap_calls :: "'h linux \<Rightarrow> mmap_call list \<Rightarrow> 'h emio \<Rightarrow> 'h emio option" where
  "mmap_calls L [] e = Some e"
| "mmap_calls L (c # cs) e = do { e \<leftarrow> mmap_call L c e; mmap_calls L cs e }"

section \<open>The registers as last written\<close>

definition last_word :: "wlog \<Rightarrow> word32 \<Rightarrow> word32 option" where
  "last_word t a = map_of (rev t) a"

lemma last_word_append: "last_word (t @ u) a = (case last_word u a of None \<Rightarrow> last_word t a | Some v \<Rightarrow> Some v)"
  by (simp add: last_word_def map_add_def split: option.split)

lemma last_word_simps [simp]:
  "last_word [] a = None"
  "last_word ((b, v) # t) a = (case last_word t a of None \<Rightarrow> if a = b then Some v else None | Some w \<Rightarrow> Some w)"
  by (auto simp: last_word_def map_add_def split: option.split)

definition lines_ok :: "word32 \<Rightarrow> bool \<Rightarrow> wlog \<Rightarrow> bool" where
  "lines_ok base inp t \<longleftrightarrow>
     last_word t (base + Reg_OutputUpper) = Some 0
     \<and> last_word t (base + Reg_DirLower) = Some (if inp then 0 else 0xffffffff)
     \<and> (\<not> inp \<longrightarrow> last_word t (base + Reg_OutEnLower) = Some 0xffffffff)
     \<and> last_word t (base + Reg_DirUpper) = Some EMIO_outputs
     \<and> last_word t (base + Reg_OutEnUpper) = Some EMIO_outputs"

lemma regs_distinct [simp]:
  "Reg_OutputUpper \<noteq> Reg_DirLower" "Reg_OutputUpper \<noteq> Reg_OutEnLower" "Reg_OutputUpper \<noteq> Reg_DirUpper"
  "Reg_OutputUpper \<noteq> Reg_OutEnUpper" "Reg_DirLower \<noteq> Reg_OutEnLower" "Reg_DirLower \<noteq> Reg_DirUpper"
  "Reg_DirLower \<noteq> Reg_OutEnUpper" "Reg_OutEnLower \<noteq> Reg_DirUpper" "Reg_OutEnLower \<noteq> Reg_OutEnUpper"
  "Reg_DirUpper \<noteq> Reg_OutEnUpper" "Reg_OutputLower \<noteq> Reg_OutputUpper" "Reg_OutputLower \<noteq> Reg_DirLower"
  "Reg_OutputLower \<noteq> Reg_OutEnLower" "Reg_OutputLower \<noteq> Reg_DirUpper" "Reg_OutputLower \<noteq> Reg_OutEnUpper"
  by (simp_all add: reg_defs)

text \<open>The writes of a transfer: at most a turn of the data lines, then words on the output registers,
  then 0.\<close>

definition outputs_only :: "word32 \<Rightarrow> wlog \<Rightarrow> bool" where
  "outputs_only base t \<longleftrightarrow> list_all (\<lambda>(a, v). a = base + Reg_OutputLower \<or> a = base + Reg_OutputUpper) t"

lemma outputs_only_last:
  "outputs_only base t \<Longrightarrow> a \<noteq> base + Reg_OutputLower \<Longrightarrow> a \<noteq> base + Reg_OutputUpper \<Longrightarrow> last_word t a = None"
  unfolding outputs_only_def last_word_def by (auto simp: map_of_eq_None_iff list_all_iff)

lemma transfer_keeps_lines:
  assumes "lines_ok (gpio_base P) inp t" "outputs_only (gpio_base P) w"
  shows "lines_ok (gpio_base P) out (t @ (if inp = out then [] else turn_log P (\<not> out)) @ w @ [(gpio_base P + Reg_OutputUpper, 0)])"
proof -
  note w = outputs_only_last [OF assms(2)]
  show ?thesis
    using assms(1) regs_distinct [symmetric]
    by (auto simp: lines_ok_def last_word_append turn_log_def w)
qed

section \<open>Every call keeps the registers in step with the object\<close>

definition in_step :: "'h linux \<Rightarrow> ('h \<times> wlog) emio \<Rightarrow> bool" where
  "in_step L e \<longleftrightarrow> mapped (traced_linux L) e \<and> lines_ok (gpio_base (bus L)) (isInput e) (logged e)"

lemma in_step_transfer:
  assumes "in_step L e" "outputs_only (gpio_base (bus L)) w"
    and "drives L out ((if isInput e = out then [] else turn_log (bus L) (\<not> out)) @ w @ [(gpio_base (bus L) + Reg_OutputUpper, 0)]) e e'"
  shows "in_step L e'"
  using assms transfer_keeps_lines [of "bus L" "isInput e" "logged e" w out]
  by (simp add: in_step_def drives_def)

lemma quadlet_calls_in_step:
  assumes adv: "advancing L tm" and e: "in_step L e"
  shows "\<exists>v e'. ReadQuadlet (traced_linux L) a e = Some (v, e') \<and> in_step L e'"
    "\<exists>e'. WriteQuadlet (traced_linux L) a d e = Some (True, e') \<and> in_step L e'"
proof -
  have m: "mapped (traced_linux L) e" using e by (simp add: in_step_def)
  let ?up = "gpio_base (bus L) + Reg_OutputUpper" and ?low = "gpio_base (bus L) + Reg_OutputLower"
  obtain v e1 where r: "ReadQuadlet (traced_linux L) a e = Some (Some v, e1)"
    "drives L True ((if isInput e then [] else turn_log (bus L) False) @ [(?up, ucast a OR Bits_RequestBus), (?up, 0)]) e e1"
    using read_quadlet_drives [OF adv m] by blast
  have "in_step L e1"
    using r(2) by (intro in_step_transfer [OF e, of "[(?up, ucast a OR Bits_RequestBus)]" True])
      (auto simp: outputs_only_def)
  with r(1) show "\<exists>v e'. ReadQuadlet (traced_linux L) a e = Some (v, e') \<and> in_step L e'" by blast
  obtain e2 where w: "WriteQuadlet (traced_linux L) a d e = Some (True, e2)"
    "drives L False ((if isInput e then turn_log (bus L) True else [])
        @ [(?low, d), (?up, ucast a OR Bits_RegWen OR Bits_RequestBus), (?up, 0)]) e e2"
    using write_quadlet_drives [OF adv m] by blast
  have "in_step L e2"
    using w(2) by (intro in_step_transfer [OF e, of "[(?low, d), (?up, ucast a OR Bits_RegWen OR Bits_RequestBus)]" False])
      (auto simp: outputs_only_def)
  with w(1) show "\<exists>e'. WriteQuadlet (traced_linux L) a d e = Some (True, e') \<and> in_step L e'" by blast
qed

lemma block_logs_outputs:
  "outputs_only (gpio_base P) (block_write_log P a ws n m)" "outputs_only (gpio_base P) (block_read_log P a n m)"
  by (auto simp: outputs_only_def block_write_log_def block_read_log_def list_all_iff)

lemma block_calls_in_step:
  assumes adv: "advancing L tm" and e: "in_step L e"
  shows "\<exists>v e'. ReadBlock (traced_linux L) a n e = Some (v, e') \<and> in_step L e'"
    "\<exists>v e'. WriteBlock (traced_linux L) a ws n e = Some (v, e') \<and> in_step L e'"
proof -
  have m: "mapped (traced_linux L) e" using e by (simp add: in_step_def)
  have low: "version e = 0" if "\<not> 1 \<le> version e" using that by (metis not_le word_less_1)
  show "\<exists>v e'. ReadBlock (traced_linux L) a n e = Some (v, e') \<and> in_step L e'"
  proof (cases "1 \<le> version e")
    case True
    then obtain ds e1 where r: "ReadBlock (traced_linux L) a n e = Some (Some ds, e1)"
      "drives L True ((if isInput e then [] else turn_log (bus L) False)
        @ block_read_log (bus L) a (unat (blk_nQuads n)) (unat (blk_nQuads n))
        @ [(gpio_base (bus L) + Reg_OutputUpper, 0)]) e e1"
      using read_block_drives [OF adv m] by blast
    have "in_step L e1"
      using r(2) by (intro in_step_transfer [where out = True, OF e block_logs_outputs(2) [of "bus L" a "unat (blk_nQuads n)" "unat (blk_nQuads n)"]]) (auto split: if_splits)
    then show ?thesis using r(1) by blast
  qed (simp add: ReadBlock_def low e)
  show "\<exists>v e'. WriteBlock (traced_linux L) a ws n e = Some (v, e') \<and> in_step L e'"
  proof (cases "1 \<le> version e")
    case True
    then obtain e1 where r: "WriteBlock (traced_linux L) a ws n e = Some (True, e1)"
      "drives L False ((if isInput e then turn_log (bus L) True else [])
        @ block_write_log (bus L) a (bswap_32 \<circ> ws) (unat (blk_nQuads n)) (unat (blk_nQuads n))
        @ [(gpio_base (bus L) + Reg_OutputUpper, 0)]) e e1"
      using write_block_drives [OF adv m] by blast
    have "in_step L e1"
      using r(2) by (intro in_step_transfer [where out = False, OF e block_logs_outputs(1) [of "bus L" a "bswap_32 \<circ> ws" "unat (blk_nQuads n)" "unat (blk_nQuads n)"]]) (auto split: if_splits)
    then show ?thesis using r(1) by blast
  qed (auto simp: WriteBlock_def low e)
qed

lemma prom_call_in_step:
  assumes adv: "advancing L tm" and e: "in_step L e"
  shows "\<exists>b e'. WritePromData (WriteQuadlet (traced_linux L)) bs n e = Some (b, e') \<and> in_step L e'"
proof -
  have "\<exists>b e'. WritePromData_loop (WriteQuadlet (traced_linux L)) f bs m k u = Some (b, e') \<and> in_step L e'"
    if "in_step L u" for f m k u
    using that
  proof (induction m arbitrary: k u)
    case (Suc m)
    obtain u' where "WriteQuadlet (traced_linux L) (0x2000 + of_nat k) (f (le32 bs (k * 4))) u = Some (True, u')" "in_step L u'"
      using quadlet_calls_in_step(2) [OF adv Suc.prems] by blast
    with Suc.IH [of u'] show ?case by simp
  qed auto
  then show ?thesis unfolding WritePromData_def Let_def using e by blast
qed

lemma timing_in_step:
  assumes "in_step L e" shows "in_step L (SetTimingMode (clock_gettime (traced_linux L)) k e)"
proof -
  have upd: "in_step L (u\<lparr>timingOverhead := x\<rparr>) = in_step L u" "in_step L (u\<lparr>doTiming := d\<rparr>) = in_step L u" for u x d
    by (simp_all add: in_step_def mapped_def)
  have "in_step L (calibrate (clock_gettime (traced_linux L)) u)" if "in_step L u" for u
    using that by (cases "dev u")
      (simp add: in_step_def mapped_def calibrate_def set_startTime_def set_endTime_def GetCurTime_def Let_def)
  then have "in_step L ((calibrate (clock_gettime (traced_linux L)) ^^ n) u)" if "in_step L u" for n u
    using that by (induction n) auto
  with assms show ?thesis by (simp add: SetTimingMode_def Let_def upd)
qed

lemma mmap_call_in_step:
  assumes "advancing L tm" "in_step L e"
  shows "\<exists>e'. mmap_call (traced_linux L) c e = Some e' \<and> in_step L e'"
  using quadlet_calls_in_step [OF assms] block_calls_in_step [OF assms] prom_call_in_step [OF assms]
    timing_in_step [OF assms(2)] assms(2)
  by (cases c)
    (fastforce simp: mmap_call_def in_step_def mapped_def SetTimeout_us_def SetVerbose_def SetEventMode_def)+

lemma mmap_calls_in_step:
  assumes "advancing L tm" "in_step L e"
  shows "\<exists>e'. mmap_calls (traced_linux L) cs e = Some e' \<and> in_step L e'"
  using assms(2)
proof (induction cs arbitrary: e)
  case (Cons c cs)
  then obtain u where "mmap_call (traced_linux L) c e = Some u" "in_step L u"
    using mmap_call_in_step [OF assms(1)] by blast
  with Cons.IH [of u] show ?case by simp
qed simp

section \<open>The constructor\<close>

lemma init_gpio_in_step:
  assumes "mapped (traced_linux L) e" "init_gpio (traced_linux L) e = Some (True, e')"
  shows "in_step L e'"
proof -
  have base: "mmap_region e = Some (gpio_base (bus L))" using assms(1) by (simp add: mapped_def)
  from assms(2) show ?thesis
    by (cases "dev e") (auto simp: init_gpio_def region_access base bus_simps Let_def in_step_def mapped_def
        lines_ok_def last_word_append regs_distinct [symmetric] split: if_splits)
qed

lemma constructor_in_step:
  assumes base: "gpio_base (bus L) = GPIO_BASE_ADDR" and new: "EMIO_Interface_Mmap (traced_linux L) (h, []) = Some e"
    and ok: "IsOK e"
  shows "in_step L e"
proof -
  have "Init (traced_linux L) (emio_base (h, [])) = Some (True, e)"
    using new ok by (auto simp: EMIO_Interface_Mmap_def bind_eq_Some_conv IsOK_def split: if_splits)
  then have "\<exists>u. mmap_region u = Some GPIO_BASE_ADDR \<and> init_gpio (traced_linux L) u = Some (True, e)"
    unfolding Init_def mmap_init_def Let_def case_prod_beta
    by (auto simp: bind_eq_Some_conv split: if_splits intro!: exI)
  then obtain u where u: "mmap_region u = Some GPIO_BASE_ADDR" "init_gpio (traced_linux L) u = Some (True, e)" by blast
  then show ?thesis by (intro init_gpio_in_step [OF _ u(2)]) (simp add: mapped_def base)
qed

text \<open>C7. Take an object whose constructor succeeded and make any sequence of calls on it: quadlet and
  block transfers in both directions, the serial number write, changes of the timing mode, the
  timeout or the flags. Whatever the firmware answers, and even if it never answers, every call returns,
  the object stays OK, and the registers of the GPIO block are in step with it: the bus is
  released (the last word on the upper outputs is 0, so no request, write or block flag is left set),
  the data lines point the way \<open>isInput\<close> says, they are enabled whenever they are outputs, and the
  direction and enable masks of the control lines are those set up by the constructor. The clock has to
  advance, and the GPIO block to be at the address the driver maps.\<close>

theorem mmap_object_in_step:
  assumes "advancing L tm" "gpio_base (bus L) = GPIO_BASE_ADDR"
    and "EMIO_Interface_Mmap (traced_linux L) (h, []) = Some e0" "IsOK e0"
  shows "\<exists>e. mmap_calls (traced_linux L) cs e0 = Some e \<and> IsOK e
    \<and> last_word (logged e) (GPIO_BASE_ADDR + Reg_OutputUpper) = Some 0
    \<and> last_word (logged e) (GPIO_BASE_ADDR + Reg_DirLower) = Some (if isInput e then 0 else 0xffffffff)
    \<and> (\<not> isInput e \<longrightarrow> last_word (logged e) (GPIO_BASE_ADDR + Reg_OutEnLower) = Some 0xffffffff)
    \<and> last_word (logged e) (GPIO_BASE_ADDR + Reg_DirUpper) = Some EMIO_outputs
    \<and> last_word (logged e) (GPIO_BASE_ADDR + Reg_OutEnUpper) = Some EMIO_outputs"
proof -
  obtain e where "mmap_calls (traced_linux L) cs e0 = Some e" "in_step L e"
    using mmap_calls_in_step [OF assms(1) constructor_in_step [OF assms(2-4)]] by blast
  then show ?thesis by (simp add: in_step_def mapped_def IsOK_def lines_ok_def assms(2))
qed

text \<open>On a board whose firmware never answers, after a write and a read.\<close>

lemma mmap_object_in_step_witness:
  "\<exists>e0 e. EMIO_Interface_Mmap (traced_linux dead_linux) (0, []) = Some e0
    \<and> mmap_calls (traced_linux dead_linux) [CallWriteQuadlet 4 0x55, CallReadQuadlet 4] e0 = Some e
    \<and> last_word (logged e) (GPIO_BASE_ADDR + Reg_OutputUpper) = Some 0"
proof -
  let ?L = "traced_linux dead_linux"
  obtain e0 where e0: "EMIO_Interface_Mmap ?L (0, []) = Some e0" "IsOK e0"
    by (simp add: EMIO_Interface_Mmap_def Init_def mmap_init_def traced_linux_def dead_linux_def
        gpio_clock_def RegisterRead_def RegisterWrite_def init_gpio_def Let_def emio_base_defs IsOK_def bus_simps)
  have "gpio_base (bus dead_linux) = GPIO_BASE_ADDR" by (simp add: dead_linux_def GPIO_BASE_ADDR_def)
  from mmap_object_in_step [OF dead_advancing this e0, of "[CallWriteQuadlet 4 0x55, CallReadQuadlet 4]"] e0(1)
  show ?thesis by blast
qed

end
