(* ===== verification/EmioGpiodTimeout.thy ===== *)
theory EmioGpiodTimeout
  imports EmioGpiodProps EmioMmapTrace
begin

text \<open>
  The libgpiod driver with a firmware that never answers. In contrast to the driver through /dev/mem
  (\<open>quadlets_mmap_never_fail\<close>), it gives up after the timeout, says so, and takes the bus request back.
\<close>

section \<open>The library with a log of the request line\<close>

definition req_logged :: "'h gpiolib \<Rightarrow> ('h \<times> int list) gpiolib" where
  "req_logged G = (lsb_logged G)\<lparr>set_value := (\<lambda>l v (h, t). let r = set_value G l v h
     in (fst r, snd r, if l = req_bus_line then t @ [v] else t))\<rparr>"

abbreviation requests :: "('h \<times> int list) gemio \<Rightarrow> int list" where
  "requests e \<equiv> snd (dev e)"

text \<open>\<open>quiet f\<close>: the operation changes neither the log nor the members the driver branches on.\<close>

definition quiet :: "('h \<times> int list) gemio \<Rightarrow> ('h \<times> int list) gemio \<Rightarrow> bool" where
  "quiet e e' \<longleftrightarrow> requests e' = requests e \<and> info e' = info e \<and> useEvents e' = useEvents e \<and> timeout_us e' = timeout_us e"

lemma quiet_refl [simp]: "quiet e e" and quiet_trans: "quiet e e' \<Longrightarrow> quiet e' e'' \<Longrightarrow> quiet e e''"
  by (simp_all add: quiet_def)

lemma quiet_updates [simp]:
  "quiet e (u\<lparr>isInput := b\<rparr>) = quiet e u" "quiet e (u\<lparr>startTime := t\<rparr>) = quiet e u" "quiet e (u\<lparr>endTime := t\<rparr>) = quiet e u"
  by (simp_all add: quiet_def)

lemma quiet_calls [simp]:
  "quiet e (snd (call (set_value_bulk (req_logged G) ls vs) u)) = quiet e u"
  "quiet e (snd (call (set_direction_output_bulk (req_logged G) ls vs) u)) = quiet e u"
  "quiet e (snd (call (set_direction_input_bulk (req_logged G) ls) u)) = quiet e u"
  "quiet e (snd (call (get_value (req_logged G) l) u)) = quiet e u"
  "quiet e (snd (call (event_wait (req_logged G) l ts) u)) = quiet e u"
  "quiet e (snd (GetCurTime (gclock (req_logged G)) u)) = quiet e u"
  by (auto simp: quiet_def call_def req_logged_def lsb_logged_def lift_log_def GetCurTime_def case_prod_beta Let_def)

lemma quiet_helpers [simp]:
  "quiet e (gstamp (req_logged G) u) = quiet e u" "quiet e (gtime_start (req_logged G) u) = quiet e u"
  "quiet e (gtime_end (req_logged G) u) = quiet e u"
  "quiet e (do_call (set_value_bulk (req_logged G) ls vs) u) = quiet e u"
  by (simp_all add: do_call_def gstamp_def gtime_start_def gtime_end_def set_startTime_def set_endTime_def
      case_prod_beta Let_def)

lemma request_calls:
  "requests (do_call (set_value (req_logged G) req_bus_line v) e) = requests e @ [v]"
  "info (do_call (set_value (req_logged G) req_bus_line v) e) = info e"
  by (simp_all add: do_call_def call_def req_logged_def case_prod_beta Let_def)

lemma requests_simps [simp]:
  "requests (gstamp (req_logged G) e) = requests e" "requests (gtime_start (req_logged G) e) = requests e"
  "requests (do_call (set_value_bulk (req_logged G) ls vs) e) = requests e"
  "requests (snd (data_to_input (req_logged G) e)) = requests e" "requests (snd (put_data (req_logged G) w e)) = requests e"
proof -
  show "requests (gstamp (req_logged G) e) = requests e" "requests (gtime_start (req_logged G) e) = requests e"
    "requests (do_call (set_value_bulk (req_logged G) ls vs) e) = requests e"
    using quiet_helpers(1,2,4) [where e = e and u = e and G = G] quiet_refl [of e] by (auto simp: quiet_def)
  have "quiet e (snd (data_to_input (req_logged G) e))" "quiet e (snd (put_data (req_logged G) w e))"
    by (simp_all add: data_to_input_def put_data_def case_prod_beta Let_def)
  then show "requests (snd (data_to_input (req_logged G) e)) = requests e"
    "requests (snd (put_data (req_logged G) w e)) = requests e"
    by (simp_all only: quiet_def)
qed

section \<open>A firmware that never answers\<close>

definition silent :: "'h gpiolib \<Rightarrow> ('h \<Rightarrow> int) \<Rightarrow> bool" where
  "silent G tm \<longleftrightarrow>
     (\<forall>h. fst (get_value G op_done_line h) \<le> 0 \<and> tm h \<le> tm (snd (get_value G op_done_line h)))
     \<and> (\<forall>ts h. fst (event_wait G op_done_line ts h) \<noteq> 1)
     \<and> (\<forall>h. fst (gclock G h) = \<lparr>tv_sec = tm h div 1000000000, tv_nsec = tm h mod 1000000000\<rparr>
          \<and> tm h < tm (snd (gclock G h)))"

lemma silent_logged:
  assumes "silent G tm"
  shows "fst (call (get_value (req_logged G) op_done_line) e) \<le> 0"
    "fst (call (event_wait (req_logged G) op_done_line ts) e) \<noteq> 1"
    "tm (fst (dev e)) \<le> tm (fst (dev (snd (call (get_value (req_logged G) op_done_line) e))))"
    "fst (GetCurTime (gclock (req_logged G)) e)
      = \<lparr>tv_sec = tm (fst (dev e)) div 1000000000, tv_nsec = tm (fst (dev e)) mod 1000000000\<rparr>"
    "tm (fst (dev e)) < tm (fst (dev (snd (GetCurTime (gclock (req_logged G)) e))))"
  using assms
  by (auto simp: silent_def call_def req_logged_def lsb_logged_def lift_log_def GetCurTime_def case_prod_beta Let_def)

lemma poll_gives_up:
  assumes G: "silent G tm"
  shows "\<lbrakk>val \<le> 0; ws = \<lparr>tv_sec = t0 div 1000000000, tv_nsec = t0 mod 1000000000\<rparr>\<rbrakk>
    \<Longrightarrow> \<exists>v e'. poll_value (req_logged G) ws val dt e = Some (v, e') \<and> v \<le> 0 \<and> quiet e e'"
proof (induction "nat (\<lceil>1000 * timeout_us e\<rceil> + t0 - tm (fst (dev e))) + (if dt < timeout_us e then 1 else 0)"
    arbitrary: val dt e rule: less_induct)
  case less
  let ?G = "req_logged G"
  let ?e1 = "snd (call (get_value ?G op_done_line) e)" and ?v = "fst (call (get_value ?G op_done_line) e)"
  let ?t = "fst (GetCurTime (gclock ?G) ?e1)" and ?e2 = "snd (GetCurTime (gclock ?G) ?e1)"
  note s = silent_logged [OF G]
  have q: "quiet e ?e2" by simp
  then have to: "timeout_us ?e2 = timeout_us e" by (simp add: quiet_def)
  show ?case
  proof (cases "dt < timeout_us e")
    case False
    then show ?thesis using less.prems by (subst poll_value.simps) simp
  next
    case True
    let ?t1 = "tm (fst (dev ?e1))"
    let ?dt = "of_int (?t1 - t0) / 1000 :: rat"
    have step: "poll_value ?G ws val dt e = poll_value ?G ws ?v ?dt ?e2"
      using True less.prems s(4) [of ?e1]
      by (subst poll_value.simps) (simp add: case_prod_beta Let_def TimeDiff_ns)
    have time: "tm (fst (dev e)) < tm (fst (dev ?e2))" "?t1 < tm (fst (dev ?e2))" using s(3) [of e] s(5) [of ?e1] by linarith+
    have "nat (\<lceil>1000 * timeout_us ?e2\<rceil> + t0 - tm (fst (dev ?e2))) + (if ?dt < timeout_us ?e2 then 1 else 0)
      < nat (\<lceil>1000 * timeout_us e\<rceil> + t0 - tm (fst (dev e))) + (if dt < timeout_us e then 1 else 0)"
    proof (cases "?dt < timeout_us e")
      case dt: True
      have "?dt * 1000 < 1000 * timeout_us e" using dt by simp
      then have "?t1 - t0 < \<lceil>1000 * timeout_us e\<rceil>" by (simp add: less_ceiling_iff)
      then have "nat (\<lceil>1000 * timeout_us e\<rceil> + t0 - tm (fst (dev ?e2))) < nat (\<lceil>1000 * timeout_us e\<rceil> + t0 - tm (fst (dev e)))"
        using time s(3) [of e] by linarith
      then show ?thesis unfolding to if_P [OF True] if_P [OF dt] by (rule add_strict_right_mono)
    next
      case False
      then show ?thesis using time True by (simp add: to)
    qed
    then obtain v e' where "poll_value ?G ws ?v ?dt ?e2 = Some (v, e')" "v \<le> 0" "quiet ?e2 e'"
      using less.hyps [of ?e2 ?dt ?v] s(1) less.prems(2) by blast
    then show ?thesis unfolding step using quiet_trans [OF q] by blast
  qed
qed

lemma wait_gives_up:
  assumes G: "silent G tm"
  shows "\<exists>e'. WaitOpDone_gpiod (req_logged G) e = Some (False, e') \<and> quiet e e'"
proof (cases "useEvents e")
  case True
  then show ?thesis
    using silent_logged(2) [OF G] by (simp add: WaitOpDone_gpiod_def case_prod_beta Let_def)
next
  case False
  let ?G = "req_logged G"
  let ?e1 = "snd (call (get_value ?G op_done_line) e)" and ?v = "fst (call (get_value ?G op_done_line) e)"
  let ?t = "fst (GetCurTime (gclock ?G) ?e1)" and ?e2 = "snd (GetCurTime (gclock ?G) ?e1)"
  note s = silent_logged [OF G]
  obtain v e' where p: "poll_value ?G ?t ?v 0 ?e2 = Some (v, e')" "v \<le> 0" "quiet ?e2 e'"
    using poll_gives_up [OF G s(1) s(4)] by blast
  have "quiet e ?e2" by simp
  then have "quiet e e'" using p(3) by (rule quiet_trans)
  moreover have "WaitOpDone_gpiod ?G e = Some (False, e')"
    using False s(1) [of e] p by (simp add: WaitOpDone_gpiod_def case_prod_beta Let_def)
  ultimately show ?thesis by blast
qed

text \<open>C15. A firmware that never answers is noticed by the libgpiod driver: with polling or with events,
  whatever the timeout and however the other calls of the library fare, \<open>ReadQuadlet\<close> and \<open>WriteQuadlet\<close> return
  and report failure, and the bus request is not left standing: either it was never raised (the data
  lines could not be turned), or it was raised once and lowered again.\<close>

theorem gpiod_timeout_reported:
  assumes G: "silent G tm" and i: "info e"
  shows "(\<exists>e'. ReadQuadlet_gpiod (req_logged G) a e = Some (None, e') \<and> requests e' \<in> {requests e, requests e @ [1, 0]})
    \<and> (\<exists>e'. WriteQuadlet_gpiod (req_logged G) a d e = Some (False, e') \<and> requests e' \<in> {requests e, requests e @ [1, 0]})"
proof
  let ?G = "req_logged G"
  have wait: "\<exists>u. WaitOpDone_gpiod ?G e1 = Some (False, u) \<and> requests u = requests e1" for e1
    using wait_gives_up [OF G] by (fastforce simp: quiet_def)
  show "\<exists>e'. ReadQuadlet_gpiod ?G a e = Some (None, e') \<and> requests e' \<in> {requests e, requests e @ [1, 0]}"
  proof (cases "fst (data_to_input ?G (gtime_start ?G e))")
    case True
    define u where "u = gstamp ?G (do_call (set_value ?G req_bus_line 1) (do_call (set_value_bulk ?G ctrl_lines ctrl_zero)
      (do_call (set_value_bulk ?G addr_lines (addr_values a)) (snd (data_to_input ?G (gtime_start ?G e))))))"
    obtain w where "WaitOpDone_gpiod ?G u = Some (False, w)" "requests w = requests u" using wait by blast
    then have "ReadQuadlet_gpiod ?G a e = Some (None, do_call (set_value ?G req_bus_line 0) w)"
      "requests (do_call (set_value ?G req_bus_line 0) w) = requests e @ [1, 0]"
      using True i by (simp_all add: ReadQuadlet_gpiod_def u_def request_calls case_prod_beta Let_def)
    then show ?thesis by blast
  qed (simp add: ReadQuadlet_gpiod_def i case_prod_beta Let_def)
  show "\<exists>e'. WriteQuadlet_gpiod ?G a d e = Some (False, e') \<and> requests e' \<in> {requests e, requests e @ [1, 0]}"
  proof (cases "fst (put_data ?G d (gtime_start ?G e))")
    case True
    define u where "u = gstamp ?G (do_call (set_value ?G req_bus_line 1) (do_call (set_value_bulk ?G ctrl_lines ctrl_qwrite)
      (do_call (set_value_bulk ?G addr_lines (addr_values a)) (snd (put_data ?G d (gtime_start ?G e))))))"
    obtain w where "WaitOpDone_gpiod ?G u = Some (False, w)" "requests w = requests u" using wait by blast
    then have "WriteQuadlet_gpiod ?G a d e = Some (False, release_bus ?G w)"
      "requests (release_bus ?G w) = requests e @ [1, 0]"
      using True i by (simp_all add: WriteQuadlet_gpiod_def u_def release_bus_def request_calls case_prod_beta Let_def)
    then show ?thesis by blast
  qed (simp add: WriteQuadlet_gpiod_def i case_prod_beta Let_def)
qed

text \<open>Lines on which \<open>op_done\<close> stays low; the state is the time in nanoseconds.\<close>

definition silent_lib :: "int gpiolib" where
  "silent_lib = \<lparr>chip_open = Pair True, chip_close = id, chip_get_lines = (\<lambda>ls. Pair 0), chip_get_line = (\<lambda>l. Pair True),
     request_bulk_input = (\<lambda>ls. Pair 0), request_bulk_output = (\<lambda>ls vs. Pair 0), request_output = (\<lambda>l v. Pair 0),
     request_input = (\<lambda>l. Pair 0), request_rising = (\<lambda>l. Pair 0), release_bulk = (\<lambda>ls. id), release_line = (\<lambda>l. id),
     set_direction_input_bulk = (\<lambda>ls. Pair 0), set_direction_output_bulk = (\<lambda>ls vs. Pair 0),
     get_value_bulk = (\<lambda>ls. Pair (0, replicate (length ls) 0)), set_value_bulk = (\<lambda>ls vs. Pair 0),
     get_value = (\<lambda>l t. (0, t + 40)), set_value = (\<lambda>l v. Pair 0), event_wait = (\<lambda>l ts. Pair 0), event_read = (\<lambda>l. Pair 0),
     gclock = (\<lambda>t. (\<lparr>tv_sec = t div 1000000000, tv_nsec = t mod 1000000000\<rparr>, t + 60))\<rparr>"

lemma silent_lib_silent: "silent silent_lib (\<lambda>t. t)"
  by (simp add: silent_def silent_lib_def)

lemma gpiod_timeout_reported_witness:
  "\<exists>e'. WriteQuadlet_gpiod (req_logged silent_lib) 4 0x55 (easy_object True (0, [])) = Some (False, e')
     \<and> requests e' \<in> {[], [1, 0]}"
proof -
  have "info (easy_object True (0 :: int, [] :: int list))" by (simp add: easy_defs)
  from gpiod_timeout_reported [OF silent_lib_silent this, of 4 "0x55"] show ?thesis by (auto simp: easy_defs)
qed

end
