(* ===== verification/DemoBounds.thy ===== *)
theory DemoBounds
  imports DemoProps
begin

text \<open>
  When the command interpreter leaves its arrays: the two inputs that make it do so are the only ones.
\<close>

section \<open>Words of a line\<close>

text \<open>The number of words up to the end of the line that are followed by a space; the flag says that the
  character before was a space.\<close>

fun ended_words :: "bool \<Rightarrow> string \<Rightarrow> nat" where
  "ended_words sp [] = 0"
| "ended_words sp (c # cs) =
     (if c = CR then 0
      else if c = SPC then (if sp then 0 else 1) + ended_words True cs
      else ended_words False cs)"

lemma get_input_loop_args:
  "n \<le> MAX_LINE \<Longrightarrow> get_input_loop cs (argc, n, sp) d = Inl Out_of_bounds \<Longrightarrow> MAX_ARG \<le> argc + ended_words sp cs"
  "n \<le> MAX_LINE \<Longrightarrow> get_input_loop cs (argc, n, sp) d = Inr ((False, argc', n', sp'), d')
    \<Longrightarrow> argc' \<le> argc + ended_words sp cs \<and> n' \<le> MAX_LINE"
proof (induction cs "(argc, n, sp)" d arbitrary: argc n sp rule: get_input_loop.induct)
  case (2 c cs argc n sp d)
  let ?r = "get_input_loop (c # cs) (argc, n, sp) d"
  let ?d = "d\<lparr>stdin := cs, printed := printed d @ [Byte c]\<rparr>"
  {
    case 1
    then show ?case
      using "2.hyps" by (auto simp: Let_def put_char_def split: if_splits option.splits)
  next
    case 2
    then show ?case
      using "2.hyps" by (auto simp: Let_def put_char_def split: if_splits option.splits)
  }
qed simp_all

lemma get_input_out_of_bounds:
  assumes "get_input d = Inl Out_of_bounds" shows "MAX_ARG \<le> ended_words True (stdin d)"
proof (cases "get_input_loop (stdin d) (0, 0, True) d")
  case (Inl e)
  then show ?thesis using assms get_input_loop_args(1) [of 0 "stdin d" 0 True d] by (simp add: get_input_def)
next
  case (Inr r)
  obtain ig argc n sp d' where r: "r = ((ig, argc, n, sp), d')" by (metis prod.collapse)
  then have ig: "\<not> ig" and out: "\<not> (argc < MAX_ARG \<and> n \<le> MAX_LINE)"
    using Inr assms by (auto simp: get_input_def put_char_def Let_def split: if_splits option.splits)
  from ig have "argc \<le> ended_words True (stdin d) \<and> n \<le> MAX_LINE"
    using get_input_loop_args(2) [of 0 "stdin d" 0 True d argc n sp d'] Inr r by simp
  then show ?thesis using out by simp
qed

section \<open>Block accesses\<close>

lemma read_block_length:
  assumes "EMIO_ReadBlock P a nBytes h = Some (Some ds, h')"
  shows "length ds = unat (blk_nQuads nBytes)"
proof -
  let ?n = "uint (blk_nQuads nBytes)"
  obtain x y g h0 h1 where loop: "cfor_opt 0 ?n 1 (ReadBlock_body P ?n) (a, x, [], h0) = Some (y, g, ds, h1)"
    using assms by (auto simp: EMIO_ReadBlock_def Let_def case_prod_beta bind_eq_Some_conv split: if_splits)
  have "length (fst (snd (snd (y, g, ds, h1)))) = nat ?n"
    by (rule cfor_opt_partial [where P = "\<lambda>j (_, _, data, _). length data = nat j \<and> j \<le> ?n", OF loop])
      (auto simp: ReadBlock_body_def Let_def case_prod_beta bind_eq_Some_conv nat_add_distrib)
  then show ?thesis by simp
qed

lemma few_quads:
  assumes "0 \<le> num" "num \<le> int MAX_QUADS" shows "unat (blk_nQuads (of_int num * 4)) \<le> MAX_QUADS"
proof -
  have "unat (of_int num :: word32) = nat num"
    using assms by (simp add: unat_eq_nat_uint uint_word_of_int_eq take_bit_int_eq_self demo_sizes)
  then show ?thesis using assms by (simp add: blk_nQuads_words demo_sizes)
qed

lemma block_command_out_of_bounds:
  assumes run: "block_command P argc d = Inl Out_of_bounds" and argc: "2 < argc"
  shows "sint (get_dec (arg_at (argv d) 2)) < 0"
proof (rule ccontr)
  assume nn: "\<not> sint (get_dec (arg_at (argv d) 2)) < 0"
  define num where "num = min (sint (get_dec (arg_at (argv d) 2))) (int MAX_QUADS)"
  define d1 where "d1 = (if sint (get_dec (arg_at (argv d) 2)) > int MAX_QUADS
    then say ''Too many quadlets (max %d)'' [Num (int MAX_QUADS)] d else d)"
  have n: "0 \<le> num" "num \<le> int MAX_QUADS" using nn by (simp_all add: num_def)
  have eq: "block_command P argc d = (if argc > 3 then block_write P (ucast (get_hex (arg_at (argv d) 1))) num argc d1
      else block_read P (ucast (get_hex (arg_at (argv d) 1))) num d1)"
    by (simp add: block_command_def num_def d1_def Let_def min_def)
  show False
  proof (cases "argc > 3")
    case True
    have "unat (blk_nQuads (of_int (min num (int argc - 3)) * 4)) \<le> MAX_QUADS"
      using n True by (intro few_quads) auto
    then show ?thesis
      using run True unfolding eq
      by (auto simp: block_write_def Let_def case_prod_beta min_def split: if_splits option.splits)
  next
    case False
    then show ?thesis
      using run few_quads [OF n] unfolding eq
      by (auto simp: block_read_def split: option.splits if_splits dest!: read_block_length)
  qed
qed


definition small_demo :: "string \<Rightarrow> 'h \<Rightarrow> 'h demo" where
  "small_demo line h = \<lparr>stdin = line, printed = [], argv = [], quads = [], board = h\<rparr>"

lemma small_words:
  "\<lbrakk>n < MAX_LINE; argc + k = MAX_ARG\<rbrakk>
    \<Longrightarrow> \<exists>n' d'. get_input_loop (concat (replicate k ''a '') @ [CR]) (argc, n, True) d = Inr ((False, MAX_ARG, n', True), d')"
proof (induction k arbitrary: argc n d)
  case (Suc k)
  have "0 < MAX_LINE" by (simp add: MAX_LINE_def)
  then show ?case
    using Suc.prems Suc.IH [of 0 "argc + 1"] by (simp add: put_char_def SPC_def CR_def Let_def)
qed (simp add: CR_def)


end
