(* ===== verification/Spec2Isabelle.thy ===== *)
theory Spec2Isabelle
  imports Drivers Serial DemoProps MenuProps MemtestRunProps Patterns PllProps EyeMem Fpgav3InitProps Fpgav3BlockProps EchoProps
    MemSafeProps EmioMmapCalls EmioGpiodTimeout DemoBounds
begin

text \<open>
  Verification development for the software of mechatronics-embedded: the C and C++ programs that run on
  the ARM processor of the FPGA V3 controller, on the bare machine (src/platform_standalone) and under
  Linux (src/petalinux). The processor talks to the FPGA firmware through 64 EMIO lines; everything else
  the programs do is memory, flash, console and files.

  The parts and how they interact

  \<^item> The EMIO driver (fpgav3_lib_src/fpgav3_emio.c) reads and writes 32-bit registers of the FPGA by
    driving address, data and request lines and waiting for op_done. The demo application, the boot
    loader hooks, the manufacturing test menu and the network test call it.
  \<^item> Under Linux the class EMIO_Interface has two implementations of the same operations, over the
    mapped GPIO registers (/dev/mem) and over libgpiod. fpgav3init, fpgav3block and fpgav3quad call them.
  \<^item> The memory diagnostics (mfg_test_src/memtest.c) test the DDR memory, measure the data eyes of its
    four byte lanes and tune the memory controller; a command loop and a mailbox serve an operator and a
    remote host.
  \<^item> The QSPI flash holds the serial number and the boot image. fpgav3sn and fpgav3init write them under
    Linux, the boot loader copies the serial number to the FPGA.

  The hardware is a type variable. What the code calls but this repository does not contain (register
  accesses, kernel calls, libgpiod, the Xilinx board support package, lwIP, strtoul) are fields of a
  record that every operation takes as its first argument: platform, linux, gpiolib, kern, sys, bsp,
  netstack. What a property needs of them is a named predicate over that record, and a simulation in the
  development satisfies it: emio_device (EmioDevice), linux_device (EmioMmapDevice), gpiod_device
  (EmioGpiodDevice), dram (MemSpec, with DdrSim), eye_device (EyeMem), nor_fd and serial_kernel
  (QspiProps), serial_board (BootProps), init_system (Fpgav3InitProps).

  The theories

  \<^item> Prelude: names of types, C loops (cfor) with their invariant rules, words. Platform: registers,
    coprocessor, and the log of writes (traced). Console: what programs print, why they stop.
  \<^item> Emio: fpgav3_emio.c, function by function. EmioSpec: the wait, the loops of the block
    transfers on firmware that answers each request (responsive). EmioDevice: the locale register_file, the
    interface that clients rely on, its PROM copy lemma, its interpretation for the standalone driver, a
    simulated firmware, and the exact writes of the block transfers.
  \<^item> EmioMmap (fpgav3_emio.cpp, fpgav3_emio.h, fpgav3_emio_mmap.cpp), EmioMmapTrace (waits return, the
    log of the block transfers), EmioMmapDevice (register_file), EmioMmapCalls (any sequence of calls
    leaves the object and the hardware in step).
  \<^item> EmioGpiod (fpgav3_emio_gpiod.cpp), EmioGpiodProps (line values, block writes), EmioGpiodDevice
    (register_file), EmioGpiodTimeout (firmware that does not answer). Drivers: all three drivers, each with
    its own PROM copy (the locale prom_file), refine an array of registers.
  \<^item> Cache, CacheSpec: the cache maintenance of memtest.c and what it covers.
  \<^item> MemState, Memtest, MemtestAll: global variables, the four memory tests, memtest_all, patterns and
    result upload. The error counters are 32-bit words, as a dead lane can make them overflow. MemSpec: the contract of DDR memory behind a cache. March, MarchTests: the locale
    march_test, one proof for all tests, and its four interpretations. MemtestProps, Patterns: a test
    passes on good memory and finds stuck bits; the patterns. DdrSim: a memory that meets the contract.
  \<^item> RegList: bit fields (locale bit_field), register lists, controller settings, drive strength.
    Pll, PllProps: PLL set-up and XADC. Eye, EyeSpec, EyeMem: the eye sweep as a locale (sweep_point),
    interpreted for the write and the read eye. BestEye: the choice of an experiment.
  \<^item> MemtestRun, MemtestRunProps: the command loop as a step function with its reachable states
    (inductive run_reach, through any number of calls of memtest_run: run_init is the start of the program,
    run_enter the entry of a call), and the test server of the mailbox. MemSafe, MemSafeProps: what all of
    memtest.c may write, as a locale (write_policy) over the addresses, with one preservation lemma per
    operation, interpreted for the command loop (above) and for one request of the server (requested).
  \<^item> Demo, DemoProps: the command interpreter of demo_app_src/main.c, from characters typed to registers;
    a store outside a row of argv is Out_of_bounds, and every argument string ends in its row.
    DemoBounds: when it leaves its arrays, and that it never does otherwise.
  \<^item> Boot, BootProps: the hooks of the boot loader (both fsbl_hooks.c files, the QSPI self test; FsblHookFallback is an endless loop). Menu,
    MenuProps: mfg_test_src/menu.c. Echo, EchoProps: the network test.
  \<^item> Qspi, QspiProps: fpgav3_qspi.cpp. Versions: fpgav3_lib.cpp. Tools: fpgav3sn. Fpgav3Init,
    Fpgav3InitProps: the startup program. Fpgav3Block, Fpgav3BlockProps: fpgav3block and fpgav3quad.
    Serial: the serial number from the tool through the flash and the boot loader to the FPGA, and that
    the boot loader and the startup program leave the same registers.

  How the code is translated

  A struct or the global variables of a file are a record, an enum is a datatype, uint32_t is a 32-bit
  word and wraps; an int is an integer where the source keeps it in range, or sint of a word where it
  converts. Errors are values: option or bool where the code returns a flag, a sum where a step can be
  stuck. An access outside an array is None or Out_of_bounds where the code can make one, and the error
  properties exhibit those inputs. double is rat: the timings and voltages are exact.

  A loop with a bound is structural recursion or cfor, with no fuel. A loop that waits for hardware or
  for the operator is partial_function (option), so None means that it does not return; that it
  returns is always part of what is proved (WaitOpDone_exact, poll_loop_returns, TestBoardID_ends,
  my_set_pll_protocol, flash_loop_ok, dhcp_wait_ends). Endless loops are one step function and a
  count of steps or a reachability relation.

  What the properties show

  \<^item> Drivers: replies and final registers are those of an array of registers, for each driver; the
    block transfers produce exactly the documented sequence of writes; the wait returns. Whatever calls
    are made and whatever the firmware does, the mapped driver ends each with the bus released and the
    line directions it remembers; the libgpiod driver reports firmware that is silent.
  \<^item> Memory tests: no false alarm on a good memory and no missed stuck bit, in memtest_all and in the
    server's answer to a remote host; the eye measurements return the first and last working offset; the PLL protocol and what the lock decides; save and
    restore of the controller; the invariant of the settings over all commands. No command writes
    the megabyte that holds the program, and a remote request writes only the range it names.
  \<^item> Flash and serial number: the image is stored, unchanged sectors are not touched, the serial number
    survives programming, boot and display.
  \<^item> Programs: a line typed is what reaches the board; the startup program enables the network and copies
    the serial number whatever the attached board; the network test uses the board's id.
  \<^item> Errors: inputs on which the code leaves its arrays, drops or swaps data or reports success after a
    timeout. They are listed as findings beside the development.

  Not modelled

  Printed messages that carry no result (the memory tests, the Linux drivers, warnings); memory barriers and
  delays, which do nothing in a sequential model; concurrency of interrupt handlers with the main
  program, except where a flag or counter they set is read (TcpFastTmrFlag, dhcp_timoutcntr); the
  IPv6 variant of the network test and code under #if 0; testDefines.h, constants of a template; the
  hardware description, the build system and the Linux image.
\<close>

end
